(* ===== verification/Go_Base.thy ===== *)
theory Go_Base
  imports Complex_Main "HOL-Library.Word" "HOL-Library.Sublist" "HOL-Library.Char_ord"
    "HOL-Library.List_Lexorder" "HOL-Library.Product_Lexorder"
begin

text \<open>
  The prelude of the development: what the Go sources of traffic-monitor use of the Go
  language and of its standard library.
  \<^item> Byte strings (a Go string is a byte sequence, here a \<^typ>\<open>string\<close>) with the
    functions of package \<^verbatim>\<open>strings\<close> the program calls, and decimal printing and parsing of
    integers (\<^verbatim>\<open>strconv\<close>, the \<^verbatim>\<open>%d\<close> verb of \<^verbatim>\<open>fmt\<close>).
  \<^item> Errors as values: sentinel errors, errors of foreign code carrying only a text, and the
    wrapping done by \<^verbatim>\<open>fmt.Errorf\<close> with \<^verbatim>\<open>%w\<close>; \<open>errors_Is\<close> walks the wrapped chain.
  \<^item> Times as nanoseconds since the Unix epoch (all times of the program are UTC), and
    64-bit \<^verbatim>\<open>int\<close> products.
  \<^item> The error and state monad in which every service operation is written, with a small
    Hoare logic: \<open>keeps\<close> for invariants, \<open>triple\<close> for pre- and postconditions.
\<close>

named_theorems keeps_intros \<open>introduction rules for invariants of monadic programs\<close>
named_theorems run_simps \<open>execution equations of the monad\<close>

section \<open>Strings\<close>

text \<open>UTF-8 encodings of the runes that \<^verbatim>\<open>unicode.IsSpace\<close> accepts.\<close>

definition space_runes :: "string list" where
  "space_runes =
     [[CHR 0x09], [CHR 0x0A], [CHR 0x0B], [CHR 0x0C], [CHR 0x0D], [CHR 0x20],
      [CHR 0xC2, CHR 0x85], [CHR 0xC2, CHR 0xA0], [CHR 0xE1, CHR 0x9A, CHR 0x80],
      [CHR 0xE2, CHR 0x80, CHR 0x80], [CHR 0xE2, CHR 0x80, CHR 0x81],
      [CHR 0xE2, CHR 0x80, CHR 0x82], [CHR 0xE2, CHR 0x80, CHR 0x83],
      [CHR 0xE2, CHR 0x80, CHR 0x84], [CHR 0xE2, CHR 0x80, CHR 0x85],
      [CHR 0xE2, CHR 0x80, CHR 0x86], [CHR 0xE2, CHR 0x80, CHR 0x87],
      [CHR 0xE2, CHR 0x80, CHR 0x88], [CHR 0xE2, CHR 0x80, CHR 0x89],
      [CHR 0xE2, CHR 0x80, CHR 0x8A], [CHR 0xE2, CHR 0x80, CHR 0xA8],
      [CHR 0xE2, CHR 0x80, CHR 0xA9], [CHR 0xE2, CHR 0x80, CHR 0xAF],
      [CHR 0xE2, CHR 0x81, CHR 0x9F], [CHR 0xE3, CHR 0x80, CHR 0x80]]"

definition strip_one :: "string list \<Rightarrow> string \<Rightarrow> string option" where
  "strip_one seqs s =
     (case find (\<lambda>x. x \<noteq> [] \<and> prefix x s) seqs of
        None \<Rightarrow> None
      | Some x \<Rightarrow> Some (drop (length x) s))"

lemma strip_one_shorter:
  assumes "strip_one seqs s = Some r"
  shows "length r < length s"
proof -
  from assms obtain x where "find (\<lambda>x. x \<noteq> [] \<and> prefix x s) seqs = Some x"
    and r: "r = drop (length x) s"
    by (auto simp: strip_one_def split: option.splits)
  then have "x \<noteq> []" and "prefix x s"
    by (auto simp: find_Some_iff)
  with r show ?thesis
    by (auto simp: prefix_def)
qed

function trim_with :: "string list \<Rightarrow> string \<Rightarrow> string" where
  "trim_with seqs s =
     (case strip_one seqs s of None \<Rightarrow> s | Some r \<Rightarrow> trim_with seqs r)"
  by pat_completeness auto
termination
  by (relation "measure (\<lambda>(seqs, s). length s)") (auto dest: strip_one_shorter)

declare trim_with.simps [simp del]

definition TrimSpace :: "string \<Rightarrow> string" where
  "TrimSpace s = rev (trim_with (map rev space_runes) (rev (trim_with space_runes s)))"

definition HasPrefix :: "string \<Rightarrow> string \<Rightarrow> bool" where
  "HasPrefix s p = prefix p s"

fun Contains :: "string \<Rightarrow> string \<Rightarrow> bool" where
  "Contains [] sub = (sub = [])"
| "Contains (c # s) sub = (prefix sub (c # s) \<or> Contains s sub)"

text \<open>\<^verbatim>\<open>strings.ReplaceAll\<close>, for a non-empty pattern.\<close>

function ReplaceAll :: "string \<Rightarrow> string \<Rightarrow> string \<Rightarrow> string" where
  "ReplaceAll s old new =
     (if old = [] \<or> s = [] then s
      else if prefix old s then new @ ReplaceAll (drop (length old) s) old new
      else hd s # ReplaceAll (tl s) old new)"
  by pat_completeness auto
termination
  by (relation "measure (\<lambda>(s, old, new). length s)")
    (auto simp: prefix_def length_greater_0_conv[symmetric] simp del: length_greater_0_conv)

declare ReplaceAll.simps [simp del]

text \<open>\<^verbatim>\<open>strings.Split\<close> at a one-byte separator; \<^verbatim>\<open>strings.Join\<close>.\<close>

fun Split :: "string \<Rightarrow> char \<Rightarrow> string list" where
  "Split [] c = [[]]"
| "Split (x # xs) c =
     (if x = c then [] # Split xs c
      else (case Split xs c of [] \<Rightarrow> [[x]] | y # ys \<Rightarrow> (x # y) # ys))"

fun Join :: "string list \<Rightarrow> string \<Rightarrow> string" where
  "Join [] sep = []"
| "Join [x] sep = x"
| "Join (x # y # ys) sep = x @ sep @ Join (y # ys) sep"

text \<open>\<^verbatim>\<open>strings.NewReplacer(...).Replace\<close>: at each position the first pair, in argument order,
  whose (non-empty) pattern matches is replaced, and the search goes on behind the match.\<close>

function Replacer :: "(string \<times> string) list \<Rightarrow> string \<Rightarrow> string" where
  "Replacer pairs s =
     (if s = [] then []
      else case find (\<lambda>(old, _). old \<noteq> [] \<and> prefix old s) pairs of
             Some (old, new) \<Rightarrow> new @ Replacer pairs (drop (length old) s)
           | None \<Rightarrow> hd s # Replacer pairs (tl s))"
  by pat_completeness auto
termination
  by (relation "measure (\<lambda>(pairs, s). length s)")
    (auto simp: find_Some_iff prefix_def length_greater_0_conv[symmetric] simp del: length_greater_0_conv)

declare Replacer.simps [simp del]

text \<open>
  \<^verbatim>\<open>utf8.RuneCountInString\<close> on valid UTF-8 counts the bytes that start a rune, that is the
  bytes outside \<open>0x80\<close> to \<open>0xBF\<close>. The strings it is applied to come out of the JSON
  decoder, which only produces valid UTF-8.
\<close>

definition RuneCount :: "string \<Rightarrow> nat" where
  "RuneCount s = length (filter (\<lambda>c. of_char c < (0x80::nat) \<or> 0xBF < (of_char c::nat)) s)"

subsection \<open>Decimal numbers\<close>

definition digit_char :: "nat \<Rightarrow> char" where
  "digit_char d = char_of (48 + d)"

definition is_digit :: "char \<Rightarrow> bool" where
  "is_digit c \<longleftrightarrow> 48 \<le> (of_char c :: nat) \<and> (of_char c :: nat) \<le> 57"

fun show_nat :: "nat \<Rightarrow> string" where
  "show_nat n = (if n < 10 then [digit_char n] else show_nat (n div 10) @ [digit_char (n mod 10)])"

declare show_nat.simps [simp del]

definition show_int :: "int \<Rightarrow> string" where
  "show_int i = (if i < 0 then CHR ''-'' # show_nat (nat (- i)) else show_nat (nat i))"

definition digits_value :: "string \<Rightarrow> nat" where
  "digits_value s = foldl (\<lambda>acc c. acc * 10 + (of_char c - 48)) 0 s"

text \<open>\<^verbatim>\<open>strconv.ParseUint(s, 10, 64)\<close>.\<close>

definition ParseUint :: "string \<Rightarrow> nat option" where
  "ParseUint s =
     (if s = [] \<or> \<not> list_all is_digit s then None
      else if digits_value s < 2 ^ 64 then Some (digits_value s) else None)"

text \<open>\<^verbatim>\<open>strconv.Atoi\<close> on a 64-bit platform: an optional sign, then digits.\<close>

definition Atoi :: "string \<Rightarrow> int option" where
  "Atoi s =
     (let neg = (s \<noteq> [] \<and> hd s = CHR ''-'');
          body = (if s \<noteq> [] \<and> (hd s = CHR ''-'' \<or> hd s = CHR ''+'') then tl s else s)
      in if body = [] \<or> \<not> list_all is_digit body then None
         else let v = (if neg then - int (digits_value body) else int (digits_value body))
              in if - (2 ^ 63) \<le> v \<and> v < 2 ^ 63 then Some v else None)"

section \<open>Machine integers and time\<close>

text \<open>Go \<^verbatim>\<open>int\<close> is 64 bits wide on the supported platforms: products wrap around.\<close>

definition int64_mul :: "int \<Rightarrow> int \<Rightarrow> int" where
  "int64_mul a b = sint (word_of_int a * word_of_int b :: 64 word)"

definition int64_sub :: "int \<Rightarrow> int \<Rightarrow> int" where
  "int64_sub a b = sint (word_of_int a - word_of_int b :: 64 word)"

text \<open>A \<^verbatim>\<open>time.Time\<close> or \<^verbatim>\<open>time.Duration\<close> in nanoseconds; a float64 as the real number it denotes.\<close>

type_synonym gotime = int
type_synonym float64 = real

definition second_ns :: int where "second_ns = 1000000000"
definition hour_ns :: int where "hour_ns = 3600 * second_ns"
definition day_ns :: int where "day_ns = 24 * hour_ns"

text \<open>The zero \<^verbatim>\<open>time.Time\<close>, January 1 of year 1.\<close>

definition zero_time :: gotime where "zero_time = - 62135596800 * second_ns"

text \<open>\<^verbatim>\<open>t.Unix()\<close>, \<^verbatim>\<open>time.Unix(s, 0)\<close>, \<^verbatim>\<open>t.Truncate(time.Hour)\<close>, midnight of the UTC day of \<open>t\<close>
  (\<^verbatim>\<open>time.Date(t.Year(), t.Month(), t.Day(), 0, 0, 0, 0, time.UTC)\<close>) and \<^verbatim>\<open>t.AddDate(0, 0, d)\<close>.\<close>

definition time_Unix :: "gotime \<Rightarrow> int" where "time_Unix t = t div second_ns"
definition unix_time :: "int \<Rightarrow> gotime" where "unix_time s = s * second_ns"
definition truncate_hour :: "gotime \<Rightarrow> gotime" where "truncate_hour t = t - t mod hour_ns"
definition day_start :: "gotime \<Rightarrow> gotime" where "day_start t = t - t mod day_ns"
definition add_days :: "gotime \<Rightarrow> int \<Rightarrow> gotime" where "add_days t d = t + d * day_ns"

text \<open>\<^verbatim>\<open>time.Date(y, m, d, h, mi, 0, 0, time.UTC)\<close> with Go's normalisation of months, days,
  hours and minutes outside their usual ranges (proleptic Gregorian calendar).\<close>

definition is_leap :: "int \<Rightarrow> bool" where
  "is_leap y \<longleftrightarrow> (4 dvd y \<and> \<not> 100 dvd y) \<or> 400 dvd y"

definition days_before_year :: "int \<Rightarrow> int" where
  "days_before_year y =
     365 * (y - 1970) + ((y - 1) div 4 - 492) - ((y - 1) div 100 - 19) + ((y - 1) div 400 - 4)"

definition days_before_month :: "int \<Rightarrow> int \<Rightarrow> int" where
  "days_before_month y m =
     [0, 31, 59, 90, 120, 151, 181, 212, 243, 273, 304, 334] ! nat m
       + (if is_leap y \<and> 2 \<le> m then 1 else 0)"

definition time_Date :: "int \<Rightarrow> int \<Rightarrow> int \<Rightarrow> int \<Rightarrow> int \<Rightarrow> gotime" where
  "time_Date y m d h mi =
     (let y' = y + (m - 1) div 12; m' = (m - 1) mod 12
      in ((days_before_year y' + days_before_month y' m' + (d - 1)) * 86400 + h * 3600 + mi * 60)
           * second_ns)"

text \<open>The calendar date of a day counted from 1970-01-01 (years start in March in the computation,
  so that the leap day comes last), and \<^verbatim>\<open>t.UTC().Format(time.RFC3339)\<close>.\<close>

definition civil_date :: "int \<Rightarrow> int \<times> int \<times> int" where
  "civil_date day =
     (let z = day + 719468; era = z div 146097; doe = z mod 146097;
          yoe = (doe - doe div 1460 + doe div 36524 - doe div 146096) div 365;
          doy = doe - (365 * yoe + yoe div 4 - yoe div 100);
          mp = (5 * doy + 2) div 153;
          m = (if mp < 10 then mp + 3 else mp - 9)
      in (yoe + era * 400 + (if m \<le> 2 then 1 else 0), m, doy - (153 * mp + 2) div 5 + 1))"

definition pad_int :: "nat \<Rightarrow> int \<Rightarrow> string" where
  "pad_int width i =
     (let ds = show_nat (nat \<bar>i\<bar>)
      in (if i < 0 then ''-'' else []) @ replicate (width - length ds) (CHR ''0'') @ ds)"

definition format_RFC3339 :: "gotime \<Rightarrow> string" where
  "format_RFC3339 t =
     (let s = t div second_ns; (y, m, d) = civil_date (s div 86400); r = s mod 86400
      in pad_int 4 y @ ''-'' @ pad_int 2 m @ ''-'' @ pad_int 2 d @ ''T'' @ pad_int 2 (r div 3600) @ '':''
         @ pad_int 2 (r mod 3600 div 60) @ '':'' @ pad_int 2 (r mod 60) @ ''Z'')"

text \<open>The verb \<^verbatim>\<open>%.3f\<close>: the exact value rounded to three decimals, halves to even.\<close>

definition round_half_even :: "real \<Rightarrow> int" where
  "round_half_even x =
     (let n = \<lfloor>x\<rfloor>; f = x - of_int n
      in if f < 1 / 2 then n else if f > 1 / 2 then n + 1 else if even n then n else n + 1)"

definition format_fixed3 :: "real \<Rightarrow> string" where
  "format_fixed3 x =
     (let n = round_half_even (\<bar>x\<bar> * 1000)
      in (if x < 0 then ''-'' else []) @ show_int (n div 1000) @ ''.'' @ pad_int 3 (n mod 1000))"

text \<open>\<^verbatim>\<open>math.Round\<close>: to the nearest integer, halves away from zero.\<close>

definition math_Round :: "real \<Rightarrow> real" where
  "math_Round x = (if 0 \<le> x then of_int \<lfloor>x + 1 / 2\<rfloor> else - of_int \<lfloor>1 / 2 - x\<rfloor>)"

section \<open>Lemmas on strings and numbers\<close>

subsection \<open>Trimming\<close>

lemma strip_one_None_iff:
  "strip_one seqs s = None \<longleftrightarrow> (\<forall>x\<in>set seqs. x \<noteq> [] \<longrightarrow> \<not> prefix x s)"
  by (auto simp: strip_one_def find_None_iff find_Some_iff split: option.splits)

lemma strip_one_suffix: "strip_one seqs s = Some r \<Longrightarrow> suffix r s"
  by (auto simp: strip_one_def suffix_drop split: option.splits)

lemma trim_with_stops: "strip_one seqs (trim_with seqs s) = None"
  by (induction seqs s rule: trim_with.induct)
    (subst trim_with.simps, simp split: option.splits)

lemma trim_with_suffix: "suffix (trim_with seqs s) s"
proof (induction seqs s rule: trim_with.induct)
  case (1 seqs s)
  then show ?case
    by (subst trim_with.simps)
      (auto split: option.splits dest: strip_one_suffix intro: suffix_order.trans)
qed

lemma trim_with_id: "strip_one seqs s = None \<Longrightarrow> trim_with seqs s = s"
  by (subst trim_with.simps) simp

lemma strip_one_None_prefix:
  "strip_one seqs s = None \<Longrightarrow> prefix p s \<Longrightarrow> strip_one seqs p = None"
  by (auto simp: strip_one_None_iff intro: prefix_order.trans)

text \<open>Trimming twice is trimming once: no white space is left at either end.\<close>

lemma TrimSpace_idem [simp]: "TrimSpace (TrimSpace s) = TrimSpace s"
proof -
  let ?l = "trim_with space_runes s"
  let ?r = "trim_with (map rev space_runes) (rev ?l)"
  have "suffix ?r (rev ?l)"
    by (rule trim_with_suffix)
  then have "prefix (rev ?r) ?l"
    by (simp add: suffix_to_prefix)
  then have "strip_one space_runes (rev ?r) = None"
    using trim_with_stops strip_one_None_prefix by blast
  then have "trim_with space_runes (rev ?r) = rev ?r"
    by (rule trim_with_id)
  moreover have "trim_with (map rev space_runes) ?r = ?r"
    by (rule trim_with_id, rule trim_with_stops)
  ultimately show ?thesis
    by (simp add: TrimSpace_def)
qed

lemma TrimSpace_Nil [simp]: "TrimSpace [] = []"
  by (simp add: TrimSpace_def trim_with_id strip_one_None_iff)

subsection \<open>Substrings\<close>

lemma Contains_iff: "Contains s sub \<longleftrightarrow> (\<exists>a b. s = a @ sub @ b)"
proof (induction s)
  case Nil
  then show ?case by auto
next
  case (Cons c s)
  have "(\<exists>a b. c # s = a @ sub @ b) \<longleftrightarrow> prefix sub (c # s) \<or> (\<exists>a b. s = a @ sub @ b)"
    by (auto simp: prefix_def Cons_eq_append_conv)
  with Cons show ?case by simp
qed

lemma Contains_append1: "Contains s sub \<Longrightarrow> Contains (s @ t) sub"
  by (auto simp: Contains_iff) (metis append.assoc)

lemma Contains_append2: "Contains t sub \<Longrightarrow> Contains (s @ t) sub"
  by (auto simp: Contains_iff) (metis append.assoc)

text \<open>A separator that occurs in neither left part splits a string uniquely.\<close>

lemma split_at_sep:
  assumes "a @ c # b = a' @ c # b'" and "c \<notin> set a" and "c \<notin> set a'"
  shows "a = a' \<and> b = b'"
  using assms
proof (induction a arbitrary: a')
  case Nil
  then show ?case by (cases a') auto
next
  case (Cons x a)
  then show ?case by (cases a') auto
qed

subsection \<open>Printed numbers\<close>

lemma digit_char_code: "d < 10 \<Longrightarrow> of_char (digit_char d) = (48 + d :: nat)"
  by (simp add: digit_char_def)

lemma is_digit_digit_char: "d < 10 \<Longrightarrow> is_digit (digit_char d)"
  by (simp add: is_digit_def digit_char_code)

lemma digits_value_snoc:
  "digits_value (s @ [c]) = digits_value s * 10 + (of_char c - 48)"
  by (simp add: digits_value_def)

lemma digits_value_show_nat [simp]: "digits_value (show_nat n) = n"
proof (induction n rule: show_nat.induct)
  case (1 n)
  show ?case
  proof (cases "n < 10")
    case True
    then show ?thesis
      by (simp add: show_nat.simps [of n] digits_value_def digit_char_code)
  next
    case False
    with 1 show ?thesis
      by (simp add: show_nat.simps [of n] digits_value_snoc digit_char_code)
  qed
qed

lemma show_nat_digits: "list_all is_digit (show_nat n)"
proof (induction n rule: show_nat.induct)
  case (1 n)
  then show ?case
    by (subst show_nat.simps) (auto simp: is_digit_digit_char)
qed

lemma show_nat_nonempty [simp]: "show_nat n \<noteq> []"
  by (subst show_nat.simps) simp

lemma show_nat_inj [simp]: "show_nat m = show_nat n \<longleftrightarrow> m = n"
  by (metis digits_value_show_nat)

lemma show_nat_not_minus: "CHR ''-'' \<notin> set (show_nat n)"
  using show_nat_digits [of n] by (auto simp: list_all_iff is_digit_def)

lemma show_nat_no_colon: "CHR '':'' \<notin> set (show_nat n)"
  using show_nat_digits [of n] by (auto simp: list_all_iff is_digit_def)

lemma show_int_inj [simp]: "show_int i = show_int j \<longleftrightarrow> i = j"
proof
  assume eq: "show_int i = show_int j"
  have "\<not> (show_nat k = CHR ''-'' # t)" for k t
    using show_nat_not_minus [of k] by auto
  with eq show "i = j"
    by (auto simp: show_int_def split: if_splits) metis+
qed simp

text \<open>Reading back a printed 64-bit number.\<close>

lemma ParseUint_show_nat: "n < 2 ^ 64 \<Longrightarrow> ParseUint (show_nat n) = Some n"
  by (simp add: ParseUint_def show_nat_digits)

subsection \<open>64-bit products\<close>

lemma sint_word_of_int_64:
  "- (2 ^ 63) \<le> a \<Longrightarrow> a < 2 ^ 63 \<Longrightarrow> sint (word_of_int a :: 64 word) = a"
  by (simp add: sint_sbintrunc' signed_take_bit_int_eq_self)

lemma int64_mul_exact:
  "- (2 ^ 63) \<le> a * b \<Longrightarrow> a * b < 2 ^ 63 \<Longrightarrow> int64_mul a b = a * b"
  unfolding int64_mul_def
  by (metis sint_word_of_int_64 of_int_mult)

lemma int64_sub_exact:
  "- (2 ^ 63) \<le> a - b \<Longrightarrow> a - b < 2 ^ 63 \<Longrightarrow> int64_sub a b = a - b"
  unfolding int64_sub_def
  by (metis sint_word_of_int_64 of_int_diff)

subsection \<open>Rounding\<close>

lemma math_Round_mono:
  assumes "x \<le> y"
  shows "math_Round x \<le> math_Round y"
proof -
  consider "0 \<le> x" | "y < 0" | "x < 0" "0 \<le> y" by linarith
  then show ?thesis
  proof cases
    case 1
    with assms floor_mono [of "x + 1/2" "y + 1/2"] show ?thesis
      by (simp add: math_Round_def)
  next
    case 2
    with assms floor_mono [of "1/2 - y" "1/2 - x"] show ?thesis
      by (simp add: math_Round_def)
  next
    case 3
    then have "0 \<le> \<lfloor>1 / 2 - x\<rfloor>" and "0 \<le> \<lfloor>y + 1 / 2\<rfloor>" by simp_all
    then have "- real_of_int \<lfloor>1 / 2 - x\<rfloor> \<le> 0" and "0 \<le> real_of_int \<lfloor>y + 1 / 2\<rfloor>" by simp_all
    then have "- real_of_int \<lfloor>1 / 2 - x\<rfloor> \<le> real_of_int \<lfloor>y + 1 / 2\<rfloor>" by linarith
    with 3 show ?thesis
      by (simp add: math_Round_def)
  qed
qed

lemma math_Round_error: "\<bar>math_Round x - x\<bar> \<le> 1 / 2"
proof (cases "0 \<le> x")
  case True
  then have "math_Round x = of_int \<lfloor>x + 1 / 2\<rfloor>" by (simp add: math_Round_def)
  then show ?thesis by linarith
next
  case False
  then have "math_Round x = - of_int \<lfloor>1 / 2 - x\<rfloor>" by (simp add: math_Round_def)
  then show ?thesis by linarith
qed

end
