(* ===== verification/Model.thy ===== *)
theory Model
  imports Go_Base
begin

text \<open>
  The data of the program: the database entities of \<^verbatim>\<open>internal/model\<close>, the vnstat payload of
  \<^verbatim>\<open>traffic_collection_service.go\<close>, the notification channel configurations of
  \<^verbatim>\<open>alert_service.go\<close>, and the values exchanged with foreign packages (JSON values, parsed
  URLs, HTTP requests). One record per struct, with the struct's fields in order; the fields
  of the embedded \<^verbatim>\<open>model.Base\<close> (\<open>ID\<close>, \<open>CreatedAt\<close>, \<open>UpdatedAt\<close>) come first. A field name
  carries a prefix for its record, since Isabelle selectors are global. Go \<^verbatim>\<open>uint\<close>
  identifiers are naturals (no arithmetic is done on them), Go \<^verbatim>\<open>int\<close> values are integers.
\<close>

section \<open>Database entities\<close>

record Admin =
  adm_ID :: nat
  adm_CreatedAt :: gotime
  adm_UpdatedAt :: gotime
  adm_Username :: string
  adm_PasswordHash :: string

record Alert =
  al_ID :: nat
  al_CreatedAt :: gotime
  al_UpdatedAt :: gotime
  al_MachineID :: nat
  al_PeriodType :: string
  al_MetricType :: string
  al_BucketTime :: gotime
  al_ThresholdMB :: float64
  al_ActualMB :: float64
  al_AlertKey :: string
  al_NotifyStatus :: string

record NotificationChannel =
  ch_ID :: nat
  ch_CreatedAt :: gotime
  ch_UpdatedAt :: gotime
  ch_ChannelType :: string
  ch_Enabled :: bool
  ch_ConfigJSON :: string

record NotificationProxy =
  px_ID :: nat
  px_CreatedAt :: gotime
  px_UpdatedAt :: gotime
  px_Name :: string
  px_ProxyType :: string
  px_URL :: string

record NotificationDelivery =
  dl_ID :: nat
  dl_CreatedAt :: gotime
  dl_UpdatedAt :: gotime
  dl_AlertID :: nat
  dl_ChannelType :: string
  dl_Success :: bool
  dl_ResponseExcerpt :: string
  dl_ErrorMessage :: string

record AppSetting =
  st_SettingKey :: string
  st_SettingValue :: string
  st_CreatedAt :: gotime
  st_UpdatedAt :: gotime

record Machine =
  mc_ID :: nat
  mc_CreatedAt :: gotime
  mc_UpdatedAt :: gotime
  mc_Name :: string
  mc_Host :: string
  mc_Port :: int
  mc_SSHUser :: string
  mc_NetworkInterface :: string
  mc_SSHKeyID :: nat
  mc_CollectEnabled :: bool
  mc_Remark :: string

record SSHKey =
  sk_ID :: nat
  sk_CreatedAt :: gotime
  sk_UpdatedAt :: gotime
  sk_Name :: string
  sk_SourceType :: string
  sk_KeyType :: string
  sk_PublicKey :: string
  sk_PrivateKeyCiphertext :: string
  sk_Fingerprint :: string

record GlobalThresholdRule =
  gr_ID :: nat
  gr_CreatedAt :: gotime
  gr_UpdatedAt :: gotime
  gr_PeriodType :: string
  gr_MetricType :: string
  gr_ThresholdMB :: float64
  gr_Enabled :: bool

record MachineThresholdRule =
  mr_ID :: nat
  mr_CreatedAt :: gotime
  mr_UpdatedAt :: gotime
  mr_MachineID :: nat
  mr_PeriodType :: string
  mr_MetricType :: string
  mr_ThresholdMB :: float64
  mr_Enabled :: bool

record TrafficSample =
  ts_ID :: nat
  ts_CreatedAt :: gotime
  ts_UpdatedAt :: gotime
  ts_MachineID :: nat
  ts_PeriodType :: string
  ts_BucketTime :: gotime
  ts_UploadMB :: float64
  ts_DownloadMB :: float64
  ts_TotalMB :: float64
  ts_RawPayload :: string
  ts_CollectedAt :: gotime

section \<open>The vnstat payload\<close>

record vnstatDate =
  vd_Year :: int
  vd_Month :: int
  vd_Day :: int

record vnstatTime =
  vt_Hour :: int
  vt_Minute :: int

record vnstatEntry =
  ve_Date :: vnstatDate
  ve_Time :: vnstatTime
  ve_Timestamp :: int
  ve_RX :: float64
  ve_TX :: float64

record vnstatTraffic =
  vf_Hours :: "vnstatEntry list"
  vf_Hour :: "vnstatEntry list"
  vf_Days :: "vnstatEntry list"
  vf_Day :: "vnstatEntry list"

record vnstatInterface =
  vi_Name :: string
  vi_Traffic :: vnstatTraffic

record vnstatResponse =
  vr_Interfaces :: "vnstatInterface list"

section \<open>Notification channel configurations\<close>

text \<open>A Go map is an association list; a nil map and an empty one are both \<open>[]\<close> (the program
  never tells them apart), and the list order stands for the unspecified iteration order.\<close>

record webhookChannelConfig =
  wc_URL :: string
  wc_Method :: string
  wc_Headers :: "(string \<times> string) list"
  wc_Body :: string
  wc_ProxyID :: "nat option"

record telegramChannelConfig =
  tc_BotToken :: string
  tc_ChatID :: string
  tc_Message :: string
  tc_ProxyID :: "nat option"

section \<open>Values of foreign packages\<close>

text \<open>JSON values with numbers kept as literals (\<^verbatim>\<open>json.Number\<close>).\<close>

datatype json = JNull | JBool bool | JNum string | JStr string
  | JArr "json list" | JObj "(string \<times> json) list"

text \<open>The dynamic values put into the template data and the payload maps of \<^verbatim>\<open>alert_service.go\<close>.\<close>

datatype tval = TUint nat | TStr string | TTime gotime | TFloat float64
  | TMap "(string \<times> string) list"

text \<open>A parsed \<^verbatim>\<open>url.URL\<close>: scheme, user (name, optional password), host name, and the remaining parts.\<close>

record URL =
  url_Scheme :: string
  url_User :: "(string \<times> string option) option"
  url_Hostname :: string
  url_Rest :: string

record http_request =
  hr_Method :: string
  hr_URL :: string
  hr_Header :: "(string \<times> string) list"
  hr_Body :: string

text \<open>A response: its status, the bytes its body delivers and the error reading them ends with.\<close>

record http_response =
  hs_StatusCode :: int
  hs_Body :: string
  hs_ReadErr :: "string option"

text \<open>The client a request is sent with: the service's own one, or one through a proxy of the
  given kind.\<close>

datatype http_client = DefaultClient | HTTPProxyClient URL | SocksProxyClient URL

record SSHExecutionResult =
  sx_Stdout :: string
  sx_Stderr :: string

text \<open>The public half of a parsed private key (\<^verbatim>\<open>ssh.Signer.PublicKey\<close>).\<close>

record ssh_public_key =
  pk_Type :: string
  pk_Authorized :: string
  pk_Fingerprint :: string

text \<open>The preview of a rendered webhook request and the answer of the webhook test.\<close>

record webhookPreview =
  wp_Method :: string
  wp_URL :: string
  wp_Headers :: "(string \<times> string) list"
  wp_Body :: string

record TestWebhookChannelResp =
  tw_StatusCode :: int
  tw_Body :: string
  tw_RenderedURL :: string
  tw_RenderedHeaders :: "(string \<times> string) list"
  tw_RenderedBody :: string

end
