(* ===== verification/Runtime.thy ===== *)
theory Runtime
  imports Model
begin

text \<open>
  What every operation of the program runs in.
  \<^item> \<open>go_error\<close>: error values. A sentinel is one of the package-level \<^verbatim>\<open>Err...\<close> variables (and
    \<^verbatim>\<open>gorm.ErrRecordNotFound\<close>), \<open>Foreign\<close> an error of code outside the repository, of which
    only the text is known, \<open>Wrapf pre e post\<close> is \<^verbatim>\<open>fmt.Errorf("pre%wpost", e)\<close>.
  \<^item> \<open>env\<close>: the code outside the repository, as parameters: the database's failures, the clock,
    float64 rounding, JSON, templates, URLs, HTTP, SSH, randomness, ciphers, password hashing.
    Every call that can answer differently each time takes the number of the external call,
    so a theorem for every \<open>env\<close> covers every sequence of answers.
    \<open>tie_rank\<close> is the order in which a statement returns rows its \<^verbatim>\<open>ORDER BY\<close> does not
    distinguish.
  \<^item> \<open>world\<close>: the database tables, the identifier sequences, the log of sent HTTP requests and
    SSH commands, and \<open>tick\<close>, the number of external calls made so far.
  \<^item> The monad: a computation returns an error or a value, and always a new world (a Go
    function that fails keeps the effects it already had).
  Logging is not modelled: no operation reads what was logged.
\<close>

section \<open>Errors\<close>

datatype sentinel =
    ErrRecordNotFound
  | ErrInvalidNotificationChannel | ErrInvalidNotificationProxy | ErrNotificationProxyNotFound
  | ErrInvalidBackupRequest | ErrInvalidBackupPayload | ErrBackupDecryptFailed
  | ErrBackupSSHKeyDecryptFail
  | ErrInvalidThresholdRule
  | ErrVNStatParseFailed | ErrVNStatInterfaceMissing
  | ErrInvalidHistoryCleanupRequest
  | ErrMachineNotFound | ErrSSHKeyNotFound | ErrInvalidMachineConfig | ErrVNStatUnavailable
  | ErrSSHKeyDecryptFailed
  | ErrInvalidCredentials | ErrAdminNotFound | ErrPasswordTooShort
  | ErrDuplicateSSHKeyFingerprint | ErrSSHKeyInUse

fun sentinel_text :: "sentinel \<Rightarrow> string" where
  "sentinel_text ErrRecordNotFound = ''record not found''"
| "sentinel_text ErrInvalidNotificationChannel = ''invalid notification channel''"
| "sentinel_text ErrInvalidNotificationProxy = ''invalid notification proxy''"
| "sentinel_text ErrNotificationProxyNotFound = ''notification proxy not found''"
| "sentinel_text ErrInvalidBackupRequest = ''invalid backup request''"
| "sentinel_text ErrInvalidBackupPayload = ''invalid backup payload''"
| "sentinel_text ErrBackupDecryptFailed = ''backup decrypt failed''"
| "sentinel_text ErrBackupSSHKeyDecryptFail = ''backup ssh key decrypt failed''"
| "sentinel_text ErrInvalidThresholdRule = ''invalid threshold rule''"
| "sentinel_text ErrVNStatParseFailed = ''vnstat parse failed''"
| "sentinel_text ErrVNStatInterfaceMissing = ''vnstat interface missing''"
| "sentinel_text ErrInvalidHistoryCleanupRequest = ''invalid history cleanup request''"
| "sentinel_text ErrMachineNotFound = ''machine not found''"
| "sentinel_text ErrSSHKeyNotFound = ''ssh key not found''"
| "sentinel_text ErrInvalidMachineConfig = ''invalid machine config''"
| "sentinel_text ErrVNStatUnavailable = ''vnstat unavailable''"
| "sentinel_text ErrSSHKeyDecryptFailed = ''ssh key decrypt failed''"
| "sentinel_text ErrInvalidCredentials = ''invalid credentials''"
| "sentinel_text ErrAdminNotFound = ''admin not found''"
| "sentinel_text ErrPasswordTooShort = ''password too short''"
| "sentinel_text ErrDuplicateSSHKeyFingerprint = ''duplicate ssh key fingerprint''"
| "sentinel_text ErrSSHKeyInUse = ''ssh key is still referenced by machines''"

datatype go_error = Sentinel sentinel | Foreign string | Wrapf string go_error string

text \<open>\<^verbatim>\<open>err.Error()\<close> and \<^verbatim>\<open>errors.Is(err, sentinel)\<close>.\<close>

fun error_text :: "go_error \<Rightarrow> string" where
  "error_text (Sentinel e) = sentinel_text e"
| "error_text (Foreign s) = s"
| "error_text (Wrapf pre e post) = pre @ error_text e @ post"

fun errors_Is :: "go_error \<Rightarrow> sentinel \<Rightarrow> bool" where
  "errors_Is (Sentinel e) s = (e = s)"
| "errors_Is (Foreign t) s = False"
| "errors_Is (Wrapf pre e post) s = errors_Is e s"

section \<open>Foreign code and the state it acts on\<close>

text \<open>What a remote command ends with: the context ran out, or output and an optional error.\<close>

datatype ssh_outcome = SSHContextDone string | SSHDone string "string option"

record env =
  db_fault :: "nat \<Rightarrow> string option"
  tie_rank :: "nat \<Rightarrow> nat \<Rightarrow> nat"
  clk :: "nat \<Rightarrow> gotime"
  fl :: "real \<Rightarrow> float64"
  uni_lower :: "string \<Rightarrow> string"
  uni_upper :: "string \<Rightarrow> string"
  json_vnstat :: "string \<Rightarrow> string + vnstatResponse"
  webhook_encode :: "webhookChannelConfig \<Rightarrow> string"
  webhook_decode :: "string \<Rightarrow> webhookChannelConfig \<times> string option"
  telegram_encode :: "telegramChannelConfig \<Rightarrow> string"
  telegram_decode :: "string \<Rightarrow> telegramChannelConfig \<times> string option"
  json_object :: "string \<Rightarrow> json option"
  json_print :: "json \<Rightarrow> string"
  marshal_map :: "(string \<times> tval) list \<Rightarrow> string + string"
  preview_decode :: "string \<Rightarrow> string + webhookPreview"
  test_webhook_encode :: "TestWebhookChannelResp \<Rightarrow> string"
  template_run :: "string \<Rightarrow> (string \<times> tval) list \<Rightarrow> string + string"
  url_Parse :: "string \<Rightarrow> URL option"
  url_String :: "URL \<Rightarrow> string"
  xproxy_ok :: "URL \<Rightarrow> bool"
  new_request :: "string \<Rightarrow> string \<Rightarrow> string option"
  http_Do :: "nat \<Rightarrow> http_client \<Rightarrow> http_request \<Rightarrow> string + http_response"
  ssh_ParsePrivateKey :: "string \<Rightarrow> string + ssh_public_key"
  tcp_dial :: "nat \<Rightarrow> string \<Rightarrow> string option"
  ssh_client_conn :: "nat \<Rightarrow> string \<Rightarrow> string \<Rightarrow> string option"
  ssh_session :: "nat \<Rightarrow> string option"
  ssh_output :: "nat \<Rightarrow> string \<Rightarrow> ssh_outcome"
  rand_bytes :: "nat \<Rightarrow> nat \<Rightarrow> string + string"
  ed25519_key :: "nat \<Rightarrow> string + string \<times> ssh_public_key"
  gcm_seal :: "string \<Rightarrow> string \<Rightarrow> string \<Rightarrow> string"
  gcm_open :: "string \<Rightarrow> string \<Rightarrow> string \<Rightarrow> string option"
  pbkdf2_key :: "string \<Rightarrow> string \<Rightarrow> nat \<Rightarrow> nat \<Rightarrow> string"
  bcrypt_hash :: "nat \<Rightarrow> string \<Rightarrow> string + string"
  bcrypt_match :: "string \<Rightarrow> string \<Rightarrow> bool"

datatype table = TAdmins | TAlerts | TChannels | TProxies | TDeliveries | TMachines | TSSHKeys
  | TGlobalRules | TMachineRules | TSamples

record world =
  tick :: nat
  seqs :: "table \<Rightarrow> nat"
  admins :: "Admin list"
  alerts :: "Alert list"
  channels :: "NotificationChannel list"
  proxies :: "NotificationProxy list"
  deliveries :: "NotificationDelivery list"
  settings :: "AppSetting list"
  machines :: "Machine list"
  ssh_keys :: "SSHKey list"
  global_rules :: "GlobalThresholdRule list"
  machine_rules :: "MachineThresholdRule list"
  samples :: "TrafficSample list"
  outbox :: "(http_client \<times> http_request) list"
  ssh_log :: "(string \<times> int \<times> string \<times> string) list"

section \<open>The monad\<close>

type_synonym 'a io = "world \<Rightarrow> (go_error + 'a) \<times> world"

definition ret :: "'a \<Rightarrow> 'a io" where
  "ret x = (\<lambda>w. (Inr x, w))"

definition fail :: "go_error \<Rightarrow> 'a io" where
  "fail e = (\<lambda>w. (Inl e, w))"

definition bnd :: "'a io \<Rightarrow> ('a \<Rightarrow> 'b io) \<Rightarrow> 'b io" where
  "bnd m f = (\<lambda>w. case m w of (Inl e, w') \<Rightarrow> (Inl e, w') | (Inr x, w') \<Rightarrow> f x w')"

text \<open>\<open>attempt m h k\<close>: run \<open>m\<close>; if it fails continue with \<open>h\<close> (the body of \<^verbatim>\<open>if err != nil\<close>),
  otherwise with \<open>k\<close>.\<close>

definition attempt :: "'a io \<Rightarrow> (go_error \<Rightarrow> 'b io) \<Rightarrow> ('a \<Rightarrow> 'b io) \<Rightarrow> 'b io" where
  "attempt m h k = (\<lambda>w. case m w of (Inl e, w') \<Rightarrow> h e w' | (Inr x, w') \<Rightarrow> k x w')"

text \<open>\<^verbatim>\<open>if err != nil { return fmt.Errorf("msg%w", err) }\<close>\<close>

definition wrap :: "string \<Rightarrow> 'a io \<Rightarrow> 'a io" where
  "wrap msg m = attempt m (\<lambda>e. fail (Wrapf msg e [])) ret"

definition gets :: "(world \<Rightarrow> 'a) \<Rightarrow> 'a io" where
  "gets f = (\<lambda>w. (Inr (f w), w))"

definition modify :: "(world \<Rightarrow> world) \<Rightarrow> unit io" where
  "modify f = (\<lambda>w. (Inr (), f w))"

text \<open>One external call: \<open>f\<close> gets the call's number, and the counter moves on.\<close>

definition external :: "(nat \<Rightarrow> 'a) \<Rightarrow> 'a io" where
  "external f = (\<lambda>w. (Inr (f (tick w)), w\<lparr>tick := Suc (tick w)\<rparr>))"

definition lift_sum :: "go_error + 'a \<Rightarrow> 'a io" where
  "lift_sum r = (\<lambda>w. (r, w))"

fun for_each :: "'a list \<Rightarrow> ('a \<Rightarrow> unit io) \<Rightarrow> unit io" where
  "for_each [] f = ret ()"
| "for_each (x # xs) f = bnd (f x) (\<lambda>_. for_each xs f)"

text \<open>The outcome of a call as a value, for a caller that goes on after an error.\<close>

definition catching :: "'a io \<Rightarrow> (go_error + 'a) io" where
  "catching m = (\<lambda>w. case m w of (r, w') \<Rightarrow> (Inr r, w'))"

fun map_each :: "'a list \<Rightarrow> ('a \<Rightarrow> 'b io) \<Rightarrow> 'b list io" where
  "map_each [] f = ret []"
| "map_each (x # xs) f = bnd (f x) (\<lambda>y. bnd (map_each xs f) (\<lambda>ys. ret (y # ys)))"

text \<open>\<^verbatim>\<open>time.Now()\<close>.\<close>

definition time_Now :: "env \<Rightarrow> gotime io" where
  "time_Now E = external (clk E)"

text \<open>One SQL statement: it fails as the environment says and then changes nothing, or it
  does \<open>f\<close>. \<open>f\<close> also gets the time the statement runs at (gorm fills time stamps with it).\<close>

definition statement :: "env \<Rightarrow> (gotime \<Rightarrow> world \<Rightarrow> (go_error + 'a) \<times> world) \<Rightarrow> 'a io" where
  "statement E f =
     (\<lambda>w. let w' = w\<lparr>tick := Suc (tick w)\<rparr>
          in case db_fault E (tick w) of
               Some msg \<Rightarrow> (Inl (Foreign msg), w')
             | None \<Rightarrow> f (clk E (tick w)) w')"

text \<open>A database transaction: an error rolls the tables back (sequences are not rolled back).\<close>

definition rollback :: "world \<Rightarrow> world \<Rightarrow> world" where
  "rollback w w' =
     w'\<lparr>admins := admins w, alerts := alerts w, channels := channels w, proxies := proxies w,
        deliveries := deliveries w, settings := settings w, machines := machines w,
        ssh_keys := ssh_keys w, global_rules := global_rules w,
        machine_rules := machine_rules w, samples := samples w\<rparr>"

definition transaction :: "env \<Rightarrow> 'a io \<Rightarrow> 'a io" where
  "transaction E m =
     (\<lambda>w. case bnd (statement E (\<lambda>_. ret ())) (\<lambda>_. bnd m (\<lambda>x. bnd (statement E (\<lambda>_. ret ())) (\<lambda>_. ret x))) w of
            (Inl e, w') \<Rightarrow> (Inl e, rollback w w')
          | (Inr x, w') \<Rightarrow> (Inr x, w'))"

text \<open>\<^verbatim>\<open>strings.ToLower\<close> and \<^verbatim>\<open>strings.ToUpper\<close>: byte by byte on ASCII text; a text with other
  bytes goes through the Unicode tables.\<close>

definition ascii_lower :: "char \<Rightarrow> char" where
  "ascii_lower c = (if 65 \<le> (of_char c :: nat) \<and> (of_char c :: nat) \<le> 90 then char_of (of_char c + 32 :: nat) else c)"

definition ascii_upper :: "char \<Rightarrow> char" where
  "ascii_upper c = (if 97 \<le> (of_char c :: nat) \<and> (of_char c :: nat) \<le> 122 then char_of (of_char c - 32 :: nat) else c)"

definition is_ascii :: "string \<Rightarrow> bool" where
  "is_ascii s \<longleftrightarrow> list_all (\<lambda>c. (of_char c :: nat) < 128) s"

definition ToLower :: "env \<Rightarrow> string \<Rightarrow> string" where
  "ToLower E s = (if is_ascii s then map ascii_lower s else uni_lower E s)"

definition ToUpper :: "env \<Rightarrow> string \<Rightarrow> string" where
  "ToUpper E s = (if is_ascii s then map ascii_upper s else uni_upper E s)"

section \<open>Execution equations\<close>

lemma run_ret [run_simps]: "ret x w = (Inr x, w)"
  by (simp add: ret_def)

lemma run_fail [run_simps]: "fail e w = (Inl e, w)"
  by (simp add: fail_def)

lemma run_bnd [run_simps]:
  "bnd m f w = (case m w of (Inl e, w') \<Rightarrow> (Inl e, w') | (Inr x, w') \<Rightarrow> f x w')"
  by (simp add: bnd_def)

lemma run_attempt [run_simps]:
  "attempt m h k w = (case m w of (Inl e, w') \<Rightarrow> h e w' | (Inr x, w') \<Rightarrow> k x w')"
  by (simp add: attempt_def)

lemma run_wrap [run_simps]:
  "wrap msg m w = (case m w of (Inl e, w') \<Rightarrow> (Inl (Wrapf msg e []), w') | (Inr x, w') \<Rightarrow> (Inr x, w'))"
  by (auto simp: wrap_def attempt_def ret_def fail_def split: prod.splits sum.splits)

lemma run_catching [run_simps]: "catching m w = (Inr (fst (m w)), snd (m w))"
  by (simp add: catching_def split: prod.split)

lemma run_gets [run_simps]: "gets f w = (Inr (f w), w)"
  by (simp add: gets_def)

lemma run_modify [run_simps]: "modify f w = (Inr (), f w)"
  by (simp add: modify_def)

lemma run_external [run_simps]: "external f w = (Inr (f (tick w)), w\<lparr>tick := Suc (tick w)\<rparr>)"
  by (simp add: external_def)

lemma run_lift_sum [run_simps]: "lift_sum r w = (r, w)"
  by (simp add: lift_sum_def)

lemma run_time_Now [run_simps]:
  "time_Now E w = (Inr (clk E (tick w)), w\<lparr>tick := Suc (tick w)\<rparr>)"
  by (simp add: time_Now_def external_def)

text \<open>An environment whose database never fails.\<close>

definition no_faults :: "env \<Rightarrow> bool" where
  "no_faults E \<longleftrightarrow> (\<forall>n. db_fault E n = None)"

lemma run_statement [run_simps]:
  "no_faults E \<Longrightarrow> statement E f w = f (clk E (tick w)) (w\<lparr>tick := Suc (tick w)\<rparr>)"
  by (simp add: statement_def no_faults_def)

section \<open>Hoare triples and invariants\<close>

text \<open>\<open>triple P m Q R\<close>: from a state with \<open>P\<close>, a value ends in \<open>Q\<close> and an error in \<open>R\<close>.\<close>

definition triple ::
  "(world \<Rightarrow> bool) \<Rightarrow> 'a io \<Rightarrow> ('a \<Rightarrow> world \<Rightarrow> bool) \<Rightarrow> (go_error \<Rightarrow> world \<Rightarrow> bool) \<Rightarrow> bool" where
  "triple P m Q R \<longleftrightarrow>
     (\<forall>w. P w \<longrightarrow> (case m w of (Inl e, w') \<Rightarrow> R e w' | (Inr x, w') \<Rightarrow> Q x w'))"

definition keeps :: "(world \<Rightarrow> bool) \<Rightarrow> 'a io \<Rightarrow> bool" where
  "keeps I m \<longleftrightarrow> (\<forall>w. I w \<longrightarrow> I (snd (m w)))"

lemma keepsD: "keeps I m \<Longrightarrow> I w \<Longrightarrow> m w = (r, w') \<Longrightarrow> I w'"
  by (metis keeps_def snd_conv)

lemma keeps_ret [keeps_intros]: "keeps I (ret x)"
  by (simp add: keeps_def ret_def)

lemma keeps_fail [keeps_intros]: "keeps I (fail e)"
  by (simp add: keeps_def fail_def)

lemma keeps_gets [keeps_intros]: "keeps I (gets f)"
  by (simp add: keeps_def gets_def)

lemma keeps_lift_sum [keeps_intros]: "keeps I (lift_sum r)"
  by (simp add: keeps_def lift_sum_def)

lemma keeps_bnd [keeps_intros]:
  assumes "keeps I m" and "\<And>x. keeps I (f x)"
  shows "keeps I (bnd m f)"
  using assms by (auto simp: keeps_def bnd_def split: prod.splits sum.splits)

lemma keeps_attempt [keeps_intros]:
  assumes "keeps I m" and "\<And>e. keeps I (h e)" and "\<And>x. keeps I (k x)"
  shows "keeps I (attempt m h k)"
  using assms by (auto simp: keeps_def attempt_def split: prod.splits sum.splits)

lemma keeps_wrap [keeps_intros]: "keeps I m \<Longrightarrow> keeps I (wrap msg m)"
  unfolding wrap_def by (intro keeps_attempt keeps_fail keeps_ret)

lemma keeps_for_each [keeps_intros]: "(\<And>x. keeps I (f x)) \<Longrightarrow> keeps I (for_each xs f)"
  by (induction xs) (auto intro: keeps_intros)

lemma keeps_catching [keeps_intros]: "keeps I m \<Longrightarrow> keeps I (catching m)"
  by (simp add: keeps_def run_catching)

lemma keeps_map_each [keeps_intros]: "(\<And>x. keeps I (f x)) \<Longrightarrow> keeps I (map_each xs f)"
  by (induction xs) (auto intro: keeps_intros)

lemma keeps_if [keeps_intros]:
  "keeps I m \<Longrightarrow> keeps I n \<Longrightarrow> keeps I (if b then m else n)"
  by simp

lemma keeps_case_option [keeps_intros]:
  "keeps I m \<Longrightarrow> (\<And>x. keeps I (f x)) \<Longrightarrow> keeps I (case opt of None \<Rightarrow> m | Some x \<Rightarrow> f x)"
  by (cases opt) auto

lemma keeps_case_sum [keeps_intros]:
  "(\<And>x. keeps I (f x)) \<Longrightarrow> (\<And>x. keeps I (g x)) \<Longrightarrow> keeps I (case s of Inl x \<Rightarrow> f x | Inr x \<Rightarrow> g x)"
  by (cases s) auto

lemma keeps_case_prod [keeps_intros]:
  "(\<And>x y. keeps I (f x y)) \<Longrightarrow> keeps I (case p of (x, y) \<Rightarrow> f x y)"
  by (cases p) auto

lemma keeps_Let [keeps_intros]: "(\<And>x. keeps I (f x)) \<Longrightarrow> keeps I (Let v f)"
  by simp

text \<open>Invariants that do not mention the call counter.\<close>

definition tick_free :: "(world \<Rightarrow> bool) \<Rightarrow> bool" where
  "tick_free I \<longleftrightarrow> (\<forall>w n. I (w\<lparr>tick := n\<rparr>) = I w)"

lemma keeps_external [keeps_intros]: "tick_free I \<Longrightarrow> keeps I (external f)"
  by (simp add: keeps_def external_def tick_free_def)

lemma keeps_time_Now [keeps_intros]: "tick_free I \<Longrightarrow> keeps I (time_Now E)"
  by (simp add: time_Now_def keeps_external)

lemma keeps_statement:
  assumes "tick_free I" and "\<And>t. keeps I (f t)"
  shows "keeps I (statement E f)"
  using assms
  by (auto simp: keeps_def statement_def tick_free_def Let_def split: option.splits)

lemma triple_iff:
  "triple P m Q R \<longleftrightarrow>
     (\<forall>w. P w \<longrightarrow> (\<forall>x w'. m w = (Inr x, w') \<longrightarrow> Q x w') \<and> (\<forall>e w'. m w = (Inl e, w') \<longrightarrow> R e w'))"
  unfolding triple_def
  by (intro all_cong1 imp_cong refl) (simp split: prod.split sum.split)

lemma tripleI:
  assumes "\<And>w x w'. P w \<Longrightarrow> m w = (Inr x, w') \<Longrightarrow> Q x w'"
    and "\<And>w e w'. P w \<Longrightarrow> m w = (Inl e, w') \<Longrightarrow> R e w'"
  shows "triple P m Q R"
  using assms by (simp add: triple_iff)

lemma tripleD:
  assumes "triple P m Q R" and "P w"
  shows "m w = (Inr x, w') \<Longrightarrow> Q x w'" and "m w = (Inl e, w') \<Longrightarrow> R e w'"
  using assms by (simp_all add: triple_iff)

lemma bnd_InrE:
  assumes "bnd m f w = (Inr y, w')"
  obtains x w1 where "m w = (Inr x, w1)" and "f x w1 = (Inr y, w')"
  using assms by (auto simp: bnd_def split: prod.splits sum.splits)

lemma bnd_InlE:
  assumes "bnd m f w = (Inl e, w')"
  obtains "m w = (Inl e, w')" | x w1 where "m w = (Inr x, w1)" and "f x w1 = (Inl e, w')"
  using assms by (auto simp: bnd_def split: prod.splits sum.splits)

lemma triple_bnd:
  assumes "triple P m Q' R" and "\<And>x. triple (Q' x) (f x) Q R"
  shows "triple P (bnd m f) Q R"
  by (rule tripleI; erule bnd_InrE bnd_InlE) (meson assms tripleD)+

lemma triple_conseq:
  assumes "triple P m Q R" and "\<And>w. P' w \<Longrightarrow> P w" and "\<And>x w. Q x w \<Longrightarrow> Q' x w"
    and "\<And>e w. R e w \<Longrightarrow> R' e w"
  shows "triple P' m Q' R'"
  using assms unfolding triple_iff by blast

end
