(* ===== verification/Repo.thy ===== *)
theory Repo
  imports Runtime
begin

text \<open>
  The repositories of \<^verbatim>\<open>internal/repo\<close>: one definition per method, each the SQL statement the
  method sends, on the tables of \<^typ>\<open>world\<close>. The clauses the repositories use are defined
  first: \<^verbatim>\<open>WHERE\<close> (a filter), \<^verbatim>\<open>ORDER BY\<close> (a sort; ties in the order \<open>tie_rank\<close> gives),
  \<^verbatim>\<open>LIMIT\<close>/\<^verbatim>\<open>OFFSET\<close>, \<^verbatim>\<open>INSERT ... ON CONFLICT DO NOTHING\<close> and \<^verbatim>\<open>DO UPDATE\<close>. A method that fills
  in its argument (\<^verbatim>\<open>Create(ctx, row)\<close> sets the new identifier) returns the filled row. Rows
  handed to \<^verbatim>\<open>Create\<close> have a zero identifier, so the table's sequence supplies it.

  The locale \<open>keyed_table\<close> is the contract of a table with a unique index: what a lookup by
  key returns after an insert, an upsert and a delete, and that keys stay unique. It is
  interpreted for every table that has such an index.
\<close>

section \<open>SQL clauses\<close>

definition lookup_by :: "('r \<Rightarrow> 'k) \<Rightarrow> 'k \<Rightarrow> 'r list \<Rightarrow> 'r option" where
  "lookup_by key k rows = find (\<lambda>r. key r = k) rows"

text \<open>\<^verbatim>\<open>First\<close>: the matching row with the least primary key.\<close>

definition sql_first :: "('r \<Rightarrow> 'i::linorder) \<Rightarrow> ('r \<Rightarrow> bool) \<Rightarrow> 'r list \<Rightarrow> 'r option" where
  "sql_first pk p rows =
     (case sort_key pk (filter p rows) of [] \<Rightarrow> None | r # _ \<Rightarrow> Some r)"

definition sql_update :: "('r \<Rightarrow> bool) \<Rightarrow> ('r \<Rightarrow> 'r) \<Rightarrow> 'r list \<Rightarrow> 'r list" where
  "sql_update p f rows = map (\<lambda>r. if p r then f r else r) rows"

definition sql_count :: "('r \<Rightarrow> bool) \<Rightarrow> 'r list \<Rightarrow> nat" where
  "sql_count p rows = length (filter p rows)"

definition sql_delete :: "('r \<Rightarrow> bool) \<Rightarrow> 'r list \<Rightarrow> 'r list" where
  "sql_delete p rows = filter (\<lambda>r. \<not> p r) rows"

definition sql_insert_ignore :: "('r \<Rightarrow> 'k) \<Rightarrow> 'r \<Rightarrow> 'r list \<Rightarrow> 'r list" where
  "sql_insert_ignore key r rows = (if key r \<in> set (map key rows) then rows else rows @ [r])"

definition sql_upsert :: "('r \<Rightarrow> 'k) \<Rightarrow> ('r \<Rightarrow> 'r \<Rightarrow> 'r) \<Rightarrow> 'r \<Rightarrow> 'r list \<Rightarrow> 'r list" where
  "sql_upsert key upd r rows =
     (if key r \<in> set (map key rows)
      then map (\<lambda>old. if key old = key r then upd old r else old) rows
      else rows @ [r])"

text \<open>\<^verbatim>\<open>LIMIT\<close> and \<^verbatim>\<open>OFFSET\<close>; an offset that is not positive is not sent.\<close>

definition sql_page :: "int \<Rightarrow> int \<Rightarrow> 'r list \<Rightarrow> 'r list" where
  "sql_page off lmt rows = take (nat lmt) (drop (nat off) rows)"

text \<open>gorm's time stamps: a zero time is filled in.\<close>

definition gorm_stamp :: "gotime \<Rightarrow> gotime \<Rightarrow> gotime" where
  "gorm_stamp old now = (if old = zero_time then now else old)"

text \<open>PostgreSQL's errors for a unique violation, and for an upsert that proposes one key twice.\<close>

definition pg_duplicate_key :: "string \<Rightarrow> go_error" where
  "pg_duplicate_key idx =
     Foreign (''ERROR: duplicate key value violates unique constraint '' @ idx @ '' (SQLSTATE 23505)'')"

definition pg_upsert_twice :: go_error where
  "pg_upsert_twice =
     Foreign ''ERROR: ON CONFLICT DO UPDATE command cannot affect row a second time (SQLSTATE 21000)''"

text \<open>Numbering the rows of one insert from a sequence.\<close>

fun number_rows :: "(nat \<Rightarrow> 'r \<Rightarrow> 'r) \<Rightarrow> nat \<Rightarrow> 'r list \<Rightarrow> 'r list" where
  "number_rows set_id n [] = []"
| "number_rows set_id n (r # rs) = set_id n r # number_rows set_id (Suc n) rs"

definition bump_seq :: "table \<Rightarrow> nat \<Rightarrow> world \<Rightarrow> world" where
  "bump_seq tb n w = w\<lparr>seqs := (seqs w)(tb := seqs w tb + n)\<rparr>"

subsection \<open>Error tests\<close>

definition IsRecordNotFound :: "go_error \<Rightarrow> bool" where
  "IsRecordNotFound e = errors_Is e ErrRecordNotFound"

definition IsDuplicateKeyError :: "go_error \<Rightarrow> bool" where
  "IsDuplicateKeyError e = Contains (error_text e) ''duplicate key''"

text \<open>Numbering the rows of an insert keeps everything but identifiers and time stamps.\<close>

lemma map_number_rows: "(\<And>n r. f (fill n r) = f r) \<Longrightarrow> map f (number_rows fill n rows) = map f rows"
  by (induction rows arbitrary: n) auto

lemma lookup_number_rows:
  assumes "\<And>n r. key (fill n r) = key r" and "\<And>n r. obs (fill n r) = obs r"
  shows "map_option obs (lookup_by key k (number_rows fill n rows)) = map_option obs (lookup_by key k rows)"
  using assms by (induction rows arbitrary: n) (auto simp: lookup_by_def)

lemma bump_seq_simps [simp]:
  "tick (bump_seq tb n w) = tick w" "admins (bump_seq tb n w) = admins w" "alerts (bump_seq tb n w) = alerts w"
  "channels (bump_seq tb n w) = channels w" "proxies (bump_seq tb n w) = proxies w"
  "deliveries (bump_seq tb n w) = deliveries w" "settings (bump_seq tb n w) = settings w"
  "machines (bump_seq tb n w) = machines w" "ssh_keys (bump_seq tb n w) = ssh_keys w"
  "global_rules (bump_seq tb n w) = global_rules w" "machine_rules (bump_seq tb n w) = machine_rules w"
  "samples (bump_seq tb n w) = samples w" "outbox (bump_seq tb n w) = outbox w"
  "ssh_log (bump_seq tb n w) = ssh_log w" "seqs (bump_seq tb n w) = (seqs w)(tb := seqs w tb + n)"
  by (simp_all add: bump_seq_def)

lemma lookup_by_Nil [simp]: "lookup_by key k [] = None"
  by (simp add: lookup_by_def)

lemma lookup_by_map:
  "(\<And>x. x \<in> set xs \<Longrightarrow> key' (f x) = key x) \<Longrightarrow>
     lookup_by key' k (map f xs) = map_option f (lookup_by key k xs)"
  by (induction xs) (auto simp: lookup_by_def)

lemma lookup_by_append:
  "lookup_by key k (xs @ ys) = (case lookup_by key k xs of Some r \<Rightarrow> Some r | None \<Rightarrow> lookup_by key k ys)"
  by (induction xs) (auto simp: lookup_by_def)

section \<open>The contract of a table with a unique index\<close>

locale keyed_table =
  fixes key :: "'r \<Rightarrow> 'k" and upd :: "'r \<Rightarrow> 'r \<Rightarrow> 'r"
  assumes key_upd: "key (upd old new) = key old"
begin

definition unique :: "'r list \<Rightarrow> bool" where
  "unique rows \<longleftrightarrow> distinct (map key rows)"

lemma unique_Nil: "unique []"
  by (simp add: unique_def)

lemma map_key_upsert:
  "map key (sql_upsert key upd r rows) =
     (if key r \<in> set (map key rows) then map key rows else map key rows @ [key r])"
  by (auto simp: sql_upsert_def key_upd comp_def intro!: map_cong)

lemma unique_upsert: "unique rows \<Longrightarrow> unique (sql_upsert key upd r rows)"
  by (simp add: unique_def map_key_upsert)

lemma unique_insert_ignore: "unique rows \<Longrightarrow> unique (sql_insert_ignore key r rows)"
  by (auto simp: unique_def sql_insert_ignore_def)

lemma unique_delete: "unique rows \<Longrightarrow> unique (sql_delete p rows)"
  by (auto simp: unique_def sql_delete_def distinct_map intro: inj_on_subset)

lemma unique_update: "unique rows \<Longrightarrow> (\<And>r. key (f r) = key r) \<Longrightarrow> unique (sql_update p f rows)"
proof -
  assume u: "unique rows" and f: "\<And>r. key (f r) = key r"
  have "map key (sql_update p f rows) = map key rows"
    by (auto simp: sql_update_def f)
  with u show ?thesis by (simp add: unique_def)
qed

lemma lookup_insert_ignore:
  "lookup_by key k (sql_insert_ignore key r rows) =
     (case lookup_by key k rows of Some old \<Rightarrow> Some old | None \<Rightarrow> if key r = k then Some r else None)"
proof (cases "key r \<in> set (map key rows)")
  case True
  then show ?thesis
    by (auto simp: lookup_by_def sql_insert_ignore_def find_None_iff split: option.split)
next
  case False
  then show ?thesis
    by (induction rows) (auto simp: lookup_by_def sql_insert_ignore_def)
qed

lemma lookup_upsert:
  "lookup_by key k (sql_upsert key upd r rows) =
     (if key r = k then Some (case lookup_by key k rows of Some old \<Rightarrow> upd old r | None \<Rightarrow> r)
      else lookup_by key k rows)"
proof (cases "key r \<in> set (map key rows)")
  case True
  have "lookup_by key k (map (\<lambda>old. if key old = key r then upd old r else old) rows) =
      (if key r = k then map_option (\<lambda>old. upd old r) (lookup_by key k rows) else lookup_by key k rows)"
    by (induction rows) (auto simp: lookup_by_def key_upd)
  moreover have "key r = k \<Longrightarrow> lookup_by key k rows \<noteq> None"
    using True by (auto simp: lookup_by_def find_None_iff)
  ultimately show ?thesis
    using True by (auto simp: sql_upsert_def)
next
  case False
  then show ?thesis
    by (induction rows) (auto simp: lookup_by_def sql_upsert_def)
qed

lemma lookup_delete_key: "lookup_by key k (sql_delete (\<lambda>r. key r = k) rows) = None"
  by (auto simp: lookup_by_def sql_delete_def find_None_iff)

lemma lookup_in: "lookup_by key k rows = Some r \<Longrightarrow> r \<in> set rows \<and> key r = k"
  by (auto simp: lookup_by_def find_Some_iff in_set_conv_nth)

lemma lookup_unique: "unique rows \<Longrightarrow> r \<in> set rows \<Longrightarrow> lookup_by key (key r) rows = Some r"
  by (induction rows) (auto simp: lookup_by_def unique_def)

lemma lookup_None: "lookup_by key k rows = None \<longleftrightarrow> k \<notin> key ` set rows"
  by (auto simp: lookup_by_def find_None_iff)

lemma lookup_same_set:
  assumes "unique rows" and "unique rows'" and "set rows' = set rows"
  shows "lookup_by key k rows' = lookup_by key k rows"
proof (cases "lookup_by key k rows")
  case None
  with assms(3) show ?thesis by (metis lookup_None)
next
  case (Some r)
  with assms lookup_in lookup_unique show ?thesis by metis
qed

lemma unique_filter: "unique rows \<Longrightarrow> unique (filter p rows)"
  by (auto simp: unique_def distinct_map intro: inj_on_subset)

lemma unique_sort: "unique (sort_key f rows) \<longleftrightarrow> unique rows"
  by (simp add: unique_def distinct_map)

lemma lookup_sort: "unique rows \<Longrightarrow> lookup_by key k (sort_key f rows) = lookup_by key k rows"
  by (rule lookup_same_set) (simp_all add: unique_sort)

lemma lookup_filter:
  "(\<And>r. key r = k \<Longrightarrow> p r) \<Longrightarrow> lookup_by key k (filter p rows) = lookup_by key k rows"
  by (induction rows) (auto simp: lookup_by_def)

lemma lookup_delete:
  "(\<And>r. key r = k \<Longrightarrow> p r \<longleftrightarrow> b) \<Longrightarrow>
     lookup_by key k (sql_delete p rows) = (if b then None else lookup_by key k rows)"
  by (induction rows) (auto simp: lookup_by_def sql_delete_def)

text \<open>One multi-row upsert: a proposed row wins, other keys keep their row.\<close>

lemma unique_fold_upsert: "unique rows \<Longrightarrow> unique (fold (sql_upsert key upd) news rows)"
  by (induction news arbitrary: rows) (simp_all add: unique_upsert)

lemma lookup_fold_upsert:
  assumes "distinct (map key news)"
  shows "lookup_by key k (fold (sql_upsert key upd) news rows) =
     (case lookup_by key k news of
        Some r \<Rightarrow> Some (case lookup_by key k rows of Some old \<Rightarrow> upd old r | None \<Rightarrow> r)
      | None \<Rightarrow> lookup_by key k rows)"
  using assms
proof (induction news arbitrary: rows)
  case Nil
  then show ?case by (simp add: lookup_by_def)
next
  case (Cons r news)
  have split: "lookup_by key k (r # news) = (if key r = k then Some r else lookup_by key k news)"
    by (simp add: lookup_by_def)
  show ?case
  proof (cases "key r = k")
    case True
    with Cons.prems have "lookup_by key k news = None"
      by (auto simp: lookup_None)
    with Cons True show ?thesis
      by (simp add: lookup_upsert split)
  next
    case False
    with Cons show ?thesis by (simp add: lookup_upsert split cong: option.case_cong)
  qed
qed

text \<open>The same on what a reader sees of a row, when the proposed rows get their identifiers.\<close>

lemma lookup_upserted:
  assumes d: "distinct (map key news)"
    and fill: "\<And>n r. key (fill n r) = key r" "\<And>n r. view (fill n r) = view r"
    and upd: "\<And>old new. key old = key new \<Longrightarrow> view (upd old new) = view new"
  shows "map_option view (lookup_by key k (fold (sql_upsert key upd) (number_rows fill n news) rows)) =
     (case lookup_by key k news of Some r \<Rightarrow> Some (view r) | None \<Rightarrow> map_option view (lookup_by key k rows))"
proof -
  let ?news = "number_rows fill n news"
  have eq: "map_option view (lookup_by key k ?news) = map_option view (lookup_by key k news)"
    using fill by (rule lookup_number_rows)
  have d': "distinct (map key ?news)"
    using d fill by (simp add: map_number_rows)
  show ?thesis
  proof (cases "lookup_by key k news")
    case None
    with eq d' show ?thesis by (simp add: lookup_fold_upsert)
  next
    case (Some r)
    with eq obtain r' where r': "lookup_by key k ?news = Some r'" "view r' = view r" by auto
    have "view (upd old r') = view r" if "lookup_by key k rows = Some old" for old
      using that r' lookup_in [of k ?news r'] lookup_in [of k rows old] upd [of old r'] by metis
    with Some r' d' show ?thesis by (simp add: lookup_fold_upsert split: option.split)
  qed
qed

lemma keys_upserted:
  assumes "\<And>n r. key (fill n r) = key r"
  shows "key ` set (fold (sql_upsert key upd) (number_rows fill n news) rows) = key ` set rows \<union> key ` set news"
proof -
  have "key ` set (fold (sql_upsert key upd) news' rows) = key ` set rows \<union> key ` set news'" for news'
  proof (induction news' arbitrary: rows)
    case (Cons r news')
    then show ?case
      using arg_cong [OF map_key_upsert [of r rows], of set] by auto
  qed simp
  moreover have "key ` set (number_rows fill n news) = key ` set news"
    using assms map_number_rows [of key fill n news] by (metis list.set_map)
  ultimately show ?thesis by simp
qed

lemma unique_fold_insert_ignore: "unique rows \<Longrightarrow> unique (fold (sql_insert_ignore key) news rows)"
  by (induction news arbitrary: rows) (simp_all add: unique_insert_ignore)

lemma lookup_fold_insert_ignore:
  "lookup_by key k (fold (sql_insert_ignore key) news rows) =
     (case lookup_by key k rows of Some old \<Rightarrow> Some old | None \<Rightarrow> lookup_by key k news)"
proof (induction news arbitrary: rows)
  case Nil
  then show ?case by (simp add: lookup_by_def split: option.split)
next
  case (Cons r news)
  have "lookup_by key k (r # news) = (if key r = k then Some r else lookup_by key k news)"
    by (simp add: lookup_by_def)
  with Cons show ?case by (auto simp: lookup_insert_ignore split: option.splits)
qed

end

section \<open>The repositories\<close>

subsection \<open>admin_repo.go\<close>

definition AdminRepo_GetByID :: "env \<Rightarrow> nat \<Rightarrow> Admin io" where
  "AdminRepo_GetByID E adminID = wrap ''get admin by id: ''
     (statement E (\<lambda>_ w. case sql_first adm_ID (\<lambda>a. adm_ID a = adminID) (admins w) of
        None \<Rightarrow> (Inl (Sentinel ErrRecordNotFound), w) | Some a \<Rightarrow> (Inr a, w)))"

definition AdminRepo_GetByUsername :: "env \<Rightarrow> string \<Rightarrow> Admin io" where
  "AdminRepo_GetByUsername E username = wrap ''get admin by username: ''
     (statement E (\<lambda>_ w. case sql_first adm_ID (\<lambda>a. adm_Username a = username) (admins w) of
        None \<Rightarrow> (Inl (Sentinel ErrRecordNotFound), w) | Some a \<Rightarrow> (Inr a, w)))"

definition AdminRepo_Create :: "env \<Rightarrow> Admin \<Rightarrow> Admin io" where
  "AdminRepo_Create E admin = wrap ''create admin: ''
     (statement E (\<lambda>now w.
        let row = admin\<lparr>adm_ID := seqs w TAdmins,
                        adm_CreatedAt := gorm_stamp (adm_CreatedAt admin) now,
                        adm_UpdatedAt := gorm_stamp (adm_UpdatedAt admin) now\<rparr>;
            w' = bump_seq TAdmins 1 w
        in if adm_Username admin \<in> set (map adm_Username (admins w))
           then (Inl (pg_duplicate_key ''idx_admins_username''), w')
           else (Inr row, w'\<lparr>admins := admins w @ [row]\<rparr>)))"

definition AdminRepo_UpdatePasswordHash :: "env \<Rightarrow> nat \<Rightarrow> string \<Rightarrow> unit io" where
  "AdminRepo_UpdatePasswordHash E adminID passwordHash =
     bnd (wrap ''update admin password hash: ''
       (statement E (\<lambda>now w.
          (Inr (sql_count (\<lambda>a. adm_ID a = adminID) (admins w)),
           w\<lparr>admins := sql_update (\<lambda>a. adm_ID a = adminID)
               (\<lambda>a. a\<lparr>adm_PasswordHash := passwordHash, adm_UpdatedAt := now\<rparr>) (admins w)\<rparr>))))
     (\<lambda>rowsAffected.
        if rowsAffected = 0
        then fail (Wrapf ''update admin password hash: '' (Sentinel ErrRecordNotFound) [])
        else ret ())"

definition AdminRepo_ExistsByUsername :: "env \<Rightarrow> string \<Rightarrow> bool io" where
  "AdminRepo_ExistsByUsername E username = wrap ''count admin by username: ''
     (statement E (\<lambda>_ w. (Inr (0 < sql_count (\<lambda>a. adm_Username a = username) (admins w)), w)))"

subsection \<open>alert_repo.go\<close>

record AlertFilter =
  af_MachineID :: "nat option"
  af_PeriodType :: string
  af_Page :: int
  af_PageSize :: int

record AlertDeleteFilter =
  ad_MachineID :: "nat option"
  ad_BeforeBucketTime :: gotime
  ad_Limit :: int

text \<open>\<^verbatim>\<open>INSERT ... ON CONFLICT (alert_key) DO NOTHING\<close>: whether a row was written, and the row
  with the identifier it got (on a conflict the argument is not filled in).\<close>

definition AlertRepo_CreateIfAbsent :: "env \<Rightarrow> Alert \<Rightarrow> (bool \<times> Alert) io" where
  "AlertRepo_CreateIfAbsent E alert = wrap ''create alert if absent: ''
     (statement E (\<lambda>now w.
        let row = alert\<lparr>al_ID := seqs w TAlerts,
                        al_CreatedAt := gorm_stamp (al_CreatedAt alert) now,
                        al_UpdatedAt := gorm_stamp (al_UpdatedAt alert) now\<rparr>;
            w' = bump_seq TAlerts 1 w;
            rows = sql_insert_ignore al_AlertKey row (alerts w)
        in if al_AlertKey alert \<in> set (map al_AlertKey (alerts w))
           then (Inr (False, alert), w'\<lparr>alerts := rows\<rparr>)
           else (Inr (True, row), w'\<lparr>alerts := rows\<rparr>)))"

definition AlertRepo_UpdateNotifyStatus :: "env \<Rightarrow> nat \<Rightarrow> string \<Rightarrow> unit io" where
  "AlertRepo_UpdateNotifyStatus E alertID notifyStatus = wrap ''update alert notify status: ''
     (statement E (\<lambda>now w.
        (Inr (), w\<lparr>alerts := sql_update (\<lambda>a. al_ID a = alertID)
                    (\<lambda>a. a\<lparr>al_NotifyStatus := notifyStatus, al_UpdatedAt := now\<rparr>) (alerts w)\<rparr>)))"

definition alert_expired :: "AlertDeleteFilter \<Rightarrow> Alert \<Rightarrow> bool" where
  "alert_expired filt a \<longleftrightarrow>
     al_BucketTime a < ad_BeforeBucketTime filt \<and>
     (case ad_MachineID filt of None \<Rightarrow> True | Some m \<Rightarrow> al_MachineID a = m)"

text \<open>The rows of the limited sub-query, oldest bucket first.\<close>

definition alert_victims :: "env \<Rightarrow> nat \<Rightarrow> AlertDeleteFilter \<Rightarrow> Alert list \<Rightarrow> Alert list" where
  "alert_victims E n filt rows =
     take (nat (ad_Limit filt))
       (sort_key (\<lambda>a. (al_BucketTime a, tie_rank E n (al_ID a))) (filter (alert_expired filt) rows))"

definition AlertRepo_DeleteExpired :: "env \<Rightarrow> AlertDeleteFilter \<Rightarrow> nat io" where
  "AlertRepo_DeleteExpired E filt =
     (if ad_BeforeBucketTime filt = zero_time
      then fail (Foreign ''before bucket time is required'')
      else wrap ''delete expired alerts: ''
        (statement E (\<lambda>_ w.
           if 0 < ad_Limit filt
           then let ids = map al_ID (alert_victims E (tick w) filt (alerts w));
                    hit = (\<lambda>a. al_ID a \<in> set ids)
                in (Inr (sql_count hit (alerts w)), w\<lparr>alerts := sql_delete hit (alerts w)\<rparr>)
           else (Inr (sql_count (alert_expired filt) (alerts w)),
                 w\<lparr>alerts := sql_delete (alert_expired filt) (alerts w)\<rparr>))))"

text \<open>Both list methods default the page and the page size and compute the offset in Go's
  64-bit \<^verbatim>\<open>int\<close>.\<close>

definition default_page :: "int \<Rightarrow> int" where
  "default_page page = (if page \<le> 0 then 1 else page)"

definition default_page_size :: "int \<Rightarrow> int" where
  "default_page_size pageSize = (if pageSize \<le> 0 then 50 else pageSize)"

definition page_offset :: "int \<Rightarrow> int \<Rightarrow> int" where
  "page_offset page pageSize = int64_mul (int64_sub page 1) pageSize"

definition alert_listed :: "AlertFilter \<Rightarrow> Alert \<Rightarrow> bool" where
  "alert_listed filt a \<longleftrightarrow>
     (case af_MachineID filt of None \<Rightarrow> True | Some m \<Rightarrow> al_MachineID a = m) \<and>
     (af_PeriodType filt \<noteq> [] \<longrightarrow> al_PeriodType a = af_PeriodType filt)"

definition AlertRepo_List :: "env \<Rightarrow> AlertFilter \<Rightarrow> (Alert list \<times> nat) io" where
  "AlertRepo_List E filt =
     bnd (wrap ''count alerts: '' (statement E (\<lambda>_ w. (Inr (sql_count (alert_listed filt) (alerts w)), w))))
     (\<lambda>total. let page = default_page (af_Page filt);
                  pageSize = default_page_size (af_PageSize filt)
      in bnd (wrap ''list alerts: '' (statement E (\<lambda>_ w.
           (Inr (sql_page (page_offset page pageSize) pageSize
                  (sort_key (\<lambda>a. (- al_BucketTime a, tie_rank E (tick w) (al_ID a)))
                     (filter (alert_listed filt) (alerts w)))), w))))
         (\<lambda>rows. ret (rows, total)))"

subsection \<open>app_setting_repo.go\<close>

definition AppSettingRepo_GetByKey :: "env \<Rightarrow> string \<Rightarrow> AppSetting io" where
  "AppSettingRepo_GetByKey E k = wrap ''get app setting by key: ''
     (statement E (\<lambda>_ w. case sql_first st_SettingKey (\<lambda>s. st_SettingKey s = k) (settings w) of
        None \<Rightarrow> (Inl (Sentinel ErrRecordNotFound), w) | Some s \<Rightarrow> (Inr s, w)))"

definition setting_upd :: "AppSetting \<Rightarrow> AppSetting \<Rightarrow> AppSetting" where
  "setting_upd old new = old\<lparr>st_SettingValue := st_SettingValue new, st_UpdatedAt := st_UpdatedAt new\<rparr>"

definition AppSettingRepo_Upsert :: "env \<Rightarrow> AppSetting \<Rightarrow> unit io" where
  "AppSettingRepo_Upsert E setting = wrap ''upsert app setting: ''
     (statement E (\<lambda>now w.
        let row = setting\<lparr>st_CreatedAt := gorm_stamp (st_CreatedAt setting) now,
                          st_UpdatedAt := gorm_stamp (st_UpdatedAt setting) now\<rparr>
        in (Inr (), w\<lparr>settings := sql_upsert st_SettingKey setting_upd row (settings w)\<rparr>)))"

subsection \<open>machine_repo.go\<close>

definition MachineRepo_Create :: "env \<Rightarrow> Machine \<Rightarrow> Machine io" where
  "MachineRepo_Create E machine = wrap ''create machine: ''
     (statement E (\<lambda>now w.
        let row = machine\<lparr>mc_ID := seqs w TMachines,
                          mc_CreatedAt := gorm_stamp (mc_CreatedAt machine) now,
                          mc_UpdatedAt := gorm_stamp (mc_UpdatedAt machine) now\<rparr>
        in (Inr row, (bump_seq TMachines 1 w)\<lparr>machines := machines w @ [row]\<rparr>)))"

definition MachineRepo_List :: "env \<Rightarrow> Machine list io" where
  "MachineRepo_List E = wrap ''list machines: ''
     (statement E (\<lambda>_ w. (Inr (sort_key (\<lambda>m. - int (mc_ID m)) (machines w)), w)))"

definition MachineRepo_GetByID :: "env \<Rightarrow> nat \<Rightarrow> Machine io" where
  "MachineRepo_GetByID E machineID = wrap ''get machine by id: ''
     (statement E (\<lambda>_ w. case sql_first mc_ID (\<lambda>m. mc_ID m = machineID) (machines w) of
        None \<Rightarrow> (Inl (Sentinel ErrRecordNotFound), w) | Some m \<Rightarrow> (Inr m, w)))"

text \<open>\<^verbatim>\<open>Save\<close> writes every column of the row with this identifier (and inserts it if there is none).\<close>

definition MachineRepo_Update :: "env \<Rightarrow> Machine \<Rightarrow> Machine io" where
  "MachineRepo_Update E machine = wrap ''update machine: ''
     (statement E (\<lambda>now w.
        let row = machine\<lparr>mc_UpdatedAt := now\<rparr>
        in (Inr row, w\<lparr>machines := sql_upsert mc_ID (\<lambda>_ new. new) row (machines w)\<rparr>)))"

definition MachineRepo_ListBySSHKeyID :: "env \<Rightarrow> nat \<Rightarrow> Machine list io" where
  "MachineRepo_ListBySSHKeyID E sshKeyID = wrap ''list machines by ssh key id: ''
     (statement E (\<lambda>_ w.
        (Inr (sort_key (\<lambda>m. - int (mc_ID m)) (filter (\<lambda>m. mc_SSHKeyID m = sshKeyID) (machines w))), w)))"

definition MachineRepo_DeleteByID :: "env \<Rightarrow> nat \<Rightarrow> unit io" where
  "MachineRepo_DeleteByID E machineID = wrap ''delete machine: ''
     (statement E (\<lambda>_ w. (Inr (), w\<lparr>machines := sql_delete (\<lambda>m. mc_ID m = machineID) (machines w)\<rparr>)))"

subsection \<open>notification_repo.go\<close>

definition channel_upd :: "NotificationChannel \<Rightarrow> NotificationChannel \<Rightarrow> NotificationChannel" where
  "channel_upd old new =
     old\<lparr>ch_Enabled := ch_Enabled new, ch_ConfigJSON := ch_ConfigJSON new, ch_UpdatedAt := ch_UpdatedAt new\<rparr>"

definition channel_row :: "NotificationChannel \<Rightarrow> gotime \<Rightarrow> world \<Rightarrow> NotificationChannel" where
  "channel_row channel now w =
     channel\<lparr>ch_ID := seqs w TChannels,
             ch_CreatedAt := gorm_stamp (ch_CreatedAt channel) now,
             ch_UpdatedAt := gorm_stamp (ch_UpdatedAt channel) now\<rparr>"

definition NotificationChannelRepo_Upsert :: "env \<Rightarrow> NotificationChannel \<Rightarrow> unit io" where
  "NotificationChannelRepo_Upsert E channel = wrap ''upsert notification channel: ''
     (statement E (\<lambda>now w.
        (Inr (), (bump_seq TChannels 1 w)\<lparr>channels :=
                   sql_upsert ch_ChannelType channel_upd (channel_row channel now w) (channels w)\<rparr>)))"

definition NotificationChannelRepo_CreateIfAbsent :: "env \<Rightarrow> NotificationChannel \<Rightarrow> bool io" where
  "NotificationChannelRepo_CreateIfAbsent E channel = wrap ''create notification channel if absent: ''
     (statement E (\<lambda>now w.
        (Inr (ch_ChannelType channel \<notin> set (map ch_ChannelType (channels w))),
         (bump_seq TChannels 1 w)\<lparr>channels :=
            sql_insert_ignore ch_ChannelType (channel_row channel now w) (channels w)\<rparr>)))"

definition NotificationChannelRepo_List :: "env \<Rightarrow> NotificationChannel list io" where
  "NotificationChannelRepo_List E = wrap ''list notification channels: ''
     (statement E (\<lambda>_ w. (Inr (sort_key ch_ChannelType (channels w)), w)))"

definition NotificationProxyRepo_Create :: "env \<Rightarrow> NotificationProxy \<Rightarrow> NotificationProxy io" where
  "NotificationProxyRepo_Create E prox = wrap ''create notification proxy: ''
     (statement E (\<lambda>now w.
        let row = prox\<lparr>px_ID := seqs w TProxies,
                       px_CreatedAt := gorm_stamp (px_CreatedAt prox) now,
                       px_UpdatedAt := gorm_stamp (px_UpdatedAt prox) now\<rparr>
        in (Inr row, (bump_seq TProxies 1 w)\<lparr>proxies := proxies w @ [row]\<rparr>)))"

definition NotificationProxyRepo_Update :: "env \<Rightarrow> NotificationProxy \<Rightarrow> unit io" where
  "NotificationProxyRepo_Update E prox =
     bnd (wrap ''update notification proxy: ''
       (statement E (\<lambda>now w.
          (Inr (sql_count (\<lambda>p. px_ID p = px_ID prox) (proxies w)),
           w\<lparr>proxies := sql_update (\<lambda>p. px_ID p = px_ID prox)
              (\<lambda>p. p\<lparr>px_Name := px_Name prox, px_ProxyType := px_ProxyType prox,
                     px_URL := px_URL prox, px_UpdatedAt := now\<rparr>) (proxies w)\<rparr>))))
     (\<lambda>rowsAffected. if rowsAffected = 0 then fail (Sentinel ErrRecordNotFound) else ret ())"

definition NotificationProxyRepo_Delete :: "env \<Rightarrow> nat \<Rightarrow> unit io" where
  "NotificationProxyRepo_Delete E proxyID =
     bnd (wrap ''delete notification proxy: ''
       (statement E (\<lambda>_ w.
          (Inr (sql_count (\<lambda>p. px_ID p = proxyID) (proxies w)),
           w\<lparr>proxies := sql_delete (\<lambda>p. px_ID p = proxyID) (proxies w)\<rparr>))))
     (\<lambda>rowsAffected. if rowsAffected = 0 then fail (Sentinel ErrRecordNotFound) else ret ())"

definition NotificationProxyRepo_GetByID :: "env \<Rightarrow> nat \<Rightarrow> NotificationProxy io" where
  "NotificationProxyRepo_GetByID E proxyID = wrap ''get notification proxy by id: ''
     (statement E (\<lambda>_ w. case sql_first px_ID (\<lambda>p. px_ID p = proxyID) (proxies w) of
        None \<Rightarrow> (Inl (Sentinel ErrRecordNotFound), w) | Some p \<Rightarrow> (Inr p, w)))"

definition NotificationProxyRepo_List :: "env \<Rightarrow> NotificationProxy list io" where
  "NotificationProxyRepo_List E = wrap ''list notification proxies: ''
     (statement E (\<lambda>_ w. (Inr (sort_key px_ID (proxies w)), w)))"

definition NotificationDeliveryRepo_Create :: "env \<Rightarrow> NotificationDelivery \<Rightarrow> unit io" where
  "NotificationDeliveryRepo_Create E delivery = wrap ''create notification delivery: ''
     (statement E (\<lambda>now w.
        let row = delivery\<lparr>dl_ID := seqs w TDeliveries,
                           dl_CreatedAt := gorm_stamp (dl_CreatedAt delivery) now,
                           dl_UpdatedAt := gorm_stamp (dl_UpdatedAt delivery) now\<rparr>
        in (Inr (), (bump_seq TDeliveries 1 w)\<lparr>deliveries := deliveries w @ [row]\<rparr>)))"

text \<open>The loop that keeps the first delivery of each alert.\<close>

fun first_per_alert ::
  "NotificationDelivery list \<Rightarrow> (nat \<rightharpoonup> NotificationDelivery) \<Rightarrow> (nat \<rightharpoonup> NotificationDelivery)" where
  "first_per_alert [] acc = acc"
| "first_per_alert (d # ds) acc =
     (case acc (dl_AlertID d) of
        Some _ \<Rightarrow> first_per_alert ds acc
      | None \<Rightarrow> first_per_alert ds (acc(dl_AlertID d \<mapsto> d)))"

definition NotificationDeliveryRepo_GetLatestByAlertIDs ::
  "env \<Rightarrow> nat list \<Rightarrow> (nat \<rightharpoonup> NotificationDelivery) io" where
  "NotificationDeliveryRepo_GetLatestByAlertIDs E alertIDs =
     (if alertIDs = [] then ret Map.empty
      else bnd (wrap ''list notification deliveries by alert ids: ''
             (statement E (\<lambda>_ w.
                (Inr (sort_key (\<lambda>d. (int (dl_AlertID d), - dl_CreatedAt d, - int (dl_ID d)))
                   (filter (\<lambda>d. dl_AlertID d \<in> set alertIDs) (deliveries w))), w))))
           (\<lambda>ds. ret (first_per_alert ds Map.empty)))"

subsection \<open>ssh_key_repo.go\<close>

definition SSHKeyRepo_Create :: "env \<Rightarrow> SSHKey \<Rightarrow> SSHKey io" where
  "SSHKeyRepo_Create E sshKey = wrap ''create ssh key: ''
     (statement E (\<lambda>now w.
        let row = sshKey\<lparr>sk_ID := seqs w TSSHKeys,
                         sk_CreatedAt := gorm_stamp (sk_CreatedAt sshKey) now,
                         sk_UpdatedAt := gorm_stamp (sk_UpdatedAt sshKey) now\<rparr>;
            w' = bump_seq TSSHKeys 1 w
        in if sk_Fingerprint sshKey \<in> set (map sk_Fingerprint (ssh_keys w))
           then (Inl (pg_duplicate_key ''idx_ssh_keys_fingerprint''), w')
           else (Inr row, w'\<lparr>ssh_keys := ssh_keys w @ [row]\<rparr>)))"

definition SSHKeyRepo_List :: "env \<Rightarrow> SSHKey list io" where
  "SSHKeyRepo_List E = wrap ''list ssh keys: ''
     (statement E (\<lambda>_ w. (Inr (sort_key (\<lambda>k. - int (sk_ID k)) (ssh_keys w)), w)))"

definition SSHKeyRepo_GetByID :: "env \<Rightarrow> nat \<Rightarrow> SSHKey io" where
  "SSHKeyRepo_GetByID E sshKeyID = wrap ''get ssh key by id: ''
     (statement E (\<lambda>_ w. case sql_first sk_ID (\<lambda>k. sk_ID k = sshKeyID) (ssh_keys w) of
        None \<Rightarrow> (Inl (Sentinel ErrRecordNotFound), w) | Some k \<Rightarrow> (Inr k, w)))"

definition SSHKeyRepo_UpdateName :: "env \<Rightarrow> nat \<Rightarrow> string \<Rightarrow> SSHKey io" where
  "SSHKeyRepo_UpdateName E sshKeyID name =
     bnd (wrap ''update ssh key name: ''
       (statement E (\<lambda>now w.
          (Inr (), w\<lparr>ssh_keys := sql_update (\<lambda>k. sk_ID k = sshKeyID)
                      (\<lambda>k. k\<lparr>sk_Name := name, sk_UpdatedAt := now\<rparr>) (ssh_keys w)\<rparr>))))
     (\<lambda>_. wrap ''get ssh key after rename: '' (SSHKeyRepo_GetByID E sshKeyID))"

definition SSHKeyRepo_DeleteByID :: "env \<Rightarrow> nat \<Rightarrow> unit io" where
  "SSHKeyRepo_DeleteByID E sshKeyID = wrap ''delete ssh key: ''
     (statement E (\<lambda>_ w. (Inr (), w\<lparr>ssh_keys := sql_delete (\<lambda>k. sk_ID k = sshKeyID) (ssh_keys w)\<rparr>)))"

subsection \<open>threshold_rule_repo.go\<close>

record ThresholdRuleDimension =
  td_PeriodType :: string
  td_MetricType :: string

definition gr_key :: "GlobalThresholdRule \<Rightarrow> string \<times> string" where
  "gr_key r = (gr_PeriodType r, gr_MetricType r)"

definition mr_key :: "MachineThresholdRule \<Rightarrow> nat \<times> string \<times> string" where
  "mr_key r = (mr_MachineID r, mr_PeriodType r, mr_MetricType r)"

definition gr_upd :: "GlobalThresholdRule \<Rightarrow> GlobalThresholdRule \<Rightarrow> GlobalThresholdRule" where
  "gr_upd old new =
     old\<lparr>gr_ThresholdMB := gr_ThresholdMB new, gr_Enabled := gr_Enabled new, gr_UpdatedAt := gr_UpdatedAt new\<rparr>"

definition mr_upd :: "MachineThresholdRule \<Rightarrow> MachineThresholdRule \<Rightarrow> MachineThresholdRule" where
  "mr_upd old new =
     old\<lparr>mr_ThresholdMB := mr_ThresholdMB new, mr_Enabled := mr_Enabled new, mr_UpdatedAt := mr_UpdatedAt new\<rparr>"

definition gr_fill :: "gotime \<Rightarrow> nat \<Rightarrow> GlobalThresholdRule \<Rightarrow> GlobalThresholdRule" where
  "gr_fill now n r =
     r\<lparr>gr_ID := n, gr_CreatedAt := gorm_stamp (gr_CreatedAt r) now, gr_UpdatedAt := gorm_stamp (gr_UpdatedAt r) now\<rparr>"

definition mr_fill :: "gotime \<Rightarrow> nat \<Rightarrow> MachineThresholdRule \<Rightarrow> MachineThresholdRule" where
  "mr_fill now n r =
     r\<lparr>mr_ID := n, mr_CreatedAt := gorm_stamp (mr_CreatedAt r) now, mr_UpdatedAt := gorm_stamp (mr_UpdatedAt r) now\<rparr>"

definition ThresholdRuleRepo_UpsertGlobalRules :: "env \<Rightarrow> GlobalThresholdRule list \<Rightarrow> unit io" where
  "ThresholdRuleRepo_UpsertGlobalRules E rules =
     (if rules = [] then ret ()
      else wrap ''upsert global threshold rules: ''
        (statement E (\<lambda>now w.
           let rows = number_rows (gr_fill now) (seqs w TGlobalRules) rules;
               w' = bump_seq TGlobalRules (length rules) w
           in if distinct (map gr_key rules)
              then (Inr (), w'\<lparr>global_rules := fold (sql_upsert gr_key gr_upd) rows (global_rules w)\<rparr>)
              else (Inl pg_upsert_twice, w'))))"

definition ThresholdRuleRepo_CreateGlobalRulesIfAbsent :: "env \<Rightarrow> GlobalThresholdRule list \<Rightarrow> nat io" where
  "ThresholdRuleRepo_CreateGlobalRulesIfAbsent E rules =
     (if rules = [] then ret 0
      else wrap ''create global threshold rules if absent: ''
        (statement E (\<lambda>now w.
           let rows = number_rows (gr_fill now) (seqs w TGlobalRules) rules;
               new = fold (sql_insert_ignore gr_key) rows (global_rules w)
           in (Inr (length new - length (global_rules w)),
               (bump_seq TGlobalRules (length rules) w)\<lparr>global_rules := new\<rparr>))))"

definition ThresholdRuleRepo_ListGlobalRules :: "env \<Rightarrow> GlobalThresholdRule list io" where
  "ThresholdRuleRepo_ListGlobalRules E = wrap ''list global threshold rules: ''
     (statement E (\<lambda>_ w. (Inr (sort_key gr_key (global_rules w)), w)))"

definition ThresholdRuleRepo_UpsertMachineRules :: "env \<Rightarrow> MachineThresholdRule list \<Rightarrow> unit io" where
  "ThresholdRuleRepo_UpsertMachineRules E rules =
     (if rules = [] then ret ()
      else wrap ''upsert machine threshold rules: ''
        (statement E (\<lambda>now w.
           let rows = number_rows (mr_fill now) (seqs w TMachineRules) rules;
               w' = bump_seq TMachineRules (length rules) w
           in if distinct (map mr_key rules)
              then (Inr (), w'\<lparr>machine_rules := fold (sql_upsert mr_key mr_upd) rows (machine_rules w)\<rparr>)
              else (Inl pg_upsert_twice, w'))))"

definition ThresholdRuleRepo_CreateMachineRulesIfAbsent :: "env \<Rightarrow> MachineThresholdRule list \<Rightarrow> nat io" where
  "ThresholdRuleRepo_CreateMachineRulesIfAbsent E rules =
     (if rules = [] then ret 0
      else wrap ''create machine threshold rules if absent: ''
        (statement E (\<lambda>now w.
           let rows = number_rows (mr_fill now) (seqs w TMachineRules) rules;
               new = fold (sql_insert_ignore mr_key) rows (machine_rules w)
           in (Inr (length new - length (machine_rules w)),
               (bump_seq TMachineRules (length rules) w)\<lparr>machine_rules := new\<rparr>))))"

definition in_dimension :: "MachineThresholdRule \<Rightarrow> ThresholdRuleDimension \<Rightarrow> bool" where
  "in_dimension r d \<longleftrightarrow> mr_PeriodType r = td_PeriodType d \<and> mr_MetricType r = td_MetricType d"

definition ThresholdRuleRepo_DeleteMachineRules ::
  "env \<Rightarrow> nat \<Rightarrow> ThresholdRuleDimension list \<Rightarrow> unit io" where
  "ThresholdRuleRepo_DeleteMachineRules E machineID dimensions =
     (if dimensions = [] then ret ()
      else wrap ''delete machine threshold rules: ''
        (statement E (\<lambda>_ w.
           (Inr (), w\<lparr>machine_rules :=
              sql_delete (\<lambda>r. mr_MachineID r = machineID \<and> list_ex (in_dimension r) dimensions)
                (machine_rules w)\<rparr>))))"

definition ThresholdRuleRepo_ReplaceMachineRules ::
  "env \<Rightarrow> nat \<Rightarrow> MachineThresholdRule list \<Rightarrow> ThresholdRuleDimension list \<Rightarrow> unit io" where
  "ThresholdRuleRepo_ReplaceMachineRules E machineID rules inheritedDimensions =
     (if rules = [] \<and> inheritedDimensions = [] then ret ()
      else wrap ''replace machine threshold rules: ''
        (transaction E
          (bnd (ThresholdRuleRepo_DeleteMachineRules E machineID inheritedDimensions) (\<lambda>_.
             ThresholdRuleRepo_UpsertMachineRules E rules))))"

definition ThresholdRuleRepo_ListMachineRulesByMachineIDs ::
  "env \<Rightarrow> nat list \<Rightarrow> MachineThresholdRule list io" where
  "ThresholdRuleRepo_ListMachineRulesByMachineIDs E machineIDs =
     (if machineIDs = [] then ret []
      else wrap ''list machine threshold rules by machine ids: ''
        (statement E (\<lambda>_ w.
           (Inr (sort_key mr_key (filter (\<lambda>r. mr_MachineID r \<in> set machineIDs) (machine_rules w))), w))))"

definition ThresholdRuleRepo_ListMachineRules :: "env \<Rightarrow> nat \<Rightarrow> MachineThresholdRule list io" where
  "ThresholdRuleRepo_ListMachineRules E machineID = wrap ''list machine threshold rules: ''
     (statement E (\<lambda>_ w.
        (Inr (sort_key (\<lambda>r. (mr_PeriodType r, mr_MetricType r))
           (filter (\<lambda>r. mr_MachineID r = machineID) (machine_rules w))), w)))"

subsection \<open>traffic_sample_repo.go\<close>

record TrafficSampleFilter =
  sf_MachineID :: "nat option"
  sf_PeriodType :: string
  sf_Page :: int
  sf_PageSize :: int

record TrafficSampleDeleteFilter =
  sd_MachineID :: "nat option"
  sd_PeriodType :: string
  sd_BeforeBucketTime :: "gotime option"
  sd_Limit :: int

definition ts_key :: "TrafficSample \<Rightarrow> nat \<times> string \<times> gotime" where
  "ts_key s = (ts_MachineID s, ts_PeriodType s, ts_BucketTime s)"

definition ts_upd :: "TrafficSample \<Rightarrow> TrafficSample \<Rightarrow> TrafficSample" where
  "ts_upd old new =
     old\<lparr>ts_UploadMB := ts_UploadMB new, ts_DownloadMB := ts_DownloadMB new, ts_TotalMB := ts_TotalMB new,
         ts_RawPayload := ts_RawPayload new, ts_CollectedAt := ts_CollectedAt new, ts_UpdatedAt := ts_UpdatedAt new\<rparr>"

definition ts_fill :: "gotime \<Rightarrow> nat \<Rightarrow> TrafficSample \<Rightarrow> TrafficSample" where
  "ts_fill now n s =
     s\<lparr>ts_ID := n, ts_CreatedAt := gorm_stamp (ts_CreatedAt s) now, ts_UpdatedAt := gorm_stamp (ts_UpdatedAt s) now\<rparr>"

definition TrafficSampleRepo_UpsertSamples :: "env \<Rightarrow> TrafficSample list \<Rightarrow> unit io" where
  "TrafficSampleRepo_UpsertSamples E smps =
     (if smps = [] then ret ()
      else wrap ''upsert traffic samples: ''
        (statement E (\<lambda>now w.
           let rows = number_rows (ts_fill now) (seqs w TSamples) smps;
               w' = bump_seq TSamples (length smps) w
           in if distinct (map ts_key smps)
              then (Inr (), w'\<lparr>samples := fold (sql_upsert ts_key ts_upd) rows (samples w)\<rparr>)
              else (Inl pg_upsert_twice, w'))))"

definition sample_listed :: "TrafficSampleFilter \<Rightarrow> TrafficSample \<Rightarrow> bool" where
  "sample_listed filt s \<longleftrightarrow>
     (case sf_MachineID filt of None \<Rightarrow> True | Some m \<Rightarrow> ts_MachineID s = m) \<and>
     (sf_PeriodType filt \<noteq> [] \<longrightarrow> ts_PeriodType s = sf_PeriodType filt)"

text \<open>\<^verbatim>\<open>ORDER BY bucket_time desc, period_type desc, machine_id asc, id asc\<close>: sorting by the last
  criterion first, each sort stable, and the descending one by reversal around a stable sort.\<close>

definition sample_order :: "TrafficSample list \<Rightarrow> TrafficSample list" where
  "sample_order rows =
     sort_key (\<lambda>s. - ts_BucketTime s)
       (rev (sort_key ts_PeriodType (rev (sort_key (\<lambda>s. (ts_MachineID s, ts_ID s)) rows))))"

definition TrafficSampleRepo_List :: "env \<Rightarrow> TrafficSampleFilter \<Rightarrow> (TrafficSample list \<times> nat) io" where
  "TrafficSampleRepo_List E filt =
     bnd (wrap ''count traffic samples: '' (statement E (\<lambda>_ w. (Inr (sql_count (sample_listed filt) (samples w)), w))))
     (\<lambda>total. let page = default_page (sf_Page filt);
                  pageSize = default_page_size (sf_PageSize filt)
      in bnd (wrap ''list traffic samples: '' (statement E (\<lambda>_ w.
           (Inr (sql_page (page_offset page pageSize) pageSize
                  (sample_order (filter (sample_listed filt) (samples w)))), w))))
         (\<lambda>rows. ret (rows, total)))"

definition sample_expired :: "TrafficSampleDeleteFilter \<Rightarrow> TrafficSample \<Rightarrow> bool" where
  "sample_expired filt s \<longleftrightarrow>
     (case sd_MachineID filt of None \<Rightarrow> True | Some m \<Rightarrow> ts_MachineID s = m) \<and>
     (sd_PeriodType filt \<noteq> [] \<longrightarrow> ts_PeriodType s = sd_PeriodType filt) \<and>
     (case sd_BeforeBucketTime filt of None \<Rightarrow> True | Some t \<Rightarrow> ts_BucketTime s < t)"

definition sample_victims :: "env \<Rightarrow> nat \<Rightarrow> TrafficSampleDeleteFilter \<Rightarrow> TrafficSample list \<Rightarrow> TrafficSample list" where
  "sample_victims E n filt rows =
     take (nat (sd_Limit filt))
       (sort_key (\<lambda>s. (ts_BucketTime s, tie_rank E n (ts_ID s))) (filter (sample_expired filt) rows))"

text \<open>With a limit, the identifiers are read first and deleted by a second statement. Without
  any condition gorm refuses the delete.\<close>

definition TrafficSampleRepo_DeleteBefore :: "env \<Rightarrow> TrafficSampleDeleteFilter \<Rightarrow> nat io" where
  "TrafficSampleRepo_DeleteBefore E filt =
     (if 0 < sd_Limit filt then
        bnd (wrap ''list traffic sample ids for delete: ''
          (statement E (\<lambda>_ w. (Inr (map ts_ID (sample_victims E (tick w) filt (samples w))), w))))
        (\<lambda>ids. if ids = [] then ret 0
           else wrap ''delete traffic samples by ids: ''
             (statement E (\<lambda>_ w.
                (Inr (sql_count (\<lambda>s. ts_ID s \<in> set ids) (samples w)),
                 w\<lparr>samples := sql_delete (\<lambda>s. ts_ID s \<in> set ids) (samples w)\<rparr>))))
      else wrap ''delete traffic samples: ''
        (statement E (\<lambda>_ w.
           if sd_MachineID filt = None \<and> sd_PeriodType filt = [] \<and> sd_BeforeBucketTime filt = None
           then (Inl (Foreign ''WHERE conditions required''), w)
           else (Inr (sql_count (sample_expired filt) (samples w)),
                 w\<lparr>samples := sql_delete (sample_expired filt) (samples w)\<rparr>))))"

section \<open>The tables with a unique index\<close>

interpretation alert_tbl: keyed_table al_AlertKey "\<lambda>old _. old"
  by unfold_locales simp

interpretation setting_tbl: keyed_table st_SettingKey setting_upd
  by unfold_locales (simp add: setting_upd_def)

interpretation channel_tbl: keyed_table ch_ChannelType channel_upd
  by unfold_locales (simp add: channel_upd_def)

interpretation grule_tbl: keyed_table gr_key gr_upd
  by unfold_locales (simp add: gr_upd_def gr_key_def)

interpretation mrule_tbl: keyed_table mr_key mr_upd
  by unfold_locales (simp add: mr_upd_def mr_key_def)

interpretation sample_tbl: keyed_table ts_key ts_upd
  by unfold_locales (simp add: ts_upd_def ts_key_def)

interpretation key_tbl: keyed_table sk_Fingerprint "\<lambda>old _. old"
  by unfold_locales simp

interpretation admin_tbl: keyed_table adm_Username "\<lambda>old _. old"
  by unfold_locales simp

section \<open>Execution without database failures\<close>

text \<open>The world after \<open>n\<close> external calls that changed nothing.\<close>

definition ticked :: "nat \<Rightarrow> world \<Rightarrow> world" where
  "ticked n w = w\<lparr>tick := tick w + n\<rparr>"

lemma ticked_simps [simp]:
  "w\<lparr>tick := Suc (tick w)\<rparr> = ticked 1 w"
  "ticked n (ticked m w) = ticked (m + n) w"
  "tick (ticked n w) = tick w + n"
  "seqs (ticked n w) = seqs w" "admins (ticked n w) = admins w" "alerts (ticked n w) = alerts w"
  "channels (ticked n w) = channels w" "proxies (ticked n w) = proxies w"
  "deliveries (ticked n w) = deliveries w" "settings (ticked n w) = settings w"
  "machines (ticked n w) = machines w" "ssh_keys (ticked n w) = ssh_keys w"
  "global_rules (ticked n w) = global_rules w" "machine_rules (ticked n w) = machine_rules w"
  "samples (ticked n w) = samples w" "outbox (ticked n w) = outbox w" "ssh_log (ticked n w) = ssh_log w"
  by (simp_all add: ticked_def add.assoc)

lemma sql_first_None: "sql_first pk p rows = None \<longleftrightarrow> (\<forall>r\<in>set rows. \<not> p r)"
proof -
  have "sql_first pk p rows = None \<longleftrightarrow> sort_key pk (filter p rows) = []"
    by (simp add: sql_first_def split: list.split)
  also have "\<dots> \<longleftrightarrow> filter p rows = []"
    by (metis length_0_conv length_sort)
  finally show ?thesis by (simp add: filter_empty_conv)
qed

lemma sql_first_Some:
  assumes "sql_first pk p rows = Some r"
  shows "r \<in> set rows \<and> p r"
proof -
  from assms obtain rs where "sort_key pk (filter p rows) = r # rs"
    by (auto simp: sql_first_def split: list.splits)
  then have "r \<in> set (sort_key pk (filter p rows))" by simp
  then show ?thesis by simp
qed

lemma run_transaction [run_simps]:
  assumes "no_faults E"
  shows "transaction E m w =
     (case m (ticked 1 w) of (Inl e, w') \<Rightarrow> (Inl e, rollback w w') | (Inr x, w') \<Rightarrow> (Inr x, ticked 1 w'))"
  using assms by (auto simp: transaction_def run_simps split: prod.splits sum.splits)

lemma transaction_error:
  assumes "transaction E m w = (Inl e, w')"
  obtains w1 where "w' = rollback w w1"
  using assms by (auto simp: transaction_def split: prod.splits sum.splits)

lemma statement_error:
  assumes "statement E f w = (Inl e, w')"
  obtains "w' = ticked 1 w" | "f (clk E (tick w)) (ticked 1 w) = (Inl e, w')"
  using assms by (auto simp: statement_def Let_def split: option.splits)

lemma wrap_error:
  assumes "wrap msg m w = (Inl e, w')"
  obtains e' where "m w = (Inl e', w')" and "e = Wrapf msg e' []"
  using assms by (auto simp: run_simps split: prod.splits sum.splits)

lemma run_wrap_snd [simp]: "snd (wrap msg m w) = snd (m w)"
  by (simp add: run_wrap split: prod.split sum.split)

lemma keeps_transaction:
  assumes "keeps I m" and "tick_free I" and "\<And>w w'. I w \<Longrightarrow> I (rollback w w')"
  shows "keeps I (transaction E m)"
proof -
  have "keeps I (bnd (statement E (\<lambda>_. ret ())) (\<lambda>_. bnd m (\<lambda>x. bnd (statement E (\<lambda>_. ret ())) (\<lambda>_. ret x))))"
    by (intro keeps_bnd keeps_statement keeps_ret assms)
  with assms(3) show ?thesis
    by (auto simp: keeps_def transaction_def split: prod.splits sum.splits dest: spec [where x = w for w])
qed

lemma run_GetMachine [run_simps]:
  assumes "no_faults E"
  shows "MachineRepo_GetByID E i w =
     (case sql_first mc_ID (\<lambda>m. mc_ID m = i) (machines w) of
        None \<Rightarrow> (Inl (Wrapf ''get machine by id: '' (Sentinel ErrRecordNotFound) []), ticked 1 w)
      | Some m \<Rightarrow> (Inr m, ticked 1 w))"
  using assms by (simp add: MachineRepo_GetByID_def run_simps split: option.split)

lemma keeps_get_machine: "tick_free I \<Longrightarrow> keeps I (MachineRepo_GetByID E i)"
  unfolding MachineRepo_GetByID_def
  by (intro keeps_intros keeps_statement) (auto simp: keeps_def split: option.split)

lemma find_machine:
  assumes "mid \<in> mc_ID ` set (machines w)"
  obtains m where "sql_first mc_ID (\<lambda>m. mc_ID m = mid) (machines w) = Some m"
  using assms by (metis (mono_tags, lifting) imageE not_None_eq sql_first_None)

text \<open>Two states with the same tables: they may differ in the call counter, the sequences and the
  logs of what was sent.\<close>

definition same_tables :: "world \<Rightarrow> world \<Rightarrow> bool" where
  "same_tables w v \<longleftrightarrow> admins v = admins w \<and> alerts v = alerts w \<and> channels v = channels w \<and> proxies v = proxies w \<and>
     deliveries v = deliveries w \<and> settings v = settings w \<and> machines v = machines w \<and> ssh_keys v = ssh_keys w \<and>
     global_rules v = global_rules w \<and> machine_rules v = machine_rules w \<and> samples v = samples w"

lemma same_tables_refl [simp]: "same_tables w w"
  by (simp add: same_tables_def)

lemma same_tables_ticked [simp]: "same_tables w (ticked n v) = same_tables w v"
  by (simp add: same_tables_def)

lemma same_tables_updates [simp]:
  "same_tables w (v\<lparr>tick := n\<rparr>) = same_tables w v" "same_tables w (v\<lparr>ssh_log := l\<rparr>) = same_tables w v"
  "same_tables w (v\<lparr>outbox := b\<rparr>) = same_tables w v" "same_tables w (v\<lparr>seqs := q\<rparr>) = same_tables w v"
  by (simp_all add: same_tables_def)

lemma same_tables_rollback [simp]: "same_tables w (rollback w v)"
  by (simp add: same_tables_def rollback_def)

lemma tick_free_same_tables [simp]: "tick_free (same_tables w)"
  by (simp add: tick_free_def)

end
