(* ===== verification/Example.thy ===== *)
theory Example
  imports Repo
begin

text \<open>
  A concrete environment and an empty database, on which the examples of the other theories
  evaluate the model: the database never fails, the clock shows one second per external call
  from a fixed instant on, rounding to float64 is the identity, and the encoders and ciphers are
  simple functions with the documented round trips.
\<close>

definition example_env :: env where
  "example_env =
     \<lparr>db_fault = (\<lambda>_. None),
      tie_rank = (\<lambda>_ i. i),
      clk = (\<lambda>n. (1700000000 + int n) * second_ns),
      fl = (\<lambda>x. x),
      uni_lower = (\<lambda>s. s),
      uni_upper = (\<lambda>s. s),
      json_vnstat = (\<lambda>_. Inl ''invalid character''),
      webhook_encode = (\<lambda>c. wc_URL c),
      webhook_decode = (\<lambda>s. (\<lparr>wc_URL = s, wc_Method = ''POST'', wc_Headers = [], wc_Body = [], wc_ProxyID = None\<rparr>, None)),
      telegram_encode = (\<lambda>c. tc_BotToken c),
      telegram_decode = (\<lambda>s. (\<lparr>tc_BotToken = s, tc_ChatID = ''1'', tc_Message = [], tc_ProxyID = None\<rparr>, None)),
      json_object = (\<lambda>s. Some (JObj [])),
      json_print = (\<lambda>_. ''{}''),
      marshal_map = (\<lambda>_. Inr ''{}''),
      preview_decode = (\<lambda>s. Inr \<lparr>wp_Method = ''POST'', wp_URL = s, wp_Headers = [], wp_Body = []\<rparr>),
      test_webhook_encode = (\<lambda>r. tw_Body r),
      template_run = (\<lambda>s _. Inr s),
      url_Parse = (\<lambda>s. Some \<lparr>url_Scheme = ''https'', url_User = None, url_Hostname = s, url_Rest = []\<rparr>),
      url_String = (\<lambda>u. url_Hostname u),
      xproxy_ok = (\<lambda>_. True),
      new_request = (\<lambda>_ _. None),
      http_Do = (\<lambda>_ _ _. Inr \<lparr>hs_StatusCode = 200, hs_Body = ''ok'', hs_ReadErr = None\<rparr>),
      ssh_ParsePrivateKey = (\<lambda>s. Inr \<lparr>pk_Type = ''ssh-ed25519'', pk_Authorized = ''ssh-ed25519 '' @ s,
                                       pk_Fingerprint = ''SHA256:'' @ s\<rparr>),
      tcp_dial = (\<lambda>_ _. None),
      ssh_client_conn = (\<lambda>_ _ _. None),
      ssh_session = (\<lambda>_. None),
      ssh_output = (\<lambda>_ _. SSHDone [] None),
      rand_bytes = (\<lambda>_ n. Inr (replicate n (CHR ''r''))),
      ed25519_key = (\<lambda>n. Inr (''private'', \<lparr>pk_Type = ''ssh-ed25519'', pk_Authorized = ''ssh-ed25519 AAAA'',
                                              pk_Fingerprint = ''SHA256:AAAA''\<rparr>)),
      gcm_seal = (\<lambda>k nonce s. s @ k),
      gcm_open = (\<lambda>k nonce s. if suffix k s then Some (take (length s - length k) s) else None),
      pbkdf2_key = (\<lambda>pw salt iter len. take len (pw @ replicate len (CHR ''0''))),
      bcrypt_hash = (\<lambda>_ pw. Inr (CHR ''$'' # pw)),
      bcrypt_match = (\<lambda>h pw. h = CHR ''$'' # pw)\<rparr>"

definition empty_world :: world where
  "empty_world =
     \<lparr>tick = 0, seqs = (\<lambda>_. 1), admins = [], alerts = [], channels = [], proxies = [], deliveries = [],
      settings = [], machines = [], ssh_keys = [], global_rules = [], machine_rules = [], samples = [],
      outbox = [], ssh_log = []\<rparr>"

definition example_machine :: Machine where
  "example_machine =
     \<lparr>mc_ID = 1, mc_CreatedAt = 0, mc_UpdatedAt = 0, mc_Name = ''web'', mc_Host = ''10.0.0.1'', mc_Port = 22,
      mc_SSHUser = ''root'', mc_NetworkInterface = ''eth0'', mc_SSHKeyID = 1, mc_CollectEnabled = True,
      mc_Remark = []\<rparr>"

lemma example_no_faults [simp]: "no_faults example_env"
  by (simp add: no_faults_def example_env_def)

lemma example_fl [simp]: "fl example_env x = x"
  by (simp add: example_env_def suffix_def)

lemma example_seal_open: "gcm_open example_env k n (gcm_seal example_env k n s) = Some s"
  by (simp add: example_env_def suffix_def)

end
