(* ===== verification/Protector.thy ===== *)
theory Protector
  imports Example
begin

text \<open>
  The data protector of \<^verbatim>\<open>internal/bootstrap/crypto.go\<close>, with which private SSH keys are stored:
  AES-GCM under the application's master key, a random nonce in front of the ciphertext, and
  Base64 around both. The Base64 coding of the Go standard library is defined and its round trip
  proved; AES-GCM is a parameter whose only assumed law is that opening undoes sealing.
  The locale \<open>key_protector\<close> is the interface \<^verbatim>\<open>SSHKeyProtector\<close> the services use.
\<close>

section \<open>Base64\<close>

definition b64_char :: "nat \<Rightarrow> char" where
  "b64_char n = char_of (if n < 26 then 65 + n else if n < 52 then 71 + n else if n < 62 then n - 4
                         else if n = 62 then 43 else 47 :: nat)"

definition b64_value :: "char \<Rightarrow> nat option" where
  "b64_value c =
     (let n = (of_char c :: nat)
      in if 65 \<le> n \<and> n \<le> 90 then Some (n - 65)
         else if 97 \<le> n \<and> n \<le> 122 then Some (n - 71)
         else if 48 \<le> n \<and> n \<le> 57 then Some (n + 4)
         else if n = 43 then Some 62 else if n = 47 then Some 63 else None)"

fun b64_encode :: "string \<Rightarrow> string" where
  "b64_encode [] = []"
| "b64_encode [a] =
     [b64_char (of_char a div 4), b64_char (of_char a mod 4 * 16), CHR ''='', CHR ''='']"
| "b64_encode [a, b] =
     [b64_char (of_char a div 4), b64_char (of_char a mod 4 * 16 + of_char b div 16),
      b64_char (of_char b mod 16 * 4), CHR ''='']"
| "b64_encode (a # b # c # rest) =
     b64_char (of_char a div 4) # b64_char (of_char a mod 4 * 16 + of_char b div 16)
     # b64_char (of_char b mod 16 * 4 + of_char c div 64) # b64_char (of_char c mod 64) # b64_encode rest"

text \<open>Decoding skips line breaks, wants padded groups of four and does not look at unused bits.\<close>

fun b64_groups :: "string \<Rightarrow> string option" where
  "b64_groups [] = Some []"
| "b64_groups (p # q # r # s # rest) =
     (case (b64_value p, b64_value q) of
        (Some v, Some x) \<Rightarrow>
          (let first = char_of (v * 4 + x div 16 :: nat)
           in if r = CHR ''='' then (if s = CHR ''='' \<and> rest = [] then Some [first] else None)
              else case b64_value r of
                     None \<Rightarrow> None
                   | Some y \<Rightarrow>
                       (let second = char_of (x mod 16 * 16 + y div 4 :: nat)
                        in if s = CHR ''='' then (if rest = [] then Some [first, second] else None)
                           else case b64_value s of
                                  None \<Rightarrow> None
                                | Some z \<Rightarrow>
                                    map_option (\<lambda>t. first # second # char_of (y mod 4 * 64 + z :: nat) # t)
                                      (b64_groups rest)))
      | _ \<Rightarrow> None)"
| "b64_groups _ = None"

definition b64_decode :: "string \<Rightarrow> string option" where
  "b64_decode s = b64_groups (filter (\<lambda>c. c \<noteq> CHR 0x0A \<and> c \<noteq> CHR 0x0D) s)"

section \<open>The protector\<close>

definition aes_key_size_ok :: "string \<Rightarrow> bool" where
  "aes_key_size_ok key \<longleftrightarrow> length key = 16 \<or> length key = 24 \<or> length key = 32"

definition gcm_NonceSize :: nat where "gcm_NonceSize = 12"

definition key_size_error :: "string \<Rightarrow> go_error" where
  "key_size_error key =
     Wrapf ''create cipher: '' (Foreign (''crypto/aes: invalid key size '' @ show_nat (length key))) []"

definition DataProtector_Encrypt :: "env \<Rightarrow> string \<Rightarrow> string \<Rightarrow> string io" where
  "DataProtector_Encrypt E key plaintext =
     (if \<not> aes_key_size_ok key then fail (key_size_error key)
      else bnd (external (\<lambda>n. rand_bytes E n gcm_NonceSize)) (\<lambda>r.
        case r of
          Inl e \<Rightarrow> fail (Wrapf ''generate nonce: '' (Foreign e) [])
        | Inr nonce \<Rightarrow> ret (b64_encode (nonce @ gcm_seal E key nonce plaintext))))"

definition DataProtector_Decrypt :: "env \<Rightarrow> string \<Rightarrow> string \<Rightarrow> go_error + string" where
  "DataProtector_Decrypt E key ciphertext =
     (case b64_decode ciphertext of
        None \<Rightarrow> Inl (Wrapf ''decode ciphertext: '' (Foreign ''illegal base64 data'') [])
      | Some rawCiphertext \<Rightarrow>
          if \<not> aes_key_size_ok key then Inl (key_size_error key)
          else if length rawCiphertext < gcm_NonceSize then Inl (Foreign ''ciphertext too short'')
          else case gcm_open E key (take gcm_NonceSize rawCiphertext) (drop gcm_NonceSize rawCiphertext) of
                 None \<Rightarrow> Inl (Wrapf ''decrypt ciphertext: '' (Foreign ''cipher: message authentication failed'') [])
               | Some plaintext \<Rightarrow> Inr plaintext)"

section \<open>Base64 round trip\<close>

lemma b64_value_char: "n < 64 \<Longrightarrow> b64_value (b64_char n) = Some n"
  by (auto simp: b64_value_def b64_char_def Let_def)

lemma b64_char_code:
  "n < 64 \<Longrightarrow> (of_char (b64_char n) :: nat) =
     (if n < 26 then 65 + n else if n < 52 then 71 + n else if n < 62 then n - 4 else if n = 62 then 43 else 47)"
  by (auto simp: b64_char_def)

lemma b64_char_plain:
  assumes "n < 64"
  shows "b64_char n \<noteq> CHR ''=''" "b64_char n \<noteq> CHR 0x0A" "b64_char n \<noteq> CHR 0x0D"
  using b64_char_code [OF assms] assms by (auto split: if_splits)

lemma char_code_bound: "of_char c < (256 :: nat)"
  by (metis UNIV_I atLeastLessThan_iff imageI range_nat_of_char)

lemma b64_digits:
  fixes a b c :: nat
  assumes "a < 256" and "b < 256" and "c < 256"
  shows "a div 4 < 64" and "a mod 4 * 16 + b div 16 < 64" and "b mod 16 * 4 + c div 64 < 64" and "c mod 64 < 64"
    and "a mod 4 * 16 < 64" and "b mod 16 * 4 < 64"
proof -
  have "a mod 4 \<le> 3" "b mod 16 \<le> 15" "b div 16 \<le> 15" "c div 64 \<le> 3" "a div 4 \<le> 63"
    using assms by auto
  then show "a div 4 < 64" "a mod 4 * 16 + b div 16 < 64" "b mod 16 * 4 + c div 64 < 64" "c mod 64 < 64"
    "a mod 4 * 16 < 64" "b mod 16 * 4 < 64" by simp_all
qed

lemma b64_carry:
  "(of_char b :: nat) div 16 mod 16 = of_char b div 16" "(of_char c :: nat) div 64 mod 4 = of_char c div 64"
  "(of_char b :: nat) div 16 div 16 = 0" "(of_char c :: nat) div 64 div 4 = 0"
proof -
  have "(of_char b :: nat) div 16 < 16" "(of_char c :: nat) div 64 < 4"
    using char_code_bound [of b] char_code_bound [of c] by (simp_all add: less_mult_imp_div_less)
  then show "(of_char b :: nat) div 16 mod 16 = of_char b div 16" "(of_char c :: nat) div 64 mod 4 = of_char c div 64"
    "(of_char b :: nat) div 16 div 16 = 0" "(of_char c :: nat) div 64 div 4 = 0" by simp_all
qed

lemmas b64_digit_bounds = b64_digits [OF char_code_bound char_code_bound char_code_bound]

lemma b64_encode_plain: "filter (\<lambda>c. c \<noteq> CHR 0x0A \<and> c \<noteq> CHR 0x0D) (b64_encode s) = b64_encode s"
  by (induction s rule: b64_encode.induct) (simp_all add: b64_char_plain b64_digit_bounds)

lemma b64_groups_encode: "b64_groups (b64_encode s) = Some s"
  by (induction s rule: b64_encode.induct)
    (simp_all add: b64_value_char b64_char_plain b64_digit_bounds b64_carry)

lemma b64_round_trip [simp]: "b64_decode (b64_encode s) = Some s"
  by (simp add: b64_decode_def b64_encode_plain b64_groups_encode)

section \<open>The interface of the services\<close>

locale key_protector =
  fixes encrypt :: "string \<Rightarrow> string io"
    and decrypt :: "string \<Rightarrow> go_error + string"
    and sound :: bool
  assumes decrypt_encrypt: "sound \<Longrightarrow> encrypt plain w = (Inr cipher, w') \<Longrightarrow> decrypt cipher = Inr plain"
    and encrypt_pure: "\<exists>n. snd (encrypt plain w) = ticked n w"
begin

text \<open>Storing a secret and reading it back at any later time gives the secret.\<close>

lemma stored_secret:
  assumes sound and "bnd (encrypt plain) k w = (Inr x, w')"
  obtains cipher w1 where "k cipher w1 = (Inr x, w')" and "decrypt cipher = Inr plain"
  using assms(2) by (rule bnd_InrE) (use assms(1) decrypt_encrypt in blast)

lemma keeps_encrypt:
  assumes "tick_free I"
  shows "keeps I (encrypt plain)"
  unfolding keeps_def
proof (intro allI impI)
  fix w assume "I w"
  moreover obtain n where "snd (encrypt plain w) = ticked n w" using encrypt_pure by blast
  ultimately show "I (snd (encrypt plain w))"
    using assms by (simp add: tick_free_def ticked_def)
qed

end

text \<open>What is assumed of AES-GCM and of the random source: opening undoes sealing, and a nonce
  has the length asked for.\<close>

definition gcm_sound :: "env \<Rightarrow> bool" where
  "gcm_sound E \<longleftrightarrow> (\<forall>k n p. gcm_open E k n (gcm_seal E k n p) = Some p) \<and>
     (\<forall>i l bs. rand_bytes E i l = Inr bs \<longrightarrow> length bs = l)"

lemma decrypt_after_encrypt:
  assumes "gcm_sound E" and "DataProtector_Encrypt E key plain w = (Inr cipher, w')"
  shows "DataProtector_Decrypt E key cipher = Inr plain"
proof -
  from assms(2) obtain nonce where "aes_key_size_ok key" and n: "rand_bytes E (tick w) gcm_NonceSize = Inr nonce"
    and c: "cipher = b64_encode (nonce @ gcm_seal E key nonce plain)"
    by (auto simp: DataProtector_Encrypt_def run_simps split: if_splits sum.splits)
  moreover from assms(1) n have "length nonce = gcm_NonceSize" by (auto simp: gcm_sound_def)
  ultimately show ?thesis
    using assms(1) by (simp add: DataProtector_Decrypt_def gcm_sound_def)
qed

interpretation protector: key_protector
    "DataProtector_Encrypt E key" "DataProtector_Decrypt E key" "gcm_sound E" for E key
proof unfold_locales
  show "\<exists>n. snd (DataProtector_Encrypt E key plain w) = ticked n w" for plain w
  proof (cases "aes_key_size_ok key")
    case True
    then show ?thesis
      by (intro exI [of _ 1]) (simp add: DataProtector_Encrypt_def run_simps split: sum.split)
  next
    case False
    then show ?thesis
      by (intro exI [of _ 0]) (simp add: DataProtector_Encrypt_def run_simps ticked_def)
  qed
qed (rule decrypt_after_encrypt)

text \<open>C11. What the data protector encrypts it decrypts to the same bytes, for every master key of a
  legal size and every random nonce.\<close>

theorem encrypt_decrypt_round_trip:
  assumes "gcm_sound E" and "DataProtector_Encrypt E key plain w = (Inr cipher, w')"
  shows "DataProtector_Decrypt E key cipher = Inr plain"
  using assms by (rule protector.decrypt_encrypt)

lemma example_gcm_sound: "gcm_sound example_env"
  by (auto simp: gcm_sound_def example_seal_open) (simp add: example_env_def)

theorem encrypt_decrypt_round_trip_witness:
  "DataProtector_Decrypt example_env (replicate 32 (CHR ''k''))
     (b64_encode (replicate 12 (CHR ''r'') @ ''secret'' @ replicate 32 (CHR ''k''))) = Inr ''secret''"
  by (rule encrypt_decrypt_round_trip [where w = empty_world and w' = "ticked 1 empty_world", OF example_gcm_sound])
    (simp add: DataProtector_Encrypt_def run_simps aes_key_size_ok_def gcm_NonceSize_def example_env_def
      ticked_def empty_world_def)

end
