(* ===== verification/Config.thy ===== *)
theory Config
  imports Protector
begin

text \<open>
  The configuration of \<^verbatim>\<open>internal/config/config.go\<close>: its structs, the decoding of the master key in
  the four Base64 flavours of the Go standard library, and \<^verbatim>\<open>Config.Validate\<close>. Reading the values
  from files and environment variables is the work of the viper library and not modelled:
  the theorems are about the configuration that comes out of it. Durations are nanoseconds.
\<close>

section \<open>The structs\<close>

record AppConfig =
  ac_Name :: string
  ac_Env :: string

record CollectorConfig =
  co_Enabled :: bool
  co_Interval :: int
  co_MaxWorkers :: int
  co_RetryTimes :: int

record HistoryCleanupConfig =
  hc_Enabled :: bool
  hc_Interval :: int
  hc_SamplesDays :: int
  hc_AlertsDays :: int
  hc_BatchSize :: int
  hc_Timeout :: int

record HTTPConfig =
  ht_Addr :: string
  ht_ReadTimeout :: int
  ht_StopTimeout :: int
  ht_WriteTimeout :: int

record DatabaseConfig =
  db_DSN :: string
  db_MaxIdleConns :: int
  db_MaxOpenConns :: int
  db_ConnMaxLifetime :: int
  db_PingTimeout :: int

record LogConfig =
  lg_Level :: string
  lg_Format :: string

record SessionConfig =
  se_Secret :: string
  se_CookieName :: string
  se_MaxAge :: int
  se_Secure :: bool

record SecurityConfig =
  sc_AppMasterKey :: string

record SSHConfig =
  sh_DialTimeout :: int
  sh_CommandTimeout :: int

record BootstrapConfig =
  bs_InitAdminUsername :: string
  bs_InitAdminPassword :: string

record RestoreConfig =
  rs_Mode :: string
  rs_Token :: string

record Config =
  cf_App :: AppConfig
  cf_Collector :: CollectorConfig
  cf_HistoryCleanup :: HistoryCleanupConfig
  cf_HTTP :: HTTPConfig
  cf_Database :: DatabaseConfig
  cf_Log :: LogConfig
  cf_Session :: SessionConfig
  cf_SSH :: SSHConfig
  cf_Security :: SecurityConfig
  cf_Bootstrap :: BootstrapConfig
  cf_Restore :: RestoreConfig

section \<open>The master key\<close>

text \<open>The URL alphabet has \<^verbatim>\<open>-\<close> and \<^verbatim>\<open>_\<close> in place of \<^verbatim>\<open>+\<close> and \<^verbatim>\<open>/\<close>, which it does not accept. An
  unpadded coding accepts no padding; its last group may be short.\<close>

definition url_to_std :: "char \<Rightarrow> char" where
  "url_to_std c = (if c = CHR ''-'' then CHR ''+'' else if c = CHR ''_'' then CHR ''/''
                   else if c = CHR ''+'' \<or> c = CHR ''/'' then CHR ''!'' else c)"

definition line_free :: "string \<Rightarrow> string" where
  "line_free s = filter (\<lambda>c. c \<noteq> CHR 0x0A \<and> c \<noteq> CHR 0x0D) s"

definition raw_groups :: "string \<Rightarrow> string option" where
  "raw_groups s = (if CHR ''='' \<in> set s then None else b64_groups (s @ replicate ((4 - length s mod 4) mod 4) (CHR ''='')))"

datatype base64_encoding = StdEncoding | RawStdEncoding | URLEncoding | RawURLEncoding

fun DecodeString :: "base64_encoding \<Rightarrow> string \<Rightarrow> string option" where
  "DecodeString StdEncoding s = b64_groups (line_free s)"
| "DecodeString RawStdEncoding s = raw_groups (line_free s)"
| "DecodeString URLEncoding s = b64_groups (map url_to_std (line_free s))"
| "DecodeString RawURLEncoding s = raw_groups (map url_to_std (line_free s))"

definition quote_runes :: "string list" where
  "quote_runes = [[CHR 0x22], [CHR 0x27]]"

text \<open>\<^verbatim>\<open>strings.Trim(s, "\"'")\<close>\<close>

definition TrimQuotes :: "string \<Rightarrow> string" where
  "TrimQuotes s = rev (trim_with quote_runes (rev (trim_with quote_runes s)))"

definition masterKeyBytes :: nat where "masterKeyBytes = 32"

definition key_size_message :: "nat \<Rightarrow> go_error" where
  "key_size_message n = Foreign (''security.app_master_key must decode to '' @ show_nat masterKeyBytes @ '' bytes, got ''
     @ show_nat n @ ''; generate one with: openssl rand -base64 '' @ show_nat masterKeyBytes)"

text \<open>The loop over the encodings: the first one that decodes decides. The position of the bad
  byte in the decoder's error text is left out.\<close>

fun decode_key :: "string \<Rightarrow> base64_encoding list \<Rightarrow> go_error + string" where
  "decode_key raw [] =
     Inl (Wrapf ''security.app_master_key is not valid base64: '' (Foreign ''illegal base64 data'')
       ('' (length '' @ show_nat (length raw) @ '' after trimming quotes and whitespace); generate one with: openssl rand -base64 ''
         @ show_nat masterKeyBytes))"
| "decode_key raw (encoding # encodings) =
     (case DecodeString encoding raw of
        None \<Rightarrow> decode_key raw encodings
      | Some key \<Rightarrow> if length key \<noteq> masterKeyBytes then Inl (key_size_message (length key)) else Inr key)"

definition SecurityConfig_MasterKey :: "SecurityConfig \<Rightarrow> go_error + string" where
  "SecurityConfig_MasterKey cfg =
     (let raw = TrimQuotes (TrimSpace (sc_AppMasterKey cfg))
      in if raw = [] then Inl (Foreign ''security.app_master_key is required'')
         else decode_key raw [StdEncoding, RawStdEncoding, URLEncoding, RawURLEncoding])"

definition NewDataProtector :: "SecurityConfig \<Rightarrow> go_error + string" where
  "NewDataProtector cfg =
     (case SecurityConfig_MasterKey cfg of
        Inl e \<Rightarrow> Inl (Wrapf ''decode app master key: '' e [])
      | Inr key \<Rightarrow> Inr key)"

section \<open>Validation\<close>

definition RestoreModeAdminPassword :: string where
  "RestoreModeAdminPassword = ''admin-password''"

definition RestoreConfig_Enabled :: "RestoreConfig \<Rightarrow> bool" where
  "RestoreConfig_Enabled cfg \<longleftrightarrow> rs_Mode cfg = RestoreModeAdminPassword"

definition invalid :: "string \<Rightarrow> go_error option" where
  "invalid msg = Some (Foreign msg)"

definition Config_Validate :: "Config \<Rightarrow> go_error option" where
  "Config_Validate cfg =
    (let co = cf_Collector cfg; hc = cf_HistoryCleanup cfg; ht = cf_HTTP cfg; db = cf_Database cfg;
         se = cf_Session cfg; sh = cf_SSH cfg; bs = cf_Bootstrap cfg; rs = cf_Restore cfg
     in if ht_Addr ht = [] then invalid ''http.addr is required''
        else if co_Interval co \<le> 0 then invalid ''collector.interval must be greater than zero''
        else if co_MaxWorkers co \<le> 0 then invalid ''collector.max_workers must be greater than zero''
        else if co_RetryTimes co < 0 then invalid ''collector.retry_times must be greater than or equal to zero''
        else if hc_Enabled hc \<and> hc_Interval hc \<le> 0 then invalid ''history_cleanup.interval must be greater than zero''
        else if hc_Enabled hc \<and> hc_SamplesDays hc \<le> 0 then invalid ''history_cleanup.samples_days must be greater than zero''
        else if hc_Enabled hc \<and> hc_AlertsDays hc \<le> 0 then invalid ''history_cleanup.alerts_days must be greater than zero''
        else if hc_Enabled hc \<and> hc_BatchSize hc \<le> 0 then invalid ''history_cleanup.batch_size must be greater than zero''
        else if hc_Enabled hc \<and> hc_Timeout hc \<le> 0 then invalid ''history_cleanup.timeout must be greater than zero''
        else if db_DSN db = [] then invalid ''database.dsn is required''
        else if db_MaxIdleConns db < 0 then invalid ''database.max_idle_conns must be greater than or equal to zero''
        else if db_MaxOpenConns db \<le> 0 then invalid ''database.max_open_conns must be greater than zero''
        else if db_ConnMaxLifetime db \<le> 0 then invalid ''database.conn_max_lifetime must be greater than zero''
        else if db_PingTimeout db \<le> 0 then invalid ''database.ping_timeout must be greater than zero''
        else if ht_ReadTimeout ht \<le> 0 then invalid ''http.read_timeout must be greater than zero''
        else if ht_WriteTimeout ht \<le> 0 then invalid ''http.write_timeout must be greater than zero''
        else if ht_StopTimeout ht \<le> 0 then invalid ''http.stop_timeout must be greater than zero''
        else if se_Secret se = [] then invalid ''session.secret is required''
        else if se_CookieName se = [] then invalid ''session.cookie_name is required''
        else if se_MaxAge se \<le> 0 then invalid ''session.max_age must be greater than zero''
        else if sh_DialTimeout sh \<le> 0 then invalid ''ssh.dial_timeout must be greater than zero''
        else if sh_CommandTimeout sh \<le> 0 then invalid ''ssh.command_timeout must be greater than zero''
        else case SecurityConfig_MasterKey (cf_Security cfg) of
               Inl e \<Rightarrow> Some e
             | Inr _ \<Rightarrow>
                 if (bs_InitAdminUsername bs = []) \<noteq> (bs_InitAdminPassword bs = [])
                 then invalid ''bootstrap init admin username and password must be configured together''
                 else if rs_Mode rs \<noteq> [] \<and> rs_Mode rs \<noteq> RestoreModeAdminPassword
                 then invalid (''restore.mode must be empty or '' @ [CHR 0x22] @ RestoreModeAdminPassword @ [CHR 0x22])
                 else if RestoreConfig_Enabled rs \<and> length (TrimSpace (rs_Token rs)) < 32
                 then invalid ''restore.token must be configured with at least 32 characters when restore mode is enabled''
                 else None)"

section \<open>Base64 flavours\<close>

text \<open>The text of a key in each flavour.\<close>

definition std_to_url :: "char \<Rightarrow> char" where
  "std_to_url c = (if c = CHR ''+'' then CHR ''-'' else if c = CHR ''/'' then CHR ''_'' else c)"

definition unpadded :: "string \<Rightarrow> string" where
  "unpadded s = filter (\<lambda>c. c \<noteq> CHR ''='') s"

fun EncodeToString :: "base64_encoding \<Rightarrow> string \<Rightarrow> string" where
  "EncodeToString StdEncoding s = b64_encode s"
| "EncodeToString RawStdEncoding s = unpadded (b64_encode s)"
| "EncodeToString URLEncoding s = map std_to_url (b64_encode s)"
| "EncodeToString RawURLEncoding s = map std_to_url (unpadded (b64_encode s))"

definition b64_digit :: "char \<Rightarrow> bool" where
  "b64_digit c \<longleftrightarrow> (\<exists>n<64. c = b64_char n)"

lemma b64_digit_char [simp]: "n < 64 \<Longrightarrow> b64_digit (b64_char n)"
  by (auto simp: b64_digit_def)

lemma b64_digit_code:
  assumes "b64_digit c"
  shows "(of_char c :: nat) \<in> {43, 47} \<union> {48..57} \<union> {65..90} \<union> {97..122}"
proof -
  from assms obtain n where n: "n < 64" "c = b64_char n" by (auto simp: b64_digit_def)
  consider "n < 26" | "26 \<le> n" "n < 52" | "52 \<le> n" "n < 62" | "n = 62" | "n = 63" using n(1) by linarith
  then show ?thesis using n by cases (simp_all add: b64_char_code, linarith?)
qed

text \<open>The text of a key whose length is two more than a multiple of three: digits and one pad.\<close>

lemma encode_shape:
  assumes "length s mod 3 = 2"
  shows "\<exists>body. b64_encode s = body @ ''='' \<and> length body mod 4 = 3 \<and> list_all b64_digit body"
  using assms
proof (induction s rule: b64_encode.induct)
  case (3 a b)
  then show ?case
    by (auto intro!: exI [of _ "[b64_char (of_char a div 4), b64_char (of_char a mod 4 * 16 + of_char b div 16),
      b64_char (of_char b mod 16 * 4)]"] simp: b64_digit_bounds)
next
  case (4 a b c rest)
  then have "length rest mod 3 = 2" by (simp add: mod_Suc split: if_splits)
  with 4 obtain body where "b64_encode rest = body @ ''=''" "length body mod 4 = 3" "list_all b64_digit body" by auto
  then show ?case
    by (intro exI [of _ "b64_char (of_char a div 4) # b64_char (of_char a mod 4 * 16 + of_char b div 16)
      # b64_char (of_char b mod 16 * 4 + of_char c div 64) # b64_char (of_char c mod 64) # body"])
      (simp add: b64_digit_bounds)
qed simp_all

lemma groups_length: "b64_groups s = Some r \<Longrightarrow> length s mod 4 = 0"
  by (induction s arbitrary: r rule: b64_groups.induct) (auto simp: Let_def split: option.splits if_splits)

lemma groups_chars: "b64_groups s = Some r \<Longrightarrow> c \<in> set s \<Longrightarrow> b64_value c \<noteq> None \<or> c = CHR ''=''"
  by (induction s arbitrary: r rule: b64_groups.induct) (auto simp: Let_def split: option.splits if_splits)

lemma url_marks_no_value: "b64_value (CHR ''-'') = None" "b64_value (CHR ''_'') = None"
  by (simp_all add: b64_value_def Let_def)

text \<open>URL text that the standard alphabet also decodes is standard text.\<close>

lemma std_reads_url:
  assumes "b64_groups (map std_to_url s) = Some r"
  shows "map std_to_url s = s"
proof -
  have "std_to_url c = c" if "c \<in> set s" for c
    using groups_chars [OF assms, of "std_to_url c"] that
    by (auto simp: std_to_url_def url_marks_no_value split: if_splits)
  then show ?thesis by (simp add: map_idI)
qed

lemma url_std [simp]: "b64_digit c \<or> c = CHR ''='' \<Longrightarrow> url_to_std (std_to_url c) = c"
  using b64_digit_code [of c] by (auto simp: url_to_std_def std_to_url_def)

lemma map_url_std: "list_all b64_digit s \<Longrightarrow> map url_to_std (map std_to_url s) = s"
  by (auto simp: list_all_iff intro!: map_idI)

lemma digits_plain:
  assumes "list_all b64_digit s"
  shows "CHR ''='' \<notin> set s" and "CHR ''='' \<notin> set (map std_to_url s)" and "unpadded s = s"
    and "line_free s = s" and "line_free (map std_to_url s) = map std_to_url s"
proof -
  have code: "(of_char c :: nat) \<in> {43, 47} \<union> {48..57} \<union> {65..90} \<union> {97..122}" if "c \<in> set s" for c
    using that assms b64_digit_code by (auto simp: list_all_iff)
  have ne: "c \<noteq> CHR ''=''" "c \<noteq> CHR 0x0A" "c \<noteq> CHR 0x0D" "std_to_url c \<noteq> CHR ''=''" "std_to_url c \<noteq> CHR 0x0A"
      "std_to_url c \<noteq> CHR 0x0D" if "c \<in> set s" for c
    using code [OF that] by (auto simp: std_to_url_def)
  then show "CHR ''='' \<notin> set s" "CHR ''='' \<notin> set (map std_to_url s)" by fastforce+
  from ne show "unpadded s = s" "line_free s = s" "line_free (map std_to_url s) = map std_to_url s"
    by (auto simp: unpadded_def line_free_def filter_id_conv)
qed

lemma decode_key_text:
  assumes "length key = 32"
  shows "decode_key (EncodeToString enc key) [StdEncoding, RawStdEncoding, URLEncoding, RawURLEncoding] = Inr key"
proof -
  obtain body where body: "b64_encode key = body @ ''=''" "length body mod 4 = 3" "list_all b64_digit body"
    using encode_shape [of key] assms by auto
  note plain = digits_plain [OF body(3)]
  have std: "b64_groups (body @ ''='') = Some key" using b64_groups_encode [of key] body(1) by simp
  then have raw: "raw_groups body = Some key" using body(2) plain by (simp add: raw_groups_def)
  have short: "b64_groups t = None" if "length t = length body" for t
    using groups_length [of t] that body(2) by (cases "b64_groups t") auto
  have unpad: "unpadded (b64_encode key) = body" using plain by (simp add: body(1) unpadded_def)
  have pad: "std_to_url (CHR ''='') = CHR ''=''" "url_to_std (CHR ''='') = CHR ''=''"
    by (simp_all add: std_to_url_def url_to_std_def)
  have free: "line_free (x @ ''='') = line_free x @ ''=''" for x by (simp add: line_free_def)
  show ?thesis
  proof (cases enc)
    case StdEncoding
    with std assms show ?thesis by (simp add: body(1) free plain masterKeyBytes_def)
  next
    case RawStdEncoding
    with raw short [of body] assms show ?thesis by (simp add: unpad plain masterKeyBytes_def)
  next
    case URLEncoding
    have eq: "EncodeToString enc key = map std_to_url (body @ ''='')" using URLEncoding by (simp add: body(1))
    have lf: "line_free (map std_to_url (body @ ''='')) = map std_to_url (body @ ''='')"
      by (simp only: map_append list.map pad free plain)
    have url: "map url_to_std (map std_to_url (body @ ''='')) = body @ ''=''"
      by (simp only: map_append list.map pad map_url_std [OF body(3)])
    have r: "raw_groups (map std_to_url (body @ ''='')) = None" by (simp add: raw_groups_def pad)
    show ?thesis
    proof (cases "b64_groups (map std_to_url (body @ ''=''))")
      case None
      then show ?thesis
        using std assms unfolding eq by (simp only: decode_key.simps DecodeString.simps lf url r option.case) (simp add: masterKeyBytes_def)
    next
      case (Some k)
      with std_reads_url [OF Some] std have "k = key" by simp
      with Some assms show ?thesis
        unfolding eq by (simp only: decode_key.simps DecodeString.simps lf option.case) (simp add: masterKeyBytes_def)
    qed
  next
    case RawURLEncoding
    have eq: "EncodeToString enc key = map std_to_url body" using RawURLEncoding by (simp add: unpad)
    have u: "map url_to_std (map std_to_url body) = body" by (rule map_url_std [OF body(3)])
    show ?thesis
    proof (cases "raw_groups (map std_to_url body)")
      case None
      then show ?thesis
        using short [of "map std_to_url body"] short [of body] raw assms unfolding eq
        by (simp only: decode_key.simps DecodeString.simps plain u option.case length_map) (simp add: masterKeyBytes_def)
    next
      case (Some k)
      then have "b64_groups (map std_to_url (body @ ''='')) = Some k"
        using plain(2) body(2) by (simp add: raw_groups_def pad)
      with std_reads_url [OF this] std have "k = key" by simp
      with Some short [of "map std_to_url body"] assms show ?thesis
        unfolding eq by (simp only: decode_key.simps DecodeString.simps plain option.case length_map) (simp add: masterKeyBytes_def)
    qed
  qed
qed

section \<open>Trimming\<close>

definition lone_rune :: "string list \<Rightarrow> char \<Rightarrow> bool" where
  "lone_rune runes c \<longleftrightarrow> [c] \<in> set runes \<and> list_all (\<lambda>x. x = [] \<or> hd x \<noteq> c \<or> x = [c]) runes"

lemma find_SomeD: "find p xs = Some x \<Longrightarrow> x \<in> set xs \<and> p x"
  by (induction xs) (auto split: if_splits)

lemma strip_lone_rune:
  assumes "lone_rune runes c"
  shows "strip_one runes (c # t) = Some t"
proof -
  let ?p = "\<lambda>x. x \<noteq> [] \<and> prefix x (c # t)"
  have "x = [c]" if "x \<in> set runes" "?p x" for x
  proof -
    from that(2) have "x \<noteq> []" "hd x = c" by (auto simp: prefix_Cons)
    with that(1) assms show ?thesis by (auto simp: lone_rune_def list_all_iff)
  qed
  note only = this
  have "\<exists>x\<in>set runes. ?p x" using assms by (intro bexI [of _ "[c]"]) (simp_all add: lone_rune_def)
  then have "find ?p runes \<noteq> None" unfolding find_None_iff by blast
  then obtain x where x: "find ?p runes = Some x" by blast
  from find_SomeD [OF x] only have "x = [c]" by blast
  with x show ?thesis by (simp add: strip_one_def)
qed

lemma trim_with_chars:
  assumes "list_all (lone_rune runes) cs" and "strip_one runes t = None"
  shows "trim_with runes (cs @ t) = t"
  using assms(1)
proof (induction cs)
  case Nil
  then show ?case using assms(2) by (simp add: trim_with_id)
next
  case (Cons c cs)
  then show ?case by (simp add: trim_with.simps [of runes "c # cs @ t"] strip_lone_rune)
qed

definition blank :: "char \<Rightarrow> bool" where
  "blank c \<longleftrightarrow> c \<in> {CHR 0x09, CHR 0x0A, CHR 0x0D, CHR 0x20}"

definition quote_mark :: "char \<Rightarrow> bool" where
  "quote_mark c \<longleftrightarrow> c \<in> {CHR 0x22, CHR 0x27}"

lemma lone_blank: "blank c \<Longrightarrow> lone_rune space_runes c" "blank c \<Longrightarrow> lone_rune (map rev space_runes) c"
  unfolding blank_def by (elim insertE emptyE; simp add: lone_rune_def space_runes_def)+

lemma lone_quote: "quote_mark c \<Longrightarrow> lone_rune quote_runes c"
  unfolding quote_mark_def by (elim insertE emptyE) (simp_all add: lone_rune_def quote_runes_def)

text \<open>No byte of ASCII text that is not a space begins or ends a space rune.\<close>

definition solid :: "char \<Rightarrow> bool" where
  "solid c \<longleftrightarrow> 33 \<le> (of_char c :: nat) \<and> (of_char c :: nat) < 127"

lemma solid_not_space:
  assumes "solid c"
  shows "strip_one space_runes (c # t) = None" and "strip_one (map rev space_runes) (c # t) = None"
proof -
  have "list_all (\<lambda>x. hd x \<noteq> c) space_runes" "list_all (\<lambda>x. hd x \<noteq> c) (map rev space_runes)"
    using assms unfolding space_runes_def solid_def by (simp_all, auto)
  then have "\<forall>x\<in>set space_runes. hd x \<noteq> c" "\<forall>x\<in>set (map rev space_runes). hd x \<noteq> c"
    by (simp_all add: list_all_iff)
  then show "strip_one space_runes (c # t) = None" "strip_one (map rev space_runes) (c # t) = None"
    unfolding strip_one_None_iff by (auto simp: prefix_Cons)
qed

lemma not_quote_strip: "\<not> quote_mark c \<Longrightarrow> strip_one quote_runes (c # t) = None"
  by (auto simp: strip_one_None_iff quote_runes_def quote_mark_def)

lemma ends_split: "t \<noteq> [] \<Longrightarrow> t = hd t # tl t" "t \<noteq> [] \<Longrightarrow> rev t = last t # rev (butlast t)"
  by (simp_all add: rev_eq_Cons_iff)

lemma TrimSpace_around:
  assumes "list_all blank xs" and "list_all blank ys" and "t \<noteq> []" and "solid (hd t)" and "solid (last t)"
  shows "TrimSpace (xs @ t @ ys) = t"
proof -
  have "strip_one space_runes (t @ ys) = None"
    using solid_not_space(1) [OF assms(4), of "tl t @ ys"] assms(3) by (cases t) simp_all
  with assms(1) have 1: "trim_with space_runes (xs @ t @ ys) = t @ ys"
    by (intro trim_with_chars) (auto simp: list_all_iff lone_blank)
  have "strip_one (map rev space_runes) (rev t) = None"
    using solid_not_space(2) [OF assms(5), of "rev (butlast t)"] by (subst ends_split(2) [OF assms(3)])
  with assms(2) have "trim_with (map rev space_runes) (rev ys @ rev t) = rev t"
    by (intro trim_with_chars) (auto simp: list_all_iff lone_blank)
  with 1 show ?thesis by (simp add: TrimSpace_def)
qed

lemma TrimQuotes_around:
  assumes "list_all quote_mark xs" and "list_all quote_mark ys"
    and "t \<noteq> []" and "\<not> quote_mark (hd t)" and "\<not> quote_mark (last t)"
  shows "TrimQuotes (xs @ t @ ys) = t"
proof -
  have "strip_one quote_runes (t @ ys) = None"
    using not_quote_strip [OF assms(4), of "tl t @ ys"] assms(3) by (cases t) simp_all
  with assms(1) have 1: "trim_with quote_runes (xs @ t @ ys) = t @ ys"
    by (intro trim_with_chars) (auto simp: list_all_iff lone_quote)
  have "strip_one quote_runes (rev t) = None"
    using not_quote_strip [OF assms(5), of "rev (butlast t)"] by (subst ends_split(2) [OF assms(3)])
  with assms(2) have "trim_with quote_runes (rev ys @ rev t) = rev t"
    by (intro trim_with_chars) (auto simp: list_all_iff lone_quote)
  with 1 show ?thesis by (simp add: TrimQuotes_def)
qed

section \<open>Correctness\<close>

lemma digit_solid: "b64_digit c \<Longrightarrow> solid c \<and> \<not> quote_mark c"
  using b64_digit_code [of c] by (auto simp: solid_def quote_mark_def)

lemma encode_chars: "c \<in> set (b64_encode s) \<Longrightarrow> b64_digit c \<or> c = CHR ''=''"
  by (induction s rule: b64_encode.induct) (auto simp: b64_digit_bounds)

lemma encoded_solid:
  assumes "c \<in> set (EncodeToString enc key)"
  shows "solid c \<and> \<not> quote_mark c"
proof -
  have "solid c \<and> \<not> quote_mark c" if "c \<in> {CHR ''='', CHR ''-'', CHR ''_''}" for c
    using that by (auto simp: solid_def quote_mark_def)
  moreover have "b64_digit c \<or> c \<in> {CHR ''='', CHR ''-'', CHR ''_''}"
    using assms encode_chars [of _ key] by (cases enc) (fastforce simp: unpadded_def std_to_url_def)+
  ultimately show ?thesis using digit_solid by blast
qed

lemma encoded_nonempty: "length key = 32 \<Longrightarrow> EncodeToString enc key \<noteq> []"
  using decode_key_text [of key enc] by (auto simp: masterKeyBytes_def line_free_def)

lemma decode_key_length: "decode_key raw encs = Inr key \<Longrightarrow> length key = 32"
  by (induction encs) (auto simp: masterKeyBytes_def split: option.splits if_splits)

lemma master_key_length: "SecurityConfig_MasterKey cfg = Inr key \<Longrightarrow> length key = 32"
  by (auto simp: SecurityConfig_MasterKey_def Let_def simp del: decode_key.simps dest: decode_key_length split: if_splits)

text \<open>C33. A 32-byte master key is read back from its text in each of the four Base64 flavours, with
  quotes around it and white space around these.\<close>

theorem master_key_correct:
  assumes "length key = 32" and "list_all blank sp" and "list_all blank sp'"
    and "list_all quote_mark qs" and "list_all quote_mark qs'"
  shows "SecurityConfig_MasterKey \<lparr>sc_AppMasterKey = sp @ qs @ EncodeToString enc key @ qs' @ sp'\<rparr> = Inr key"
proof -
  let ?t = "EncodeToString enc key"
  have ne: "?t \<noteq> []" using assms(1) by (rule encoded_nonempty)
  have ends: "solid (hd ?t)" "\<not> quote_mark (hd ?t)" "solid (last ?t)" "\<not> quote_mark (last ?t)"
    using encoded_solid [of "hd ?t" enc key] encoded_solid [of "last ?t" enc key] ne by simp_all
  have quote_solid: "quote_mark c \<Longrightarrow> solid c" for c by (auto simp: quote_mark_def solid_def)
  have "solid (hd (qs @ ?t @ qs'))" "solid (last (qs @ ?t @ qs'))"
    using ends ne assms(4,5) quote_solid by (cases qs; cases qs' rule: rev_cases; simp)+
  with assms(2,3) ne have "TrimSpace (sp @ (qs @ ?t @ qs') @ sp') = qs @ ?t @ qs'"
    by (intro TrimSpace_around) auto
  moreover have "TrimQuotes (qs @ ?t @ qs') = ?t"
    using assms(4,5) ne ends by (intro TrimQuotes_around) auto
  ultimately show ?thesis
    using ne decode_key_text [OF assms(1)] by (simp add: SecurityConfig_MasterKey_def)
qed

theorem master_key_correct_witness:
  "SecurityConfig_MasterKey \<lparr>sc_AppMasterKey = '' '' @ [CHR 0x22] @
     EncodeToString RawURLEncoding (replicate 32 (CHR 0xFB)) @ [CHR 0x22] @ [CHR 0x0A]\<rparr> = Inr (replicate 32 (CHR 0xFB))"
  by (rule master_key_correct) (simp_all add: blank_def quote_mark_def)

text \<open>What a configuration that passes validation guarantees to the components: the data protector
  gets a key its cipher accepts, the collector has workers and a number of attempts, an enabled
  cleanup has positive settings, restore mode needs a token of at least 32 bytes.\<close>

lemma validated_config:
  assumes "Config_Validate cfg = None"
  shows "(\<exists>key. NewDataProtector (cf_Security cfg) = Inr key \<and> aes_key_size_ok key) \<and>
     0 < co_Interval (cf_Collector cfg) \<and> 0 < co_MaxWorkers (cf_Collector cfg) \<and> 0 \<le> co_RetryTimes (cf_Collector cfg) \<and>
     (hc_Enabled (cf_HistoryCleanup cfg) \<longrightarrow> 0 < hc_Interval (cf_HistoryCleanup cfg) \<and>
        0 < hc_SamplesDays (cf_HistoryCleanup cfg) \<and> 0 < hc_AlertsDays (cf_HistoryCleanup cfg) \<and>
        0 < hc_BatchSize (cf_HistoryCleanup cfg)) \<and>
     se_Secret (cf_Session cfg) \<noteq> [] \<and> 0 < se_MaxAge (cf_Session cfg) \<and>
     (RestoreConfig_Enabled (cf_Restore cfg) \<longrightarrow> 32 \<le> length (TrimSpace (rs_Token (cf_Restore cfg))))"
proof -
  obtain key where key: "SecurityConfig_MasterKey (cf_Security cfg) = Inr key"
    using assms by (cases "SecurityConfig_MasterKey (cf_Security cfg)")
      (simp_all add: Config_Validate_def Let_def invalid_def split: if_splits)
  then have "NewDataProtector (cf_Security cfg) = Inr key \<and> aes_key_size_ok key"
    using master_key_length [OF key] by (simp add: NewDataProtector_def aes_key_size_ok_def)
  moreover have "\<not> (hc_Enabled hc \<and> x \<le> 0) \<longleftrightarrow> (hc_Enabled hc \<longrightarrow> 0 < x)" for hc and x :: int by auto
  ultimately show ?thesis
    using assms by (simp add: Config_Validate_def Let_def invalid_def key not_le not_less split: if_splits)
qed

definition example_config :: Config where
  "example_config =
     \<lparr>cf_App = \<lparr>ac_Name = ''traffic-monitor'', ac_Env = ''test''\<rparr>,
      cf_Collector = \<lparr>co_Enabled = True, co_Interval = 300 * second_ns, co_MaxWorkers = 4, co_RetryTimes = 2\<rparr>,
      cf_HistoryCleanup = \<lparr>hc_Enabled = True, hc_Interval = 3600 * second_ns, hc_SamplesDays = 30, hc_AlertsDays = 90,
        hc_BatchSize = 500, hc_Timeout = 60 * second_ns\<rparr>,
      cf_HTTP = \<lparr>ht_Addr = '':8080'', ht_ReadTimeout = second_ns, ht_StopTimeout = second_ns, ht_WriteTimeout = second_ns\<rparr>,
      cf_Database = \<lparr>db_DSN = ''postgres'', db_MaxIdleConns = 1, db_MaxOpenConns = 1, db_ConnMaxLifetime = second_ns,
        db_PingTimeout = second_ns\<rparr>,
      cf_Log = \<lparr>lg_Level = ''info'', lg_Format = ''json''\<rparr>,
      cf_Session = \<lparr>se_Secret = ''secret'', se_CookieName = ''session'', se_MaxAge = 3600 * second_ns, se_Secure = True\<rparr>,
      cf_SSH = \<lparr>sh_DialTimeout = second_ns, sh_CommandTimeout = second_ns\<rparr>,
      cf_Security = \<lparr>sc_AppMasterKey = b64_encode (replicate 32 (CHR ''k''))\<rparr>,
      cf_Bootstrap = \<lparr>bs_InitAdminUsername = [], bs_InitAdminPassword = []\<rparr>,
      cf_Restore = \<lparr>rs_Mode = [], rs_Token = []\<rparr>\<rparr>"

lemma plain_master_key:
  assumes "length key = 32"
  shows "SecurityConfig_MasterKey \<lparr>sc_AppMasterKey = b64_encode key\<rparr> = Inr key"
proof -
  let ?t = "EncodeToString StdEncoding key"
  have ne: "?t \<noteq> []" using assms by (rule encoded_nonempty)
  then have "solid (hd ?t) \<and> \<not> quote_mark (hd ?t)" "solid (last ?t) \<and> \<not> quote_mark (last ?t)"
    using encoded_solid by (metis hd_in_set, metis last_in_set)
  with ne have "TrimQuotes (TrimSpace ?t) = ?t"
    using TrimSpace_around [of "[]" "[]" ?t] TrimQuotes_around [of "[]" "[]" ?t] by simp
  with ne decode_key_text [OF assms, of StdEncoding] show ?thesis
    by (simp add: SecurityConfig_MasterKey_def del: decode_key.simps)
qed

lemma example_config_valid: "Config_Validate example_config = None"
proof -
  have "SecurityConfig_MasterKey (cf_Security example_config) = Inr (replicate 32 (CHR ''k''))"
    by (simp add: example_config_def plain_master_key)
  then show ?thesis
    by (simp add: Config_Validate_def) (simp add: example_config_def second_ns_def RestoreConfig_Enabled_def
      RestoreModeAdminPassword_def)
qed

end
