(* ===== verification/Auth.thy ===== *)
theory Auth
  imports Config
begin

text \<open>
  Who may do what: \<^verbatim>\<open>internal/service/auth_service.go\<close>, \<^verbatim>\<open>internal/service/settings_service.go\<close>,
  \<^verbatim>\<open>internal/middleware/auth_middleware.go\<close> and the handlers of \<^verbatim>\<open>auth_handler.go\<close>, \<^verbatim>\<open>restore_handler.go\<close>
  and \<^verbatim>\<open>settings_handler.go\<close>. The cookie store is the gorilla library: what it reads out of a
  request (an error, or the values of a signed cookie) and whether saving works come with the
  request. A handler answers with the code that is also its HTTP status; binding a request body
  is gin's work, so a handler takes the bound request, \<open>None\<close> when binding failed.
\<close>

section \<open>The authentication service\<close>

record AdminProfileResp =
  ap_ID :: nat
  ap_Username :: string

record BootstrapAdminResult =
  ba_Created :: bool
  ba_Username :: string
  ba_Password :: string
  ba_GeneratedPassword :: bool

definition minAdminPasswordLength :: nat where "minAdminPasswordLength = 6"

definition AuthService_Authenticate :: "env \<Rightarrow> string \<Rightarrow> string \<Rightarrow> AdminProfileResp io" where
  "AuthService_Authenticate E username password =
     attempt (AdminRepo_GetByUsername E username)
       (\<lambda>e. if IsRecordNotFound e then fail (Sentinel ErrInvalidCredentials)
            else fail (Wrapf ''get admin for authentication: '' e []))
       (\<lambda>admin.
          if \<not> bcrypt_match E (adm_PasswordHash admin) password then fail (Sentinel ErrInvalidCredentials)
          else ret \<lparr>ap_ID = adm_ID admin, ap_Username = adm_Username admin\<rparr>)"

definition AuthService_GetProfile :: "env \<Rightarrow> nat \<Rightarrow> AdminProfileResp io" where
  "AuthService_GetProfile E adminID =
     attempt (AdminRepo_GetByID E adminID)
       (\<lambda>e. if IsRecordNotFound e then fail (Sentinel ErrAdminNotFound) else fail (Wrapf ''get admin profile: '' e []))
       (\<lambda>admin. ret \<lparr>ap_ID = adm_ID admin, ap_Username = adm_Username admin\<rparr>)"

text \<open>Hashing the new password and storing the hash, the common end of both password changes.\<close>

definition storePassword :: "env \<Rightarrow> string \<Rightarrow> string \<Rightarrow> nat \<Rightarrow> string \<Rightarrow> unit io" where
  "storePassword E hashMsg updateMsg adminID newPassword =
     bnd (external (\<lambda>n. bcrypt_hash E n newPassword)) (\<lambda>r.
     case r of
       Inl e \<Rightarrow> fail (Wrapf hashMsg (Foreign e) [])
     | Inr passwordHash \<Rightarrow>
         attempt (AdminRepo_UpdatePasswordHash E adminID passwordHash)
           (\<lambda>e. if IsRecordNotFound e then fail (Sentinel ErrAdminNotFound) else fail (Wrapf updateMsg e []))
           ret)"

definition AuthService_ChangePassword :: "env \<Rightarrow> nat \<Rightarrow> string \<Rightarrow> string \<Rightarrow> unit io" where
  "AuthService_ChangePassword E adminID currentPassword newPassword =
     (if RuneCount newPassword < minAdminPasswordLength then fail (Sentinel ErrPasswordTooShort)
      else attempt (AdminRepo_GetByID E adminID)
        (\<lambda>e. if IsRecordNotFound e then fail (Sentinel ErrAdminNotFound)
             else fail (Wrapf ''get admin for password change: '' e []))
        (\<lambda>admin.
           if \<not> bcrypt_match E (adm_PasswordHash admin) currentPassword then fail (Sentinel ErrInvalidCredentials)
           else storePassword E ''hash new admin password: '' ''update admin password hash: '' adminID newPassword))"

definition AuthService_ResetPasswordByUsername :: "env \<Rightarrow> string \<Rightarrow> string \<Rightarrow> unit io" where
  "AuthService_ResetPasswordByUsername E username newPassword =
     (if RuneCount newPassword < minAdminPasswordLength then fail (Sentinel ErrPasswordTooShort)
      else attempt (AdminRepo_GetByUsername E username)
        (\<lambda>e. if IsRecordNotFound e then fail (Sentinel ErrAdminNotFound)
             else fail (Wrapf ''get admin for password reset: '' e []))
        (\<lambda>admin. storePassword E ''hash reset admin password: '' ''update reset admin password hash: ''
           (adm_ID admin) newPassword))"

definition generateBootstrapAdminPassword :: "env \<Rightarrow> string io" where
  "generateBootstrapAdminPassword E =
     bnd (external (\<lambda>n. rand_bytes E n 24)) (\<lambda>r.
     case r of
       Inl e \<Rightarrow> fail (Wrapf ''generate bootstrap admin password: '' (Foreign e) [])
     | Inr passwordBytes \<Rightarrow> ret (EncodeToString RawURLEncoding passwordBytes))"

definition no_bootstrap :: BootstrapAdminResult where
  "no_bootstrap = \<lparr>ba_Created = False, ba_Username = [], ba_Password = [], ba_GeneratedPassword = False\<rparr>"

definition AuthService_EnsureBootstrapAdmin :: "env \<Rightarrow> BootstrapConfig \<Rightarrow> BootstrapAdminResult io" where
  "AuthService_EnsureBootstrapAdmin E cfg =
     (let configured = bs_InitAdminUsername cfg; given = bs_InitAdminPassword cfg
      in if configured = [] \<and> given \<noteq> [] then ret no_bootstrap
         else
           let generatePassword = (configured = []);
               username = (if configured = [] then ''admin'' else configured)
           in bnd (wrap ''check bootstrap admin: '' (AdminRepo_ExistsByUsername E username)) (\<lambda>present.
              if present then ret (no_bootstrap\<lparr>ba_Username := username\<rparr>)
              else bnd (if generatePassword then generateBootstrapAdminPassword E else ret given) (\<lambda>password.
                bnd (external (\<lambda>n. bcrypt_hash E n password)) (\<lambda>r.
                case r of
                  Inl e \<Rightarrow> fail (Wrapf ''hash bootstrap admin password: '' (Foreign e) [])
                | Inr passwordHash \<Rightarrow>
                    bnd (wrap ''create bootstrap admin: '' (AdminRepo_Create E
                        \<lparr>adm_ID = 0, adm_CreatedAt = zero_time, adm_UpdatedAt = zero_time, adm_Username = username,
                         adm_PasswordHash = passwordHash\<rparr>)) (\<lambda>_.
                    ret \<lparr>ba_Created = True, ba_Username = username,
                         ba_Password = (if generatePassword then password else []),
                         ba_GeneratedPassword = generatePassword\<rparr>)))))"

text \<open>The start hook of \<^verbatim>\<open>RegisterAdminBootstrap\<close>; what it logs is not part of the model.\<close>

definition admin_OnStart :: "env \<Rightarrow> BootstrapConfig \<Rightarrow> unit io" where
  "admin_OnStart E cfg = bnd (wrap ''ensure bootstrap admin: '' (AuthService_EnsureBootstrapAdmin E cfg)) (\<lambda>_. ret ())"

section \<open>The settings service\<close>

definition guestModeSettingKey :: string where "guestModeSettingKey = ''guest_mode_enabled''"

text \<open>\<^verbatim>\<open>strconv.FormatBool\<close> and \<^verbatim>\<open>strconv.ParseBool\<close>\<close>

definition FormatBool :: "bool \<Rightarrow> string" where
  "FormatBool b = (if b then ''true'' else ''false'')"

definition ParseBool :: "string \<Rightarrow> bool option" where
  "ParseBool s =
     (if s \<in> {''1'', ''t'', ''T'', ''true'', ''TRUE'', ''True''} then Some True
      else if s \<in> {''0'', ''f'', ''F'', ''false'', ''FALSE'', ''False''} then Some False else None)"

definition SettingsService_IsGuestModeEnabled :: "env \<Rightarrow> bool io" where
  "SettingsService_IsGuestModeEnabled E =
     attempt (AppSettingRepo_GetByKey E guestModeSettingKey)
       (\<lambda>e. if IsRecordNotFound e then ret False else fail (Wrapf ''get guest mode setting: '' e []))
       (\<lambda>setting.
          case ParseBool (st_SettingValue setting) of
            None \<Rightarrow> fail (Wrapf ''parse guest mode setting: '' (Foreign ''strconv.ParseBool: parsing: invalid syntax'') [])
          | Some enabled \<Rightarrow> ret enabled)"

record GuestModeResp =
  gm_Enabled :: bool

record UpdateGuestModeReq =
  ug_Enabled :: bool

definition SettingsService_GetGuestMode :: "env \<Rightarrow> GuestModeResp io" where
  "SettingsService_GetGuestMode E = bnd (SettingsService_IsGuestModeEnabled E) (\<lambda>enabled. ret \<lparr>gm_Enabled = enabled\<rparr>)"

definition SettingsService_UpdateGuestMode :: "env \<Rightarrow> UpdateGuestModeReq \<Rightarrow> GuestModeResp io" where
  "SettingsService_UpdateGuestMode E req =
     bnd (wrap ''update guest mode: '' (AppSettingRepo_Upsert E
       \<lparr>st_SettingKey = guestModeSettingKey, st_SettingValue = FormatBool (ug_Enabled req), st_CreatedAt = zero_time,
        st_UpdatedAt = zero_time\<rparr>)) (\<lambda>_.
     ret \<lparr>gm_Enabled = ug_Enabled req\<rparr>)"

section \<open>Sessions and the middleware\<close>

text \<open>The dynamic values a session cookie may hold under a key.\<close>

datatype session_value = VUint nat | VUint64 nat | VInt int | VInt64 int | VOther

type_synonym session = "string \<rightharpoonup> session_value"

text \<open>What the cookie store makes of a request: its session or an error, and the error of saving.\<close>

record session_store =
  gs_Get :: "string + session"
  gs_SaveErr :: "string option"

definition sessionAdminKey :: string where "sessionAdminKey = ''current_admin_id''"

definition sessionExpiresAtKey :: string where "sessionExpiresAtKey = ''expires_at''"

definition sessionAdminID :: "session_value option \<Rightarrow> nat option" where
  "sessionAdminID v =
     (case v of
        Some (VUint n) \<Rightarrow> Some n
      | Some (VUint64 n) \<Rightarrow> Some n
      | Some (VInt i) \<Rightarrow> if i \<le> 0 then None else Some (nat i)
      | _ \<Rightarrow> None)"

definition sessionExpiresAt :: "session_value option \<Rightarrow> gotime option" where
  "sessionExpiresAt v =
     (case v of
        Some (VInt64 expiresAtUnix) \<Rightarrow> if expiresAtUnix \<le> 0 then None else Some (unix_time expiresAtUnix)
      | _ \<Rightarrow> None)"

definition shouldRenewSession :: "gotime \<Rightarrow> gotime \<Rightarrow> int \<Rightarrow> bool" where
  "shouldRenewSession now expiresAt sessionTTL =
     (if sessionTTL \<le> 0 then False else expiresAt - now < sessionTTL div 2)"

datatype adminAuthStatus = adminAuthOK | adminAuthUnauthorized | adminAuthInternalError

text \<open>The status, the administrator and, when the session was renewed, the cookie sent back.\<close>

definition authenticateAdmin ::
  "env \<Rightarrow> SessionConfig \<Rightarrow> session_store \<Rightarrow> (adminAuthStatus \<times> nat \<times> session option) io" where
  "authenticateAdmin E cfg store =
     (case gs_Get store of
        Inl _ \<Rightarrow> ret (adminAuthUnauthorized, 0, None)
      | Inr vals \<Rightarrow>
          (case sessionAdminID (vals sessionAdminKey) of
             None \<Rightarrow> ret (adminAuthUnauthorized, 0, None)
           | Some adminID \<Rightarrow>
               if adminID = 0 then ret (adminAuthUnauthorized, 0, None)
               else bnd (time_Now E) (\<lambda>now.
                 case sessionExpiresAt (vals sessionExpiresAtKey) of
                   None \<Rightarrow> ret (adminAuthUnauthorized, 0, None)
                 | Some expiresAt \<Rightarrow>
                     if \<not> now < expiresAt then ret (adminAuthUnauthorized, 0, None)
                     else attempt (AuthService_GetProfile E adminID)
                       (\<lambda>e. if errors_Is e ErrAdminNotFound then ret (adminAuthUnauthorized, 0, None)
                            else ret (adminAuthInternalError, 0, None))
                       (\<lambda>_.
                          if shouldRenewSession now expiresAt (se_MaxAge cfg)
                          then case gs_SaveErr store of
                                 Some _ \<Rightarrow> ret (adminAuthInternalError, 0, None)
                               | None \<Rightarrow> ret (adminAuthOK, adminID,
                                   Some (vals(sessionExpiresAtKey \<mapsto> VInt64 (time_Unix (now + se_MaxAge cfg)))))
                          else ret (adminAuthOK, adminID, None)))))"

text \<open>What a middleware does with a request: pass it on, with the administrator if there is one,
  or answer it.\<close>

datatype gate = Pass "nat option" | Deny int string

definition RequireAdmin :: "env \<Rightarrow> SessionConfig \<Rightarrow> session_store \<Rightarrow> (gate \<times> session option) io" where
  "RequireAdmin E cfg store =
     bnd (authenticateAdmin E cfg store) (\<lambda>(status, adminID, cookie).
     ret (case status of
            adminAuthOK \<Rightarrow> (Pass (Some adminID), cookie)
          | adminAuthUnauthorized \<Rightarrow> (Deny 401 ''unauthorized'', cookie)
          | adminAuthInternalError \<Rightarrow> (Deny 500 ''internal server error'', cookie)))"

definition RequireAdminOrGuest :: "env \<Rightarrow> SessionConfig \<Rightarrow> session_store \<Rightarrow> (gate \<times> session option) io" where
  "RequireAdminOrGuest E cfg store =
     bnd (authenticateAdmin E cfg store) (\<lambda>(status, adminID, cookie).
     case status of
       adminAuthOK \<Rightarrow> ret (Pass (Some adminID), cookie)
     | adminAuthInternalError \<Rightarrow> ret (Deny 500 ''internal server error'', cookie)
     | adminAuthUnauthorized \<Rightarrow>
         attempt (SettingsService_IsGuestModeEnabled E)
           (\<lambda>e. ret (Deny 500 ''internal server error'', cookie))
           (\<lambda>enabled. if \<not> enabled then ret (Deny 401 ''unauthorized'', cookie) else ret (Pass None, cookie)))"

section \<open>Handlers\<close>

record 'd Response =
  rp_Code :: int
  rp_Data :: "'d option"
  rp_Message :: string

definition reply :: "int \<Rightarrow> string \<Rightarrow> 'd Response" where
  "reply code msg = \<lparr>rp_Code = code, rp_Data = None, rp_Message = msg\<rparr>"

definition success :: "'d \<Rightarrow> 'd Response" where
  "success d = \<lparr>rp_Code = 200, rp_Data = Some d, rp_Message = ''success''\<rparr>"

definition invalid_request :: "'d Response" where
  "invalid_request = reply 400 ''invalid request''"

definition internal_error :: "'d Response" where
  "internal_error = reply 500 ''internal server error''"

record LoginReq =
  lr_Username :: string
  lr_Password :: string

record ChangePasswordReq =
  cp_CurrentPassword :: string
  cp_NewPassword :: string

record RestoreAdminPasswordReq =
  rr_Username :: string
  rr_RestoreToken :: string
  rr_NewPassword :: string

definition AuthHandler_Login ::
  "env \<Rightarrow> SessionConfig \<Rightarrow> session_store \<Rightarrow> LoginReq option \<Rightarrow> (AdminProfileResp Response \<times> session option) io" where
  "AuthHandler_Login E cfg store bound =
     (case bound of
        None \<Rightarrow> ret (invalid_request, None)
      | Some req \<Rightarrow>
          attempt (AuthService_Authenticate E (lr_Username req) (lr_Password req))
            (\<lambda>e. if errors_Is e ErrInvalidCredentials then ret (reply 401 ''username or password is incorrect'', None)
                 else ret (internal_error, None))
            (\<lambda>profile.
               case gs_Get store of
                 Inl _ \<Rightarrow> ret (internal_error, None)
               | Inr vals \<Rightarrow>
                   bnd (time_Now E) (\<lambda>now.
                   case gs_SaveErr store of
                     Some _ \<Rightarrow> ret (internal_error, None)
                   | None \<Rightarrow> ret (success profile, Some (vals(sessionAdminKey \<mapsto> VUint (ap_ID profile),
                       sessionExpiresAtKey \<mapsto> VInt64 (time_Unix (now + se_MaxAge cfg))))))))"

text \<open>Logging out tells the browser to drop the cookie, if the cookie could be read; the second part of
  the result says whether it was told.\<close>

definition AuthHandler_Logout :: "session_store \<Rightarrow> (unit Response \<times> bool) io" where
  "AuthHandler_Logout store =
     (case gs_Get store of
        Inl _ \<Rightarrow> ret (reply 200 ''success'', False)
      | Inr _ \<Rightarrow> ret (reply 200 ''success'', gs_SaveErr store = None))"

definition AuthHandler_Profile :: "env \<Rightarrow> nat option \<Rightarrow> AdminProfileResp Response io" where
  "AuthHandler_Profile E current =
     (case current of
        None \<Rightarrow> ret (reply 401 ''unauthorized'')
      | Some adminID \<Rightarrow>
          attempt (AuthService_GetProfile E adminID)
            (\<lambda>e. if errors_Is e ErrAdminNotFound then ret (reply 401 ''unauthorized'') else ret internal_error)
            (\<lambda>profile. ret (success profile)))"

definition AuthHandler_ChangePassword :: "env \<Rightarrow> nat option \<Rightarrow> ChangePasswordReq option \<Rightarrow> unit Response io" where
  "AuthHandler_ChangePassword E current bound =
     (case current of
        None \<Rightarrow> ret (reply 401 ''unauthorized'')
      | Some adminID \<Rightarrow>
          (case bound of
             None \<Rightarrow> ret invalid_request
           | Some req \<Rightarrow>
               attempt (AuthService_ChangePassword E adminID (cp_CurrentPassword req) (cp_NewPassword req))
                 (\<lambda>e. if errors_Is e ErrPasswordTooShort then ret invalid_request
                      else if errors_Is e ErrInvalidCredentials then ret (reply 401 ''current password is incorrect'')
                      else if errors_Is e ErrAdminNotFound then ret (reply 401 ''unauthorized'')
                      else ret internal_error)
                 (\<lambda>_. ret (reply 200 ''success''))))"

text \<open>The restore handler and its token: \<open>rh_tokenUsed\<close> and \<open>rh_tokenExpiresAt\<close> are its state.\<close>

record RestoreHandler =
  rh_tokenUsed :: bool
  rh_tokenExpiresAt :: gotime

definition restoreTokenTTL :: int where "restoreTokenTTL = 5 * 60 * second_ns"

definition NewRestoreHandler :: "env \<Rightarrow> RestoreHandler io" where
  "NewRestoreHandler E = bnd (time_Now E) (\<lambda>now. ret \<lparr>rh_tokenUsed = False, rh_tokenExpiresAt = now + restoreTokenTTL\<rparr>)"

definition consumeRestoreToken :: "RestoreConfig \<Rightarrow> gotime \<Rightarrow> string \<Rightarrow> RestoreHandler \<Rightarrow> bool \<times> RestoreHandler" where
  "consumeRestoreToken cfg now token h =
     (if rh_tokenUsed h then (False, h)
      else if rh_tokenExpiresAt h < now then (False, h)
      else
        let expectedToken = TrimSpace (rs_Token cfg); actualToken = TrimSpace token
        in if expectedToken = [] \<or> length expectedToken \<noteq> length actualToken then (False, h)
           else if expectedToken \<noteq> actualToken then (False, h)
           else (True, h\<lparr>rh_tokenUsed := True\<rparr>))"

definition releaseRestoreToken :: "RestoreHandler \<Rightarrow> RestoreHandler" where
  "releaseRestoreToken h = h\<lparr>rh_tokenUsed := False\<rparr>"

record RestoreStatusResp =
  rst_Enabled :: bool
  rst_Mode :: string

definition RestoreHandler_Status :: "RestoreConfig \<Rightarrow> RestoreStatusResp Response" where
  "RestoreHandler_Status cfg = success \<lparr>rst_Enabled = RestoreConfig_Enabled cfg, rst_Mode = rs_Mode cfg\<rparr>"

text \<open>The answer to the outcome of a password reset.\<close>

definition restoreReply :: "go_error + unit \<Rightarrow> unit Response" where
  "restoreReply r =
     (case r of
        Inr _ \<Rightarrow> reply 200 ''success''
      | Inl e \<Rightarrow>
          if errors_Is e ErrPasswordTooShort then invalid_request
          else if errors_Is e ErrAdminNotFound then reply 404 ''admin not found''
          else internal_error)"

text \<open>One request on its own: the token is used from its check to its release.\<close>

definition RestoreHandler_ResetAdminPassword ::
  "env \<Rightarrow> RestoreConfig \<Rightarrow> RestoreAdminPasswordReq option \<Rightarrow> RestoreHandler \<Rightarrow> (unit Response \<times> RestoreHandler) io" where
  "RestoreHandler_ResetAdminPassword E cfg bound h =
     (case bound of
        None \<Rightarrow> ret (invalid_request, h)
      | Some req \<Rightarrow>
          bnd (if rh_tokenUsed h then ret 0 else time_Now E) (\<lambda>now.
          case consumeRestoreToken cfg now (rr_RestoreToken req) h of
            (False, h') \<Rightarrow> ret (reply 403 ''restore token is invalid'', h')
          | (True, h') \<Rightarrow>
              bnd (catching (AuthService_ResetPasswordByUsername E (rr_Username req) (rr_NewPassword req))) (\<lambda>r.
              ret (restoreReply r, case r of Inl _ \<Rightarrow> releaseRestoreToken h' | Inr _ \<Rightarrow> h'))))"

text \<open>Concurrent requests: a request that consumed the token is running until its reset ends. The
  state counts the requests that are running and the resets that succeeded.\<close>

record restore_state =
  rt_handler :: RestoreHandler
  rt_running :: "nat list"
  rt_resets :: nat

inductive restore_step :: "RestoreConfig \<Rightarrow> restore_state \<Rightarrow> restore_state \<Rightarrow> bool" for cfg where
  token_rejected:
    "consumeRestoreToken cfg now token (rt_handler s) = (False, h') \<Longrightarrow> restore_step cfg s (s\<lparr>rt_handler := h'\<rparr>)"
| token_consumed:
    "consumeRestoreToken cfg now token (rt_handler s) = (True, h') \<Longrightarrow>
     restore_step cfg s (s\<lparr>rt_handler := h', rt_running := i # rt_running s\<rparr>)"
| reset_succeeded:
    "i \<in> set (rt_running s) \<Longrightarrow>
     restore_step cfg s (s\<lparr>rt_running := remove1 i (rt_running s), rt_resets := Suc (rt_resets s)\<rparr>)"
| reset_failed:
    "i \<in> set (rt_running s) \<Longrightarrow>
     restore_step cfg s (s\<lparr>rt_running := remove1 i (rt_running s), rt_handler := releaseRestoreToken (rt_handler s)\<rparr>)"

definition SettingsHandler_GetGuestMode :: "env \<Rightarrow> GuestModeResp Response io" where
  "SettingsHandler_GetGuestMode E =
     attempt (SettingsService_GetGuestMode E) (\<lambda>e. ret internal_error) (\<lambda>r. ret (success r))"

definition SettingsHandler_UpdateGuestMode :: "env \<Rightarrow> UpdateGuestModeReq option \<Rightarrow> GuestModeResp Response io" where
  "SettingsHandler_UpdateGuestMode E bound =
     (case bound of
        None \<Rightarrow> ret invalid_request
      | Some req \<Rightarrow>
          attempt (SettingsService_UpdateGuestMode E req) (\<lambda>e. ret internal_error) (\<lambda>r. ret (success r)))"

section \<open>Health\<close>

text \<open>\<^verbatim>\<open>HealthRepo.Ping\<close> asks the pool for a connection and sends one ping, an external call that may fail.\<close>

definition HealthRepo_Ping :: "env \<Rightarrow> unit io" where
  "HealthRepo_Ping E = wrap ''ping database: '' (statement E (\<lambda>_ w. (Inr (), w)))"

record HealthResp =
  he_AppName :: string
  he_DB :: string
  he_Env :: string
  he_Status :: string

text \<open>The check returns its report beside the error.\<close>

definition HealthService_Check :: "env \<Rightarrow> AppConfig \<Rightarrow> (HealthResp \<times> go_error option) io" where
  "HealthService_Check E cfg =
     attempt (HealthRepo_Ping E)
       (\<lambda>e. ret (\<lparr>he_AppName = ac_Name cfg, he_DB = ''down'', he_Env = ac_Env cfg, he_Status = ''degraded''\<rparr>, Some e))
       (\<lambda>_. ret (\<lparr>he_AppName = ac_Name cfg, he_DB = ''up'', he_Env = ac_Env cfg, he_Status = ''ok''\<rparr>, None))"

definition HealthHandler_GetHealth :: "env \<Rightarrow> AppConfig \<Rightarrow> HealthResp Response io" where
  "HealthHandler_GetHealth E cfg =
     bnd (HealthService_Check E cfg) (\<lambda>(response, err).
     ret (case err of
            Some _ \<Rightarrow> \<lparr>rp_Code = 503, rp_Data = Some response, rp_Message = ''database unavailable''\<rparr>
          | None \<Rightarrow> success response))"

section \<open>Reading administrators\<close>

lemma run_first:
  "wrap msg (statement E (\<lambda>_ u. case g u of None \<Rightarrow> (Inl e, u) | Some r \<Rightarrow> (Inr r, u))) w =
     (case db_fault E (tick w) of
        Some m \<Rightarrow> (Inl (Wrapf msg (Foreign m) []), ticked 1 w)
      | None \<Rightarrow> (case g (ticked 1 w) of
          None \<Rightarrow> (Inl (Wrapf msg e []), ticked 1 w) | Some r \<Rightarrow> (Inr r, ticked 1 w)))"
  by (simp add: run_wrap statement_def Let_def split: option.split)

lemma get_admin_result:
  assumes "AdminRepo_GetByID E i w = (r, w')"
  shows "w' = ticked 1 w" and "r = Inr a \<Longrightarrow> a \<in> set (admins w) \<and> adm_ID a = i"
    and "r = Inl e \<Longrightarrow> no_faults E \<Longrightarrow> IsRecordNotFound e \<and> i \<notin> adm_ID ` set (admins w)"
proof -
  let ?f = "sql_first adm_ID (\<lambda>a. adm_ID a = i) (admins w)"
  note run = assms [unfolded AdminRepo_GetByID_def run_first]
  show "w' = ticked 1 w" using run by (simp split: option.splits)
  have "r = Inr a \<Longrightarrow> ?f = Some a" using run by (simp split: option.splits)
  then show "r = Inr a \<Longrightarrow> a \<in> set (admins w) \<and> adm_ID a = i"
    using sql_first_Some [of adm_ID "\<lambda>a. adm_ID a = i" "admins w" a] by blast
  have "r = Inl e \<Longrightarrow> no_faults E \<Longrightarrow> ?f = None \<and> IsRecordNotFound e"
    using run by (auto simp: no_faults_def IsRecordNotFound_def split: option.splits)
  then show "r = Inl e \<Longrightarrow> no_faults E \<Longrightarrow> IsRecordNotFound e \<and> i \<notin> adm_ID ` set (admins w)"
    unfolding sql_first_None by auto
qed

lemma get_profile_result:
  assumes "AuthService_GetProfile E i w = (r, w')"
  shows "w' = ticked 1 w" and "r = Inr p \<Longrightarrow> i \<in> adm_ID ` set (admins w)"
    and "no_faults E \<Longrightarrow> i \<in> adm_ID ` set (admins w) \<Longrightarrow> \<exists>p. r = Inr p"
proof -
  obtain r1 w1 where g: "AdminRepo_GetByID E i w = (r1, w1)" by fastforce
  note res = get_admin_result [OF g]
  have run: "AuthService_GetProfile E i w = (case r1 of
      Inl e \<Rightarrow> (Inl (if IsRecordNotFound e then Sentinel ErrAdminNotFound else Wrapf ''get admin profile: '' e []), w1)
    | Inr a \<Rightarrow> (Inr \<lparr>ap_ID = adm_ID a, ap_Username = adm_Username a\<rparr>, w1))"
    by (simp add: AuthService_GetProfile_def run_attempt g run_fail run_ret split: sum.split)
  show "w' = ticked 1 w" using run assms res(1) by (cases r1) simp_all
  show "r = Inr p \<Longrightarrow> i \<in> adm_ID ` set (admins w)"
    using run assms res(2) by (cases r1) force+
  show "no_faults E \<Longrightarrow> i \<in> adm_ID ` set (admins w) \<Longrightarrow> \<exists>p. r = Inr p"
    using run assms res(3) by (cases r1) auto
qed

section \<open>Sessions\<close>

text \<open>A session that names an administrator and has not expired.\<close>

definition live_session :: "session_store \<Rightarrow> gotime \<Rightarrow> nat \<Rightarrow> bool" where
  "live_session store now i \<longleftrightarrow> (\<exists>vals e. gs_Get store = Inr vals \<and> sessionAdminID (vals sessionAdminKey) = Some i \<and> i \<noteq> 0 \<and>
     sessionExpiresAt (vals sessionExpiresAtKey) = Some e \<and> now < e)"

lemma authenticate_sound:
  assumes "authenticateAdmin E cfg store w = (Inr (adminAuthOK, i, cookie), w')"
  shows "live_session store (clk E (tick w)) i \<and> i \<in> adm_ID ` set (admins w)"
proof -
  from assms obtain vals where vals: "gs_Get store = Inr vals" by (cases "gs_Get store") (auto simp: authenticateAdmin_def run_ret)
  with assms obtain j where j: "sessionAdminID (vals sessionAdminKey) = Some j" "j \<noteq> 0"
    by (auto simp: authenticateAdmin_def run_ret split: option.splits if_splits)
  with assms vals obtain e where e: "sessionExpiresAt (vals sessionExpiresAtKey) = Some e" "clk E (tick w) < e"
    by (auto simp: authenticateAdmin_def run_ret run_bnd run_time_Now split: option.splits if_splits)
  obtain r v where p: "AuthService_GetProfile E j (ticked 1 w) = (r, v)" by fastforce
  with assms vals j e obtain q where "r = Inr q" "i = j"
    by (auto simp: authenticateAdmin_def run_ret run_bnd run_time_Now run_attempt split: option.splits if_splits sum.splits)
  with get_profile_result(2) [OF p] vals j e show ?thesis by (auto simp: live_session_def)
qed

text \<open>A request passes the administrator gate only with a session that the store accepted, that has
  not expired and that names an administrator who exists at that moment.\<close>

lemma admin_gate_passes:
  assumes "RequireAdmin E cfg store w = (Inr (Pass who, cookie), w')"
  shows "\<exists>i. who = Some i \<and> live_session store (clk E (tick w)) i \<and> i \<in> adm_ID ` set (admins w)"
proof -
  from assms obtain x w1 where x: "authenticateAdmin E cfg store w = (Inr x, w1)"
    unfolding RequireAdmin_def by (rule bnd_InrE)
  obtain st i c where "x = (st, i, c)" by (rule prod_cases3)
  with x assms have auth: "authenticateAdmin E cfg store w = (Inr (adminAuthOK, i, c), w1)" "who = Some i"
    by (cases st; simp add: RequireAdmin_def run_bnd run_ret)+
  from authenticate_sound [OF auth(1)] auth(2) show ?thesis by blast
qed

lemma guest_mode_result:
  assumes "SettingsService_IsGuestModeEnabled E w = (Inr True, w')"
  shows "\<exists>s\<in>set (settings w). st_SettingKey s = guestModeSettingKey \<and> ParseBool (st_SettingValue s) = Some True"
proof -
  obtain r v where g: "AppSettingRepo_GetByKey E guestModeSettingKey w = (r, v)" by fastforce
  from assms obtain s where s: "r = Inr s" "ParseBool (st_SettingValue s) = Some True"
    by (cases r) (auto simp: SettingsService_IsGuestModeEnabled_def run_attempt g run_ret run_fail split: if_splits option.splits)
  with g have "sql_first st_SettingKey (\<lambda>s. st_SettingKey s = guestModeSettingKey) (settings w) = Some s"
    unfolding AppSettingRepo_GetByKey_def run_first by (simp split: option.splits)
  from sql_first_Some [OF this] s(2) show ?thesis by blast
qed

lemma authenticate_tables: "keeps (same_tables w) (authenticateAdmin E cfg store)"
  unfolding authenticateAdmin_def AuthService_GetProfile_def AdminRepo_GetByID_def
  by (intro keeps_intros keeps_statement tick_free_same_tables) (auto simp: keeps_def split: option.split)

text \<open>The gate of the read routes fails closed: whatever the database does, a request passes only as an
  administrator with a live session, or while guest mode is stored as enabled.\<close>

lemma guest_gate_passes:
  assumes "RequireAdminOrGuest E cfg store w = (Inr (Pass who, cookie), w')"
  shows "(\<exists>i. who = Some i \<and> live_session store (clk E (tick w)) i \<and> i \<in> adm_ID ` set (admins w)) \<or>
     who = None \<and> (\<exists>s\<in>set (settings w). st_SettingKey s = guestModeSettingKey \<and> ParseBool (st_SettingValue s) = Some True)"
proof -
  from assms obtain x w1 where x: "authenticateAdmin E cfg store w = (Inr x, w1)"
    unfolding RequireAdminOrGuest_def by (rule bnd_InrE)
  obtain st i c where "x = (st, i, c)" by (rule prod_cases3)
  with x have auth: "authenticateAdmin E cfg store w = (Inr (st, i, c), w1)" by simp
  show ?thesis
  proof (cases st)
    case adminAuthOK
    with assms auth authenticate_sound [of E cfg store w i c w1] show ?thesis
      by (auto simp: RequireAdminOrGuest_def run_bnd run_ret)
  next
    case adminAuthUnauthorized
    with assms auth have "SettingsService_IsGuestModeEnabled E w1 = (Inr True, w')" "who = None"
      by (auto simp: RequireAdminOrGuest_def run_bnd run_ret run_attempt split: prod.splits sum.splits if_splits)
    moreover have "settings w1 = settings w"
      using keepsD [OF authenticate_tables same_tables_refl auth] by (simp add: same_tables_def)
    ultimately show ?thesis using guest_mode_result [of E w1 w'] by simp
  next
    case adminAuthInternalError
    with assms auth show ?thesis by (auto simp: RequireAdminOrGuest_def run_bnd run_ret)
  qed
qed

text \<open>The cookie a client holds after a request, and the store that reads it next time.\<close>

definition holds_cookie :: "session_store \<Rightarrow> nat \<Rightarrow> gotime \<Rightarrow> bool" where
  "holds_cookie store i e \<longleftrightarrow> (\<exists>vals. gs_Get store = Inr vals \<and> sessionAdminID (vals sessionAdminKey) = Some i \<and> i \<noteq> 0 \<and>
     sessionExpiresAt (vals sessionExpiresAtKey) = Some e)"

lemma authenticate_run:
  assumes "no_faults E" and "holds_cookie store i e" and "clk E (tick w) < e" and "i \<in> adm_ID ` set (admins w)"
    and "gs_SaveErr store = None"
  shows "\<exists>cookie w'. authenticateAdmin E cfg store w = (Inr (adminAuthOK, i, cookie), w') \<and>
     (if shouldRenewSession (clk E (tick w)) e (se_MaxAge cfg)
      then \<exists>vals. gs_Get store = Inr vals \<and>
        cookie = Some (vals(sessionExpiresAtKey \<mapsto> VInt64 (time_Unix (clk E (tick w) + se_MaxAge cfg))))
      else cookie = None)"
proof -
  from assms(2) obtain vals where vals: "gs_Get store = Inr vals" "sessionAdminID (vals sessionAdminKey) = Some i" "i \<noteq> 0"
    "sessionExpiresAt (vals sessionExpiresAtKey) = Some e" by (auto simp: holds_cookie_def)
  obtain r v where p: "AuthService_GetProfile E i (ticked 1 w) = (r, v)" by fastforce
  with get_profile_result(3) [OF p] assms(1,4) obtain q where "r = Inr q" by auto
  with p vals assms(3,5) show ?thesis
    by (simp add: authenticateAdmin_def run_ret run_bnd run_time_Now run_attempt)
qed

lemma authenticate_expired:
  assumes "holds_cookie store i e" and "e \<le> clk E (tick w)"
  shows "authenticateAdmin E cfg store w = (Inr (adminAuthUnauthorized, 0, None), ticked 1 w)"
  using assms by (auto simp: holds_cookie_def authenticateAdmin_def run_ret run_bnd run_time_Now)

lemma unix_bounds: "unix_time (time_Unix t) \<le> t" "t < unix_time (time_Unix t) + second_ns"
proof -
  have "t = second_ns * (t div second_ns) + t mod second_ns" "0 \<le> t mod second_ns" "t mod second_ns < second_ns"
    by (simp_all add: second_ns_def)
  then show "unix_time (time_Unix t) \<le> t" "t < unix_time (time_Unix t) + second_ns"
    by (simp_all add: unix_time_def time_Unix_def mult.commute, linarith+)
qed


section \<open>Passwords\<close>

text \<open>What is assumed of bcrypt: a hash matches the password it was made from.\<close>

definition bcrypt_sound :: "env \<Rightarrow> bool" where
  "bcrypt_sound E \<longleftrightarrow> (\<forall>n p h. bcrypt_hash E n p = Inr h \<longrightarrow> bcrypt_match E h p)"

lemma get_by_name_result:
  assumes "AdminRepo_GetByUsername E u w = (r, w')"
  shows "w' = ticked 1 w" and "r = Inr a \<Longrightarrow> a \<in> set (admins w) \<and> adm_Username a = u"
    and "r = Inl e \<Longrightarrow> no_faults E \<Longrightarrow> IsRecordNotFound e \<and> u \<notin> adm_Username ` set (admins w)"
proof -
  let ?f = "sql_first adm_ID (\<lambda>a. adm_Username a = u) (admins w)"
  note run = assms [unfolded AdminRepo_GetByUsername_def run_first]
  show "w' = ticked 1 w" using run by (simp split: option.splits)
  have "r = Inr a \<Longrightarrow> ?f = Some a" using run by (simp split: option.splits)
  then show "r = Inr a \<Longrightarrow> a \<in> set (admins w) \<and> adm_Username a = u"
    using sql_first_Some [of adm_ID "\<lambda>a. adm_Username a = u" "admins w" a] by blast
  have "r = Inl e \<Longrightarrow> no_faults E \<Longrightarrow> ?f = None \<and> IsRecordNotFound e"
    using run by (auto simp: no_faults_def IsRecordNotFound_def split: option.splits)
  then show "r = Inl e \<Longrightarrow> no_faults E \<Longrightarrow> IsRecordNotFound e \<and> u \<notin> adm_Username ` set (admins w)"
    unfolding sql_first_None by auto
qed

lemma get_by_name_unique:
  assumes "no_faults E" and "distinct (map adm_Username (admins w))" and "a \<in> set (admins w)"
  shows "AdminRepo_GetByUsername E (adm_Username a) w = (Inr a, ticked 1 w)"
proof -
  obtain r w' where g: "AdminRepo_GetByUsername E (adm_Username a) w = (r, w')" by fastforce
  note res = get_by_name_result [OF g]
  from assms(3) have "adm_Username a \<in> adm_Username ` set (admins w)" by simp
  with res(3) assms(1) obtain b where b: "r = Inr b" by (cases r) blast+
  with res(2) have "b \<in> set (admins w)" "adm_Username b = adm_Username a" by auto
  with assms(2,3) have "b = a" by (auto simp: distinct_map dest: inj_onD)
  with b res(1) g show ?thesis by simp
qed

lemma authenticate_value:
  assumes "no_faults E" and "distinct (map adm_Username (admins w))" and "a \<in> set (admins w)" and "bcrypt_match E (adm_PasswordHash a) pw"
  shows "AuthService_Authenticate E (adm_Username a) pw w = (Inr \<lparr>ap_ID = adm_ID a, ap_Username = adm_Username a\<rparr>, ticked 1 w)"
  using assms get_by_name_unique [OF assms(1-3)] by (simp add: AuthService_Authenticate_def run_attempt run_ret)

definition with_hash :: "nat \<Rightarrow> string \<Rightarrow> gotime \<Rightarrow> Admin list \<Rightarrow> Admin list" where
  "with_hash i h t rows = sql_update (\<lambda>a. adm_ID a = i) (\<lambda>a. a\<lparr>adm_PasswordHash := h, adm_UpdatedAt := t\<rparr>) rows"

lemma store_password_result:
  assumes "storePassword E m1 m2 i pw w = (r, w')"
  shows "r = Inl e \<Longrightarrow> admins w' = admins w"
    and "r = Inr () \<Longrightarrow> \<exists>n h t. bcrypt_hash E n pw = Inr h \<and> admins w' = with_hash i h t (admins w)"
proof -
  have none: "sql_count p rows = 0 \<Longrightarrow> sql_update p f rows = rows" for p f and rows :: "Admin list"
    by (auto simp: sql_count_def sql_update_def filter_empty_conv intro!: map_idI)
  let ?p = "\<lambda>a. adm_ID a = i"
  have upd: "AdminRepo_UpdatePasswordHash E i h v =
      (case db_fault E (tick v) of
         Some m \<Rightarrow> (Inl (Wrapf ''update admin password hash: '' (Foreign m) []), ticked 1 v)
       | None \<Rightarrow> (if sql_count ?p (admins v) = 0 then Inl (Wrapf ''update admin password hash: '' (Sentinel ErrRecordNotFound) [])
                  else Inr (), (ticked 1 v)\<lparr>admins := with_hash i h (clk E (tick v)) (admins v)\<rparr>))" for h v
    by (simp add: AdminRepo_UpdatePasswordHash_def run_bnd run_wrap statement_def Let_def run_fail run_ret with_hash_def split: option.split)
  have run: "storePassword E m1 m2 i pw w = (case bcrypt_hash E (tick w) pw of
      Inl e \<Rightarrow> (Inl (Wrapf m1 (Foreign e) []), ticked 1 w)
    | Inr h \<Rightarrow> (case AdminRepo_UpdatePasswordHash E i h (ticked 1 w) of
        (Inl e, v) \<Rightarrow> (Inl (if IsRecordNotFound e then Sentinel ErrAdminNotFound else Wrapf m2 e []), v) | (Inr x, v) \<Rightarrow> (Inr (), v)))"
    by (simp add: storePassword_def run_bnd run_external run_attempt run_fail run_ret split: sum.split prod.split)
  show "r = Inl e \<Longrightarrow> admins w' = admins w"
    using assms none [of ?p "admins w"] unfolding run upd
    by (auto simp: with_hash_def split: sum.splits option.splits if_splits)
  show "r = Inr () \<Longrightarrow> \<exists>n h t. bcrypt_hash E n pw = Inr h \<and> admins w' = with_hash i h t (admins w)"
    using assms unfolding run upd by (auto split: sum.splits option.splits if_splits) blast
qed

lemma with_hash_member:
  assumes "a \<in> set rows" and "adm_ID a = i"
  shows "a\<lparr>adm_PasswordHash := h, adm_UpdatedAt := t\<rparr> \<in> set (with_hash i h t rows)"
  using assms by (force simp: with_hash_def sql_update_def)

lemma with_hash_names: "map adm_Username (with_hash i h t rows) = map adm_Username rows"
  by (simp add: with_hash_def sql_update_def)

text \<open>C28. A password change needs the current password and a new one of at least six characters. When it is
  refused or fails no administrator changes; when it succeeds the administrator can log in
  with the new password.\<close>

theorem change_password_correct:
  assumes "bcrypt_sound E" and "distinct (map adm_Username (admins w))"
    and "AuthService_ChangePassword E i cur new w = (r, w')"
  shows "(case r of
       Inl _ \<Rightarrow> admins w' = admins w
     | Inr _ \<Rightarrow> 6 \<le> RuneCount new \<and> (\<exists>a\<in>set (admins w). adm_ID a = i \<and> bcrypt_match E (adm_PasswordHash a) cur \<and>
         (no_faults E \<longrightarrow> (\<exists>w''. AuthService_Authenticate E (adm_Username a) new w' =
            (Inr \<lparr>ap_ID = i, ap_Username = adm_Username a\<rparr>, w'')))))"
proof (cases "RuneCount new < 6")
  case True
  with assms(3) show ?thesis by (auto simp: AuthService_ChangePassword_def minAdminPasswordLength_def run_fail)
next
  case False
  obtain r1 w1 where g: "AdminRepo_GetByID E i w = (r1, w1)" by fastforce
  note res = get_admin_result [OF g]
  show ?thesis
  proof (cases "\<exists>a. r1 = Inr a \<and> bcrypt_match E (adm_PasswordHash a) cur")
    case no: False
    have "w' = ticked 1 w \<and> (\<exists>e. r = Inl e)"
    proof (cases r1)
      case (Inl e)
      with assms(3) False g res(1) show ?thesis
        by (auto simp: AuthService_ChangePassword_def minAdminPasswordLength_def run_attempt run_fail split: if_splits)
    next
      case (Inr a)
      with no assms(3) False g res(1) show ?thesis
        by (auto simp: AuthService_ChangePassword_def minAdminPasswordLength_def run_attempt run_fail)
    qed
    then show ?thesis by auto
  next
    case True
    then obtain a where a: "r1 = Inr a" "bcrypt_match E (adm_PasswordHash a) cur" by blast
    with res(2) have mem: "a \<in> set (admins w)" "adm_ID a = i" by auto
    from assms(3) False g a res(1)
    have st: "storePassword E ''hash new admin password: '' ''update admin password hash: '' i new (ticked 1 w) = (r, w')"
      by (simp add: AuthService_ChangePassword_def minAdminPasswordLength_def run_attempt)
    show ?thesis
    proof (cases r)
      case (Inl e)
      with store_password_result(1) [OF st] show ?thesis by simp
    next
      case (Inr u)
      with store_password_result(2) [OF st] obtain n h t where h: "bcrypt_hash E n new = Inr h" "admins w' = with_hash i h t (admins w)"
        by auto
      let ?a = "a\<lparr>adm_PasswordHash := h, adm_UpdatedAt := t\<rparr>"
      have "?a \<in> set (admins w')" using with_hash_member [OF mem] h(2) by simp
      moreover have "distinct (map adm_Username (admins w'))" using assms(2) h(2) by (simp add: with_hash_names)
      moreover have "bcrypt_match E (adm_PasswordHash ?a) new" using assms(1) h(1) by (auto simp: bcrypt_sound_def)
      ultimately have "no_faults E \<longrightarrow> (\<exists>w''. AuthService_Authenticate E (adm_Username a) new w' =
          (Inr \<lparr>ap_ID = i, ap_Username = adm_Username a\<rparr>, w''))"
        using authenticate_value [of E w' ?a new] mem(2) by (intro impI) simp
      with mem a(2) have "\<exists>a\<in>set (admins w). adm_ID a = i \<and> bcrypt_match E (adm_PasswordHash a) cur \<and>
         (no_faults E \<longrightarrow> (\<exists>w''. AuthService_Authenticate E (adm_Username a) new w' =
            (Inr \<lparr>ap_ID = i, ap_Username = adm_Username a\<rparr>, w'')))" by blast
      with Inr False show ?thesis by simp
    qed
  qed
qed

section \<open>Logging in\<close>

text \<open>C29. A login succeeds exactly with the right password of an existing administrator: then, and only
  then, the client gets a cookie, which names this administrator and lasts for the session's
  maximal age; every other login is answered alike.\<close>

theorem login_correct:
  assumes "no_faults E" and "distinct (map adm_Username (admins w))" and "gs_Get store = Inr vals" and "gs_SaveErr store = None"
  shows "\<exists>resp cookie w'. AuthHandler_Login E cfg store (Some req) w = (Inr (resp, cookie), w') \<and>
     (if \<exists>a\<in>set (admins w). adm_Username a = lr_Username req \<and> bcrypt_match E (adm_PasswordHash a) (lr_Password req)
      then \<exists>a\<in>set (admins w). adm_Username a = lr_Username req \<and> rp_Code resp = 200 \<and>
        (\<exists>new. cookie = Some new \<and> new sessionAdminKey = Some (VUint (adm_ID a)) \<and>
           new sessionExpiresAtKey = Some (VInt64 (time_Unix (clk E (tick w + 1) + se_MaxAge cfg))))
      else resp = reply 401 ''username or password is incorrect'' \<and> cookie = None)"
proof (cases "\<exists>a\<in>set (admins w). adm_Username a = lr_Username req \<and> bcrypt_match E (adm_PasswordHash a) (lr_Password req)")
  case True
  then obtain a where a: "a \<in> set (admins w)" "adm_Username a = lr_Username req" "bcrypt_match E (adm_PasswordHash a) (lr_Password req)"
    by blast
  from authenticate_value [OF assms(1,2) a(1,3)] a(2)
  have "AuthService_Authenticate E (lr_Username req) (lr_Password req) w = (Inr \<lparr>ap_ID = adm_ID a, ap_Username = adm_Username a\<rparr>, ticked 1 w)"
    by simp
  with True a assms(3,4) show ?thesis
    by (auto simp: AuthHandler_Login_def run_attempt run_bnd run_time_Now run_ret success_def sessionAdminKey_def sessionExpiresAtKey_def)
next
  case False
  obtain r w1 where g: "AdminRepo_GetByUsername E (lr_Username req) w = (r, w1)" by fastforce
  note res = get_by_name_result [OF g]
  have "AuthService_Authenticate E (lr_Username req) (lr_Password req) w = (Inl (Sentinel ErrInvalidCredentials), w1)"
  proof (cases r)
    case (Inl e)
    with res(3) assms(1) g show ?thesis by (simp add: AuthService_Authenticate_def run_attempt run_fail)
  next
    case (Inr a)
    with res(2) False g show ?thesis by (auto simp: AuthService_Authenticate_def run_attempt run_fail)
  qed
  with False show ?thesis by (simp add: AuthHandler_Login_def run_attempt run_ret)
qed

text \<open>C32. A browser whose cookie the store cannot read any more (its secret was changed) is locked out: the
  right password is answered with an internal error, no new cookie is set, and logging out does
  not remove the old one.\<close>

theorem unreadable_cookie_locks_out:
  assumes "gs_Get store = Inl err"
  shows "(\<forall>resp cookie w'. AuthHandler_Login E cfg store (Some req) w = (Inr (resp, cookie), w') \<longrightarrow>
       rp_Code resp \<noteq> 200 \<and> cookie = None) \<and>
     AuthHandler_Logout store w = (Inr (reply 200 ''success'', False), w)"
  using assms by (auto simp: AuthHandler_Login_def AuthHandler_Logout_def run_attempt run_ret reply_def internal_error_def
      split: prod.splits sum.splits if_splits)

section \<open>The first administrator\<close>

lemma admin_create_result:
  assumes "AdminRepo_Create E a w = (r, w')"
  shows "admins w' = admins w \<or> (\<exists>b. admins w' = admins w @ [b] \<and> adm_Username b = adm_Username a \<and>
     adm_PasswordHash b = adm_PasswordHash a \<and> adm_Username a \<notin> adm_Username ` set (admins w))"
  using assms by (auto simp: AdminRepo_Create_def run_wrap statement_def Let_def split: option.splits if_splits)

lemma keeps_generate_password: "tick_free I \<Longrightarrow> keeps I (generateBootstrapAdminPassword E)"
  unfolding generateBootstrapAdminPassword_def by (intro keeps_intros)

text \<open>The set-up of the first administrator adds at most one, with a new name; it leaves every existing
  administrator as it is, whatever fails.\<close>

definition admins_extend :: "Admin list \<Rightarrow> world \<Rightarrow> bool" where
  "admins_extend rows w \<longleftrightarrow> admins w = rows \<or> (\<exists>b. admins w = rows @ [b] \<and> adm_Username b \<notin> adm_Username ` set rows)"

lemma bootstrap_extends:
  assumes "AuthService_EnsureBootstrapAdmin E cfg w = (r, w')"
  shows "admins_extend (admins w) w'"
proof -
  let ?I = "\<lambda>v. admins v = admins w"
  have tf: "tick_free ?I" by (simp add: tick_free_def)
  have pre: "keeps ?I (AdminRepo_ExistsByUsername E u)" for u
    unfolding AdminRepo_ExistsByUsername_def by (intro keeps_intros keeps_statement tf) (simp add: keeps_def)
  have fin: "admins_extend (admins w) (snd (bnd (wrap msg (AdminRepo_Create E a)) (\<lambda>_. ret x) v))" if "admins v = admins w" for msg a x v
  proof -
    obtain r1 v1 where c: "AdminRepo_Create E a v = (r1, v1)" by fastforce
    from admin_create_result [OF c] that have "admins_extend (admins w) v1" by (auto simp: admins_extend_def)
    with c show ?thesis by (simp add: run_bnd run_wrap run_ret split: sum.split)
  qed
  have step: "admins_extend (admins w) (snd (bnd m f v))"
    if "keeps ?I m" "admins v = admins w" "\<And>x v. admins v = admins w \<Longrightarrow> admins_extend (admins w) (snd (f x v))" for m :: "'a io" and f :: "'a \<Rightarrow> 'b io" and v
    using that by (auto simp: run_bnd keeps_def admins_extend_def split: prod.splits sum.splits) (metis snd_conv)+
  have "admins_extend (admins w) (snd (AuthService_EnsureBootstrapAdmin E cfg w))"
    unfolding AuthService_EnsureBootstrapAdmin_def Let_def
    apply (cases "bs_InitAdminUsername cfg = [] \<and> bs_InitAdminPassword cfg \<noteq> []")
     apply (simp add: run_ret admins_extend_def)
    apply (simp only: if_False)
    apply (rule step, intro keeps_wrap pre, rule refl)
    apply (case_tac x)
     apply (simp add: run_ret admins_extend_def)
    apply (simp only: if_False)
    apply (rule step, intro keeps_if keeps_generate_password tf keeps_ret, assumption)
    apply (rule step, intro keeps_external tf, assumption)
    apply (case_tac xb)
     apply (simp add: run_fail admins_extend_def)
    apply (simp add: fin)
    done
  with assms show ?thesis by simp
qed

definition bootstrap_skipped :: "BootstrapConfig \<Rightarrow> bool" where
  "bootstrap_skipped cfg \<longleftrightarrow> bs_InitAdminUsername cfg = [] \<and> bs_InitAdminPassword cfg \<noteq> []"

definition bootstrap_name :: "BootstrapConfig \<Rightarrow> string" where
  "bootstrap_name cfg = (if bs_InitAdminUsername cfg = [] then ''admin'' else bs_InitAdminUsername cfg)"

lemma exists_by_name:
  assumes "no_faults E"
  shows "AdminRepo_ExistsByUsername E u w = (Inr (u \<in> adm_Username ` set (admins w)), ticked 1 w)"
proof -
  have "0 < sql_count (\<lambda>a. adm_Username a = u) (admins w) \<longleftrightarrow> u \<in> adm_Username ` set (admins w)"
    by (auto simp: sql_count_def filter_empty_conv)
  then show ?thesis using assms by (simp add: AdminRepo_ExistsByUsername_def run_simps)
qed

lemma bootstrap_present:
  assumes "no_faults E" and "bootstrap_skipped cfg \<or> bootstrap_name cfg \<in> adm_Username ` set (admins w)"
  shows "\<exists>res w'. AuthService_EnsureBootstrapAdmin E cfg w = (Inr res, w') \<and> \<not> ba_Created res \<and> admins w' = admins w"
  using assms
  by (auto simp: AuthService_EnsureBootstrapAdmin_def Let_def run_bnd run_wrap run_ret exists_by_name no_bootstrap_def
      bootstrap_skipped_def bootstrap_name_def)

lemma bootstrap_created:
  assumes "no_faults E" and "\<not> bootstrap_skipped cfg" and "bootstrap_name cfg \<notin> adm_Username ` set (admins w)"
    and "AuthService_EnsureBootstrapAdmin E cfg w = (Inr res, w')"
  shows "bootstrap_name cfg \<in> adm_Username ` set (admins w')"
proof -
  let ?u = "bootstrap_name cfg" and ?g = "bs_InitAdminUsername cfg = []"
  have run: "AuthService_EnsureBootstrapAdmin E cfg w =
      bnd (if ?g then generateBootstrapAdminPassword E else ret (bs_InitAdminPassword cfg)) (\<lambda>password.
        bnd (external (\<lambda>n. bcrypt_hash E n password)) (\<lambda>r.
        case r of
          Inl e \<Rightarrow> fail (Wrapf ''hash bootstrap admin password: '' (Foreign e) [])
        | Inr passwordHash \<Rightarrow>
            bnd (wrap ''create bootstrap admin: '' (AdminRepo_Create E
                \<lparr>adm_ID = 0, adm_CreatedAt = zero_time, adm_UpdatedAt = zero_time, adm_Username = ?u,
                 adm_PasswordHash = passwordHash\<rparr>)) (\<lambda>_.
            ret \<lparr>ba_Created = True, ba_Username = ?u, ba_Password = (if ?g then password else []),
                 ba_GeneratedPassword = ?g\<rparr>))) (ticked 1 w)"
    using assms(1-3) by (simp add: AuthService_EnsureBootstrapAdmin_def Let_def run_bnd [of "wrap _ (AdminRepo_ExistsByUsername E _)"]
        run_wrap exists_by_name bootstrap_skipped_def bootstrap_name_def)
  have created: "?u \<in> adm_Username ` set (admins v)"
    if "bnd (wrap m (AdminRepo_Create E a)) (\<lambda>_. ret x) v0 = (Inr y, v)" "adm_Username a = ?u" for m a x v0 y v
    using that assms(1) by (auto simp: AdminRepo_Create_def run_simps Let_def split: if_splits)
  from assms(4) [unfolded run] obtain pw w1 where "(bnd (external (\<lambda>n. bcrypt_hash E n pw)) (\<lambda>r.
        case r of
          Inl e \<Rightarrow> fail (Wrapf ''hash bootstrap admin password: '' (Foreign e) [])
        | Inr passwordHash \<Rightarrow>
            bnd (wrap ''create bootstrap admin: '' (AdminRepo_Create E
                \<lparr>adm_ID = 0, adm_CreatedAt = zero_time, adm_UpdatedAt = zero_time, adm_Username = ?u,
                 adm_PasswordHash = passwordHash\<rparr>)) (\<lambda>_.
            ret \<lparr>ba_Created = True, ba_Username = ?u, ba_Password = (if ?g then pw else []),
                 ba_GeneratedPassword = ?g\<rparr>))) w1 = (Inr res, w')"
    by (rule bnd_InrE)
  note hashed = this
  show ?thesis
  proof (cases "bcrypt_hash E (tick w1) pw")
    case (Inl e)
    with hashed show ?thesis by (simp add: run_bnd [of "external _"] run_external run_fail)
  next
    case (Inr hash)
    show ?thesis
      by (rule created [OF hashed [unfolded run_bnd [of "external _"] run_external Inr, simplified]]) simp
  qed
qed

text \<open>Setting up the first administrator adds at most one administrator, under a name that is new,
  and touches no existing one, whatever fails; once it succeeded, doing it again (at every start of
  the program) adds nothing.\<close>

lemma bootstrap_admin_safe:
  assumes "AuthService_EnsureBootstrapAdmin E cfg w = (r, w')"
  shows "admins_extend (admins w) w' \<and>
     (no_faults E \<and> (\<exists>res. r = Inr res) \<longrightarrow>
       (\<exists>res' w''. AuthService_EnsureBootstrapAdmin E cfg w' = (Inr res', w'') \<and> \<not> ba_Created res' \<and> admins w'' = admins w'))"
proof (intro conjI impI)
  show "admins_extend (admins w) w'" using assms by (rule bootstrap_extends)
  assume "no_faults E \<and> (\<exists>res. r = Inr res)"
  then obtain res where nf: "no_faults E" and res: "r = Inr res" by blast
  have "bootstrap_skipped cfg \<or> bootstrap_name cfg \<in> adm_Username ` set (admins w')"
  proof (cases "bootstrap_skipped cfg \<or> bootstrap_name cfg \<in> adm_Username ` set (admins w)")
    case True
    with bootstrap_present [OF nf, of cfg w] assms show ?thesis by auto
  next
    case False
    with bootstrap_created [OF nf] assms res show ?thesis by blast
  qed
  with bootstrap_present [OF nf] show "\<exists>res' w''. AuthService_EnsureBootstrapAdmin E cfg w' = (Inr res', w'') \<and> \<not> ba_Created res' \<and>
      admins w'' = admins w'" by blast
qed

section \<open>The restore token\<close>

lemma consume_result:
  assumes "consumeRestoreToken cfg now token h = (ok, h')"
  shows "ok \<Longrightarrow> \<not> rh_tokenUsed h \<and> rh_tokenUsed h' \<and> now \<le> rh_tokenExpiresAt h \<and> TrimSpace token = TrimSpace (rs_Token cfg) \<and>
     TrimSpace token \<noteq> []"
    and "\<not> ok \<Longrightarrow> h' = h"
  using assms by (auto simp: consumeRestoreToken_def Let_def split: if_splits)

definition restore_ok :: "restore_state \<Rightarrow> bool" where
  "restore_ok s \<longleftrightarrow> rt_resets s + length (rt_running s) \<le> 1 \<and>
     (rh_tokenUsed (rt_handler s) \<longleftrightarrow> rt_resets s + length (rt_running s) = 1)"

lemma restore_ok_step: "restore_step cfg s s' \<Longrightarrow> restore_ok s \<Longrightarrow> restore_ok s'"
proof (induction rule: restore_step.induct)
  case (token_rejected now token s h')
  then show ?case using consume_result(2) [OF token_rejected(1)] by (simp add: restore_ok_def)
next
  case (token_consumed now token s h' i)
  then show ?case using consume_result(1) [OF token_consumed(1)] by (auto simp: restore_ok_def le_Suc_eq)
next
  case (reset_succeeded i s)
  then have "rt_running s = [i]" by (cases "rt_running s") (auto simp: restore_ok_def)
  with reset_succeeded show ?case by (simp add: restore_ok_def)
next
  case (reset_failed i s)
  then have "rt_running s = [i]" by (cases "rt_running s") (auto simp: restore_ok_def)
  with reset_failed show ?case by (simp add: restore_ok_def releaseRestoreToken_def)
qed

text \<open>C27. The restore token resets at most one password, and at most one request works with it at a time,
  however requests interleave; a failed reset gives it back.\<close>

theorem restore_token_single_use:
  assumes "(restore_step cfg)\<^sup>*\<^sup>* \<lparr>rt_handler = \<lparr>rh_tokenUsed = False, rh_tokenExpiresAt = t\<rparr>, rt_running = [], rt_resets = 0\<rparr> s"
  shows "rt_resets s + length (rt_running s) \<le> 1 \<and> (rh_tokenUsed (rt_handler s) \<longleftrightarrow> rt_resets s + length (rt_running s) = 1)"
proof -
  from assms have "restore_ok s"
    by (induction rule: rtranclp_induct) (auto simp: restore_ok_step, simp add: restore_ok_def)
  then show ?thesis by (simp add: restore_ok_def)
qed

lemma reset_result:
  assumes "AuthService_ResetPasswordByUsername E u new w = (r, w')"
  shows "r = Inl e \<Longrightarrow> admins w' = admins w"
    and "r = Inr () \<Longrightarrow> 6 \<le> RuneCount new \<and> (\<exists>a\<in>set (admins w). adm_Username a = u \<and>
       (\<exists>n h t. bcrypt_hash E n new = Inr h \<and> admins w' = with_hash (adm_ID a) h t (admins w)))"
proof -
  obtain r1 w1 where g: "AdminRepo_GetByUsername E u w = (r1, w1)" by fastforce
  note res = get_by_name_result [OF g]
  note run = assms [unfolded AuthService_ResetPasswordByUsername_def minAdminPasswordLength_def]
  have "(r = Inl e \<longrightarrow> admins w' = admins w) \<and> (r = Inr () \<longrightarrow> 6 \<le> RuneCount new \<and> (\<exists>a\<in>set (admins w). adm_Username a = u \<and>
       (\<exists>n h t. bcrypt_hash E n new = Inr h \<and> admins w' = with_hash (adm_ID a) h t (admins w))))"
  proof (cases "RuneCount new < 6")
    case True
    with run show ?thesis by (auto simp: run_fail)
  next
    case False
    show ?thesis
    proof (cases r1)
      case (Inl e1)
      with run False g res(1) show ?thesis by (auto simp: run_attempt run_fail split: if_splits)
    next
      case (Inr a)
      with run False g res(1)
      have "storePassword E ''hash reset admin password: '' ''update reset admin password hash: '' (adm_ID a) new (ticked 1 w) = (r, w')"
        by (simp add: run_attempt)
      note st = store_password_result [OF this]
      from res(2) [OF Inr] have "a \<in> set (admins w)" "adm_Username a = u" by auto
      with st False show ?thesis by (cases r) (simp, fastforce)
    qed
  qed
  then show "r = Inl e \<Longrightarrow> admins w' = admins w"
    and "r = Inr () \<Longrightarrow> 6 \<le> RuneCount new \<and> (\<exists>a\<in>set (admins w). adm_Username a = u \<and>
       (\<exists>n h t. bcrypt_hash E n new = Inr h \<and> admins w' = with_hash (adm_ID a) h t (admins w)))" by blast+
qed

text \<open>In restore mode a password changes only for a request with the configured token, before the
  token expired and before it was used; the answer is then 200, the token is used up, and only the named
  administrator's password changed. Every other request leaves all administrators as they are, and
  the token as usable as before.\<close>

lemma restore_needs_token:
  assumes "RestoreHandler_ResetAdminPassword E cfg (Some req) h w = (Inr (resp, h'), w')"
  shows "if rp_Code resp = 200
     then \<not> rh_tokenUsed h \<and> clk E (tick w) \<le> rh_tokenExpiresAt h \<and> TrimSpace (rr_RestoreToken req) = TrimSpace (rs_Token cfg) \<and>
       TrimSpace (rs_Token cfg) \<noteq> [] \<and> rh_tokenUsed h' \<and>
       (\<exists>a\<in>set (admins w). adm_Username a = rr_Username req \<and>
         (\<exists>n hash t. bcrypt_hash E n (rr_NewPassword req) = Inr hash \<and> admins w' = with_hash (adm_ID a) hash t (admins w)))
     else admins w' = admins w \<and> h' = h"
proof -
  let ?now = "if rh_tokenUsed h then 0 else clk E (tick w)" and ?w = "if rh_tokenUsed h then w else ticked 1 w"
  obtain ok h1 where c: "consumeRestoreToken cfg ?now (rr_RestoreToken req) h = (ok, h1)" by fastforce
  have run: "RestoreHandler_ResetAdminPassword E cfg (Some req) h w =
      (if ok then bnd (catching (AuthService_ResetPasswordByUsername E (rr_Username req) (rr_NewPassword req))) (\<lambda>r.
              ret (restoreReply r, case r of Inl _ \<Rightarrow> releaseRestoreToken h1 | Inr _ \<Rightarrow> h1)) ?w
       else (Inr (reply 403 ''restore token is invalid'', h1), ?w))"
    using c by (cases "rh_tokenUsed h"; cases ok) (auto simp: RestoreHandler_ResetAdminPassword_def run_bnd run_ret run_time_Now)
  show ?thesis
  proof (cases ok)
    case False
    with run assms consume_result(2) [OF c] show ?thesis by (auto simp: reply_def)
  next
    case True
    note tok = consume_result(1) [OF c True]
    obtain r v where s: "AuthService_ResetPasswordByUsername E (rr_Username req) (rr_NewPassword req) ?w = (r, v)" by fastforce
    from run assms s True have res: "resp = restoreReply r" "w' = v" "h' = (case r of Inl _ \<Rightarrow> releaseRestoreToken h1 | Inr _ \<Rightarrow> h1)"
      by (auto simp: run_bnd run_catching run_ret)
    show ?thesis
    proof (cases r)
      case (Inl e)
      from c True have "h1 = h\<lparr>rh_tokenUsed := True\<rparr>" by (auto simp: consumeRestoreToken_def Let_def split: if_splits)
      with Inl tok have "h' = h" using res(3) by (simp add: releaseRestoreToken_def)
      with Inl res(1,2) reset_result(1) [OF s Inl] show ?thesis
        by (auto simp: restoreReply_def reply_def invalid_request_def internal_error_def split: if_splits)
    next
      case (Inr u)
      with reset_result(2) [OF s] tok have "\<exists>a\<in>set (admins w). adm_Username a = rr_Username req \<and>
         (\<exists>n hash t. bcrypt_hash E n (rr_NewPassword req) = Inr hash \<and> admins v = with_hash (adm_ID a) hash t (admins w))" by auto
      with Inr res tok show ?thesis by (auto simp: restoreReply_def reply_def)
    qed
  qed
qed

section \<open>Guest mode\<close>

lemma parse_format_bool: "ParseBool (FormatBool b) = Some b"
  by (simp add: ParseBool_def FormatBool_def)

text \<open>The guest mode an administrator stored is the one the gate reads, until it is changed again.\<close>

lemma guest_mode_roundtrip:
  assumes "SettingsService_UpdateGuestMode E \<lparr>ug_Enabled = b\<rparr> w = (Inr b', w')" and "no_faults E"
  shows "gm_Enabled b' = b \<and> (\<exists>w''. SettingsService_IsGuestModeEnabled E w' = (Inr b, w''))"
proof -
  let ?p = "\<lambda>s. st_SettingKey s = guestModeSettingKey"
  define row where "row = \<lparr>st_SettingKey = guestModeSettingKey, st_SettingValue = FormatBool b,
      st_CreatedAt = gorm_stamp zero_time (clk E (tick w)), st_UpdatedAt = gorm_stamp zero_time (clk E (tick w))\<rparr>"
  have "SettingsService_UpdateGuestMode E \<lparr>ug_Enabled = b\<rparr> w =
      (Inr \<lparr>gm_Enabled = b\<rparr>, (ticked 1 w)\<lparr>settings := sql_upsert st_SettingKey setting_upd row (settings w)\<rparr>)"
    using assms(2) by (simp add: SettingsService_UpdateGuestMode_def AppSettingRepo_Upsert_def run_simps Let_def row_def)
  with assms(1) have b': "gm_Enabled b' = b" and w': "settings w' = sql_upsert st_SettingKey setting_upd row (settings w)" by auto
  have row: "st_SettingKey row = guestModeSettingKey" "st_SettingValue row = FormatBool b" by (simp_all add: row_def)
  have keys: "guestModeSettingKey \<in> set (map st_SettingKey (settings w'))"
    unfolding w' setting_tbl.map_key_upsert using row(1) by simp
  have rows: "\<exists>s\<in>set (settings w'). ?p s" using keys by force
  have vals: "\<forall>s\<in>set (settings w'). ?p s \<longrightarrow> st_SettingValue s = FormatBool b"
    using row by (auto simp: w' sql_upsert_def setting_upd_def rev_image_eqI)
  from rows obtain s where s: "sql_first st_SettingKey ?p (settings w') = Some s"
    using sql_first_None [of st_SettingKey ?p "settings w'"] by (cases "sql_first st_SettingKey ?p (settings w')") auto
  from sql_first_Some [OF this] vals have "ParseBool (st_SettingValue s) = Some b" by (simp add: parse_format_bool)
  with s assms(2) b' show ?thesis
    by (simp add: SettingsService_IsGuestModeEnabled_def AppSettingRepo_GetByKey_def run_simps)
qed

text \<open>The health report is honest about the database: it says \<open>up\<close>, with status 200, exactly when the ping got through.\<close>

lemma health_honest:
  "\<exists>resp w'. HealthHandler_GetHealth E cfg w = (Inr resp, w') \<and>
     (rp_Code resp = 200 \<longleftrightarrow> db_fault E (tick w) = None) \<and>
     (\<exists>h. rp_Data resp = Some h \<and> (he_DB h = ''up'' \<longleftrightarrow> db_fault E (tick w) = None) \<and> same_tables w w')"
  by (simp add: HealthHandler_GetHealth_def HealthService_Check_def HealthRepo_Ping_def run_simps statement_def Let_def success_def
      split: option.split)

section \<open>Examples\<close>

text \<open>One administrator, in the example environment, with a session that lasts.\<close>

definition example_admin :: Admin where
  "example_admin = \<lparr>adm_ID = 1, adm_CreatedAt = 0, adm_UpdatedAt = 0, adm_Username = ''root'', adm_PasswordHash = ''$secret1''\<rparr>"

definition admin_world :: world where
  "admin_world = empty_world\<lparr>admins := [example_admin], settings := [\<lparr>st_SettingKey = guestModeSettingKey,
     st_SettingValue = ''true'', st_CreatedAt = 0, st_UpdatedAt = 0\<rparr>]\<rparr>"

definition example_session :: SessionConfig where
  "example_session = \<lparr>se_Secret = ''s'', se_CookieName = ''sid'', se_MaxAge = 3600 * second_ns, se_Secure = True\<rparr>"

definition example_store :: session_store where
  "example_store = \<lparr>gs_Get = Inr [sessionAdminKey \<mapsto> VUint 1, sessionExpiresAtKey \<mapsto> VInt64 1700003600], gs_SaveErr = None\<rparr>"

definition no_cookie :: session_store where
  "no_cookie = \<lparr>gs_Get = Inr Map.empty, gs_SaveErr = None\<rparr>"

lemma example_auth:
  "clk example_env n = (1700000000 + int n) * second_ns"
  "bcrypt_hash example_env n pw = Inr (CHR ''$'' # pw)"
  "bcrypt_match example_env h pw \<longleftrightarrow> h = CHR ''$'' # pw"
  by (simp_all add: example_env_def)

lemma admin_world_simps [simp]:
  "admins admin_world = [example_admin]" "tick admin_world = 0"
  "settings admin_world = [\<lparr>st_SettingKey = guestModeSettingKey, st_SettingValue = ''true'', st_CreatedAt = 0, st_UpdatedAt = 0\<rparr>]"
  by (simp_all add: admin_world_def empty_world_def)

lemma example_bcrypt_sound: "bcrypt_sound example_env"
  by (simp add: bcrypt_sound_def example_auth)

lemma session_keys_differ [simp]: "sessionAdminKey \<noteq> sessionExpiresAtKey"
  by (simp add: sessionAdminKey_def sessionExpiresAtKey_def)

lemma example_holds_cookie: "holds_cookie example_store 1 (unix_time 1700003600)"
  by (simp add: holds_cookie_def example_store_def sessionAdminID_def sessionExpiresAt_def)

lemma example_admitted:
  "\<exists>cookie w'. RequireAdmin example_env example_session example_store admin_world = (Inr (Pass (Some 1), cookie), w')"
proof -
  have "\<exists>cookie w'. authenticateAdmin example_env example_session example_store admin_world = (Inr (adminAuthOK, 1, cookie), w')"
    using authenticate_run [OF example_no_faults example_holds_cookie, of admin_world example_session]
    by (auto simp: example_auth unix_time_def second_ns_def example_admin_def example_store_def)
  then show ?thesis by (auto simp: RequireAdmin_def run_bnd run_ret)
qed


theorem login_correct_witness:
  "\<exists>resp w'. AuthHandler_Login example_env example_session no_cookie (Some \<lparr>lr_Username = ''root'', lr_Password = ''wrong''\<rparr>) admin_world =
     (Inr (resp, None), w') \<and> rp_Code resp = 401"
proof -
  have d: "distinct (map adm_Username (admins admin_world))" "gs_Get no_cookie = Inr Map.empty" "gs_SaveErr no_cookie = None"
    by (simp_all add: no_cookie_def)
  have no: "\<not> (\<exists>a\<in>set (admins admin_world). adm_Username a = ''root'' \<and> bcrypt_match example_env (adm_PasswordHash a) ''wrong'')"
    by (simp add: example_admin_def example_auth)
  show ?thesis
    using login_correct [OF example_no_faults d, of example_session "\<lparr>lr_Username = ''root'', lr_Password = ''wrong''\<rparr>"] no
    by (auto simp: reply_def)
qed

theorem unreadable_cookie_locks_out_witness:
  "AuthHandler_Logout \<lparr>gs_Get = Inl ''securecookie: the value is not valid'', gs_SaveErr = None\<rparr> admin_world =
     (Inr (reply 200 ''success'', False), admin_world)"
  using unreadable_cookie_locks_out [of "\<lparr>gs_Get = Inl ''securecookie: the value is not valid'', gs_SaveErr = None\<rparr>"] by simp

definition example_restore :: RestoreConfig where
  "example_restore = \<lparr>rs_Mode = RestoreModeAdminPassword, rs_Token = replicate 32 (CHR ''t'')\<rparr>"

lemma example_token: "TrimSpace (replicate 32 (CHR ''t'')) = replicate 32 (CHR ''t'')"
  by code_simp

theorem restore_token_single_use_witness:
  "rt_resets \<lparr>rt_handler = \<lparr>rh_tokenUsed = True, rh_tokenExpiresAt = 9\<rparr>, rt_running = [7], rt_resets = 0\<rparr> +
     length (rt_running \<lparr>rt_handler = \<lparr>rh_tokenUsed = True, rh_tokenExpiresAt = 9\<rparr>, rt_running = [7], rt_resets = 0\<rparr>) \<le> 1"
proof -
  let ?s = "\<lparr>rt_handler = \<lparr>rh_tokenUsed = False, rh_tokenExpiresAt = 9\<rparr>, rt_running = [], rt_resets = 0\<rparr>"
  have "consumeRestoreToken example_restore 3 (replicate 32 (CHR ''t'')) (rt_handler ?s) = (True, (rt_handler ?s)\<lparr>rh_tokenUsed := True\<rparr>)"
    by (simp only: consumeRestoreToken_def example_restore_def Let_def example_token RestoreConfig.simps) simp
  from token_consumed [OF this, of 7]
  have "(restore_step example_restore)\<^sup>*\<^sup>* ?s \<lparr>rt_handler = \<lparr>rh_tokenUsed = True, rh_tokenExpiresAt = 9\<rparr>, rt_running = [7], rt_resets = 0\<rparr>"
    by (simp add: r_into_rtranclp)
  from restore_token_single_use [OF this] show ?thesis by simp
qed

lemma example_find:
  "AdminRepo_GetByID example_env 1 admin_world = (Inr example_admin, ticked 1 admin_world)"
  "AdminRepo_GetByUsername example_env ''root'' admin_world = (Inr example_admin, ticked 1 admin_world)"
  by (simp_all add: AdminRepo_GetByID_def AdminRepo_GetByUsername_def run_simps sql_first_def example_admin_def)

theorem change_password_correct_witness:
  "\<exists>w' w''. AuthService_ChangePassword example_env 1 ''secret1'' ''secret2'' admin_world = (Inr (), w') \<and>
     AuthService_Authenticate example_env ''root'' ''secret2'' w' = (Inr \<lparr>ap_ID = 1, ap_Username = ''root''\<rparr>, w'')"
proof -
  have d: "distinct (map adm_Username (admins admin_world))" by simp
  have n: "\<not> RuneCount ''secret2'' < minAdminPasswordLength" by code_simp
  obtain w' where run: "AuthService_ChangePassword example_env 1 ''secret1'' ''secret2'' admin_world = (Inr (), w')"
  proof -
    have "bcrypt_match example_env (adm_PasswordHash example_admin) ''secret1''" by (simp add: example_auth example_admin_def)
    moreover have "\<exists>v. storePassword example_env m1 m2 1 ''secret2'' (ticked 1 admin_world) = (Inr (), v)" for m1 m2
      by (simp add: storePassword_def run_simps AdminRepo_UpdatePasswordHash_def example_auth Let_def sql_count_def example_admin_def)
    ultimately show ?thesis
      using that by (fastforce simp: AuthService_ChangePassword_def n run_attempt example_find [simplified])
  qed
  from change_password_correct [OF example_bcrypt_sound d run] run show ?thesis by (auto simp: example_admin_def)
qed

end
