(* ===== verification/Collection.thy ===== *)
theory Collection
  imports Protector
begin

text \<open>
  Collecting traffic: the SSH runner of \<^verbatim>\<open>internal/bootstrap/ssh_client.go\<close> and
  \<^verbatim>\<open>internal/service/traffic_collection_service.go\<close>, which runs vnstat on a machine, reads the
  latest hourly and daily entry out of its JSON, stores them and hands them to the alert
  evaluator. The evaluator is an argument, as in the code (\<^verbatim>\<open>TrafficAlertEvaluator\<close>). The service
  returns the samples without the identifiers the database gave them; callers only count them.
\<close>

section \<open>The SSH runner\<close>

definition JoinHostPort :: "string \<Rightarrow> string \<Rightarrow> string" where
  "JoinHostPort host port =
     (if CHR '':'' \<in> set host then ''['' @ host @ '']:'' @ port else host @ '':'' @ port)"

definition no_output :: SSHExecutionResult where
  "no_output = \<lparr>sx_Stdout = [], sx_Stderr = []\<rparr>"

text \<open>The runner returns a result together with an optional error, like the code: a command that
  ran and failed still has output.\<close>

definition SSHRunner_Run ::
  "env \<Rightarrow> string \<Rightarrow> int \<Rightarrow> string \<Rightarrow> string \<Rightarrow> string \<Rightarrow> (SSHExecutionResult \<times> go_error option) io" where
  "SSHRunner_Run E host port sshUser privateKeyPEM command =
     (case ssh_ParsePrivateKey E privateKeyPEM of
        Inl e \<Rightarrow> ret (no_output, Some (Wrapf ''parse ssh private key: '' (Foreign e) []))
      | Inr signer \<Rightarrow>
          (let address = JoinHostPort host (show_int port)
           in bnd (external (\<lambda>n. tcp_dial E n address)) (\<lambda>dialErr.
              case dialErr of
                Some e \<Rightarrow> ret (no_output, Some (Wrapf ''dial ssh: '' (Foreign e) []))
              | None \<Rightarrow>
                  bnd (external (\<lambda>n. ssh_client_conn E n address sshUser)) (\<lambda>connErr.
                  case connErr of
                    Some e \<Rightarrow> ret (no_output, Some (Wrapf ''create ssh client connection: '' (Foreign e) []))
                  | None \<Rightarrow>
                      bnd (external (ssh_session E)) (\<lambda>sessionErr.
                      case sessionErr of
                        Some e \<Rightarrow> ret (no_output, Some (Wrapf ''create ssh session: '' (Foreign e) []))
                      | None \<Rightarrow>
                          bnd (modify (\<lambda>w. w\<lparr>ssh_log := ssh_log w @ [(host, port, sshUser, command)]\<rparr>)) (\<lambda>_.
                          bnd (external (\<lambda>n. ssh_output E n command)) (\<lambda>outcome.
                          case outcome of
                            SSHContextDone e \<Rightarrow>
                              ret (no_output, Some (Wrapf ''ssh command context done: '' (Foreign e) []))
                          | SSHDone output (Some e) \<Rightarrow>
                              ret (\<lparr>sx_Stdout = output, sx_Stderr = output\<rparr>,
                                   Some (Wrapf ''run ssh command: '' (Foreign e) []))
                          | SSHDone output None \<Rightarrow> ret (\<lparr>sx_Stdout = output, sx_Stderr = []\<rparr>, None))))))))"

section \<open>Reading vnstat\<close>

definition shellEscapeArg :: "string \<Rightarrow> string" where
  "shellEscapeArg value =
     CHR 0x27 # ReplaceAll value [CHR 0x27] [CHR 0x27, CHR 0x22, CHR 0x27, CHR 0x22, CHR 0x27] @ [CHR 0x27]"

definition bytesToMB :: "env \<Rightarrow> float64 \<Rightarrow> float64" where
  "bytesToMB E bytes = fl E (math_Round (fl E (fl E (bytes / (1024 * 1024)) * 1000)) / 1000)"

definition vnstatEntryTime :: "vnstatEntry \<Rightarrow> gotime" where
  "vnstatEntryTime entry =
     (if 0 < ve_Timestamp entry then unix_time (ve_Timestamp entry)
      else let month = (if vd_Month (ve_Date entry) \<le> 0 then 1 else vd_Month (ve_Date entry));
               day = (if vd_Day (ve_Date entry) \<le> 0 then 1 else vd_Day (ve_Date entry))
           in time_Date (vd_Year (ve_Date entry)) month day (vt_Hour (ve_Time entry)) (vt_Minute (ve_Time entry)))"

definition trafficSampleFromEntry ::
  "env \<Rightarrow> nat \<Rightarrow> string \<Rightarrow> vnstatEntry \<Rightarrow> string \<Rightarrow> gotime \<Rightarrow> TrafficSample" where
  "trafficSampleFromEntry E machineID periodType entry rawPayload collectedAt =
     \<lparr>ts_ID = 0, ts_CreatedAt = zero_time, ts_UpdatedAt = zero_time, ts_MachineID = machineID,
      ts_PeriodType = periodType, ts_BucketTime = vnstatEntryTime entry,
      ts_UploadMB = bytesToMB E (ve_TX entry), ts_DownloadMB = bytesToMB E (ve_RX entry),
      ts_TotalMB = bytesToMB E (fl E (ve_TX entry + ve_RX entry)), ts_RawPayload = rawPayload,
      ts_CollectedAt = collectedAt\<rparr>"

fun latestFrom :: "vnstatEntry \<Rightarrow> vnstatEntry list \<Rightarrow> vnstatEntry" where
  "latestFrom latest [] = latest"
| "latestFrom latest (entry # entries) =
     latestFrom (if vnstatEntryTime latest < vnstatEntryTime entry then entry else latest) entries"

definition latestVNStatEntry :: "vnstatEntry list \<Rightarrow> vnstatEntry option" where
  "latestVNStatEntry entries = (case entries of [] \<Rightarrow> None | e # es \<Rightarrow> Some (latestFrom e es))"

definition findVNStatInterface :: "vnstatInterface list \<Rightarrow> string \<Rightarrow> vnstatInterface option" where
  "findVNStatInterface interfaces networkInterface =
     (case find (\<lambda>i. vi_Name i = networkInterface) interfaces of
        Some i \<Rightarrow> Some i
      | None \<Rightarrow> (case interfaces of [i] \<Rightarrow> Some i | _ \<Rightarrow> None))"

definition entrySample ::
  "env \<Rightarrow> nat \<Rightarrow> string \<Rightarrow> vnstatEntry list \<Rightarrow> vnstatEntry list \<Rightarrow> string \<Rightarrow> gotime \<Rightarrow> TrafficSample list" where
  "entrySample E machineID periodType entries fallback rawPayload now =
     (case latestVNStatEntry (if entries = [] then fallback else entries) of
        None \<Rightarrow> []
      | Some entry \<Rightarrow> [trafficSampleFromEntry E machineID periodType entry rawPayload now])"

definition parseVNStatSamples :: "env \<Rightarrow> nat \<Rightarrow> string \<Rightarrow> string \<Rightarrow> TrafficSample list io" where
  "parseVNStatSamples E machineID networkInterface rawPayload =
     (case json_vnstat E rawPayload of
        Inl e \<Rightarrow> fail (Wrapf [] (Sentinel ErrVNStatParseFailed) ('': '' @ e))
      | Inr payload \<Rightarrow>
          (case findVNStatInterface (vr_Interfaces payload) networkInterface of
             None \<Rightarrow> fail (Sentinel ErrVNStatInterfaceMissing)
           | Some targetInterface \<Rightarrow>
               bnd (time_Now E) (\<lambda>now.
                 let tr = vi_Traffic targetInterface;
                     smps = entrySample E machineID ''hourly'' (vf_Hours tr) (vf_Hour tr) rawPayload now
                          @ entrySample E machineID ''daily'' (vf_Days tr) (vf_Day tr) rawPayload now
                 in if smps = [] then fail (Sentinel ErrVNStatParseFailed) else ret smps)))"

section \<open>The service\<close>

record CollectNowMachineResp =
  cn_MachineID :: nat
  cn_Status :: string
  cn_SampleCount :: nat
  cn_Error :: string

record TrafficSampleResp =
  sr_ID :: nat
  sr_MachineID :: nat
  sr_PeriodType :: string
  sr_BucketTime :: gotime
  sr_UploadMB :: float64
  sr_DownloadMB :: float64
  sr_TotalMB :: float64
  sr_CollectedAt :: gotime

definition collectMachineSamples ::
  "(nat \<Rightarrow> TrafficSample list \<Rightarrow> unit io) \<Rightarrow> env \<Rightarrow> string \<Rightarrow> Machine \<Rightarrow> TrafficSample list io" where
  "collectMachineSamples evaluateSamples E masterKey machine =
     attempt (SSHKeyRepo_GetByID E (mc_SSHKeyID machine))
       (\<lambda>e. if IsRecordNotFound e then fail (Sentinel ErrSSHKeyNotFound)
            else fail (Wrapf ''get ssh key for collection: '' e []))
       (\<lambda>sshKey.
          case DataProtector_Decrypt E masterKey (sk_PrivateKeyCiphertext sshKey) of
            Inl e \<Rightarrow> fail (Wrapf [] (Sentinel ErrSSHKeyDecryptFailed)
              ('': current APP_MASTER_KEY may not match the key used when this SSH key was imported: '' @ error_text e))
          | Inr privateKeyPEM \<Rightarrow>
              bnd (SSHRunner_Run E (mc_Host machine) (mc_Port machine) (mc_SSHUser machine) privateKeyPEM
                     (''vnstat --json -i '' @ shellEscapeArg (mc_NetworkInterface machine)))
                (\<lambda>(result, runErr).
                   case runErr of
                     Some e \<Rightarrow> fail (Wrapf ''run vnstat json command: '' e [])
                   | None \<Rightarrow>
                       bnd (parseVNStatSamples E (mc_ID machine) (mc_NetworkInterface machine) (sx_Stdout result))
                         (\<lambda>smps.
                            bnd (wrap ''persist traffic samples: '' (TrafficSampleRepo_UpsertSamples E smps)) (\<lambda>_.
                            bnd (wrap ''evaluate samples alert: '' (evaluateSamples (mc_ID machine) smps)) (\<lambda>_.
                            ret smps)))))"

definition TrafficCollectionService_CollectMachine ::
  "(nat \<Rightarrow> TrafficSample list \<Rightarrow> unit io) \<Rightarrow> env \<Rightarrow> string \<Rightarrow> Machine \<Rightarrow> TrafficSample list io" where
  "TrafficCollectionService_CollectMachine = collectMachineSamples"

definition TrafficCollectionService_ListEnabledMachines :: "env \<Rightarrow> Machine list io" where
  "TrafficCollectionService_ListEnabledMachines E =
     bnd (wrap ''list machines for scheduler: '' (MachineRepo_List E)) (\<lambda>ms. ret (filter mc_CollectEnabled ms))"

definition resolveTargetMachines :: "env \<Rightarrow> nat option \<Rightarrow> Machine list io" where
  "resolveTargetMachines E machineID =
     (case machineID of
        Some i \<Rightarrow>
          attempt (MachineRepo_GetByID E i)
            (\<lambda>e. if IsRecordNotFound e then fail (Sentinel ErrMachineNotFound)
                 else fail (Wrapf ''get machine for collect now: '' e []))
            (\<lambda>machine. ret [machine])
      | None \<Rightarrow>
          bnd (wrap ''list machines for collect now: '' (MachineRepo_List E)) (\<lambda>ms. ret (filter mc_CollectEnabled ms)))"

definition collectResult :: "Machine \<Rightarrow> go_error + TrafficSample list \<Rightarrow> CollectNowMachineResp" where
  "collectResult machine r =
     (case r of
        Inl e \<Rightarrow> \<lparr>cn_MachineID = mc_ID machine, cn_Status = ''failed'', cn_SampleCount = 0, cn_Error = error_text e\<rparr>
      | Inr smps \<Rightarrow> \<lparr>cn_MachineID = mc_ID machine, cn_Status = ''success'', cn_SampleCount = length smps, cn_Error = []\<rparr>)"

definition collectOne ::
  "(nat \<Rightarrow> TrafficSample list \<Rightarrow> unit io) \<Rightarrow> env \<Rightarrow> string \<Rightarrow> Machine \<Rightarrow> CollectNowMachineResp io" where
  "collectOne evaluateSamples E masterKey machine =
     bnd (catching (collectMachineSamples evaluateSamples E masterKey machine)) (\<lambda>r. ret (collectResult machine r))"

definition TrafficCollectionService_CollectNow ::
  "(nat \<Rightarrow> TrafficSample list \<Rightarrow> unit io) \<Rightarrow> env \<Rightarrow> string \<Rightarrow> nat option \<Rightarrow> CollectNowMachineResp list io" where
  "TrafficCollectionService_CollectNow evaluateSamples E masterKey machineID =
     bnd (resolveTargetMachines E machineID) (\<lambda>ms.
     map_each ms (collectOne evaluateSamples E masterKey))"

definition sampleResp :: "TrafficSample \<Rightarrow> TrafficSampleResp" where
  "sampleResp s =
     \<lparr>sr_ID = ts_ID s, sr_MachineID = ts_MachineID s, sr_PeriodType = ts_PeriodType s,
      sr_BucketTime = ts_BucketTime s, sr_UploadMB = ts_UploadMB s, sr_DownloadMB = ts_DownloadMB s,
      sr_TotalMB = ts_TotalMB s, sr_CollectedAt = ts_CollectedAt s\<rparr>"

definition TrafficCollectionService_ListSamples ::
  "env \<Rightarrow> TrafficSampleFilter \<Rightarrow> (TrafficSampleResp list \<times> nat) io" where
  "TrafficCollectionService_ListSamples E query =
     bnd (wrap ''list traffic samples: '' (TrafficSampleRepo_List E query)) (\<lambda>(smps, total).
     ret (map sampleResp smps, total))"

section \<open>Quoting\<close>

text \<open>How a POSIX shell splits a command line into words, as far as quoting goes: single quotes
  keep every byte, double quotes keep all but the expansion characters, blanks separate words. A
  character that could start an expansion, a redirection or another command gives \<open>None\<close>.\<close>

datatype sh_mode = Bare | Single | Double

definition sh_special :: "char set" where
  "sh_special = set ''$&*;<>?[]|()#~!{}'' \<union> {CHR 0x60, CHR 0x0A, CHR 0x09, CHR 0x5C}"

fun sh_words :: "sh_mode \<Rightarrow> string option \<Rightarrow> string \<Rightarrow> string list option" where
  "sh_words Bare cur [] = Some (case cur of None \<Rightarrow> [] | Some x \<Rightarrow> [x])"
| "sh_words Single cur [] = None"
| "sh_words Double cur [] = None"
| "sh_words Bare cur (c # cs) =
     (if c = CHR 0x27 then sh_words Single (Some (case cur of None \<Rightarrow> [] | Some x \<Rightarrow> x)) cs
      else if c = CHR 0x22 then sh_words Double (Some (case cur of None \<Rightarrow> [] | Some x \<Rightarrow> x)) cs
      else if c = CHR '' '' then
        (case cur of None \<Rightarrow> sh_words Bare None cs | Some x \<Rightarrow> map_option (Cons x) (sh_words Bare None cs))
      else if c \<in> sh_special then None
      else sh_words Bare (Some ((case cur of None \<Rightarrow> [] | Some x \<Rightarrow> x) @ [c])) cs)"
| "sh_words Single cur (c # cs) =
     (if c = CHR 0x27 then sh_words Bare cur cs
      else sh_words Single (Some ((case cur of None \<Rightarrow> [] | Some x \<Rightarrow> x) @ [c])) cs)"
| "sh_words Double cur (c # cs) =
     (if c = CHR 0x22 then sh_words Bare cur cs
      else if c \<in> {CHR ''$'', CHR 0x60, CHR 0x5C} then None
      else sh_words Double (Some ((case cur of None \<Rightarrow> [] | Some x \<Rightarrow> x) @ [c])) cs)"

lemma ReplaceAll_char:
  "ReplaceAll (c # s) [q] new = (if c = q then new @ ReplaceAll s [q] new else c # ReplaceAll s [q] new)"
  "ReplaceAll [] [q] new = []"
  by (subst ReplaceAll.simps, simp)+

lemma sh_quoted_body:
  "sh_words Single (Some x)
     (ReplaceAll v [CHR 0x27] [CHR 0x27, CHR 0x22, CHR 0x27, CHR 0x22, CHR 0x27] @ CHR 0x27 # rest) =
   sh_words Bare (Some (x @ v)) rest"
  by (induction v arbitrary: x) (simp_all add: ReplaceAll_char)

lemma sh_quoted: "sh_words Bare None (shellEscapeArg v @ rest) = sh_words Bare (Some v) rest"
  by (simp add: shellEscapeArg_def sh_quoted_body)

text \<open>C10. The command run on a machine is four words for the shell, whatever the configured
  interface name holds: \<^verbatim>\<open>vnstat\<close>, \<^verbatim>\<open>--json\<close>, \<^verbatim>\<open>-i\<close> and that name, byte for byte.\<close>

theorem command_not_injectable:
  "sh_words Bare None (''vnstat --json -i '' @ shellEscapeArg v) = Some [''vnstat'', ''--json'', ''-i'', v]"
proof -
  have "sh_words Bare None (''vnstat --json -i '' @ r) =
      map_option (\<lambda>t. ''vnstat'' # ''--json'' # ''-i'' # t) (sh_words Bare None r)" for r
    by (simp add: sh_special_def option.map_comp comp_def)
  then show ?thesis
    using sh_quoted [of v "[]"] by simp
qed

section \<open>What is read\<close>

lemma latestFrom_in: "latestFrom e es \<in> set (e # es)"
  by (induction e es rule: latestFrom.induct) auto

lemma latestFrom_ge: "vnstatEntryTime e \<le> vnstatEntryTime (latestFrom e es)"
  by (induction e es rule: latestFrom.induct) (auto split: if_splits)

lemma latestFrom_max: "x \<in> set es \<Longrightarrow> vnstatEntryTime x \<le> vnstatEntryTime (latestFrom e es)"
proof (induction e es rule: latestFrom.induct)
  case (2 latest entry entries)
  have "vnstatEntryTime entry \<le> vnstatEntryTime (latestFrom latest (entry # entries))"
    using latestFrom_ge [of "if vnstatEntryTime latest < vnstatEntryTime entry then entry else latest" entries]
    by (simp split: if_splits)
  with 2 show ?case by auto
qed simp

text \<open>The entry taken from a list is one of the list and none of the list is later; there
  is one unless the list is empty.\<close>

lemma latest_entry_correct:
  "(latestVNStatEntry es = None \<longleftrightarrow> es = []) \<and>
   (\<forall>e. latestVNStatEntry es = Some e \<longrightarrow> e \<in> set es \<and> (\<forall>x\<in>set es. vnstatEntryTime x \<le> vnstatEntryTime e))"
proof (cases es)
  case Nil
  then show ?thesis by (simp add: latestVNStatEntry_def)
next
  case (Cons e0 rest)
  with latestFrom_in [of e0 rest] latestFrom_max [of _ rest e0] latestFrom_ge [of e0 rest] show ?thesis
    by (auto simp: latestVNStatEntry_def)
qed

text \<open>What rounding to float64 guarantees: it is monotone, and the values it is applied to here
  are float64 values themselves.\<close>

lemma bytesToMB_mono:
  assumes "mono (fl E)" and "x \<le> y"
  shows "bytesToMB E x \<le> bytesToMB E y"
  unfolding bytesToMB_def
  by (intro monoD [OF assms(1)] divide_right_mono mult_right_mono math_Round_mono) (use assms(2) in simp_all)

text \<open>The total of a sample is at least its upload and at least its download, for
  non-negative counters, under any monotone rounding that keeps the counters.\<close>

lemma total_bounds_parts:
  assumes "mono (fl E)" and "fl E (ve_TX e) = ve_TX e" and "fl E (ve_RX e) = ve_RX e"
    and "0 \<le> ve_TX e" and "0 \<le> ve_RX e"
  shows "ts_UploadMB (trafficSampleFromEntry E mid p e raw now) \<le> ts_TotalMB (trafficSampleFromEntry E mid p e raw now) \<and>
     ts_DownloadMB (trafficSampleFromEntry E mid p e raw now) \<le> ts_TotalMB (trafficSampleFromEntry E mid p e raw now)"
proof -
  have "ve_TX e \<le> fl E (ve_TX e + ve_RX e)" "ve_RX e \<le> fl E (ve_TX e + ve_RX e)"
    using assms monoD [OF assms(1), of "ve_TX e" "ve_TX e + ve_RX e"]
      monoD [OF assms(1), of "ve_RX e" "ve_TX e + ve_RX e"] by simp_all
  with assms(1) show ?thesis
    by (simp add: trafficSampleFromEntry_def bytesToMB_mono)
qed

text \<open>What a parsed payload gives: one or two samples of the machine, for different periods.\<close>

definition parsed_for :: "nat \<Rightarrow> TrafficSample list \<Rightarrow> bool" where
  "parsed_for mid smps \<longleftrightarrow> smps \<noteq> [] \<and> (\<forall>s\<in>set smps. ts_MachineID s = mid) \<and>
     map ts_PeriodType smps \<in> {[''hourly''], [''daily''], [''hourly'', ''daily'']}"

lemma entrySample_cases:
  obtains "entrySample E mid p es fs raw now = []"
  | e where "entrySample E mid p es fs raw now = [trafficSampleFromEntry E mid p e raw now]"
  by (cases "latestVNStatEntry (if es = [] then fs else es)") (simp_all add: entrySample_def)

lemma parse_result:
  assumes "parseVNStatSamples E mid iface raw w = (Inr smps, w')"
  shows "parsed_for mid smps \<and> w' = ticked 1 w"
proof -
  from assms obtain payload ti where p: "json_vnstat E raw = Inr payload"
    "findVNStatInterface (vr_Interfaces payload) iface = Some ti"
    by (auto simp: parseVNStatSamples_def run_simps split: sum.splits option.splits)
  let ?tr = "vi_Traffic ti" and ?now = "clk E (tick w)"
  from assms p have w': "w' = ticked 1 w" and ne: "smps \<noteq> []"
    and smps: "smps = entrySample E mid ''hourly'' (vf_Hours ?tr) (vf_Hour ?tr) raw ?now
        @ entrySample E mid ''daily'' (vf_Days ?tr) (vf_Day ?tr) raw ?now"
    by (auto simp: parseVNStatSamples_def run_simps Let_def split: if_splits)
  have "parsed_for mid smps"
    by (rule entrySample_cases [of E mid "''hourly''" "vf_Hours ?tr" "vf_Hour ?tr" raw ?now];
        rule entrySample_cases [of E mid "''daily''" "vf_Days ?tr" "vf_Day ?tr" raw ?now])
      (use smps ne in \<open>simp_all add: parsed_for_def trafficSampleFromEntry_def\<close>)
  with w' show ?thesis by simp
qed

lemma parsed_keys_distinct: "parsed_for mid smps \<Longrightarrow> distinct (map ts_key smps)"
  by (auto simp: parsed_for_def ts_key_def map_eq_Cons_conv)

section \<open>What is stored\<close>

text \<open>The measured values of a stored sample.\<close>

definition sample_view :: "TrafficSample \<Rightarrow> float64 \<times> float64 \<times> float64 \<times> string \<times> gotime" where
  "sample_view s = (ts_UploadMB s, ts_DownloadMB s, ts_TotalMB s, ts_RawPayload s, ts_CollectedAt s)"

definition sample_at :: "world \<Rightarrow> nat \<times> string \<times> gotime \<Rightarrow> (float64 \<times> float64 \<times> float64 \<times> string \<times> gotime) option" where
  "sample_at w k = map_option sample_view (lookup_by ts_key k (samples w))"

lemma ts_fill_simps [simp]:
  "ts_key (ts_fill now n s) = ts_key s" "sample_view (ts_fill now n s) = sample_view s"
  "sample_view (ts_upd old new) = sample_view new"
  by (simp_all add: ts_fill_def ts_key_def ts_upd_def sample_view_def)

lemma upsert_samples_result:
  assumes "wrap msg (TrafficSampleRepo_UpsertSamples E smps) w = (Inr (), w')" and "distinct (map ts_key smps)"
  shows "sample_at w' k = (case lookup_by ts_key k smps of Some s \<Rightarrow> Some (sample_view s) | None \<Rightarrow> sample_at w k)"
    and "ssh_log w' = ssh_log w" and "sample_tbl.unique (samples w) \<Longrightarrow> sample_tbl.unique (samples w')"
proof -
  have "(smps = [] \<and> w' = w) \<or>
      samples w' = fold (sql_upsert ts_key ts_upd) (number_rows (ts_fill (clk E (tick w))) (seqs w TSamples) smps) (samples w)
      \<and> ssh_log w' = ssh_log w"
    using assms
    by (cases "db_fault E (tick w)"; cases "smps = []")
      (auto simp: TrafficSampleRepo_UpsertSamples_def run_wrap run_ret statement_def Let_def)
  then consider "smps = []" "w' = w"
    | now n where "samples w' = fold (sql_upsert ts_key ts_upd) (number_rows (ts_fill now) n smps) (samples w)"
      "ssh_log w' = ssh_log w"
    by blast
  note cases = this
  show "sample_at w' k = (case lookup_by ts_key k smps of Some s \<Rightarrow> Some (sample_view s) | None \<Rightarrow> sample_at w k)"
    by (rule cases)
      (simp_all add: sample_at_def sample_tbl.lookup_upserted [OF assms(2)] cong: option.case_cong)
  show "ssh_log w' = ssh_log w" by (rule cases) simp_all
  show "sample_tbl.unique (samples w) \<Longrightarrow> sample_tbl.unique (samples w')"
    by (rule cases) (simp_all add: sample_tbl.unique_fold_upsert)
qed

definition machine_command :: "Machine \<Rightarrow> string \<times> int \<times> string \<times> string" where
  "machine_command m =
     (mc_Host m, mc_Port m, mc_SSHUser m, ''vnstat --json -i '' @ shellEscapeArg (mc_NetworkInterface m))"

lemma ticked_ssh_log:
  "ticked n (w\<lparr>ssh_log := x\<rparr>) = (ticked n w)\<lparr>ssh_log := x\<rparr>" "(ticked n w)\<lparr>ssh_log := ssh_log w\<rparr> = ticked n w"
  "ticked 0 w = w"
  by (simp_all add: ticked_def)

lemma run_effect:
  "\<exists>cmds n. snd (SSHRunner_Run E h p u k c w) = (ticked n w)\<lparr>ssh_log := ssh_log w @ cmds\<rparr> \<and>
     (cmds = [] \<or> cmds = [(h, p, u, c)])"
proof -
  show ?thesis
  proof (cases "ssh_ParsePrivateKey E k")
    case (Inl e)
    then show ?thesis
      by (intro exI [of _ "[]"] exI [of _ 0]) (simp add: SSHRunner_Run_def run_ret ticked_ssh_log)
  next
    case (Inr s)
    consider "tcp_dial E (tick w) (JoinHostPort h (show_int p)) \<noteq> None"
      | "tcp_dial E (tick w) (JoinHostPort h (show_int p)) = None"
        "ssh_client_conn E (Suc (tick w)) (JoinHostPort h (show_int p)) u \<noteq> None"
      | "tcp_dial E (tick w) (JoinHostPort h (show_int p)) = None"
        "ssh_client_conn E (Suc (tick w)) (JoinHostPort h (show_int p)) u = None"
        "ssh_session E (Suc (Suc (tick w))) \<noteq> None"
      | "tcp_dial E (tick w) (JoinHostPort h (show_int p)) = None"
        "ssh_client_conn E (Suc (tick w)) (JoinHostPort h (show_int p)) u = None"
        "ssh_session E (Suc (Suc (tick w))) = None"
      by blast
    then show ?thesis
    proof cases
      case 1
      with Inr show ?thesis
        by (intro exI [of _ "[]"] exI [of _ 1]) (auto simp: SSHRunner_Run_def run_simps ticked_ssh_log Let_def)
    next
      case 2
      with Inr show ?thesis
        by (intro exI [of _ "[]"] exI [of _ 2]) (auto simp: SSHRunner_Run_def run_simps ticked_ssh_log Let_def)
    next
      case 3
      with Inr show ?thesis
        by (intro exI [of _ "[]"] exI [of _ 3]) (auto simp: SSHRunner_Run_def run_simps ticked_ssh_log Let_def)
    next
      case 4
      with Inr show ?thesis
        by (intro exI [of _ "[(h, p, u, c)]"] exI [of _ 4])
          (simp add: SSHRunner_Run_def run_simps ticked_ssh_log Let_def split: ssh_outcome.split option.split)
    qed
  qed
qed

lemma keeps_get_key: "tick_free I \<Longrightarrow> keeps I (SSHKeyRepo_GetByID E i)"
  unfolding SSHKeyRepo_GetByID_def
  by (intro keeps_intros keeps_statement) (auto simp: keeps_def split: option.split)

text \<open>\<open>logs n c m\<close>: running \<open>m\<close> adds the command \<open>c\<close> to the log at most \<open>n\<close> times and no other.\<close>

definition logs :: "nat \<Rightarrow> (string \<times> int \<times> string \<times> string) \<Rightarrow> 'a io \<Rightarrow> bool" where
  "logs n c m \<longleftrightarrow> (\<forall>w. \<exists>k\<le>n. ssh_log (snd (m w)) = ssh_log w @ replicate k c)"

lemma logs_keeps:
  assumes "\<And>l. keeps (\<lambda>w. ssh_log w = l) m"
  shows "logs n c m"
  unfolding logs_def using assms by (auto simp: keeps_def intro!: exI [of _ 0])

lemma logs_fail: "logs n c (fail e)"
  by (intro logs_keeps keeps_fail)

lemma logs_0: "logs 0 c m \<longleftrightarrow> (\<forall>w. ssh_log (snd (m w)) = ssh_log w)"
  by (simp add: logs_def)

lemma logs_bnd_0: "logs 0 c m \<Longrightarrow> (\<And>x. logs 0 c (f x)) \<Longrightarrow> logs 0 c (bnd m f)"
  unfolding logs_0 bnd_def by (auto split: prod.split sum.split) (metis snd_conv)+

lemma logs_wrap: "logs n c m \<Longrightarrow> logs n c (wrap msg m)"
  by (simp add: logs_def)

lemma logs_bnd_1: "logs 1 c m \<Longrightarrow> (\<And>x. logs 0 c (f x)) \<Longrightarrow> logs 1 c (bnd m f)"
  unfolding logs_0 logs_def bnd_def by (auto split: prod.split sum.split) (metis snd_conv)+

lemma logs_attempt_0:
  "(\<And>n. logs n c m) \<Longrightarrow> (\<And>e. logs k c (h e)) \<Longrightarrow> (\<And>x. logs k c (g x)) \<Longrightarrow> logs k c (attempt m h g)"
  unfolding logs_def attempt_def by (auto split: prod.split sum.split) (metis snd_conv append_Nil2 le_zero_eq replicate_0)+

lemma run_logs: "c = (h, p, u, cmd) \<Longrightarrow> logs 1 c (SSHRunner_Run E h p u k cmd)"
  unfolding logs_def
proof
  fix w
  assume c: "c = (h, p, u, cmd)"
  obtain cmds n where r: "snd (SSHRunner_Run E h p u k cmd w) = (ticked n w)\<lparr>ssh_log := ssh_log w @ cmds\<rparr>"
    "cmds = [] \<or> cmds = [(h, p, u, cmd)]"
    using run_effect by blast
  have "cmds = replicate (length cmds) c" "length cmds \<le> 1" using r(2) c by auto
  with r(1) show "\<exists>k'\<le>1. ssh_log (snd (SSHRunner_Run E h p u k cmd w)) = ssh_log w @ replicate k' c"
    by auto
qed

lemma keeps_parse: "tick_free I \<Longrightarrow> keeps I (parseVNStatSamples E mid ifc raw)"
  unfolding parseVNStatSamples_def Let_def by (intro keeps_intros)

lemma keeps_upsert_samples:
  "tick_free I \<Longrightarrow> (\<And>w q s. I (w\<lparr>seqs := q, samples := s\<rparr>) = I w) \<Longrightarrow> (\<And>w q. I (w\<lparr>seqs := q\<rparr>) = I w) \<Longrightarrow>
     keeps I (TrafficSampleRepo_UpsertSamples E smps)"
  unfolding TrafficSampleRepo_UpsertSamples_def
  by (intro keeps_intros keeps_statement) (auto simp: keeps_def bump_seq_def Let_def)

lemma collect_successE:
  assumes "collectMachineSamples evaluate E key m w = (Inr smps, w')"
  obtains k w1 pem res w2 w3 w4 where "SSHKeyRepo_GetByID E (mc_SSHKeyID m) w = (Inr k, w1)"
    and "SSHRunner_Run E (mc_Host m) (mc_Port m) (mc_SSHUser m) pem
        (''vnstat --json -i '' @ shellEscapeArg (mc_NetworkInterface m)) w1 = (Inr (res, None), w2)"
    and "parseVNStatSamples E (mc_ID m) (mc_NetworkInterface m) (sx_Stdout res) w2 = (Inr smps, w3)"
    and "wrap ''persist traffic samples: '' (TrafficSampleRepo_UpsertSamples E smps) w3 = (Inr (), w4)"
    and "wrap ''evaluate samples alert: '' (evaluate (mc_ID m) smps) w4 = (Inr (), w')"
proof -
  obtain k w1 where k: "SSHKeyRepo_GetByID E (mc_SSHKeyID m) w = (Inr k, w1)"
    using assms
    by (cases "SSHKeyRepo_GetByID E (mc_SSHKeyID m) w" rule: prod.exhaust; cases "fst (SSHKeyRepo_GetByID E (mc_SSHKeyID m) w)")
      (auto simp: collectMachineSamples_def run_attempt run_fail split: if_splits)
  moreover from assms k obtain pem where "DataProtector_Decrypt E key (sk_PrivateKeyCiphertext k) = Inr pem"
    by (auto simp: collectMachineSamples_def run_attempt run_fail split: sum.splits)
  ultimately obtain res err w2 where run: "SSHRunner_Run E (mc_Host m) (mc_Port m) (mc_SSHUser m) pem
        (''vnstat --json -i '' @ shellEscapeArg (mc_NetworkInterface m)) w1 = (Inr (res, err), w2)"
    and rest: "(case err of Some e \<Rightarrow> fail (Wrapf ''run vnstat json command: '' e [])
        | None \<Rightarrow> bnd (parseVNStatSamples E (mc_ID m) (mc_NetworkInterface m) (sx_Stdout res))
            (\<lambda>smps. bnd (wrap ''persist traffic samples: '' (TrafficSampleRepo_UpsertSamples E smps)) (\<lambda>_.
                   bnd (wrap ''evaluate samples alert: '' (evaluate (mc_ID m) smps)) (\<lambda>_. ret smps)))) w2 = (Inr smps, w')"
    using assms unfolding collectMachineSamples_def run_attempt
    by (auto elim!: bnd_InrE)
  then have "err = None" by (cases err) (simp_all add: run_fail)
  with rest obtain smps' w3 w4 w5 where "parseVNStatSamples E (mc_ID m) (mc_NetworkInterface m) (sx_Stdout res) w2 = (Inr smps', w3)"
    and "wrap ''persist traffic samples: '' (TrafficSampleRepo_UpsertSamples E smps') w3 = (Inr (), w4)"
    and "wrap ''evaluate samples alert: '' (evaluate (mc_ID m) smps') w4 = (Inr (), w5)" and "ret smps' w5 = (Inr smps, w')"
    by (auto elim!: bnd_InrE)
  with k run \<open>err = None\<close> show ?thesis
    by (intro that [of k w1 pem res w2 w3 w4]) (simp_all add: run_ret)
qed

text \<open>The contract of the alert evaluator: it writes neither samples nor the log of SSH commands.\<close>

locale sample_evaluator =
  fixes evaluate :: "nat \<Rightarrow> TrafficSample list \<Rightarrow> unit io"
  assumes evaluate_samples: "samples (snd (evaluate mid smps w)) = samples w"
    and evaluate_log: "ssh_log (snd (evaluate mid smps w)) = ssh_log w"
begin

lemma collect_success:
  assumes "collectMachineSamples evaluate E key m w = (Inr smps, w')"
  shows "parsed_for (mc_ID m) smps \<and>
     (\<forall>k. sample_at w' k = (case lookup_by ts_key k smps of Some s \<Rightarrow> Some (sample_view s) | None \<Rightarrow> sample_at w k)) \<and>
     (sample_tbl.unique (samples w) \<longrightarrow> sample_tbl.unique (samples w'))"
proof -
  obtain k w1 pem res w2 w3 w4 where k: "SSHKeyRepo_GetByID E (mc_SSHKeyID m) w = (Inr k, w1)"
    and run: "SSHRunner_Run E (mc_Host m) (mc_Port m) (mc_SSHUser m) pem
        (''vnstat --json -i '' @ shellEscapeArg (mc_NetworkInterface m)) w1 = (Inr (res, None), w2)"
    and parse: "parseVNStatSamples E (mc_ID m) (mc_NetworkInterface m) (sx_Stdout res) w2 = (Inr smps, w3)"
    and store: "wrap ''persist traffic samples: '' (TrafficSampleRepo_UpsertSamples E smps) w3 = (Inr (), w4)"
    and eval: "wrap ''evaluate samples alert: '' (evaluate (mc_ID m) smps) w4 = (Inr (), w')"
    by (rule collect_successE [OF assms])
  have "keeps (\<lambda>v. samples v = samples w) (SSHKeyRepo_GetByID E (mc_SSHKeyID m))"
    by (rule keeps_get_key) (simp add: tick_free_def)
  from keepsD [OF this refl k] have "samples w1 = samples w" .
  moreover have "samples w2 = samples w1"
    using run_effect [of E "mc_Host m" "mc_Port m" "mc_SSHUser m" pem
      "''vnstat --json -i '' @ shellEscapeArg (mc_NetworkInterface m)" w1] run by auto
  moreover from parse_result [OF parse] have "parsed_for (mc_ID m) smps" "samples w3 = samples w2" by auto
  moreover have "samples w' = samples w4"
    using evaluate_samples [of "mc_ID m" smps w4] eval by (auto simp: run_wrap split: prod.splits sum.splits)
  moreover have "sample_at w3 = sample_at w" "sample_at w' = sample_at w4"
    using calculation by (auto simp: sample_at_def)
  ultimately show ?thesis
    using upsert_samples_result [OF store parsed_keys_distinct] by (simp cong: option.case_cong)
qed

lemma collect_logs: "logs 1 (machine_command m) (collectMachineSamples evaluate E key m)"
proof -
  have run: "logs 1 (machine_command m) (SSHRunner_Run E (mc_Host m) (mc_Port m) (mc_SSHUser m) pem
      (''vnstat --json -i '' @ shellEscapeArg (mc_NetworkInterface m)))" for pem
    by (rule run_logs [unfolded machine_command_def [symmetric]]) (simp add: machine_command_def)
  have "keeps (\<lambda>w. ssh_log w = l) (evaluate mid smps)" for l mid smps
    by (simp add: keeps_def evaluate_log)
  then have rest: "logs 0 c (bnd (parseVNStatSamples E mid ifc out) (\<lambda>smps.
      bnd (wrap msg (TrafficSampleRepo_UpsertSamples E smps)) (\<lambda>_. bnd (wrap msg' (evaluate mid smps)) (\<lambda>_. ret smps))))"
    for c mid ifc out msg msg'
    by (intro logs_bnd_0 logs_wrap logs_keeps keeps_parse keeps_upsert_samples keeps_ret)
      (simp_all add: tick_free_def)
  have "logs 1 (machine_command m) (bnd (SSHRunner_Run E (mc_Host m) (mc_Port m) (mc_SSHUser m) pem
      (''vnstat --json -i '' @ shellEscapeArg (mc_NetworkInterface m))) (\<lambda>(result, runErr).
        case runErr of Some e \<Rightarrow> fail (Wrapf ''run vnstat json command: '' e [])
        | None \<Rightarrow> bnd (parseVNStatSamples E (mc_ID m) (mc_NetworkInterface m) (sx_Stdout result)) (\<lambda>smps.
            bnd (wrap ''persist traffic samples: '' (TrafficSampleRepo_UpsertSamples E smps)) (\<lambda>_.
            bnd (wrap ''evaluate samples alert: '' (evaluate (mc_ID m) smps)) (\<lambda>_. ret smps)))))" for pem
    by (rule logs_bnd_1 [OF run]) (auto intro: rest logs_fail split: option.split)
  then show ?thesis
    unfolding collectMachineSamples_def
    by (intro logs_attempt_0 logs_keeps [OF keeps_get_key])
      (auto simp: tick_free_def intro: logs_fail split: sum.split)
qed

end

text \<open>\<^verbatim>\<open>CollectNow\<close> answers once for each target, in order, whatever happens on the way: the
  named machine, or every machine with collection enabled. A machine whose collection fails is
  reported as failed with its error and does not keep the others from being collected.\<close>

lemma collect_now_answers_all:
  assumes "no_faults E" and "\<forall>i. machineID = Some i \<longrightarrow> i \<in> mc_ID ` set (machines w)"
  shows "\<exists>rs w'. TrafficCollectionService_CollectNow evaluate E key machineID w = (Inr rs, w') \<and>
     map cn_MachineID rs =
       (case machineID of
          Some i \<Rightarrow> [i]
        | None \<Rightarrow> map mc_ID (filter mc_CollectEnabled (sort_key (\<lambda>m. - int (mc_ID m)) (machines w)))) \<and>
     (\<forall>r\<in>set rs. (cn_Status r = ''success'' \<and> cn_Error r = []) \<or> (cn_Status r = ''failed'' \<and> cn_SampleCount r = 0))"
proof -
  have each: "\<exists>rs w'. map_each ms (collectOne evaluate E key) v =
      (Inr rs, w') \<and> map cn_MachineID rs = map mc_ID ms \<and>
      (\<forall>r\<in>set rs. (cn_Status r = ''success'' \<and> cn_Error r = []) \<or> (cn_Status r = ''failed'' \<and> cn_SampleCount r = 0))" for ms v
  proof (induction ms arbitrary: v)
    case Nil
    then show ?case by (simp add: run_ret)
  next
    case (Cons m ms)
    let ?v = "snd (collectMachineSamples evaluate E key m v)"
    obtain rs w' where ih: "map_each ms (collectOne evaluate E key) ?v =
        (Inr rs, w')" "map cn_MachineID rs = map mc_ID ms"
      "\<forall>r\<in>set rs. (cn_Status r = ''success'' \<and> cn_Error r = []) \<or> (cn_Status r = ''failed'' \<and> cn_SampleCount r = 0)"
      using Cons by blast
    let ?r = "collectResult m (fst (collectMachineSamples evaluate E key m v))"
    have "cn_MachineID ?r = mc_ID m \<and> ((cn_Status ?r = ''success'' \<and> cn_Error ?r = []) \<or>
        (cn_Status ?r = ''failed'' \<and> cn_SampleCount ?r = 0))"
      by (simp add: collectResult_def split: sum.split)
    moreover have "collectOne evaluate E key m v = (Inr ?r, ?v)"
      by (simp add: collectOne_def run_bnd run_catching run_ret)
    ultimately show ?case using ih
      by (auto simp: run_bnd run_ret)
  qed
  obtain ms v where "resolveTargetMachines E machineID w = (Inr ms, v)"
    and "map mc_ID ms = (case machineID of Some i \<Rightarrow> [i]
        | None \<Rightarrow> map mc_ID (filter mc_CollectEnabled (sort_key (\<lambda>m. - int (mc_ID m)) (machines w))))"
  proof (cases machineID)
    case None
    with assms(1) show ?thesis
      by (intro that) (auto simp: resolveTargetMachines_def MachineRepo_List_def run_simps)
  next
    case (Some i)
    then obtain m where m: "sql_first mc_ID (\<lambda>m. mc_ID m = i) (machines w) = Some m"
      using assms(2) find_machine by blast
    with Some assms(1) have "resolveTargetMachines E machineID w = (Inr [m], ticked 1 w)"
      by (simp add: resolveTargetMachines_def run_simps)
    with Some sql_first_Some [OF m] show ?thesis by (intro that) auto
  qed
  with each [of ms v] show ?thesis
    by (simp add: TrafficCollectionService_CollectNow_def run_bnd)
qed

section \<open>Examples\<close>

definition example_entry :: "int \<Rightarrow> vnstatEntry" where
  "example_entry t =
     \<lparr>ve_Date = \<lparr>vd_Year = 2023, vd_Month = 11, vd_Day = 14\<rparr>, ve_Time = \<lparr>vt_Hour = 20, vt_Minute = 0\<rparr>,
      ve_Timestamp = t, ve_RX = 1048576, ve_TX = 2097152\<rparr>"

end
