(* ===== verification/Machines.thy ===== *)
theory Machines
  imports Collection Config
begin

text \<open>
  The inventory: \<^verbatim>\<open>internal/service/machine_service.go\<close> and \<^verbatim>\<open>internal/service/ssh_key_service.go\<close>. The
  database has no foreign key from machines to SSH keys, so it is the two services together that
  keep every machine's key present; this is the invariant of the theory, over every sequence of
  their operations and every database failure.
\<close>

section \<open>The machine service\<close>

record CreateMachineReq =
  cm_Name :: string
  cm_Host :: string
  cm_Port :: int
  cm_SSHUser :: string
  cm_NetworkInterface :: string
  cm_SSHKeyID :: nat
  cm_CollectEnabled :: bool
  cm_Remark :: string

record UpdateMachineReq =
  um_Name :: "string option"
  um_Host :: "string option"
  um_Port :: "int option"
  um_SSHUser :: "string option"
  um_NetworkInterface :: "string option"
  um_SSHKeyID :: "nat option"
  um_CollectEnabled :: "bool option"
  um_Remark :: "string option"

record MachineResp =
  mp_ID :: nat
  mp_Name :: string
  mp_Host :: string
  mp_Port :: int
  mp_SSHUser :: string
  mp_NetworkInterface :: string
  mp_SSHKeyID :: nat
  mp_CollectEnabled :: bool
  mp_Remark :: string
  mp_CreatedAt :: gotime
  mp_UpdatedAt :: gotime

record MachineConnectionTestResp =
  mt_MachineID :: nat
  mt_SSHReachable :: bool
  mt_VNStatReady :: bool
  mt_NetworkInterfaceReady :: bool
  mt_VNStatVersion :: string
  mt_Status :: string
  mt_BackendElapsedMS :: int

definition toMachineResp :: "Machine \<Rightarrow> MachineResp" where
  "toMachineResp machine =
     \<lparr>mp_ID = mc_ID machine, mp_Name = mc_Name machine, mp_Host = mc_Host machine, mp_Port = mc_Port machine,
      mp_SSHUser = mc_SSHUser machine, mp_NetworkInterface = mc_NetworkInterface machine,
      mp_SSHKeyID = mc_SSHKeyID machine, mp_CollectEnabled = mc_CollectEnabled machine, mp_Remark = mc_Remark machine,
      mp_CreatedAt = mc_CreatedAt machine, mp_UpdatedAt = mc_UpdatedAt machine\<rparr>"

definition validateMachine :: "env \<Rightarrow> Machine \<Rightarrow> unit io" where
  "validateMachine E machine =
     (if mc_Name machine = [] \<or> mc_Host machine = [] \<or> mc_SSHUser machine = [] \<or> mc_NetworkInterface machine = []
      then fail (Sentinel ErrInvalidMachineConfig)
      else if mc_Port machine \<le> 0 \<or> 65535 < mc_Port machine then fail (Sentinel ErrInvalidMachineConfig)
      else if mc_SSHKeyID machine = 0 then fail (Sentinel ErrInvalidMachineConfig)
      else attempt (SSHKeyRepo_GetByID E (mc_SSHKeyID machine))
        (\<lambda>e. if IsRecordNotFound e then fail (Sentinel ErrSSHKeyNotFound)
             else fail (Wrapf ''validate ssh key: '' e []))
        (\<lambda>_. ret ()))"

definition machineFromReq :: "CreateMachineReq \<Rightarrow> Machine" where
  "machineFromReq req =
     \<lparr>mc_ID = 0, mc_CreatedAt = zero_time, mc_UpdatedAt = zero_time, mc_Name = TrimSpace (cm_Name req),
      mc_Host = TrimSpace (cm_Host req), mc_Port = cm_Port req, mc_SSHUser = TrimSpace (cm_SSHUser req),
      mc_NetworkInterface = TrimSpace (cm_NetworkInterface req), mc_SSHKeyID = cm_SSHKeyID req,
      mc_CollectEnabled = cm_CollectEnabled req, mc_Remark = TrimSpace (cm_Remark req)\<rparr>"

definition MachineService_Create :: "env \<Rightarrow> CreateMachineReq \<Rightarrow> MachineResp io" where
  "MachineService_Create E req =
     (let machine = machineFromReq req
      in bnd (validateMachine E machine) (\<lambda>_.
         bnd (wrap ''create machine: '' (MachineRepo_Create E machine)) (\<lambda>row.
         ret (toMachineResp row))))"

definition MachineService_List :: "env \<Rightarrow> MachineResp list io" where
  "MachineService_List E = bnd (wrap ''list machines: '' (MachineRepo_List E)) (\<lambda>ms. ret (map toMachineResp ms))"

definition getMachine :: "env \<Rightarrow> string \<Rightarrow> nat \<Rightarrow> Machine io" where
  "getMachine E msg machineID =
     attempt (MachineRepo_GetByID E machineID)
       (\<lambda>e. if IsRecordNotFound e then fail (Sentinel ErrMachineNotFound) else fail (Wrapf msg e []))
       ret"

definition MachineService_Get :: "env \<Rightarrow> nat \<Rightarrow> MachineResp io" where
  "MachineService_Get E machineID = bnd (getMachine E ''get machine: '' machineID) (\<lambda>machine. ret (toMachineResp machine))"

definition applyMachineUpdate :: "Machine \<Rightarrow> UpdateMachineReq \<Rightarrow> Machine" where
  "applyMachineUpdate machine req = machine\<lparr>
     mc_Name := (case um_Name req of None \<Rightarrow> mc_Name machine | Some v \<Rightarrow> TrimSpace v),
     mc_Host := (case um_Host req of None \<Rightarrow> mc_Host machine | Some v \<Rightarrow> TrimSpace v),
     mc_Port := (case um_Port req of None \<Rightarrow> mc_Port machine | Some v \<Rightarrow> v),
     mc_SSHUser := (case um_SSHUser req of None \<Rightarrow> mc_SSHUser machine | Some v \<Rightarrow> TrimSpace v),
     mc_NetworkInterface := (case um_NetworkInterface req of None \<Rightarrow> mc_NetworkInterface machine | Some v \<Rightarrow> TrimSpace v),
     mc_SSHKeyID := (case um_SSHKeyID req of None \<Rightarrow> mc_SSHKeyID machine | Some v \<Rightarrow> v),
     mc_CollectEnabled := (case um_CollectEnabled req of None \<Rightarrow> mc_CollectEnabled machine | Some v \<Rightarrow> v),
     mc_Remark := (case um_Remark req of None \<Rightarrow> mc_Remark machine | Some v \<Rightarrow> TrimSpace v)\<rparr>"

definition MachineService_Update :: "env \<Rightarrow> nat \<Rightarrow> UpdateMachineReq \<Rightarrow> MachineResp io" where
  "MachineService_Update E machineID req =
     bnd (getMachine E ''get machine for update: '' machineID) (\<lambda>old.
     let machine = applyMachineUpdate old req
     in bnd (validateMachine E machine) (\<lambda>_.
        bnd (wrap ''update machine: '' (MachineRepo_Update E machine)) (\<lambda>row.
        ret (toMachineResp row))))"

definition MachineService_Delete :: "env \<Rightarrow> nat \<Rightarrow> unit io" where
  "MachineService_Delete E machineID =
     bnd (getMachine E ''get machine for delete: '' machineID) (\<lambda>_.
     wrap ''delete machine: '' (MachineRepo_DeleteByID E machineID))"

definition vnstatNotInstalledMarker :: string where
  "vnstatNotInstalledMarker = ''__TRAFFIC_MONITOR_VNSTAT_NOT_INSTALLED__''"

definition vnstatInterfaceMissingMarker :: string where
  "vnstatInterfaceMissingMarker = ''__TRAFFIC_MONITOR_VNSTAT_INTERFACE_MISSING__''"

text \<open>The shell text \<^verbatim>\<open>printf '%s\n' "$version"\<close>.\<close>

definition print_version :: string where
  "print_version = ''printf '' @ [CHR 0x27] @ ''%s'' @ [CHR 0x5C] @ ''n'' @ [CHR 0x27] @ '' '' @ [CHR 0x22] @ ''$version'' @ [CHR 0x22]"

definition machineVNStatCheckCommand :: "string \<Rightarrow> string" where
  "machineVNStatCheckCommand networkInterface =
     ''if ! command -v vnstat >/dev/null 2>&1; then echo '' @ shellEscapeArg vnstatNotInstalledMarker
     @ ''; exit 127; fi; version=$(vnstat --version); if ! vnstat --json -i '' @ shellEscapeArg networkInterface
     @ '' >/dev/null 2>&1; then echo '' @ shellEscapeArg vnstatInterfaceMissingMarker @ ''; '' @ print_version
     @ ''; exit 2; fi; '' @ print_version"

definition vnstatFailureStatus :: "string \<Rightarrow> string" where
  "vnstatFailureStatus output =
     (if Contains output vnstatNotInstalledMarker then ''vnstat_not_installed''
      else if Contains output vnstatInterfaceMissingMarker then ''vnstat_interface_missing''
      else ''vnstat_unavailable'')"

fun firstVersionLine :: "string list \<Rightarrow> string" where
  "firstVersionLine [] = []"
| "firstVersionLine (l # ls) =
     (let line = TrimSpace l
      in if line = [] \<or> HasPrefix line ''__TRAFFIC_MONITOR_'' then firstVersionLine ls else line)"

definition vnstatVersionFromFailureOutput :: "string \<Rightarrow> string" where
  "vnstatVersionFromFailureOutput output = firstVersionLine (Split (TrimSpace output) (CHR 0x0A))"

text \<open>The answer for a finished test, from what the runner returned.\<close>

definition connectionResp :: "Machine \<Rightarrow> SSHExecutionResult \<times> go_error option \<Rightarrow> MachineConnectionTestResp" where
  "connectionResp machine r =
     (case r of
        (result, Some e) \<Rightarrow>
          (let response = \<lparr>mt_MachineID = mc_ID machine, mt_SSHReachable = TrimSpace (sx_Stdout result) \<noteq> [],
                           mt_VNStatReady = False, mt_NetworkInterfaceReady = False, mt_VNStatVersion = [],
                           mt_Status = ''ssh_failed'', mt_BackendElapsedMS = 0\<rparr>
           in if Contains (error_text e) ''run ssh command''
              then response\<lparr>mt_SSHReachable := True, mt_Status := vnstatFailureStatus (sx_Stdout result),
                            mt_VNStatVersion := vnstatVersionFromFailureOutput (sx_Stdout result),
                            mt_VNStatReady := vnstatFailureStatus (sx_Stdout result) \<noteq> ''vnstat_not_installed''\<rparr>
              else response)
      | (result, None) \<Rightarrow>
          \<lparr>mt_MachineID = mc_ID machine, mt_SSHReachable = True, mt_VNStatReady = True, mt_NetworkInterfaceReady = True,
           mt_VNStatVersion = TrimSpace (sx_Stdout result), mt_Status = ''ok'', mt_BackendElapsedMS = 0\<rparr>)"

definition connectionTest :: "env \<Rightarrow> string \<Rightarrow> nat \<Rightarrow> MachineConnectionTestResp io" where
  "connectionTest E masterKey machineID =
     bnd (getMachine E ''get machine for connection test: '' machineID) (\<lambda>machine.
     attempt (SSHKeyRepo_GetByID E (mc_SSHKeyID machine))
       (\<lambda>e. if IsRecordNotFound e then fail (Sentinel ErrSSHKeyNotFound)
            else fail (Wrapf ''get ssh key for connection test: '' e []))
       (\<lambda>sshKey.
          case DataProtector_Decrypt E masterKey (sk_PrivateKeyCiphertext sshKey) of
            Inl _ \<Rightarrow> fail (Wrapf [] (Sentinel ErrSSHKeyDecryptFailed)
              '': current APP_MASTER_KEY may not match the key used when this SSH key was imported'')
          | Inr privateKeyPEM \<Rightarrow>
              bnd (SSHRunner_Run E (mc_Host machine) (mc_Port machine) (mc_SSHUser machine) privateKeyPEM
                     (machineVNStatCheckCommand (mc_NetworkInterface machine)))
                (\<lambda>r. ret (connectionResp machine r))))"

text \<open>\<^verbatim>\<open>Duration.Milliseconds\<close>, and the deferred function that stamps the elapsed time.\<close>

definition Milliseconds :: "int \<Rightarrow> int" where
  "Milliseconds d = sgn d * (\<bar>d\<bar> div 1000000)"

text \<open>The test returns its answer beside the error: after an error the answer is empty but for the elapsed time.\<close>

definition no_connection :: MachineConnectionTestResp where
  "no_connection = \<lparr>mt_MachineID = 0, mt_SSHReachable = False, mt_VNStatReady = False, mt_NetworkInterfaceReady = False,
     mt_VNStatVersion = [], mt_Status = [], mt_BackendElapsedMS = 0\<rparr>"

definition MachineService_TestConnection ::
  "env \<Rightarrow> string \<Rightarrow> nat \<Rightarrow> (MachineConnectionTestResp \<times> go_error option) io" where
  "MachineService_TestConnection E masterKey machineID =
     bnd (time_Now E) (\<lambda>startedAt.
     bnd (catching (connectionTest E masterKey machineID)) (\<lambda>r.
     bnd (time_Now E) (\<lambda>endedAt.
     let elapsed = Milliseconds (endedAt - startedAt)
     in ret (case r of
               Inl e \<Rightarrow> (no_connection\<lparr>mt_BackendElapsedMS := elapsed\<rparr>, Some e)
             | Inr response \<Rightarrow> (response\<lparr>mt_BackendElapsedMS := elapsed\<rparr>, None)))))"

section \<open>The SSH key service\<close>

record ImportSSHKeyReq =
  ik_Name :: string
  ik_PrivateKey :: string

record GenerateSSHKeyReq =
  gk_Name :: string

record SSHKeyResp =
  kp_ID :: nat
  kp_Name :: string
  kp_SourceType :: string
  kp_KeyType :: string
  kp_PublicKey :: string
  kp_Fingerprint :: string
  kp_CreatedAt :: gotime
  kp_UpdatedAt :: gotime

definition sshKeyType :: "ssh_public_key \<Rightarrow> string" where
  "sshKeyType publicKey =
     (if pk_Type publicKey = ''ssh-ed25519'' then ''ed25519''
      else if pk_Type publicKey = ''ssh-rsa'' then ''rsa''
      else if pk_Type publicKey \<in> {''ecdsa-sha2-nistp256'', ''ecdsa-sha2-nistp384'', ''ecdsa-sha2-nistp521''} then ''ecdsa''
      else pk_Type publicKey)"

definition parsePrivateKey :: "env \<Rightarrow> string \<Rightarrow> go_error + string \<times> string \<times> string" where
  "parsePrivateKey E privateKeyBytes =
     (case ssh_ParsePrivateKey E privateKeyBytes of
        Inl e \<Rightarrow> Inl (Wrapf ''parse private key: '' (Foreign e) [])
      | Inr publicKey \<Rightarrow> Inr (sshKeyType publicKey, pk_Authorized publicKey, pk_Fingerprint publicKey))"

definition toSSHKeyResp :: "SSHKey \<Rightarrow> SSHKeyResp" where
  "toSSHKeyResp k =
     \<lparr>kp_ID = sk_ID k, kp_Name = sk_Name k, kp_SourceType = sk_SourceType k, kp_KeyType = sk_KeyType k,
      kp_PublicKey = sk_PublicKey k, kp_Fingerprint = sk_Fingerprint k, kp_CreatedAt = sk_CreatedAt k,
      kp_UpdatedAt = sk_UpdatedAt k\<rparr>"

definition mapSSHKeyRepoError :: "go_error \<Rightarrow> go_error" where
  "mapSSHKeyRepoError e =
     (if IsDuplicateKeyError e then Sentinel ErrDuplicateSSHKeyFingerprint else Wrapf ''persist ssh key: '' e [])"

text \<open>What \<^verbatim>\<open>Import\<close> and \<^verbatim>\<open>Generate\<close> do alike: encrypt the private key and store the row.\<close>

definition storeKey :: "env \<Rightarrow> string \<Rightarrow> string \<Rightarrow> string \<Rightarrow> string \<Rightarrow> string \<Rightarrow> string \<Rightarrow> string \<Rightarrow> SSHKeyResp io" where
  "storeKey E masterKey name sourceType keyType publicKey privateKeyBytes fingerprint =
     bnd (wrap ''encrypt private key: '' (DataProtector_Encrypt E masterKey privateKeyBytes)) (\<lambda>ciphertext.
     attempt (SSHKeyRepo_Create E
         \<lparr>sk_ID = 0, sk_CreatedAt = zero_time, sk_UpdatedAt = zero_time, sk_Name = name, sk_SourceType = sourceType,
          sk_KeyType = keyType, sk_PublicKey = publicKey, sk_PrivateKeyCiphertext = ciphertext,
          sk_Fingerprint = fingerprint\<rparr>)
       (\<lambda>e. fail (mapSSHKeyRepoError e))
       (\<lambda>row. ret (toSSHKeyResp row)))"

definition SSHKeyService_Import :: "env \<Rightarrow> string \<Rightarrow> ImportSSHKeyReq \<Rightarrow> SSHKeyResp io" where
  "SSHKeyService_Import E masterKey req =
     bnd (lift_sum (parsePrivateKey E (ik_PrivateKey req))) (\<lambda>(keyType, publicKey, fingerprint).
     storeKey E masterKey (ik_Name req) ''imported'' keyType publicKey (ik_PrivateKey req) fingerprint)"

text \<open>Generating a key pair: the parameter gives the PEM text of the private key and the public
  half, or the error text of the step that failed.\<close>

definition SSHKeyService_Generate :: "env \<Rightarrow> string \<Rightarrow> GenerateSSHKeyReq \<Rightarrow> SSHKeyResp io" where
  "SSHKeyService_Generate E masterKey req =
     bnd (external (ed25519_key E)) (\<lambda>r.
     case r of
       Inl e \<Rightarrow> fail (Foreign e)
     | Inr (privateKeyBytes, publicKey) \<Rightarrow>
         storeKey E masterKey (gk_Name req) ''generated'' ''ed25519'' (pk_Authorized publicKey) privateKeyBytes
           (pk_Fingerprint publicKey))"

definition SSHKeyService_List :: "env \<Rightarrow> SSHKeyResp list io" where
  "SSHKeyService_List E = bnd (wrap ''list ssh keys: '' (SSHKeyRepo_List E)) (\<lambda>ks. ret (map toSSHKeyResp ks))"

definition SSHKeyService_GetPublicKey :: "env \<Rightarrow> nat \<Rightarrow> SSHKeyResp io" where
  "SSHKeyService_GetPublicKey E sshKeyID =
     attempt (SSHKeyRepo_GetByID E sshKeyID)
       (\<lambda>e. if IsRecordNotFound e then fail (Sentinel ErrSSHKeyNotFound) else fail (Wrapf ''get ssh key public key: '' e []))
       (\<lambda>k. ret (toSSHKeyResp k))"

definition SSHKeyService_Rename :: "env \<Rightarrow> nat \<Rightarrow> string \<Rightarrow> SSHKeyResp io" where
  "SSHKeyService_Rename E sshKeyID name =
     attempt (SSHKeyRepo_UpdateName E sshKeyID name)
       (\<lambda>e. if IsRecordNotFound e then fail (Sentinel ErrSSHKeyNotFound) else fail (Wrapf ''rename ssh key: '' e []))
       (\<lambda>k. ret (toSSHKeyResp k))"

definition SSHKeyService_Delete :: "env \<Rightarrow> nat \<Rightarrow> unit io" where
  "SSHKeyService_Delete E sshKeyID =
     bnd (wrap ''list machines by ssh key: '' (MachineRepo_ListBySSHKeyID E sshKeyID)) (\<lambda>ms.
     if ms \<noteq> [] then fail (Sentinel ErrSSHKeyInUse)
     else wrap ''delete ssh key: '' (SSHKeyRepo_DeleteByID E sshKeyID))"

section \<open>The inventory invariant\<close>

definition valid_fields :: "Machine \<Rightarrow> bool" where
  "valid_fields m \<longleftrightarrow> mc_Name m \<noteq> [] \<and> mc_Host m \<noteq> [] \<and> mc_SSHUser m \<noteq> [] \<and> mc_NetworkInterface m \<noteq> [] \<and>
     0 < mc_Port m \<and> mc_Port m \<le> 65535"

definition trimmed_fields :: "Machine \<Rightarrow> bool" where
  "trimmed_fields m \<longleftrightarrow> TrimSpace (mc_Name m) = mc_Name m \<and> TrimSpace (mc_Host m) = mc_Host m \<and>
     TrimSpace (mc_SSHUser m) = mc_SSHUser m \<and> TrimSpace (mc_NetworkInterface m) = mc_NetworkInterface m \<and>
     TrimSpace (mc_Remark m) = mc_Remark m"

definition machine_ok :: "world \<Rightarrow> Machine \<Rightarrow> bool" where
  "machine_ok w m \<longleftrightarrow> valid_fields m \<and> trimmed_fields m \<and> mc_SSHKeyID m \<in> sk_ID ` set (ssh_keys w)"

definition inventory_ok :: "world \<Rightarrow> bool" where
  "inventory_ok w \<longleftrightarrow> (\<forall>m\<in>set (machines w). machine_ok w m \<and> mc_ID m < seqs w TMachines) \<and>
     distinct (map mc_ID (machines w)) \<and> (\<forall>k\<in>set (ssh_keys w). sk_ID k < seqs w TSSHKeys) \<and>
     distinct (map sk_ID (ssh_keys w)) \<and> distinct (map sk_Fingerprint (ssh_keys w))"

lemma ok_ticked [simp]: "machine_ok (ticked n w) m = machine_ok w m" "inventory_ok (ticked n w) = inventory_ok w"
  by (simp_all add: machine_ok_def inventory_ok_def)

lemma tick_free_inventory [simp]: "tick_free inventory_ok"
  by (simp add: tick_free_def inventory_ok_def machine_ok_def)

lemma snd_statement:
  assumes "P (ticked 1 w)" and "P (snd (f (clk E (tick w)) (ticked 1 w)))"
  shows "P (snd (statement E f w))"
  using assms by (simp add: statement_def Let_def split: option.split)

text \<open>What a read returns: the state up to the call counter, and a row of the table.\<close>

lemma read_result:
  assumes "wrap msg (statement E (\<lambda>_ u. case g u of None \<Rightarrow> (Inl e, u) | Some r \<Rightarrow> (Inr r, u))) w = (res, w')"
    and "\<And>n u. g (ticked n u) = g u"
  shows "w' = ticked 1 w" and "res = Inr x \<Longrightarrow> g w = Some x"
  using assms by (auto simp: run_wrap statement_def Let_def split: option.splits prod.splits sum.splits)

lemma get_key_result:
  assumes "SSHKeyRepo_GetByID E i w = (r, w')"
  shows "w' = ticked 1 w" and "r = Inr k \<Longrightarrow> k \<in> set (ssh_keys w) \<and> sk_ID k = i"
proof -
  note get = assms [unfolded SSHKeyRepo_GetByID_def]
  show "w' = ticked 1 w" by (rule read_result(1) [OF get]) simp
  have "r = Inr k \<Longrightarrow> sql_first sk_ID (\<lambda>k. sk_ID k = i) (ssh_keys w) = Some k" by (rule read_result(2) [OF get]) simp_all
  then show "r = Inr k \<Longrightarrow> k \<in> set (ssh_keys w) \<and> sk_ID k = i"
    using sql_first_Some [of sk_ID "\<lambda>k. sk_ID k = i" "ssh_keys w"] by blast
qed

lemma get_machine_result:
  assumes "getMachine E msg i w = (r, w')"
  shows "w' = ticked 1 w" and "r = Inr m \<Longrightarrow> m \<in> set (machines w) \<and> mc_ID m = i"
proof -
  obtain r1 w1 where r1: "MachineRepo_GetByID E i w = (r1, w1)" by fastforce
  note get = r1 [unfolded MachineRepo_GetByID_def]
  from r1 assms have eq: "w' = w1" "r = Inr m \<Longrightarrow> r1 = Inr m"
    by (auto simp: getMachine_def run_simps split: sum.splits if_splits)
  have "w1 = ticked 1 w" by (rule read_result(1) [OF get]) simp
  with eq(1) show "w' = ticked 1 w" by simp
  have "r1 = Inr m \<Longrightarrow> sql_first mc_ID (\<lambda>m. mc_ID m = i) (machines w) = Some m" by (rule read_result(2) [OF get]) simp_all
  then show "r = Inr m \<Longrightarrow> m \<in> set (machines w) \<and> mc_ID m = i"
    using eq(2) sql_first_Some [of mc_ID "\<lambda>m. mc_ID m = i" "machines w"] by blast
qed

lemma ticked_0: "ticked 0 w = w"
  by (simp add: ticked_def)

lemma validate_result:
  assumes "validateMachine E m w = (r, w')"
  obtains n where "w' = ticked n w" and "r = Inr () \<Longrightarrow> valid_fields m \<and> mc_SSHKeyID m \<in> sk_ID ` set (ssh_keys w)"
proof (cases "valid_fields m \<and> mc_SSHKeyID m \<noteq> 0")
  case False
  with assms have "r = Inl (Sentinel ErrInvalidMachineConfig)" "w' = w"
    by (auto simp: validateMachine_def valid_fields_def run_fail split: if_splits)
  then show ?thesis using that [of 0] by (simp add: ticked_0)
next
  case True
  obtain r1 w1 where get: "SSHKeyRepo_GetByID E (mc_SSHKeyID m) w = (r1, w1)" by fastforce
  note res = get_key_result [OF get]
  have run: "validateMachine E m w = (case r1 of
      Inl e \<Rightarrow> (Inl (if IsRecordNotFound e then Sentinel ErrSSHKeyNotFound else Wrapf ''validate ssh key: '' e []), w1)
    | Inr k \<Rightarrow> (Inr (), w1))"
    using True get by (simp add: validateMachine_def valid_fields_def run_attempt run_fail run_ret split: sum.split)
  show ?thesis
  proof (cases r1)
    case (Inl e)
    with run assms that [of 1] res(1) show ?thesis by simp
  next
    case (Inr k)
    with res(2) [of k] have "mc_SSHKeyID m \<in> sk_ID ` set (ssh_keys w)" by force
    with run assms Inr that [of 1] res(1) True show ?thesis by simp
  qed
qed

section \<open>The table operations keep it\<close>

lemma inventory_create_machine:
  assumes "inventory_ok w" and "machine_ok w m"
  shows "inventory_ok (snd (MachineRepo_Create E m w))"
  unfolding MachineRepo_Create_def run_wrap_snd
  by (rule snd_statement [where P = inventory_ok])
    (use assms in \<open>auto simp: inventory_ok_def machine_ok_def valid_fields_def trimmed_fields_def Let_def\<close>)

lemma inventory_update_machine:
  assumes "inventory_ok w" and "machine_ok w m" and "mc_ID m \<in> mc_ID ` set (machines w)"
  shows "inventory_ok (snd (MachineRepo_Update E m w))"
proof -
  have "distinct (map mc_ID (sql_upsert mc_ID (\<lambda>_ new. new) (m\<lparr>mc_UpdatedAt := t\<rparr>) (machines w)))" for t
  proof -
    have "map mc_ID (sql_upsert mc_ID (\<lambda>_ new. new) (m\<lparr>mc_UpdatedAt := t\<rparr>) (machines w)) = map mc_ID (machines w)"
      using assms(3) by (simp add: sql_upsert_def comp_def if_distrib cong: if_cong)
    with assms(1) show ?thesis by (simp add: inventory_ok_def)
  qed
  moreover have "machine_ok w m' \<and> mc_ID m' < seqs w TMachines"
    if "m' \<in> set (sql_upsert mc_ID (\<lambda>_ new. new) (m\<lparr>mc_UpdatedAt := t\<rparr>) (machines w))" for m' t
  proof -
    from that assms(3) consider "m' = m\<lparr>mc_UpdatedAt := t\<rparr>" | "m' \<in> set (machines w)"
      by (auto simp: sql_upsert_def split: if_splits)
    then show ?thesis
    proof cases
      case 1
      moreover have "mc_ID m < seqs w TMachines" using assms(1,3) by (auto simp: inventory_ok_def)
      ultimately show ?thesis using assms(2) by (simp add: machine_ok_def valid_fields_def trimmed_fields_def)
    next
      case 2
      with assms(1) show ?thesis by (simp add: inventory_ok_def)
    qed
  qed
  ultimately show ?thesis
    unfolding MachineRepo_Update_def run_wrap_snd
    by - (rule snd_statement [where P = inventory_ok], use assms(1) in \<open>simp_all add: inventory_ok_def machine_ok_def Let_def\<close>)
qed

lemma inventory_delete_machine: "keeps inventory_ok (MachineRepo_DeleteByID E i)"
  unfolding MachineRepo_DeleteByID_def
  by (intro keeps_intros keeps_statement tick_free_inventory)
    (auto simp: keeps_def inventory_ok_def machine_ok_def sql_delete_def distinct_map_filter)

lemma inventory_create_key: "keeps inventory_ok (SSHKeyRepo_Create E k)"
  unfolding SSHKeyRepo_Create_def
  by (intro keeps_intros keeps_statement tick_free_inventory)
    (auto simp: keeps_def inventory_ok_def machine_ok_def Let_def)

lemma inventory_same_keys:
  assumes "inventory_ok w" and "map sk_ID ks = map sk_ID (ssh_keys w)"
    and "map sk_Fingerprint ks = map sk_Fingerprint (ssh_keys w)"
  shows "inventory_ok (w\<lparr>ssh_keys := ks\<rparr>)"
proof -
  have ids: "sk_ID ` set ks = sk_ID ` set (ssh_keys w)" using arg_cong [OF assms(2), of set] by simp
  have "\<forall>k\<in>set ks. sk_ID k < seqs w TSSHKeys"
  proof
    fix k assume "k \<in> set ks"
    then have "sk_ID k \<in> sk_ID ` set (ssh_keys w)" using ids by blast
    with assms(1) show "sk_ID k < seqs w TSSHKeys" by (auto simp: inventory_ok_def)
  qed
  with assms ids show ?thesis by (simp add: inventory_ok_def machine_ok_def)
qed

lemma inventory_rename_key: "keeps inventory_ok (SSHKeyRepo_UpdateName E i n)"
proof -
  have "keeps inventory_ok (SSHKeyRepo_GetByID E i)"
    unfolding keeps_def using get_key_result(1) by (metis ok_ticked(2) prod.collapse)
  moreover have "inventory_ok (w\<lparr>ssh_keys := sql_update (\<lambda>k. sk_ID k = i) (\<lambda>k. k\<lparr>sk_Name := n, sk_UpdatedAt := t\<rparr>) (ssh_keys w)\<rparr>)"
    if "inventory_ok w" for w t
    using that by (rule inventory_same_keys) (auto simp: sql_update_def)
  ultimately show ?thesis
    unfolding SSHKeyRepo_UpdateName_def
    by (intro keeps_intros keeps_statement tick_free_inventory) (simp_all add: keeps_def)
qed

text \<open>Deleting a key that no machine uses.\<close>

lemma inventory_delete_key:
  assumes "inventory_ok w" and "\<forall>m\<in>set (machines w). mc_SSHKeyID m \<noteq> i"
  shows "inventory_ok (snd (SSHKeyRepo_DeleteByID E i w))"
proof -
  have "machine_ok (w\<lparr>ssh_keys := sql_delete (\<lambda>k. sk_ID k = i) (ssh_keys w)\<rparr>) m" if "m \<in> set (machines w)" for m
  proof -
    have "machine_ok w m" "mc_SSHKeyID m \<noteq> i" using assms that by (simp_all add: inventory_ok_def)
    then obtain k where "k \<in> set (ssh_keys w)" "sk_ID k = mc_SSHKeyID m" "sk_ID k \<noteq> i"
      by (auto simp: machine_ok_def)
    with \<open>machine_ok w m\<close> show ?thesis by (auto simp: machine_ok_def sql_delete_def intro!: image_eqI [of _ _ k])
  qed
  then have "inventory_ok (w\<lparr>ssh_keys := sql_delete (\<lambda>k. sk_ID k = i) (ssh_keys w)\<rparr>)"
    using assms(1) unfolding inventory_ok_def by (simp add: sql_delete_def distinct_map_filter)
  then have "inventory_ok ((ticked 1 w)\<lparr>ssh_keys := sql_delete (\<lambda>k. sk_ID k = i) (ssh_keys w)\<rparr>)"
    by (simp add: inventory_ok_def machine_ok_def)
  then show ?thesis
    unfolding SSHKeyRepo_DeleteByID_def run_wrap_snd by - (rule snd_statement [where P = inventory_ok], simp_all add: assms(1))
qed

section \<open>The services keep it\<close>

lemma snd_bnd: "snd (bnd m f w) = (case m w of (Inl e, w') \<Rightarrow> w' | (Inr x, w') \<Rightarrow> snd (f x w'))"
  by (simp add: run_bnd split: prod.split sum.split)

lemma snd_wrap_ret [simp]: "snd (bnd (wrap msg m) (\<lambda>x. ret (f x)) w) = snd (m w)"
  by (simp add: run_simps split: prod.split sum.split)

lemma wrap_value: "m w = (Inr x, w') \<Longrightarrow> wrap msg m w = (Inr x, w')"
  by (simp add: run_wrap)

lemma keep_create:
  assumes "inventory_ok w"
  shows "inventory_ok (snd (MachineService_Create E req w))"
proof -
  let ?m = "machineFromReq req"
  obtain r w1 where v: "validateMachine E ?m w = (r, w1)" by fastforce
  obtain n where n: "w1 = ticked n w" "r = Inr () \<Longrightarrow> valid_fields ?m \<and> mc_SSHKeyID ?m \<in> sk_ID ` set (ssh_keys w)"
    using validate_result [OF v] by blast
  have "machine_ok w1 ?m" if "r = Inr ()"
    using n that by (simp add: machine_ok_def trimmed_fields_def machineFromReq_def)
  with inventory_create_machine [of w1 ?m E] assms n(1) have "r = Inr () \<Longrightarrow> inventory_ok (snd (MachineRepo_Create E ?m w1))"
    by simp
  with assms n(1) v show ?thesis
    by (cases r) (simp_all add: MachineService_Create_def Let_def snd_bnd [of "validateMachine E ?m"])
qed

lemma trimmed_update: "trimmed_fields m \<Longrightarrow> trimmed_fields (applyMachineUpdate m req)"
  by (auto simp: trimmed_fields_def applyMachineUpdate_def split: option.split)

lemma keep_update:
  assumes "inventory_ok w"
  shows "inventory_ok (snd (MachineService_Update E i req w))"
proof -
  obtain r w1 where g: "getMachine E ''get machine for update: '' i w = (r, w1)" by fastforce
  note get = get_machine_result [OF g]
  show ?thesis
  proof (cases r)
    case (Inl e)
    with g get(1) assms show ?thesis by (simp add: MachineService_Update_def snd_bnd)
  next
    case (Inr m)
    let ?m = "applyMachineUpdate m req"
    obtain r2 w2 where v: "validateMachine E ?m w1 = (r2, w2)" by fastforce
    obtain n where n: "w2 = ticked n w1" "r2 = Inr () \<Longrightarrow> valid_fields ?m \<and> mc_SSHKeyID ?m \<in> sk_ID ` set (ssh_keys w1)"
      using validate_result [OF v] by blast
    have "m \<in> set (machines w)" using get(2) Inr by blast
    then have "trimmed_fields ?m" "mc_ID ?m \<in> mc_ID ` set (machines w2)"
      using assms n(1) get(1) by (auto simp: inventory_ok_def machine_ok_def trimmed_update) (simp add: applyMachineUpdate_def)
    with n get(1) inventory_update_machine [of w2 ?m E] assms
    have "r2 = Inr () \<Longrightarrow> inventory_ok (snd (MachineRepo_Update E ?m w2))" by (simp add: machine_ok_def)
    with assms n(1) get(1) v g Inr show ?thesis
      by (cases r2) (simp_all add: MachineService_Update_def Let_def snd_bnd [of "getMachine E _ i"] snd_bnd [of "validateMachine E ?m"])
  qed
qed

lemma keep_delete: "keeps inventory_ok (MachineService_Delete E i)"
proof -
  have "keeps inventory_ok (getMachine E msg i)" for msg
    unfolding keeps_def using get_machine_result(1) by (metis ok_ticked(2) prod.collapse)
  then show ?thesis
    unfolding MachineService_Delete_def by (intro keeps_intros inventory_delete_machine)
qed

lemma keep_store_key: "keeps inventory_ok (storeKey E key n st kt pub priv fp)"
  unfolding storeKey_def
  by (intro keeps_intros inventory_create_key protector.keeps_encrypt tick_free_inventory)

lemma keep_import: "keeps inventory_ok (SSHKeyService_Import E key req)"
  unfolding SSHKeyService_Import_def by (intro keeps_intros keep_store_key)

lemma keep_generate: "keeps inventory_ok (SSHKeyService_Generate E key req)"
  unfolding SSHKeyService_Generate_def by (intro keeps_intros keep_store_key tick_free_inventory)

lemma keep_rename: "keeps inventory_ok (SSHKeyService_Rename E i n)"
  unfolding SSHKeyService_Rename_def by (intro keeps_intros inventory_rename_key)

lemma sort_key_Nil: "sort_key f xs = [] \<longleftrightarrow> xs = []"
  by (metis length_0_conv length_sort)

lemma list_by_key_result:
  assumes "MachineRepo_ListBySSHKeyID E i w = (r, w')"
  shows "w' = ticked 1 w" and "r = Inr [] \<Longrightarrow> \<forall>m\<in>set (machines w). mc_SSHKeyID m \<noteq> i"
proof -
  show "w' = ticked 1 w"
    using assms by (auto simp: MachineRepo_ListBySSHKeyID_def run_wrap statement_def Let_def split: option.splits)
  have "r = Inr [] \<Longrightarrow> sort_key (\<lambda>m. - int (mc_ID m)) (filter (\<lambda>m. mc_SSHKeyID m = i) (machines w)) = []"
    using assms by (auto simp: MachineRepo_ListBySSHKeyID_def run_wrap statement_def Let_def split: option.splits)
  then show "r = Inr [] \<Longrightarrow> \<forall>m\<in>set (machines w). mc_SSHKeyID m \<noteq> i"
    by (simp add: sort_key_Nil filter_empty_conv)
qed

lemma keep_delete_key:
  assumes "inventory_ok w"
  shows "inventory_ok (snd (SSHKeyService_Delete E i w))"
proof -
  obtain r w1 where l: "MachineRepo_ListBySSHKeyID E i w = (r, w1)" by fastforce
  note res = list_by_key_result [OF l]
  show ?thesis
  proof (cases "r = Inr []")
    case True
    with res assms inventory_delete_key [of w1 i E] have "inventory_ok (snd (SSHKeyRepo_DeleteByID E i w1))" by simp
    moreover have "wrap ''list machines by ssh key: '' (MachineRepo_ListBySSHKeyID E i) w = (Inr [], w1)"
      using l True by (simp add: wrap_value)
    ultimately show ?thesis by (simp add: SSHKeyService_Delete_def snd_bnd)
  next
    case False
    with l res(1) assms show ?thesis
      by (cases r) (auto simp: SSHKeyService_Delete_def snd_bnd run_wrap run_fail)
  qed
qed

text \<open>A connection test and the reads only move the call counter and the log of SSH commands.\<close>

lemma keeps_ssh_run:
  assumes "tick_free I" and "\<And>w x. I (w\<lparr>ssh_log := x\<rparr>) = I w"
  shows "keeps I (SSHRunner_Run E host port user pem cmd)"
proof -
  have "keeps I (modify (\<lambda>w. w\<lparr>ssh_log := ssh_log w @ [x]\<rparr>))" for x
    by (simp add: keeps_def modify_def assms(2))
  then show ?thesis
    unfolding SSHRunner_Run_def
    by (auto simp: Let_def split: sum.split option.split ssh_outcome.split intro!: keeps_intros assms(1))
qed

lemma keeps_connection_test:
  assumes "tick_free I" and "\<And>w x. I (w\<lparr>ssh_log := x\<rparr>) = I w"
  shows "keeps I (MachineService_TestConnection E key i)"
  unfolding MachineService_TestConnection_def connectionTest_def getMachine_def Let_def
  by (intro keeps_intros keeps_ssh_run keeps_get_key keeps_get_machine assms)

text \<open>The requests that change the inventory, and a history of them.\<close>

datatype inventory_op =
    CreateMachine CreateMachineReq | UpdateMachine nat UpdateMachineReq | DeleteMachine nat | TestMachine nat
  | ImportKey ImportSSHKeyReq | GenerateKey GenerateSSHKeyReq | RenameKey nat string | DeleteKey nat

fun run_inventory :: "env \<Rightarrow> string \<Rightarrow> inventory_op \<Rightarrow> world \<Rightarrow> world" where
  "run_inventory E key (CreateMachine req) w = snd (MachineService_Create E req w)"
| "run_inventory E key (UpdateMachine i req) w = snd (MachineService_Update E i req w)"
| "run_inventory E key (DeleteMachine i) w = snd (MachineService_Delete E i w)"
| "run_inventory E key (TestMachine i) w = snd (MachineService_TestConnection E key i w)"
| "run_inventory E key (ImportKey req) w = snd (SSHKeyService_Import E key req w)"
| "run_inventory E key (GenerateKey req) w = snd (SSHKeyService_Generate E key req w)"
| "run_inventory E key (RenameKey i n) w = snd (SSHKeyService_Rename E i n w)"
| "run_inventory E key (DeleteKey i) w = snd (SSHKeyService_Delete E i w)"

lemma run_inventory_ok:
  assumes "inventory_ok w"
  shows "inventory_ok (run_inventory E key op w)"
proof (cases op)
  case (TestMachine i)
  have "keeps inventory_ok (MachineService_TestConnection E key i)"
    by (rule keeps_connection_test) (simp_all add: inventory_ok_def machine_ok_def)
  with assms TestMachine show ?thesis by (simp add: keeps_def)
qed (use assms keep_create keep_update keep_delete_key keep_delete keep_import keep_generate keep_rename in
    \<open>simp_all add: keeps_def\<close>)

text \<open>However machines and keys are created, changed and deleted, and whatever the database does, a
  stored machine stays complete (non-empty trimmed fields, a legal port) and its SSH key stays
  stored; machine and key identifiers and key fingerprints stay unique.\<close>

lemma inventory_stays_ok:
  assumes "inventory_ok w"
  shows "inventory_ok (fold (run_inventory E key) ops w)"
  using assms by (induction ops arbitrary: w) (simp_all add: run_inventory_ok)

section \<open>Behaviour\<close>

lemma run_get_machine:
  assumes "no_faults E"
  shows "getMachine E msg i w = (case sql_first mc_ID (\<lambda>m. mc_ID m = i) (machines w) of
     None \<Rightarrow> (Inl (Sentinel ErrMachineNotFound), ticked 1 w) | Some m \<Rightarrow> (Inr m, ticked 1 w))"
  using assms by (simp add: getMachine_def run_simps IsRecordNotFound_def split: option.split)

lemma first_by_id:
  assumes "distinct (map mc_ID ms)" and "m \<in> set ms"
  shows "sql_first mc_ID (\<lambda>x. mc_ID x = mc_ID m) ms = Some m"
proof -
  obtain x where x: "sql_first mc_ID (\<lambda>x. mc_ID x = mc_ID m) ms = Some x"
    using assms(2) sql_first_None [of mc_ID "\<lambda>x. mc_ID x = mc_ID m" ms] by (cases "sql_first mc_ID (\<lambda>x. mc_ID x = mc_ID m) ms") auto
  from sql_first_Some [OF x] assms have "x = m" by (auto simp: distinct_map dest: inj_onD)
  with x show ?thesis by simp
qed

lemma run_get_key:
  assumes "no_faults E"
  shows "SSHKeyRepo_GetByID E i w = (case sql_first sk_ID (\<lambda>k. sk_ID k = i) (ssh_keys w) of
     None \<Rightarrow> (Inl (Wrapf ''get ssh key by id: '' (Sentinel ErrRecordNotFound) []), ticked 1 w)
   | Some k \<Rightarrow> (Inr k, ticked 1 w))"
  using assms by (simp add: SSHKeyRepo_GetByID_def run_simps split: option.split)

lemma run_validate:
  assumes "no_faults E"
  shows "validateMachine E m w =
     (if \<not> valid_fields m \<or> mc_SSHKeyID m = 0 then (Inl (Sentinel ErrInvalidMachineConfig), w)
      else if mc_SSHKeyID m \<in> sk_ID ` set (ssh_keys w) then (Inr (), ticked 1 w)
      else (Inl (Sentinel ErrSSHKeyNotFound), ticked 1 w))"
proof (cases "valid_fields m \<and> mc_SSHKeyID m \<noteq> 0")
  case False
  then show ?thesis by (auto simp: validateMachine_def valid_fields_def run_fail)
next
  case True
  let ?f = "sql_first sk_ID (\<lambda>k. sk_ID k = mc_SSHKeyID m) (ssh_keys w)"
  have "?f = None \<longleftrightarrow> mc_SSHKeyID m \<notin> sk_ID ` set (ssh_keys w)"
    unfolding sql_first_None by force
  moreover have "validateMachine E m w = (case ?f of None \<Rightarrow> (Inl (Sentinel ErrSSHKeyNotFound), ticked 1 w)
      | Some k \<Rightarrow> (Inr (), ticked 1 w))"
    using True assms by (simp add: validateMachine_def valid_fields_def run_attempt run_get_key run_fail run_ret
        IsRecordNotFound_def split: option.split)
  ultimately show ?thesis using True by (cases ?f) auto
qed

interpretation machine_tbl: keyed_table mc_ID "\<lambda>old _. old"
  by unfold_locales simp


text \<open>A key is deleted exactly when no machine uses it: otherwise the request is refused and the
  table stays as it is.\<close>

lemma delete_key_outcomes:
  assumes "no_faults E"
  shows "\<exists>r w'. SSHKeyService_Delete E i w = (r, w') \<and> machines w' = machines w \<and>
     (if i \<in> mc_SSHKeyID ` set (machines w) then r = Inl (Sentinel ErrSSHKeyInUse) \<and> ssh_keys w' = ssh_keys w
      else r = Inr () \<and> ssh_keys w' = filter (\<lambda>k. sk_ID k \<noteq> i) (ssh_keys w))"
proof -
  let ?ms = "sort_key (\<lambda>m. - int (mc_ID m)) (filter (\<lambda>m. mc_SSHKeyID m = i) (machines w))"
  have "?ms = [] \<longleftrightarrow> i \<notin> mc_SSHKeyID ` set (machines w)"
    unfolding sort_key_Nil filter_empty_conv by force
  then show ?thesis
    using assms by (simp add: SSHKeyService_Delete_def MachineRepo_ListBySSHKeyID_def SSHKeyRepo_DeleteByID_def run_simps
        sql_delete_def)
qed

text \<open>An imported private key is stored encrypted under the fingerprint of its public half, and what is
  stored decrypts to the imported bytes; the other keys stay.\<close>

lemma imported_key_usable:
  assumes "gcm_sound E" and "SSHKeyService_Import E masterKey req w = (Inr resp, w')"
  shows "\<exists>k pub. ssh_keys w' = ssh_keys w @ [k] \<and> resp = toSSHKeyResp k \<and>
     ssh_ParsePrivateKey E (ik_PrivateKey req) = Inr pub \<and> sk_Fingerprint k = pk_Fingerprint pub \<and>
     DataProtector_Decrypt E masterKey (sk_PrivateKeyCiphertext k) = Inr (ik_PrivateKey req)"
proof -
  from assms(2) obtain pub where pub: "ssh_ParsePrivateKey E (ik_PrivateKey req) = Inr pub"
    and st: "storeKey E masterKey (ik_Name req) ''imported'' (sshKeyType pub) (pk_Authorized pub) (ik_PrivateKey req)
      (pk_Fingerprint pub) w = (Inr resp, w')"
    by (auto simp: SSHKeyService_Import_def parsePrivateKey_def run_simps split: sum.splits)
  from st obtain c w1 where c: "wrap ''encrypt private key: '' (DataProtector_Encrypt E masterKey (ik_PrivateKey req)) w = (Inr c, w1)"
    and cr: "attempt (SSHKeyRepo_Create E
         \<lparr>sk_ID = 0, sk_CreatedAt = zero_time, sk_UpdatedAt = zero_time, sk_Name = ik_Name req, sk_SourceType = ''imported'',
          sk_KeyType = sshKeyType pub, sk_PublicKey = pk_Authorized pub, sk_PrivateKeyCiphertext = c,
          sk_Fingerprint = pk_Fingerprint pub\<rparr>) (\<lambda>e. fail (mapSSHKeyRepoError e)) (\<lambda>row. ret (toSSHKeyResp row)) w1
        = (Inr resp, w')"
    unfolding storeKey_def by (erule bnd_InrE)
  have enc: "DataProtector_Encrypt E masterKey (ik_PrivateKey req) w = (Inr c, w1)"
    using c by (auto simp: run_wrap split: prod.splits sum.splits)
  have dec: "DataProtector_Decrypt E masterKey c = Inr (ik_PrivateKey req)"
    using protector.decrypt_encrypt [OF assms(1) enc] .
  obtain n where "w1 = ticked n w" using protector.encrypt_pure [of E masterKey "ik_PrivateKey req" w] enc by auto
  with cr pub dec show ?thesis
    by (auto simp: SSHKeyRepo_Create_def run_attempt run_wrap run_fail run_ret statement_def Let_def
        split: option.splits if_splits)
qed

lemma connectionResp_consistent:
  "mt_NetworkInterfaceReady (connectionResp m r) \<Longrightarrow> mt_VNStatReady (connectionResp m r)"
  "mt_VNStatReady (connectionResp m r) \<Longrightarrow> mt_SSHReachable (connectionResp m r)"
  "mt_Status (connectionResp m r) = ''ok'' \<longleftrightarrow> mt_NetworkInterfaceReady (connectionResp m r)"
  "mt_Status (connectionResp m r) = ''vnstat_not_installed'' \<Longrightarrow> \<not> mt_VNStatReady (connectionResp m r)"
  by (simp_all add: connectionResp_def vnstatFailureStatus_def Let_def split: prod.splits option.splits if_splits)

text \<open>What the answer of a connection test says is consistent: the interface is ready only if vnstat is,
  vnstat only if SSH is, and the status is \<^verbatim>\<open>ok\<close> exactly when the interface is ready. A test
  changes no table.\<close>

lemma connection_test_consistent:
  assumes "MachineService_TestConnection E masterKey i w = (Inr (resp, None), w')"
  shows "(mt_NetworkInterfaceReady resp \<longrightarrow> mt_VNStatReady resp) \<and> (mt_VNStatReady resp \<longrightarrow> mt_SSHReachable resp) \<and>
     (mt_Status resp = ''ok'' \<longleftrightarrow> mt_NetworkInterfaceReady resp) \<and> (mt_Status resp = ''vnstat_not_installed'' \<longrightarrow> \<not> mt_VNStatReady resp) \<and>
     same_tables w w'"
proof -
  obtain x v where x: "connectionTest E masterKey i (ticked 1 w) = (x, v)" by fastforce
  with assms obtain r where "x = Inr r" and resp: "\<exists>ms. resp = r\<lparr>mt_BackendElapsedMS := ms\<rparr>"
    by (auto simp: MachineService_TestConnection_def run_simps Let_def split: sum.splits)
  with x obtain m res where "r = connectionResp m res"
    by (auto simp: connectionTest_def run_ret run_fail run_attempt elim!: bnd_InrE split: prod.splits sum.splits if_splits)
  with resp have "(mt_NetworkInterfaceReady resp \<longrightarrow> mt_VNStatReady resp) \<and> (mt_VNStatReady resp \<longrightarrow> mt_SSHReachable resp) \<and>
     (mt_Status resp = ''ok'' \<longleftrightarrow> mt_NetworkInterfaceReady resp) \<and> (mt_Status resp = ''vnstat_not_installed'' \<longrightarrow> \<not> mt_VNStatReady resp)"
    using connectionResp_consistent [of m res] by auto
  moreover have "keeps (same_tables w) (MachineService_TestConnection E masterKey i)"
    by (rule keeps_connection_test) simp_all
  then have "same_tables w w'" using assms by (metis keeps_def same_tables_refl snd_conv)
  ultimately show ?thesis by blast
qed

section \<open>Examples\<close>

definition example_update :: UpdateMachineReq where
  "example_update = \<lparr>um_Name = None, um_Host = Some '' 10.0.0.2 '', um_Port = None, um_SSHUser = None,
     um_NetworkInterface = None, um_SSHKeyID = None, um_CollectEnabled = None, um_Remark = None\<rparr>"

definition example_create :: CreateMachineReq where
  "example_create = \<lparr>cm_Name = ''web'', cm_Host = ''10.0.0.1'', cm_Port = 22, cm_SSHUser = ''root'',
     cm_NetworkInterface = ''eth0'', cm_SSHKeyID = 1, cm_CollectEnabled = True, cm_Remark = []\<rparr>"

definition example_import :: ImportSSHKeyReq where
  "example_import = \<lparr>ik_Name = ''key'', ik_PrivateKey = ''PEM''\<rparr>"

abbreviation example_master :: string where
  "example_master \<equiv> replicate 32 (CHR ''k'')"

lemma empty_inventory: "inventory_ok empty_world"
  by (simp add: inventory_ok_def empty_world_def)


lemma example_crypto:
  "ssh_ParsePrivateKey example_env x = Inr \<lparr>pk_Type = ''ssh-ed25519'', pk_Authorized = ''ssh-ed25519 '' @ x,
     pk_Fingerprint = ''SHA256:'' @ x\<rparr>"
  "rand_bytes example_env n l = Inr (replicate l (CHR ''r''))"
  "tcp_dial example_env n a = None" "ssh_client_conn example_env n a u = None" "ssh_session example_env n = None"
  "ssh_output example_env n c = SSHDone [] None"
  by (simp_all add: example_env_def)

lemma example_import_runs:
  "\<exists>resp w'. SSHKeyService_Import example_env example_master example_import empty_world = (Inr resp, w') \<and> w' \<noteq> empty_world"
proof -
  have "ssh_keys empty_world = []" "seqs empty_world TSSHKeys = 1" by (simp_all add: empty_world_def)
  moreover have "w1 \<noteq> empty_world" if "ssh_keys w1 = [k]" for w1 k using that by (auto simp: empty_world_def)
  ultimately show ?thesis
    by (simp add: SSHKeyService_Import_def parsePrivateKey_def storeKey_def DataProtector_Encrypt_def SSHKeyRepo_Create_def
        aes_key_size_ok_def run_simps Let_def example_crypto)
qed

definition stored_key :: SSHKey where
  "stored_key = \<lparr>sk_ID = 1, sk_CreatedAt = 0, sk_UpdatedAt = 0, sk_Name = ''key'', sk_SourceType = ''imported'',
     sk_KeyType = ''ed25519'', sk_PublicKey = [],
     sk_PrivateKeyCiphertext = b64_encode (replicate 12 (CHR ''r'') @ ''PEM'' @ example_master), sk_Fingerprint = ''SHA256:PEM''\<rparr>"

abbreviation keyed_world :: world where
  "keyed_world \<equiv> empty_world\<lparr>machines := [example_machine], ssh_keys := [stored_key]\<rparr>"

lemma stored_key_opens: "DataProtector_Decrypt example_env example_master (sk_PrivateKeyCiphertext stored_key) = Inr ''PEM''"
  by (simp add: DataProtector_Decrypt_def stored_key_def aes_key_size_ok_def gcm_NonceSize_def)
    (simp add: example_env_def suffix_def)

end
