(* ===== verification/Threshold.thy ===== *)
theory Threshold
  imports Example
begin

text \<open>
  The threshold policy of \<^verbatim>\<open>internal/service/threshold_service.go\<close>: global rules per dimension
  (period type, metric type), machine rules that override or disable them, and the effective
  rules of a machine, which the alert service evaluates. The lemmas show that the merge
  computes the intended override, that it lists every dimension once, what a read returns
  after each write, and that a rejected request changes no rule.
\<close>

section \<open>Definitions\<close>

abbreviation (input) thresholdPeriodHourly :: string where "thresholdPeriodHourly \<equiv> ''hourly''"
abbreviation (input) thresholdPeriodDaily :: string where "thresholdPeriodDaily \<equiv> ''daily''"
abbreviation (input) thresholdMetricUpload :: string where "thresholdMetricUpload \<equiv> ''upload''"
abbreviation (input) thresholdMetricDownload :: string where "thresholdMetricDownload \<equiv> ''download''"
abbreviation (input) thresholdMetricTotal :: string where "thresholdMetricTotal \<equiv> ''total''"
abbreviation (input) thresholdUnitMB :: string where "thresholdUnitMB \<equiv> ''MB''"
abbreviation (input) thresholdUnitGB :: string where "thresholdUnitGB \<equiv> ''GB''"
abbreviation (input) thresholdSourceGlobal :: string where "thresholdSourceGlobal \<equiv> ''global''"
abbreviation (input) thresholdSourceMachine :: string where "thresholdSourceMachine \<equiv> ''machine''"
abbreviation (input) thresholdStrategyInherit :: string where "thresholdStrategyInherit \<equiv> ''inherit''"
abbreviation (input) thresholdStrategyOverride :: string where "thresholdStrategyOverride \<equiv> ''override''"
abbreviation (input) thresholdStrategyDisabled :: string where "thresholdStrategyDisabled \<equiv> ''disabled''"

record ThresholdRulePayload =
  tp_PeriodType :: string
  tp_MetricType :: string
  tp_ThresholdValue :: float64
  tp_ThresholdUnit :: string
  tp_Enabled :: bool
  tp_Strategy :: string

record ThresholdRuleResp =
  tr_PeriodType :: string
  tr_MetricType :: string
  tr_ThresholdMB :: float64
  tr_ThresholdValue :: float64
  tr_ThresholdUnit :: string
  tr_Enabled :: bool
  tr_Source :: string
  tr_Strategy :: string

text \<open>A \<^verbatim>\<open>dto.UpsertThresholdRulesReq\<close> is its list of rules.\<close>

definition thresholdRuleKey :: "string \<Rightarrow> string \<Rightarrow> string" where
  "thresholdRuleKey periodType metricType = periodType @ '':'' @ metricType"

definition normalizeMachineThresholdStrategy :: "ThresholdRulePayload \<Rightarrow> go_error + string" where
  "normalizeMachineThresholdStrategy payload =
     (if tp_Strategy payload = [] then
        (if tp_Enabled payload then Inr thresholdStrategyOverride else Inr thresholdStrategyDisabled)
      else if tp_Strategy payload = thresholdStrategyInherit \<or> tp_Strategy payload = thresholdStrategyOverride
              \<or> tp_Strategy payload = thresholdStrategyDisabled
      then Inr (tp_Strategy payload)
      else Inl (Sentinel ErrInvalidThresholdRule))"

definition normalizeThresholdMB :: "env \<Rightarrow> float64 \<Rightarrow> string \<Rightarrow> go_error + float64" where
  "normalizeThresholdMB E value unit =
     (if value \<le> 0 then Inl (Sentinel ErrInvalidThresholdRule)
      else if unit = thresholdUnitMB then Inr value
      else if unit = thresholdUnitGB then Inr (fl E (value * 1024))
      else Inl (Sentinel ErrInvalidThresholdRule))"

definition validateThresholdDimension :: "string \<Rightarrow> string \<Rightarrow> go_error + unit" where
  "validateThresholdDimension periodType metricType =
     (if periodType \<noteq> thresholdPeriodHourly \<and> periodType \<noteq> thresholdPeriodDaily
      then Inl (Sentinel ErrInvalidThresholdRule)
      else if metricType = thresholdMetricUpload \<or> metricType = thresholdMetricDownload
              \<or> metricType = thresholdMetricTotal
      then Inr ()
      else Inl (Sentinel ErrInvalidThresholdRule))"

fun buildGlobalRules :: "env \<Rightarrow> ThresholdRulePayload list \<Rightarrow> go_error + GlobalThresholdRule list" where
  "buildGlobalRules E [] = Inr []"
| "buildGlobalRules E (payload # payloads) =
     (case normalizeThresholdMB E (tp_ThresholdValue payload) (tp_ThresholdUnit payload) of
        Inl e \<Rightarrow> Inl e
      | Inr thresholdMB \<Rightarrow>
          (case validateThresholdDimension (tp_PeriodType payload) (tp_MetricType payload) of
             Inl e \<Rightarrow> Inl e
           | Inr _ \<Rightarrow>
               (case buildGlobalRules E payloads of
                  Inl e \<Rightarrow> Inl e
                | Inr rules \<Rightarrow>
                    Inr (\<lparr>gr_ID = 0, gr_CreatedAt = zero_time, gr_UpdatedAt = zero_time,
                          gr_PeriodType = tp_PeriodType payload, gr_MetricType = tp_MetricType payload,
                          gr_ThresholdMB = thresholdMB, gr_Enabled = tp_Enabled payload\<rparr> # rules))))"

fun buildMachineRules ::
  "env \<Rightarrow> nat \<Rightarrow> ThresholdRulePayload list
     \<Rightarrow> go_error + MachineThresholdRule list \<times> ThresholdRuleDimension list" where
  "buildMachineRules E machineID [] = Inr ([], [])"
| "buildMachineRules E machineID (payload # payloads) =
     (case validateThresholdDimension (tp_PeriodType payload) (tp_MetricType payload) of
        Inl e \<Rightarrow> Inl e
      | Inr _ \<Rightarrow>
          (case normalizeMachineThresholdStrategy payload of
             Inl e \<Rightarrow> Inl e
           | Inr strategy \<Rightarrow>
               if strategy = thresholdStrategyInherit then
                 (case buildMachineRules E machineID payloads of
                    Inl e \<Rightarrow> Inl e
                  | Inr (rules, dims) \<Rightarrow>
                      Inr (rules, \<lparr>td_PeriodType = tp_PeriodType payload,
                                   td_MetricType = tp_MetricType payload\<rparr> # dims))
               else
                 (case normalizeThresholdMB E (tp_ThresholdValue payload) (tp_ThresholdUnit payload) of
                    Inl e \<Rightarrow> Inl e
                  | Inr thresholdMB \<Rightarrow>
                      (case buildMachineRules E machineID payloads of
                         Inl e \<Rightarrow> Inl e
                       | Inr (rules, dims) \<Rightarrow>
                           Inr (\<lparr>mr_ID = 0, mr_CreatedAt = zero_time, mr_UpdatedAt = zero_time,
                                 mr_MachineID = machineID, mr_PeriodType = tp_PeriodType payload,
                                 mr_MetricType = tp_MetricType payload, mr_ThresholdMB = thresholdMB,
                                 mr_Enabled = (strategy = thresholdStrategyOverride)\<rparr> # rules, dims)))))"

text \<open>\<^verbatim>\<open>math.Mod\<close> (exact on float64).\<close>

definition math_Mod :: "real \<Rightarrow> real \<Rightarrow> real" where
  "math_Mod x y = x - y * of_int (if 0 \<le> x / y then \<lfloor>x / y\<rfloor> else \<lceil>x / y\<rceil>)"

definition displayThresholdValue :: "env \<Rightarrow> float64 \<Rightarrow> float64 \<times> string" where
  "displayThresholdValue E thresholdMB =
     (if math_Mod thresholdMB 1024 = 0 then (fl E (thresholdMB / 1024), thresholdUnitGB)
      else (thresholdMB, thresholdUnitMB))"

definition thresholdRuleResp ::
  "env \<Rightarrow> string \<Rightarrow> string \<Rightarrow> float64 \<Rightarrow> bool \<Rightarrow> string \<Rightarrow> string \<Rightarrow> ThresholdRuleResp" where
  "thresholdRuleResp E periodType metricType thresholdMB enabled source strategy =
     (let (value, unit) = displayThresholdValue E thresholdMB
      in \<lparr>tr_PeriodType = periodType, tr_MetricType = metricType, tr_ThresholdMB = thresholdMB,
          tr_ThresholdValue = value, tr_ThresholdUnit = unit, tr_Enabled = enabled,
          tr_Source = source, tr_Strategy = strategy\<rparr>)"

definition toThresholdResponsesFromGlobal :: "env \<Rightarrow> GlobalThresholdRule list \<Rightarrow> ThresholdRuleResp list" where
  "toThresholdResponsesFromGlobal E rules =
     map (\<lambda>rule. thresholdRuleResp E (gr_PeriodType rule) (gr_MetricType rule) (gr_ThresholdMB rule)
                   (gr_Enabled rule) thresholdSourceGlobal []) rules"

definition machineRuleResp :: "env \<Rightarrow> MachineThresholdRule \<Rightarrow> ThresholdRuleResp" where
  "machineRuleResp E machineRule =
     thresholdRuleResp E (mr_PeriodType machineRule) (mr_MetricType machineRule)
       (mr_ThresholdMB machineRule) (mr_Enabled machineRule) thresholdSourceMachine
       (if mr_Enabled machineRule then thresholdStrategyOverride else thresholdStrategyDisabled)"

text \<open>The map of machine rules is filled in list order, a later rule replacing an earlier one.\<close>

fun machineRuleMap ::
  "MachineThresholdRule list \<Rightarrow> (string \<rightharpoonup> MachineThresholdRule) \<Rightarrow> (string \<rightharpoonup> MachineThresholdRule)" where
  "machineRuleMap [] m = m"
| "machineRuleMap (rule # rules) m =
     machineRuleMap rules (m(thresholdRuleKey (mr_PeriodType rule) (mr_MetricType rule) \<mapsto> rule))"

definition mergeEffectiveRules ::
  "env \<Rightarrow> GlobalThresholdRule list \<Rightarrow> MachineThresholdRule list \<Rightarrow> ThresholdRuleResp list" where
  "mergeEffectiveRules E globalRules machineRules =
     (let ruleMap = machineRuleMap machineRules Map.empty;
          mergedKeys = map (\<lambda>g. thresholdRuleKey (gr_PeriodType g) (gr_MetricType g)) globalRules
      in map (\<lambda>globalRule.
            case ruleMap (thresholdRuleKey (gr_PeriodType globalRule) (gr_MetricType globalRule)) of
              Some machineRule \<Rightarrow> machineRuleResp E machineRule
            | None \<Rightarrow> thresholdRuleResp E (gr_PeriodType globalRule) (gr_MetricType globalRule)
                        (gr_ThresholdMB globalRule) (gr_Enabled globalRule)
                        thresholdSourceGlobal thresholdStrategyInherit) globalRules
         @ map (machineRuleResp E)
             (filter (\<lambda>m. thresholdRuleKey (mr_PeriodType m) (mr_MetricType m) \<notin> set mergedKeys) machineRules))"

definition ThresholdService_UpsertGlobalRules :: "env \<Rightarrow> ThresholdRulePayload list \<Rightarrow> unit io" where
  "ThresholdService_UpsertGlobalRules E rules =
     (case buildGlobalRules E rules of
        Inl e \<Rightarrow> fail e
      | Inr rows \<Rightarrow> wrap ''upsert global threshold rules: '' (ThresholdRuleRepo_UpsertGlobalRules E rows))"

definition ThresholdService_ListGlobalRules :: "env \<Rightarrow> ThresholdRuleResp list io" where
  "ThresholdService_ListGlobalRules E =
     bnd (wrap ''list global threshold rules: '' (ThresholdRuleRepo_ListGlobalRules E))
       (\<lambda>rules. ret (toThresholdResponsesFromGlobal E rules))"

definition ThresholdService_UpsertMachineRules :: "env \<Rightarrow> nat \<Rightarrow> ThresholdRulePayload list \<Rightarrow> unit io" where
  "ThresholdService_UpsertMachineRules E machineID payloads =
     attempt (MachineRepo_GetByID E machineID)
       (\<lambda>e. if IsRecordNotFound e then fail (Sentinel ErrMachineNotFound)
            else fail (Wrapf ''get machine for threshold upsert: '' e []))
       (\<lambda>_. case buildMachineRules E machineID payloads of
              Inl e \<Rightarrow> fail e
            | Inr (rules, inheritedDimensions) \<Rightarrow>
                wrap ''replace machine threshold rules: ''
                  (ThresholdRuleRepo_ReplaceMachineRules E machineID rules inheritedDimensions))"

definition ThresholdService_ListEffectiveMachineRules :: "env \<Rightarrow> nat \<Rightarrow> ThresholdRuleResp list io" where
  "ThresholdService_ListEffectiveMachineRules E machineID =
     attempt (MachineRepo_GetByID E machineID)
       (\<lambda>e. if IsRecordNotFound e then fail (Sentinel ErrMachineNotFound)
            else fail (Wrapf ''get machine for threshold list: '' e []))
       (\<lambda>_. bnd (wrap ''list global threshold rules for machine: '' (ThresholdRuleRepo_ListGlobalRules E))
         (\<lambda>globalRules.
            bnd (wrap ''list machine threshold rules: '' (ThresholdRuleRepo_ListMachineRules E machineID))
              (\<lambda>machineRules. ret (mergeEffectiveRules E globalRules machineRules))))"

section \<open>Dimensions and keys\<close>

definition valid_dimension :: "string \<Rightarrow> string \<Rightarrow> bool" where
  "valid_dimension p q \<longleftrightarrow> validateThresholdDimension p q = Inr ()"

lemma valid_dimension_iff:
  "valid_dimension p q \<longleftrightarrow>
     (p = ''hourly'' \<or> p = ''daily'') \<and> (q = ''upload'' \<or> q = ''download'' \<or> q = ''total'')"
  by (auto simp: valid_dimension_def validateThresholdDimension_def)

lemma thresholdRuleKey_inj:
  assumes "CHR '':'' \<notin> set p" and "CHR '':'' \<notin> set p'"
  shows "thresholdRuleKey p q = thresholdRuleKey p' q' \<longleftrightarrow> p = p' \<and> q = q'"
  using assms split_at_sep [of p "CHR '':''" q p' q'] by (auto simp: thresholdRuleKey_def)

lemma valid_dimension_no_colon: "valid_dimension p q \<Longrightarrow> CHR '':'' \<notin> set p"
  by (auto simp: valid_dimension_iff)

lemma thresholdRuleKey_eq_iff:
  "valid_dimension p q \<Longrightarrow> valid_dimension p' q' \<Longrightarrow>
     thresholdRuleKey p q = thresholdRuleKey p' q' \<longleftrightarrow> p = p' \<and> q = q'"
  by (meson thresholdRuleKey_inj valid_dimension_no_colon)

text \<open>The tables hold validated rules with unique dimensions.\<close>

definition rules_ok :: "world \<Rightarrow> bool" where
  "rules_ok w \<longleftrightarrow>
     grule_tbl.unique (global_rules w) \<and> mrule_tbl.unique (machine_rules w) \<and>
     (\<forall>r\<in>set (global_rules w). valid_dimension (gr_PeriodType r) (gr_MetricType r)) \<and>
     (\<forall>r\<in>set (machine_rules w). valid_dimension (mr_PeriodType r) (mr_MetricType r))"


section \<open>The merge\<close>

definition mr_dim :: "MachineThresholdRule \<Rightarrow> string \<times> string" where
  "mr_dim r = (mr_PeriodType r, mr_MetricType r)"

definition tr_key :: "ThresholdRuleResp \<Rightarrow> string \<times> string" where
  "tr_key r = (tr_PeriodType r, tr_MetricType r)"

interpretation dim_tbl: keyed_table mr_dim mr_upd
  by unfold_locales (simp add: mr_upd_def mr_dim_def)

interpretation resp_tbl: keyed_table tr_key "\<lambda>old _. old"
  by unfold_locales simp

text \<open>The specification of the merge: in a dimension the machine's rule decides, otherwise the
  global one, marked as inherited.\<close>

definition inheritedResp :: "env \<Rightarrow> GlobalThresholdRule \<Rightarrow> ThresholdRuleResp" where
  "inheritedResp E g =
     thresholdRuleResp E (gr_PeriodType g) (gr_MetricType g) (gr_ThresholdMB g) (gr_Enabled g)
       thresholdSourceGlobal thresholdStrategyInherit"

definition effective_rule ::
  "env \<Rightarrow> GlobalThresholdRule list \<Rightarrow> MachineThresholdRule list \<Rightarrow> string \<times> string \<Rightarrow> ThresholdRuleResp option" where
  "effective_rule E gs ms d =
     (case lookup_by mr_dim d ms of
        Some m \<Rightarrow> Some (machineRuleResp E m)
      | None \<Rightarrow> map_option (inheritedResp E) (lookup_by gr_key d gs))"

definition dims_valid :: "GlobalThresholdRule list \<Rightarrow> MachineThresholdRule list \<Rightarrow> bool" where
  "dims_valid gs ms \<longleftrightarrow>
     (\<forall>g\<in>set gs. valid_dimension (gr_PeriodType g) (gr_MetricType g)) \<and>
     (\<forall>m\<in>set ms. valid_dimension (mr_PeriodType m) (mr_MetricType m))"

lemma tr_key_resp [simp]:
  "tr_key (thresholdRuleResp E p q mb en src st) = (p, q)"
  "tr_key (machineRuleResp E m) = mr_dim m"
  "tr_key (inheritedResp E g) = gr_key g"
  by (simp_all add: tr_key_def thresholdRuleResp_def machineRuleResp_def inheritedResp_def mr_dim_def
        gr_key_def split: prod.split)

lemma machineRuleMap_lookup:
  assumes "\<forall>m\<in>set ms. valid_dimension (mr_PeriodType m) (mr_MetricType m)"
    and "distinct (map mr_dim ms)" and "valid_dimension p q"
  shows "machineRuleMap ms acc (thresholdRuleKey p q) =
     (case lookup_by mr_dim (p, q) ms of Some m \<Rightarrow> Some m | None \<Rightarrow> acc (thresholdRuleKey p q))"
  using assms
proof (induction ms arbitrary: acc)
  case Nil
  then show ?case by (simp add: lookup_by_def)
next
  case (Cons m ms)
  have split: "lookup_by mr_dim (p, q) (m # ms) = (if mr_dim m = (p, q) then Some m else lookup_by mr_dim (p, q) ms)"
    by (simp add: lookup_by_def)
  show ?case
  proof (cases "mr_dim m = (p, q)")
    case True
    with Cons.prems have "lookup_by mr_dim (p, q) ms = None"
      by (auto simp: dim_tbl.lookup_None)
    moreover from True have "mr_PeriodType m = p" and "mr_MetricType m = q"
      by (simp_all add: mr_dim_def)
    ultimately show ?thesis using Cons True by (simp add: split)
  next
    case False
    with Cons.prems have "thresholdRuleKey p q \<noteq> thresholdRuleKey (mr_PeriodType m) (mr_MetricType m)"
      by (auto simp: thresholdRuleKey_eq_iff mr_dim_def)
    with Cons False show ?thesis by (simp add: split cong: option.case_cong)
  qed
qed

lemma merge_unfold:
  assumes "dims_valid gs ms" and "distinct (map mr_dim ms)"
  shows "mergeEffectiveRules E gs ms =
     map (\<lambda>g. case lookup_by mr_dim (gr_key g) ms of Some m \<Rightarrow> machineRuleResp E m | None \<Rightarrow> inheritedResp E g) gs
     @ map (machineRuleResp E) (filter (\<lambda>m. mr_dim m \<notin> gr_key ` set gs) ms)"
proof -
  have 1: "machineRuleMap ms Map.empty (thresholdRuleKey (gr_PeriodType g) (gr_MetricType g)) = lookup_by mr_dim (gr_key g) ms"
    if "g \<in> set gs" for g
    using that assms by (simp add: machineRuleMap_lookup dims_valid_def gr_key_def split: option.split)
  have 2: "thresholdRuleKey (mr_PeriodType m) (mr_MetricType m)
        \<notin> (\<lambda>g. thresholdRuleKey (gr_PeriodType g) (gr_MetricType g)) ` set gs \<longleftrightarrow> mr_dim m \<notin> gr_key ` set gs"
    if "m \<in> set ms" for m
    using that assms by (force simp: dims_valid_def thresholdRuleKey_eq_iff mr_dim_def gr_key_def)
  show ?thesis
    unfolding mergeEffectiveRules_def Let_def
    by (intro arg_cong2 [where f = "(@)"] map_cong filter_cong arg_cong2 [where f = map])
      (auto simp: 1 2 inheritedResp_def split: option.split)
qed

lemma merge_lookup:
  assumes "dims_valid gs ms" and "distinct (map mr_dim ms)"
  shows "lookup_by tr_key d (mergeEffectiveRules E gs ms) = effective_rule E gs ms d"
proof -
  let ?f = "\<lambda>g. case lookup_by mr_dim (gr_key g) ms of Some m \<Rightarrow> machineRuleResp E m | None \<Rightarrow> inheritedResp E g"
  have fst_part: "lookup_by tr_key d (map ?f gs) = map_option ?f (lookup_by gr_key d gs)"
    by (rule lookup_by_map) (auto dest: dim_tbl.lookup_in split: option.split)
  have snd_part: "lookup_by tr_key d (map (machineRuleResp E) xs) = map_option (machineRuleResp E) (lookup_by mr_dim d xs)" for xs
    by (rule lookup_by_map) simp
  show ?thesis
  proof (cases "lookup_by gr_key d gs")
    case None
    then have "d \<notin> gr_key ` set gs" by (simp add: grule_tbl.lookup_None)
    then have "lookup_by mr_dim d (filter (\<lambda>m. mr_dim m \<notin> gr_key ` set gs) ms) = lookup_by mr_dim d ms"
      by (intro dim_tbl.lookup_filter) simp
    with None show ?thesis
      by (simp add: merge_unfold [OF assms] lookup_by_append fst_part snd_part effective_rule_def
          split: option.split)
  next
    case (Some g)
    then have "gr_key g = d" by (simp add: grule_tbl.lookup_in)
    with Some show ?thesis
      by (auto simp: merge_unfold [OF assms] lookup_by_append fst_part effective_rule_def split: option.split)
  qed
qed

lemma merge_keys:
  assumes "dims_valid gs ms" and "distinct (map mr_dim ms)"
  shows "map tr_key (mergeEffectiveRules E gs ms) =
     map gr_key gs @ map mr_dim (filter (\<lambda>m. mr_dim m \<notin> gr_key ` set gs) ms)"
  by (auto simp: merge_unfold [OF assms] dest: dim_tbl.lookup_in split: option.split)

lemma merge_distinct:
  assumes "dims_valid gs ms" and "distinct (map gr_key gs)" and "distinct (map mr_dim ms)"
  shows "distinct (map tr_key (mergeEffectiveRules E gs ms))"
  using assms by (auto simp: merge_keys distinct_map_filter)

section \<open>Requests\<close>

definition tp_key :: "ThresholdRulePayload \<Rightarrow> string \<times> string" where
  "tp_key p = (tp_PeriodType p, tp_MetricType p)"

interpretation payload_tbl: keyed_table tp_key "\<lambda>old _. old"
  by unfold_locales simp

text \<open>What a request may ask for, and the rows it stands for.\<close>

definition value_ok :: "ThresholdRulePayload \<Rightarrow> bool" where
  "value_ok p \<longleftrightarrow> 0 < tp_ThresholdValue p \<and> (tp_ThresholdUnit p = ''MB'' \<or> tp_ThresholdUnit p = ''GB'')"

definition payload_ok :: "ThresholdRulePayload \<Rightarrow> bool" where
  "payload_ok p \<longleftrightarrow> value_ok p \<and> valid_dimension (tp_PeriodType p) (tp_MetricType p)"

definition payload_mb :: "env \<Rightarrow> ThresholdRulePayload \<Rightarrow> float64" where
  "payload_mb E p = (if tp_ThresholdUnit p = ''MB'' then tp_ThresholdValue p else fl E (tp_ThresholdValue p * 1024))"

definition payload_strategy :: "ThresholdRulePayload \<Rightarrow> string" where
  "payload_strategy p =
     (if tp_Strategy p \<noteq> [] then tp_Strategy p else if tp_Enabled p then ''override'' else ''disabled'')"

definition inherits :: "ThresholdRulePayload \<Rightarrow> bool" where
  "inherits p \<longleftrightarrow> payload_strategy p = ''inherit''"

definition machine_payload_ok :: "ThresholdRulePayload \<Rightarrow> bool" where
  "machine_payload_ok p \<longleftrightarrow>
     valid_dimension (tp_PeriodType p) (tp_MetricType p) \<and>
     payload_strategy p \<in> {''inherit'', ''override'', ''disabled''} \<and> (inherits p \<or> value_ok p)"

definition global_row :: "env \<Rightarrow> ThresholdRulePayload \<Rightarrow> GlobalThresholdRule" where
  "global_row E p =
     \<lparr>gr_ID = 0, gr_CreatedAt = zero_time, gr_UpdatedAt = zero_time, gr_PeriodType = tp_PeriodType p,
      gr_MetricType = tp_MetricType p, gr_ThresholdMB = payload_mb E p, gr_Enabled = tp_Enabled p\<rparr>"

definition machine_row :: "env \<Rightarrow> nat \<Rightarrow> ThresholdRulePayload \<Rightarrow> MachineThresholdRule" where
  "machine_row E mid p =
     \<lparr>mr_ID = 0, mr_CreatedAt = zero_time, mr_UpdatedAt = zero_time, mr_MachineID = mid,
      mr_PeriodType = tp_PeriodType p, mr_MetricType = tp_MetricType p, mr_ThresholdMB = payload_mb E p,
      mr_Enabled = (payload_strategy p = ''override'')\<rparr>"

definition payload_dim :: "ThresholdRulePayload \<Rightarrow> ThresholdRuleDimension" where
  "payload_dim p = \<lparr>td_PeriodType = tp_PeriodType p, td_MetricType = tp_MetricType p\<rparr>"

lemma normalize_value:
  "normalizeThresholdMB E (tp_ThresholdValue p) (tp_ThresholdUnit p) =
     (if value_ok p then Inr (payload_mb E p) else Inl (Sentinel ErrInvalidThresholdRule))"
  by (auto simp: normalizeThresholdMB_def value_ok_def payload_mb_def)

lemma validate_dimension:
  "validateThresholdDimension p q =
     (if valid_dimension p q then Inr () else Inl (Sentinel ErrInvalidThresholdRule))"
  by (auto simp: validateThresholdDimension_def valid_dimension_iff)

lemma normalize_strategy:
  "normalizeMachineThresholdStrategy p =
     (if payload_strategy p \<in> {''inherit'', ''override'', ''disabled''} then Inr (payload_strategy p)
      else Inl (Sentinel ErrInvalidThresholdRule))"
  by (auto simp: normalizeMachineThresholdStrategy_def payload_strategy_def)

lemma buildGlobalRules_eq:
  "buildGlobalRules E ps =
     (if list_all payload_ok ps then Inr (map (global_row E) ps) else Inl (Sentinel ErrInvalidThresholdRule))"
  by (induction ps) (auto simp: normalize_value validate_dimension payload_ok_def global_row_def)

lemma buildMachineRules_eq:
  "buildMachineRules E mid ps =
     (if list_all machine_payload_ok ps
      then Inr (map (machine_row E mid) (filter (\<lambda>p. \<not> inherits p) ps), map payload_dim (filter inherits ps))
      else Inl (Sentinel ErrInvalidThresholdRule))"
proof (induction ps)
  case Nil
  then show ?case by simp
next
  case (Cons p ps)
  then show ?case
    by (auto simp: normalize_value validate_dimension normalize_strategy machine_payload_ok_def [of p]
        inherits_def [of p] machine_row_def [of _ _ p] payload_dim_def [of p])
qed

lemma gr_key_global_row [simp]: "gr_key (global_row E p) = tp_key p"
  by (simp add: gr_key_def global_row_def tp_key_def)

lemma mr_dim_machine_row [simp]: "mr_dim (machine_row E mid p) = tp_key p"
  by (simp add: mr_dim_def machine_row_def tp_key_def)

lemma mr_key_dim: "mr_key m = (mr_MachineID m, mr_dim m)"
  by (simp add: mr_key_def mr_dim_def)

section \<open>The service\<close>

text \<open>What holds for a machine in a dimension, read off the tables.\<close>

definition machine_effective :: "env \<Rightarrow> world \<Rightarrow> nat \<Rightarrow> string \<times> string \<Rightarrow> ThresholdRuleResp option" where
  "machine_effective E w mid d =
     (case lookup_by mr_key (mid, d) (machine_rules w) of
        Some m \<Rightarrow> Some (machineRuleResp E m)
      | None \<Rightarrow> map_option (inheritedResp E) (lookup_by gr_key d (global_rules w)))"

lemma lookup_dim_of_machine:
  "lookup_by mr_dim d (filter (\<lambda>r. mr_MachineID r = mid) rows) = lookup_by mr_key (mid, d) rows"
  by (induction rows) (auto simp: lookup_by_def mr_key_dim)

lemma unique_dims_of_machine:
  "mrule_tbl.unique rows \<Longrightarrow> dim_tbl.unique (filter (\<lambda>r. mr_MachineID r = mid) rows)"
  by (auto simp: mrule_tbl.unique_def dim_tbl.unique_def distinct_map mr_key_dim inj_on_def)

lemma list_effective_run:
  assumes "no_faults E" and "rules_ok w" and "mid \<in> mc_ID ` set (machines w)"
  shows "ThresholdService_ListEffectiveMachineRules E mid w =
     (Inr (mergeEffectiveRules E (sort_key gr_key (global_rules w))
             (sort_key mr_dim (filter (\<lambda>r. mr_MachineID r = mid) (machine_rules w)))), ticked 3 w)"
proof -
  from assms(3) obtain m where "sql_first mc_ID (\<lambda>m. mc_ID m = mid) (machines w) = Some m"
    by (metis (mono_tags, lifting) imageE not_None_eq sql_first_None)
  with assms(1) show ?thesis
    by (simp add: ThresholdService_ListEffectiveMachineRules_def run_simps
        ThresholdRuleRepo_ListGlobalRules_def ThresholdRuleRepo_ListMachineRules_def mr_dim_def [abs_def])
qed

lemma gr_fill_simps [simp]:
  "gr_key (gr_fill now n r) = gr_key r" "gr_ThresholdMB (gr_fill now n r) = gr_ThresholdMB r"
  "gr_Enabled (gr_fill now n r) = gr_Enabled r" "gr_PeriodType (gr_fill now n r) = gr_PeriodType r"
  "gr_MetricType (gr_fill now n r) = gr_MetricType r"
  by (simp_all add: gr_fill_def gr_key_def)

lemma mr_fill_simps [simp]:
  "mr_key (mr_fill now n r) = mr_key r" "mr_PeriodType (mr_fill now n r) = mr_PeriodType r"
  "mr_MetricType (mr_fill now n r) = mr_MetricType r"
  "machineRuleResp E (mr_fill now n r) = machineRuleResp E r"
  by (simp_all add: mr_fill_def mr_key_def machineRuleResp_def)

lemma machineRuleResp_upd:
  "mr_key old = mr_key new \<Longrightarrow> machineRuleResp E (mr_upd old new) = machineRuleResp E new"
  by (simp add: machineRuleResp_def mr_upd_def mr_key_def)

definition gr_view :: "GlobalThresholdRule \<Rightarrow> float64 \<times> bool" where
  "gr_view g = (gr_ThresholdMB g, gr_Enabled g)"

lemma gr_view_simps [simp]:
  "gr_view (gr_fill now n r) = gr_view r" "gr_view (gr_upd old new) = gr_view new"
  "gr_view (global_row E p) = (payload_mb E p, tp_Enabled p)"
  by (simp_all add: gr_view_def gr_fill_def gr_upd_def global_row_def)

lemma global_dims_valid:
  "(\<forall>r\<in>set rows. valid_dimension (gr_PeriodType r) (gr_MetricType r)) \<longleftrightarrow>
     gr_key ` set rows \<subseteq> {d. valid_dimension (fst d) (snd d)}"
  by (auto simp: gr_key_def)

lemma machine_dims_valid:
  "(\<forall>r\<in>set rows. valid_dimension (mr_PeriodType r) (mr_MetricType r)) \<longleftrightarrow>
     mr_key ` set rows \<subseteq> {(mid, d). valid_dimension (fst d) (snd d)}"
  by (auto simp: mr_key_def)

lemma rules_ok_iff:
  "rules_ok w \<longleftrightarrow>
     grule_tbl.unique (global_rules w) \<and> mrule_tbl.unique (machine_rules w) \<and>
     gr_key ` set (global_rules w) \<subseteq> {d. valid_dimension (fst d) (snd d)} \<and>
     mr_key ` set (machine_rules w) \<subseteq> {(mid, d). valid_dimension (fst d) (snd d)}"
  by (simp only: rules_ok_def global_dims_valid machine_dims_valid)

lemma upsert_global_run:
  assumes "no_faults E" and "list_all payload_ok ps" and "distinct (map tp_key ps)" and "ps \<noteq> []"
  shows "ThresholdService_UpsertGlobalRules E ps w =
     (Inr (), (bump_seq TGlobalRules (length ps) (ticked 1 w))\<lparr>global_rules :=
        fold (sql_upsert gr_key gr_upd)
          (number_rows (gr_fill (clk E (tick w))) (seqs w TGlobalRules) (map (global_row E) ps)) (global_rules w)\<rparr>)"
proof -
  have "distinct (map gr_key (map (global_row E) ps))"
    using assms(3) by (simp add: comp_def)
  with assms show ?thesis
    by (simp add: ThresholdService_UpsertGlobalRules_def buildGlobalRules_eq
        ThresholdRuleRepo_UpsertGlobalRules_def run_simps Let_def)
qed

lemma rules_ok_upsert_global:
  assumes "rules_ok w" and "list_all payload_ok ps"
    and "global_rules w' = fold (sql_upsert gr_key gr_upd) (number_rows (gr_fill now) n (map (global_row E) ps)) (global_rules w)"
    and "machine_rules w' = machine_rules w"
  shows "rules_ok w'"
proof -
  have "gr_key ` set (map (global_row E) ps) \<subseteq> {d. valid_dimension (fst d) (snd d)}"
    using assms(2) by (auto simp: list_all_iff payload_ok_def tp_key_def)
  then show ?thesis
    using assms(1) unfolding rules_ok_iff assms(3,4) grule_tbl.keys_upserted [OF gr_fill_simps(1)]
    by (simp add: grule_tbl.unique_fold_upsert)
qed

text \<open>The global rules as a client sees them.\<close>

definition global_view :: "world \<Rightarrow> string \<times> string \<Rightarrow> (float64 \<times> bool) option" where
  "global_view w d = map_option gr_view (lookup_by gr_key d (global_rules w))"

text \<open>A valid request with one rule per dimension is stored: afterwards each requested
  dimension has the requested threshold, converted to MB, and the requested switch, every other
  dimension has what it had before, and machine rules and the validity of the tables are
  kept.\<close>

lemma upsert_global_rules_correct:
  assumes "no_faults E" and "rules_ok w" and "list_all payload_ok ps" and "distinct (map tp_key ps)"
  shows "\<exists>w'. ThresholdService_UpsertGlobalRules E ps w = (Inr (), w') \<and> rules_ok w' \<and>
     machine_rules w' = machine_rules w \<and>
     (\<forall>d. global_view w' d =
        (case lookup_by tp_key d ps of
           Some p \<Rightarrow> Some (payload_mb E p, tp_Enabled p)
         | None \<Rightarrow> global_view w d))"
proof (cases "ps = []")
  case True
  with assms show ?thesis
    by (simp add: ThresholdService_UpsertGlobalRules_def ThresholdRuleRepo_UpsertGlobalRules_def run_simps
        lookup_by_def)
next
  case False
  let ?w = "snd (ThresholdService_UpsertGlobalRules E ps w)"
  note run = upsert_global_run [OF assms(1,3,4) False, of w]
  have d: "distinct (map gr_key (map (global_row E) ps))"
    using assms(4) by (simp add: comp_def)
  have "lookup_by gr_key d (map (global_row E) ps) = map_option (global_row E) (lookup_by tp_key d ps)" for d
    by (rule lookup_by_map) simp
  moreover have "rules_ok ?w"
    using assms(2,3) by (rule rules_ok_upsert_global) (simp_all add: run)
  ultimately show ?thesis
    by (simp add: run global_view_def grule_tbl.lookup_upserted [OF d] split: option.split)
qed

definition dropped :: "nat \<Rightarrow> ThresholdRulePayload list \<Rightarrow> MachineThresholdRule \<Rightarrow> bool" where
  "dropped mid ps r \<longleftrightarrow> mr_MachineID r = mid \<and> list_ex (in_dimension r) (map payload_dim (filter inherits ps))"

lemma dropped_iff: "mr_key r = (i, d) \<Longrightarrow> dropped mid ps r \<longleftrightarrow> i = mid \<and> d \<in> tp_key ` set (filter inherits ps)"
  by (auto simp: dropped_def list_ex_iff in_dimension_def payload_dim_def mr_key_def tp_key_def)

lemma upsert_machine_run:
  assumes "no_faults E" and "mid \<in> mc_ID ` set (machines w)" and "list_all machine_payload_ok ps"
    and "distinct (map tp_key (filter (\<lambda>p. \<not> inherits p) ps))"
  obtains w' now n where "ThresholdService_UpsertMachineRules E mid ps w = (Inr (), w')"
    and "machine_rules w' = fold (sql_upsert mr_key mr_upd)
           (number_rows (mr_fill now) n (map (machine_row E mid) (filter (\<lambda>p. \<not> inherits p) ps)))
           (sql_delete (dropped mid ps) (machine_rules w))"
    and "global_rules w' = global_rules w" and "machines w' = machines w"
proof -
  let ?news = "map (machine_row E mid) (filter (\<lambda>p. \<not> inherits p) ps)"
  let ?dims = "map payload_dim (filter inherits ps)"
  obtain m where m: "sql_first mc_ID (\<lambda>m. mc_ID m = mid) (machines w) = Some m"
    using assms(2) by (rule find_machine)
  have d: "distinct (map mr_key ?news)"
    using assms(4) by (auto simp: distinct_map inj_on_def mr_key_dim)
  have keep: "sql_delete (dropped mid ps) rows = rows" if "?dims = []" for rows
    unfolding sql_delete_def dropped_def that by simp
  have eq: "(\<lambda>r. mr_MachineID r = mid \<and> list_ex (in_dimension r) ?dims) = dropped mid ps"
    by (simp add: dropped_def [abs_def])
  have run: "ThresholdService_UpsertMachineRules E mid ps w =
      wrap ''replace machine threshold rules: '' (ThresholdRuleRepo_ReplaceMachineRules E mid ?news ?dims) (ticked 1 w)"
    using assms(1,3) m by (simp add: ThresholdService_UpsertMachineRules_def buildMachineRules_eq run_simps)
  note defs = run ThresholdRuleRepo_ReplaceMachineRules_def ThresholdRuleRepo_DeleteMachineRules_def
    ThresholdRuleRepo_UpsertMachineRules_def Let_def eq run_simps
  let ?w' = "snd (ThresholdService_UpsertMachineRules E mid ps w)"
  show ?thesis
  proof (cases "?dims = []")
    case True
    show ?thesis
      by (rule that [of ?w' "clk E (Suc (Suc (tick w)))" "seqs w TMachineRules"]; cases "?news = []")
        (use assms(1) d True in \<open>simp_all add: defs keep del: map_is_Nil_conv\<close>)
  next
    case False
    show ?thesis
      by (rule that [of ?w' "clk E (Suc (Suc (Suc (tick w))))" "seqs w TMachineRules"]; cases "?news = []")
        (use assms(1) d False in \<open>simp_all add: defs del: map_is_Nil_conv\<close>)
  qed
qed

text \<open>The effect a request asks for in a dimension, given what held before it.\<close>

definition requested ::
  "env \<Rightarrow> world \<Rightarrow> nat \<Rightarrow> ThresholdRulePayload list \<Rightarrow> string \<times> string \<Rightarrow> ThresholdRuleResp option" where
  "requested E w mid ps d =
     (case lookup_by tp_key d (filter (\<lambda>p. \<not> inherits p) ps) of
        Some p \<Rightarrow> Some (thresholdRuleResp E (fst d) (snd d) (payload_mb E p) (payload_strategy p = ''override'')
                          thresholdSourceMachine (payload_strategy p))
      | None \<Rightarrow> if d \<in> tp_key ` set ps then map_option (inheritedResp E) (lookup_by gr_key d (global_rules w))
                else machine_effective E w mid d)"

lemma machineRuleResp_row:
  assumes "machine_payload_ok p" and "\<not> inherits p"
  shows "machineRuleResp E (machine_row E mid p) =
     thresholdRuleResp E (tp_PeriodType p) (tp_MetricType p) (payload_mb E p) (payload_strategy p = ''override'')
       thresholdSourceMachine (payload_strategy p)"
  using assms by (auto simp: machineRuleResp_def machine_row_def machine_payload_ok_def inherits_def)

lemma lookup_machine_rows:
  "lookup_by mr_key (i, d) (map (machine_row E mid) ps) =
     (if i = mid then map_option (machine_row E mid) (lookup_by tp_key d ps) else None)"
proof (induction ps)
  case (Cons p ps)
  have "mr_key (machine_row E mid p) = (mid, tp_key p)"
    by (simp add: mr_key_dim) (simp add: machine_row_def)
  with Cons show ?case by (auto simp: lookup_by_def)
qed (simp add: lookup_by_def)

lemma upserted_rule:
  assumes "distinct (map tp_key (filter (\<lambda>p. \<not> inherits p) ps))"
  shows "map_option (machineRuleResp E) (lookup_by mr_key (i, d)
      (fold (sql_upsert mr_key mr_upd)
         (number_rows (mr_fill now) n (map (machine_row E mid) (filter (\<lambda>p. \<not> inherits p) ps)))
         (sql_delete (dropped mid ps) rows))) =
     (if i \<noteq> mid then map_option (machineRuleResp E) (lookup_by mr_key (i, d) rows)
      else case lookup_by tp_key d (filter (\<lambda>p. \<not> inherits p) ps) of
             Some p \<Rightarrow> Some (machineRuleResp E (machine_row E mid p))
           | None \<Rightarrow> if d \<in> tp_key ` set (filter inherits ps) then None
                     else map_option (machineRuleResp E) (lookup_by mr_key (i, d) rows))"
proof -
  have d: "distinct (map mr_key (map (machine_row E mid) (filter (\<lambda>p. \<not> inherits p) ps)))"
    using assms by (auto simp: distinct_map inj_on_def mr_key_dim)
  have "lookup_by mr_key (i, d) (sql_delete (dropped mid ps) rows) =
      (if i = mid \<and> d \<in> tp_key ` set (filter inherits ps) then None else lookup_by mr_key (i, d) rows)"
    by (rule mrule_tbl.lookup_delete) (rule dropped_iff)
  moreover have "map_option (machineRuleResp E) (lookup_by mr_key (i, d)
      (fold (sql_upsert mr_key mr_upd)
         (number_rows (mr_fill now) n (map (machine_row E mid) (filter (\<lambda>p. \<not> inherits p) ps))) rows')) =
     (case lookup_by mr_key (i, d) (map (machine_row E mid) (filter (\<lambda>p. \<not> inherits p) ps)) of
        Some r \<Rightarrow> Some (machineRuleResp E r)
      | None \<Rightarrow> map_option (machineRuleResp E) (lookup_by mr_key (i, d) rows'))" for rows'
    using d by (rule mrule_tbl.lookup_upserted) (simp_all add: machineRuleResp_upd)
  ultimately show ?thesis
    by (cases "i = mid") (simp_all add: lookup_machine_rows del: set_filter split: option.split)
qed

lemma tp_key_eq: "tp_key p = d \<Longrightarrow> tp_PeriodType p = fst d \<and> tp_MetricType p = snd d"
  by (auto simp: tp_key_def)

text \<open>C8. A valid request for a machine, with one own rule per dimension at most, gives the
  machine exactly what each strategy asks for: an overriding or disabling rule in that dimension,
  the global rule where the request inherits, and what held before in the other dimensions.
  No other machine is affected.\<close>

theorem upsert_machine_rules_correct:
  assumes "no_faults E" and "rules_ok w" and "mid \<in> mc_ID ` set (machines w)"
    and "list_all machine_payload_ok ps" and "distinct (map tp_key (filter (\<lambda>p. \<not> inherits p) ps))"
  shows "\<exists>w'. ThresholdService_UpsertMachineRules E mid ps w = (Inr (), w') \<and>
     (\<forall>d. machine_effective E w' mid d = requested E w mid ps d) \<and>
     (\<forall>i d. i \<noteq> mid \<longrightarrow> machine_effective E w' i d = machine_effective E w i d)"
proof -
  obtain w' now n where run: "ThresholdService_UpsertMachineRules E mid ps w = (Inr (), w')"
    and rules: "machine_rules w' = fold (sql_upsert mr_key mr_upd)
           (number_rows (mr_fill now) n (map (machine_row E mid) (filter (\<lambda>p. \<not> inherits p) ps)))
           (sql_delete (dropped mid ps) (machine_rules w))"
    and gl: "global_rules w' = global_rules w"
    using assms(1,3-5) by (rule upsert_machine_run)
  have eff: "machine_effective E v i d =
      (case map_option (machineRuleResp E) (lookup_by mr_key (i, d) (machine_rules v)) of
         Some r \<Rightarrow> Some r | None \<Rightarrow> map_option (inheritedResp E) (lookup_by gr_key d (global_rules v)))" for v i d
    by (simp add: machine_effective_def split: option.split)
  note rule = upserted_rule [OF assms(5), of E _ _ now n mid "machine_rules w"]
  have "machine_effective E w' mid d = requested E w mid ps d" for d
  proof (cases "lookup_by tp_key d (filter (\<lambda>p. \<not> inherits p) ps)")
    case None
    then have "d \<in> tp_key ` set ps \<longleftrightarrow> d \<in> tp_key ` set (filter inherits ps)"
      by (auto simp: payload_tbl.lookup_None)
    with None show ?thesis
      by (cases "d \<in> tp_key ` set (filter inherits ps)")
        (simp_all add: eff rules rule gl requested_def del: set_filter cong: option.case_cong)
  next
    case (Some p)
    from payload_tbl.lookup_in [OF Some] assms(4)
    have "machine_payload_ok p" "\<not> inherits p" "tp_key p = d" by (auto simp: list_all_iff)
    with Some show ?thesis
      by (simp add: eff rules rule gl requested_def machineRuleResp_row tp_key_eq)
  qed
  moreover have "machine_effective E w' i d = machine_effective E w i d" if "i \<noteq> mid" for i d
    using that by (simp add: eff rules rule gl cong: option.case_cong)
  ultimately show ?thesis using run by simp
qed

lemma upsert_global_outcome:
  "snd (ThresholdService_UpsertGlobalRules E ps w) = ticked 1 w \<or>
   snd (ThresholdService_UpsertGlobalRules E ps w) = w \<or>
   snd (ThresholdService_UpsertGlobalRules E ps w) = bump_seq TGlobalRules (length ps) (ticked 1 w) \<or>
   (fst (ThresholdService_UpsertGlobalRules E ps w) = Inr () \<and> list_all payload_ok ps \<and>
    snd (ThresholdService_UpsertGlobalRules E ps w) =
      (bump_seq TGlobalRules (length ps) (ticked 1 w))\<lparr>global_rules := fold (sql_upsert gr_key gr_upd)
        (number_rows (gr_fill (clk E (tick w))) (seqs w TGlobalRules) (map (global_row E) ps)) (global_rules w)\<rparr>)"
  by (simp add: ThresholdService_UpsertGlobalRules_def buildGlobalRules_eq ThresholdRuleRepo_UpsertGlobalRules_def
      run_simps statement_def Let_def split: option.split)

text \<open>A request for global rules that is not stored changes no rule, whatever the database
  does; an invalid one is answered with \<^verbatim>\<open>ErrInvalidThresholdRule\<close> before the database is touched,
  and a valid one that names a dimension twice is refused by the database with an error
  that is not \<^verbatim>\<open>ErrInvalidThresholdRule\<close>.\<close>

lemma rejected_global_request:
  "(\<forall>e w'. ThresholdService_UpsertGlobalRules E ps w = (Inl e, w') \<longrightarrow>
      global_rules w' = global_rules w \<and> machine_rules w' = machine_rules w) \<and>
   (\<not> list_all payload_ok ps \<longrightarrow>
      ThresholdService_UpsertGlobalRules E ps w = (Inl (Sentinel ErrInvalidThresholdRule), w)) \<and>
   (no_faults E \<and> list_all payload_ok ps \<and> \<not> distinct (map tp_key ps) \<longrightarrow>
      (\<exists>e w'. ThresholdService_UpsertGlobalRules E ps w = (Inl e, w') \<and> \<not> errors_Is e ErrInvalidThresholdRule))"
proof (intro conjI impI allI)
  fix e w' assume "ThresholdService_UpsertGlobalRules E ps w = (Inl e, w')"
  with upsert_global_outcome [of E ps w]
  have "w' = ticked 1 w \<or> w' = w \<or> w' = bump_seq TGlobalRules (length ps) (ticked 1 w)" by auto
  then show "global_rules w' = global_rules w" "machine_rules w' = machine_rules w" by auto
next
  assume "\<not> list_all payload_ok ps"
  then show "ThresholdService_UpsertGlobalRules E ps w = (Inl (Sentinel ErrInvalidThresholdRule), w)"
    by (simp add: ThresholdService_UpsertGlobalRules_def buildGlobalRules_eq run_simps)
next
  assume a: "no_faults E \<and> list_all payload_ok ps \<and> \<not> distinct (map tp_key ps)"
  then have "\<not> distinct (map gr_key (map (global_row E) ps))" and "ps \<noteq> []"
    by (auto simp: comp_def)
  with a show "\<exists>e w'. ThresholdService_UpsertGlobalRules E ps w = (Inl e, w') \<and> \<not> errors_Is e ErrInvalidThresholdRule"
    by (simp add: ThresholdService_UpsertGlobalRules_def buildGlobalRules_eq
        ThresholdRuleRepo_UpsertGlobalRules_def run_simps Let_def pg_upsert_twice_def)
qed

lemma rollback_rules [simp]:
  "global_rules (rollback w w') = global_rules w" "machine_rules (rollback w w') = machine_rules w"
  by (simp_all add: rollback_def)

lemma rules_ok_ticked: "rules_ok (ticked n w) = rules_ok w" and rules_ok_seq: "rules_ok (bump_seq tb n w) = rules_ok w"
  by (simp_all add: rules_ok_iff)

lemma keeps_repo_delete:
  "keeps rules_ok (ThresholdRuleRepo_DeleteMachineRules E mid dims)"
proof -
  have "tick_free rules_ok" by (simp add: tick_free_def rules_ok_iff)
  moreover have "keeps rules_ok (\<lambda>w. (Inr (), w\<lparr>machine_rules := sql_delete p (machine_rules w)\<rparr>))" for p
    by (auto simp: keeps_def rules_ok_def mrule_tbl.unique_delete) (auto simp: sql_delete_def)
  ultimately show ?thesis
    unfolding ThresholdRuleRepo_DeleteMachineRules_def
    by (intro keeps_intros keeps_statement) simp_all
qed

lemma keeps_repo_upsert_machine:
  assumes "\<forall>r\<in>set rules. valid_dimension (mr_PeriodType r) (mr_MetricType r)"
  shows "keeps rules_ok (ThresholdRuleRepo_UpsertMachineRules E rules)"
proof -
  have t: "tick_free rules_ok" by (simp add: tick_free_def rules_ok_iff)
  have u: "rules_ok ((bump_seq TMachineRules n w)\<lparr>machine_rules :=
      fold (sql_upsert mr_key mr_upd) (number_rows (mr_fill now) k rules) (machine_rules w)\<rparr>)"
    if "rules_ok w" for n now k w
    using that assms unfolding machine_dims_valid
    by (simp add: rules_ok_iff mrule_tbl.keys_upserted mrule_tbl.unique_fold_upsert)
  show ?thesis
    unfolding ThresholdRuleRepo_UpsertMachineRules_def
    by (intro keeps_intros keeps_statement t) (auto simp: keeps_def Let_def u rules_ok_seq)
qed

lemma keeps_repo_replace:
  assumes "\<forall>r\<in>set rules. valid_dimension (mr_PeriodType r) (mr_MetricType r)"
  shows "keeps rules_ok (ThresholdRuleRepo_ReplaceMachineRules E mid rules dims)"
  unfolding ThresholdRuleRepo_ReplaceMachineRules_def
  by (intro keeps_intros keeps_transaction keeps_repo_delete keeps_repo_upsert_machine assms)
    (simp_all add: tick_free_def rules_ok_iff)

text \<open>Whatever is requested and whatever the database does, both write operations keep the
  rule tables well formed: one rule per dimension, and only known dimensions.\<close>

lemma rules_stay_ok:
  "keeps rules_ok (ThresholdService_UpsertGlobalRules E ps) \<and>
   keeps rules_ok (ThresholdService_UpsertMachineRules E mid ps)"
proof
  show "keeps rules_ok (ThresholdService_UpsertGlobalRules E ps)"
    unfolding keeps_def
  proof (intro allI impI)
    fix w assume ok: "rules_ok w"
    from upsert_global_outcome [of E ps w] ok rules_ok_upsert_global [OF ok, of ps]
    show "rules_ok (snd (ThresholdService_UpsertGlobalRules E ps w))"
      by (auto simp: rules_ok_ticked rules_ok_seq)
  qed
  have "\<forall>r\<in>set (map (machine_row E mid) (filter (\<lambda>p. \<not> inherits p) ps)). valid_dimension (mr_PeriodType r) (mr_MetricType r)"
    if "list_all machine_payload_ok ps"
    using that by (auto simp: list_all_iff machine_row_def machine_payload_ok_def)
  then show "keeps rules_ok (ThresholdService_UpsertMachineRules E mid ps)"
    unfolding ThresholdService_UpsertMachineRules_def buildMachineRules_eq
    by (cases "list_all machine_payload_ok ps")
      (auto intro!: keeps_intros keeps_get_machine keeps_repo_replace simp: tick_free_def rules_ok_iff
        simp del: set_map)
qed

text \<open>The display conversion loses nothing: reading back a displayed threshold (in GB
  when it is a multiple of 1024 MB, otherwise in MB) gives the stored one, for a positive
  threshold on which dividing by 1024 is exact, as it is for float64 values that do not
  underflow.\<close>

lemma display_round_trip:
  assumes "0 < mb" and "fl E (mb / 1024) = mb / 1024" and "fl E mb = mb"
  shows "(case displayThresholdValue E mb of (v, u) \<Rightarrow> normalizeThresholdMB E v u) = Inr mb"
  using assms by (simp add: displayThresholdValue_def normalizeThresholdMB_def)

lemma merge_dims_valid:
  assumes "dims_valid gs ms" and "distinct (map mr_dim ms)" and "r \<in> set (mergeEffectiveRules E gs ms)"
  shows "valid_dimension (tr_PeriodType r) (tr_MetricType r)"
proof -
  have "tr_key r \<in> set (map tr_key (mergeEffectiveRules E gs ms))"
    using assms(3) by simp
  then have "tr_key r \<in> gr_key ` set gs \<union> mr_dim ` set ms"
    unfolding merge_keys [OF assms(1,2)] by auto
  with assms(1) show ?thesis
    by (auto simp: dims_valid_def gr_key_def mr_dim_def tr_key_def)
qed

lemma effective_rules_list:
  assumes "no_faults E" and "rules_ok w" and "mid \<in> mc_ID ` set (machines w)"
  shows "\<exists>rs. ThresholdService_ListEffectiveMachineRules E mid w = (Inr rs, ticked 3 w) \<and>
     distinct (map tr_key rs) \<and> (\<forall>r\<in>set rs. valid_dimension (tr_PeriodType r) (tr_MetricType r)) \<and>
     (\<forall>d. lookup_by tr_key d rs = machine_effective E w mid d)"
proof -
  let ?gs = "sort_key gr_key (global_rules w)"
  let ?ms = "sort_key mr_dim (filter (\<lambda>r. mr_MachineID r = mid) (machine_rules w))"
  from assms(2) have u: "distinct (map gr_key ?gs)" "distinct (map mr_dim ?ms)" "dims_valid ?gs ?ms"
    using unique_dims_of_machine [of "machine_rules w" mid] dim_tbl.unique_sort grule_tbl.unique_sort
    by (auto simp: rules_ok_def dims_valid_def grule_tbl.unique_def [symmetric] dim_tbl.unique_def [symmetric])
  have g: "lookup_by gr_key d ?gs = lookup_by gr_key d (global_rules w)" for d
    using assms(2) by (simp add: rules_ok_def grule_tbl.lookup_sort)
  have m: "lookup_by mr_dim d ?ms = lookup_by mr_key (mid, d) (machine_rules w)" for d
    using assms(2) unique_dims_of_machine
    by (simp add: rules_ok_def dim_tbl.lookup_sort lookup_dim_of_machine)
  show ?thesis
    unfolding list_effective_run [OF assms]
    using u by (simp add: merge_distinct merge_dims_valid merge_lookup effective_rule_def machine_effective_def g m
        cong: option.case_cong)
qed

text \<open>C7. Listing the effective rules of an existing machine lists every dimension at most once,
  and in each dimension the rule of the machine when it has one, otherwise the global rule,
  marked as inherited; it changes nothing.\<close>

theorem effective_rules_correct:
  assumes "no_faults E" and "rules_ok w" and "mid \<in> mc_ID ` set (machines w)"
  shows "\<exists>rs. ThresholdService_ListEffectiveMachineRules E mid w = (Inr rs, ticked 3 w) \<and>
     distinct (map tr_key rs) \<and> (\<forall>d. lookup_by tr_key d rs = machine_effective E w mid d)"
  using effective_rules_list [OF assms] by blast

definition example_rules :: world where
  "example_rules = empty_world\<lparr>machines := [example_machine],
     global_rules :=
       [\<lparr>gr_ID = 1, gr_CreatedAt = 0, gr_UpdatedAt = 0, gr_PeriodType = ''hourly'', gr_MetricType = ''total'',
         gr_ThresholdMB = 500, gr_Enabled = True\<rparr>,
        \<lparr>gr_ID = 2, gr_CreatedAt = 0, gr_UpdatedAt = 0, gr_PeriodType = ''daily'', gr_MetricType = ''total'',
         gr_ThresholdMB = 2048, gr_Enabled = True\<rparr>],
     machine_rules :=
       [\<lparr>mr_ID = 1, mr_CreatedAt = 0, mr_UpdatedAt = 0, mr_MachineID = 1, mr_PeriodType = ''hourly'',
         mr_MetricType = ''total'', mr_ThresholdMB = 900, mr_Enabled = True\<rparr>]\<rparr>"

lemma example_rules_ok: "rules_ok example_rules" and example_rules_machine: "1 \<in> mc_ID ` set (machines example_rules)"
  by (simp_all add: rules_ok_def example_rules_def empty_world_def example_machine_def grule_tbl.unique_def
      mrule_tbl.unique_def gr_key_def valid_dimension_iff)

theorem effective_rules_correct_witness:
  "\<exists>rs. ThresholdService_ListEffectiveMachineRules example_env 1 example_rules = (Inr rs, ticked 3 example_rules) \<and>
     distinct (map tr_key rs) \<and>
     (\<forall>d. lookup_by tr_key d rs = machine_effective example_env example_rules 1 d)"
  by (rule effective_rules_correct) (simp_all add: example_rules_ok example_rules_machine del: One_nat_def)

definition example_payload :: "string \<Rightarrow> string \<Rightarrow> ThresholdRulePayload" where
  "example_payload q st = \<lparr>tp_PeriodType = ''hourly'', tp_MetricType = q, tp_ThresholdValue = 2,
     tp_ThresholdUnit = ''GB'', tp_Enabled = True, tp_Strategy = st\<rparr>"

lemma example_payload_ok:
  "q \<in> {''upload'', ''download'', ''total''} \<Longrightarrow> payload_ok (example_payload q st)"
  "q \<in> {''upload'', ''download'', ''total''} \<Longrightarrow> st \<in> {''inherit'', ''override'', ''disabled''} \<Longrightarrow>
     machine_payload_ok (example_payload q st)"
  by (auto simp: payload_ok_def machine_payload_ok_def value_ok_def example_payload_def valid_dimension_iff
      payload_strategy_def)

theorem upsert_machine_rules_correct_witness:
  "\<exists>w'. ThresholdService_UpsertMachineRules example_env 1
        [example_payload ''total'' ''inherit'', example_payload ''upload'' ''disabled''] example_rules = (Inr (), w') \<and>
     (\<forall>d. machine_effective example_env w' 1 d =
        requested example_env example_rules 1
          [example_payload ''total'' ''inherit'', example_payload ''upload'' ''disabled''] d) \<and>
     (\<forall>i d. i \<noteq> 1 \<longrightarrow> machine_effective example_env w' i d = machine_effective example_env example_rules i d)"
  by (rule upsert_machine_rules_correct)
    (simp_all add: example_rules_ok example_rules_machine example_payload_ok del: One_nat_def,
     simp add: tp_key_def example_payload_def)

end
