(* ===== verification/Notify.thy ===== *)
theory Notify
  imports Example
begin

text \<open>
  The notification half of \<^verbatim>\<open>internal/service/alert_service.go\<close>: channels (webhook and
  Telegram), proxies, templates and the requests that are sent. The first part holds the pure
  functions, the second the requests, the third the operations on channels and proxies.
  A call that returns a text together with an error drops the text here: every caller ignores
  it when the error is set.
\<close>

section \<open>Names, masks and templates\<close>

abbreviation (input) channelTypeWebhook :: string where "channelTypeWebhook \<equiv> ''webhook''"
abbreviation (input) channelTypeTelegram :: string where "channelTypeTelegram \<equiv> ''telegram''"

definition defaultTelegramMessage :: string where
  "defaultTelegramMessage =
     ''machine={{machine_name}} host={{machine_host}} period={{period_type}} metric={{metric_type}} ''
     @ ''actual={{actual_human_readable}} threshold={{threshold_human_readable}} bucket={{bucket_time_rfc3339}}''"

definition trimMessage :: "string \<Rightarrow> string" where
  "trimMessage message = (if length message \<le> 512 then message else take 512 message)"

definition maskToken :: "string \<Rightarrow> string" where
  "maskToken token =
     (if length token \<le> 8 then token else take 4 token @ ''...'' @ drop (length token - 4) token)"

definition maskProxyURL :: "env \<Rightarrow> string \<Rightarrow> string" where
  "maskProxyURL E rawURL =
     (case url_Parse E rawURL of
        None \<Rightarrow> rawURL
      | Some parsedURL \<Rightarrow>
          (case url_User parsedURL of
             None \<Rightarrow> rawURL
           | Some (username, password) \<Rightarrow>
               (case password of
                  Some _ \<Rightarrow> url_String E (parsedURL\<lparr>url_User := Some (username, Some ''xxxxx'')\<rparr>)
                | None \<Rightarrow> url_String E parsedURL)))"

definition formatTrafficMB :: "env \<Rightarrow> float64 \<Rightarrow> string" where
  "formatTrafficMB E valueMB =
     (if 1024 * 1024 \<le> valueMB then format_fixed3 (fl E (valueMB / (1024 * 1024))) @ '' TB''
      else if 1024 \<le> valueMB then format_fixed3 (fl E (valueMB / 1024)) @ '' GB''
      else format_fixed3 valueMB @ '' MB'')"

definition normalizeNotificationProxyType :: "env \<Rightarrow> string \<Rightarrow> string" where
  "normalizeNotificationProxyType E proxyType =
     (let t = ToLower E (TrimSpace proxyType)
      in if t = ''http'' \<or> t = ''https'' then ''http''
         else if t = ''socks'' \<or> t = ''socks5'' \<or> t = ''socks5h'' then ''socks''
         else [])"

definition normalizeNotificationProxyID :: "nat option \<Rightarrow> nat option" where
  "normalizeNotificationProxyID proxyID =
     (case proxyID of None \<Rightarrow> None | Some i \<Rightarrow> if i = 0 then None else Some i)"

definition parseNotificationProxyURL :: "env \<Rightarrow> string \<Rightarrow> string \<Rightarrow> go_error + URL" where
  "parseNotificationProxyURL E proxyType rawURL =
     (let invalid = Inl (Sentinel ErrInvalidNotificationProxy);
          normalizedProxyType = normalizeNotificationProxyType E proxyType;
          trimmedURL = TrimSpace rawURL
      in if normalizedProxyType = [] \<or> trimmedURL = [] then invalid
         else
           let normalizedURL =
                 (if Contains trimmedURL ''://'' then trimmedURL
                  else if normalizedProxyType = ''http'' then ''http://'' @ trimmedURL
                  else ''socks5://'' @ trimmedURL)
           in case url_Parse E normalizedURL of
                None \<Rightarrow> invalid
              | Some u \<Rightarrow>
                  if url_Hostname u = [] then invalid
                  else
                    let scheme = ToLower E (url_Scheme u)
                    in if normalizedProxyType = ''http'' then
                         (if scheme \<noteq> ''http'' \<and> scheme \<noteq> ''https'' then invalid
                          else Inr (u\<lparr>url_Scheme := scheme\<rparr>))
                       else
                         let scheme' = (if scheme = ''socks'' then ''socks5'' else scheme)
                         in if scheme' \<noteq> ''socks5'' \<and> scheme' \<noteq> ''socks5h'' then invalid
                            else Inr (u\<lparr>url_Scheme := scheme'\<rparr>))"

definition webhook_placeholders :: "string list" where
  "webhook_placeholders =
     [''machine_id'', ''machine_name'', ''machine_host'', ''period_type'', ''metric_type'', ''bucket_time'',
      ''bucket_time_rfc3339'', ''threshold_mb'', ''threshold_human_readable'', ''actual_mb'',
      ''actual_human_readable'', ''alert_key'']"

definition normalizeWebhookTemplate :: "string \<Rightarrow> string" where
  "normalizeWebhookTemplate raw =
     Replacer (map (\<lambda>n. (''{{'' @ n @ ''}}'', ''{{.'' @ n @ ''}}'')) webhook_placeholders) raw"

definition renderWebhookTemplate :: "env \<Rightarrow> string \<Rightarrow> (string \<times> tval) list \<Rightarrow> go_error + string" where
  "renderWebhookTemplate E raw data =
     (case template_run E (normalizeWebhookTemplate raw) data of Inl e \<Rightarrow> Inl (Foreign e) | Inr s \<Rightarrow> Inr s)"

fun renderWebhookHeaders ::
  "env \<Rightarrow> (string \<times> string) list \<Rightarrow> (string \<times> tval) list \<Rightarrow> go_error + (string \<times> string) list" where
  "renderWebhookHeaders E [] data = Inr []"
| "renderWebhookHeaders E ((k, v) # headers) data =
     (case renderWebhookTemplate E v data of
        Inl e \<Rightarrow> Inl (Wrapf (''render header \"'' @ k @ ''\": '') e [])
      | Inr v' \<Rightarrow>
          (case renderWebhookHeaders E headers data of
             Inl e \<Rightarrow> Inl e
           | Inr rest \<Rightarrow> Inr ((k, v') # rest)))"

text \<open>\<^verbatim>\<open>http.CanonicalHeaderKey\<close> and \<^verbatim>\<open>req.Header.Set\<close>.\<close>

definition header_token_char :: "char \<Rightarrow> bool" where
  "header_token_char c \<longleftrightarrow>
     is_digit c \<or> ascii_lower c \<noteq> c \<or> ascii_upper c \<noteq> c \<or> c \<in> set ''!#$%&*+-.^_|~'' \<or> c = CHR 0x27 \<or> c = CHR 0x60"

fun canonical_from :: "bool \<Rightarrow> string \<Rightarrow> string" where
  "canonical_from up [] = []"
| "canonical_from up (c # cs) =
     (if up then ascii_upper c else ascii_lower c) # canonical_from (c = CHR ''-'') cs"

definition CanonicalHeaderKey :: "string \<Rightarrow> string" where
  "CanonicalHeaderKey k = (if list_all header_token_char k then canonical_from True k else k)"

definition header_Set :: "(string \<times> string) list \<Rightarrow> string \<times> string \<Rightarrow> (string \<times> string) list" where
  "header_Set headers kv =
     filter (\<lambda>h. fst h \<noteq> CanonicalHeaderKey (fst kv)) headers @ [(CanonicalHeaderKey (fst kv), snd kv)]"

section \<open>Requests\<close>

definition buildWebhookTemplateData :: "env \<Rightarrow> Alert \<Rightarrow> (string \<times> tval) list io" where
  "buildWebhookTemplateData E alert =
     bnd (if al_MachineID alert \<noteq> 0
          then attempt (MachineRepo_GetByID E (al_MachineID alert))
                 (\<lambda>_. ret (''test-machine'', ''127.0.0.1''))
                 (\<lambda>machine. ret (if TrimSpace (mc_Name machine) \<noteq> [] then mc_Name machine else ''test-machine'',
                                if TrimSpace (mc_Host machine) \<noteq> [] then mc_Host machine else ''127.0.0.1''))
          else ret (''test-machine'', ''127.0.0.1''))
       (\<lambda>(machineName, machineHost).
          ret [(''machine_id'', TUint (al_MachineID alert)),
               (''machine_name'', TStr machineName),
               (''machine_host'', TStr machineHost),
               (''period_type'', TStr (al_PeriodType alert)),
               (''metric_type'', TStr (al_MetricType alert)),
               (''bucket_time'', TTime (al_BucketTime alert)),
               (''bucket_time_rfc3339'', TStr (format_RFC3339 (al_BucketTime alert))),
               (''threshold_mb'', TFloat (al_ThresholdMB alert)),
               (''threshold_human_readable'', TStr (formatTrafficMB E (al_ThresholdMB alert))),
               (''actual_mb'', TFloat (al_ActualMB alert)),
               (''actual_human_readable'', TStr (formatTrafficMB E (al_ActualMB alert))),
               (''alert_key'', TStr (al_AlertKey alert))])"

definition template_value :: "(string \<times> tval) list \<Rightarrow> string \<Rightarrow> tval" where
  "template_value data k = (case map_of data k of Some v \<Rightarrow> v | None \<Rightarrow> TStr [])"

definition lift_foreign :: "string \<Rightarrow> string + 'a \<Rightarrow> 'a io" where
  "lift_foreign msg r = (case r of Inl e \<Rightarrow> fail (Wrapf msg (Foreign e) []) | Inr x \<Rightarrow> ret x)"

definition lift_wrap :: "string \<Rightarrow> go_error + 'a \<Rightarrow> 'a io" where
  "lift_wrap msg r = (case r of Inl e \<Rightarrow> fail (Wrapf msg e []) | Inr x \<Rightarrow> ret x)"

text \<open>\<^verbatim>\<open>http.NewRequestWithContext\<close>.\<close>

definition NewRequest :: "env \<Rightarrow> string \<Rightarrow> string \<Rightarrow> string \<Rightarrow> string \<Rightarrow> http_request io" where
  "NewRequest E msg meth url body =
     (case new_request E meth url of
        Some e \<Rightarrow> fail (Wrapf msg (Foreign e) [])
      | None \<Rightarrow> ret \<lparr>hr_Method = meth, hr_URL = url, hr_Header = [], hr_Body = body\<rparr>)"

definition renderWebhookRequestFromConfig ::
  "env \<Rightarrow> webhookChannelConfig \<Rightarrow> Alert \<Rightarrow> (http_request \<times> string) io" where
  "renderWebhookRequestFromConfig E cfg alert =
     (if TrimSpace (wc_URL cfg) = [] then fail (Sentinel ErrInvalidNotificationChannel)
      else let m = ToUpper E (TrimSpace (wc_Method cfg));
               meth = (if m = [] then ''POST'' else m)
      in if meth \<noteq> ''POST'' \<and> meth \<noteq> ''GET'' then fail (Sentinel ErrInvalidNotificationChannel)
      else bnd (buildWebhookTemplateData E alert) (\<lambda>templateData.
        bnd (lift_wrap ''render webhook url template: '' (renderWebhookTemplate E (wc_URL cfg) templateData)) (\<lambda>renderedURL.
        bnd (lift_wrap ''render webhook headers template: '' (renderWebhookHeaders E (wc_Headers cfg) templateData)) (\<lambda>renderedHeaders.
        bnd (lift_foreign ''marshal webhook payload: ''
              (marshal_map E
                [(''machine_id'', TUint (al_MachineID alert)),
                 (''machine_name'', template_value templateData ''machine_name''),
                 (''machine_host'', template_value templateData ''machine_host''),
                 (''period_type'', TStr (al_PeriodType alert)),
                 (''metric_type'', TStr (al_MetricType alert)),
                 (''bucket_time'', TTime (al_BucketTime alert)),
                 (''threshold_mb'', TFloat (al_ThresholdMB alert)),
                 (''threshold_human_readable'', template_value templateData ''threshold_human_readable''),
                 (''actual_mb'', TFloat (al_ActualMB alert)),
                 (''actual_human_readable'', template_value templateData ''actual_human_readable''),
                 (''alert_key'', TStr (al_AlertKey alert))])) (\<lambda>defaultPayload.
        bnd (if meth = ''GET''
             then bnd (NewRequest E ''build webhook request: '' ''GET'' renderedURL []) (\<lambda>req. ret (req, []))
             else bnd (if TrimSpace (wc_Body cfg) \<noteq> []
                       then lift_wrap ''render webhook body template: '' (renderWebhookTemplate E (wc_Body cfg) templateData)
                       else ret defaultPayload) (\<lambda>renderedBody.
                  bnd (NewRequest E ''build webhook request: '' ''POST'' renderedURL renderedBody) (\<lambda>req.
                  ret (req\<lparr>hr_Header := header_Set (hr_Header req) (''Content-Type'', ''application/json'')\<rparr>, renderedBody))))
          (\<lambda>(req, renderedBody).
        bnd (lift_foreign ''marshal webhook preview: ''
              (marshal_map E [(''method'', TStr meth), (''url'', TStr renderedURL),
                              (''headers'', TMap renderedHeaders), (''body'', TStr renderedBody)])) (\<lambda>previewPayload.
        ret (req\<lparr>hr_Header := foldl header_Set (hr_Header req) renderedHeaders\<rparr>, previewPayload))))))))"

definition decodeWebhookChannelConfig :: "env \<Rightarrow> string \<Rightarrow> go_error + webhookChannelConfig" where
  "decodeWebhookChannelConfig E configJSON =
     (case webhook_decode E configJSON of
        (_, Some e) \<Rightarrow> Inl (Wrapf ''decode webhook config: '' (Foreign e) [])
      | (cfg, None) \<Rightarrow> Inr (cfg\<lparr>wc_ProxyID := normalizeNotificationProxyID (wc_ProxyID cfg)\<rparr>))"

definition renderWebhookRequest :: "env \<Rightarrow> string \<Rightarrow> Alert \<Rightarrow> (http_request \<times> string) io" where
  "renderWebhookRequest E configJSON alert =
     bnd (lift_sum (decodeWebhookChannelConfig E configJSON)) (\<lambda>cfg. renderWebhookRequestFromConfig E cfg alert)"

definition renderTelegramBatchRequest ::
  "env \<Rightarrow> telegramChannelConfig \<Rightarrow> Alert list \<Rightarrow> (http_request \<times> string) io" where
  "renderTelegramBatchRequest E cfg als =
     (let botToken = TrimSpace (tc_BotToken cfg); chatID = TrimSpace (tc_ChatID cfg)
      in if botToken = [] \<or> chatID = [] \<or> als = [] then fail (Sentinel ErrInvalidNotificationChannel)
      else let m = TrimSpace (tc_Message cfg);
               messageTemplate = (if m = [] then defaultTelegramMessage else m)
      in bnd (map_each als (\<lambda>alert.
           bnd (buildWebhookTemplateData E alert) (\<lambda>data.
             lift_wrap ''render telegram message template: '' (renderWebhookTemplate E messageTemplate data))))
         (\<lambda>renderedMessages.
         let renderedMessage = Join renderedMessages [CHR 0x0A, CHR 0x0A]
         in bnd (lift_foreign ''marshal telegram payload: ''
                   (marshal_map E [(''chat_id'', TStr chatID), (''text'', TStr renderedMessage)])) (\<lambda>bodyPayload.
            bnd (NewRequest E ''build telegram request: '' ''POST''
                   (''https://api.telegram.org/bot'' @ botToken @ ''/sendMessage'') bodyPayload) (\<lambda>req.
            ret (req\<lparr>hr_Header := header_Set (hr_Header req) (''Content-Type'', ''application/json'')\<rparr>,
                 renderedMessage)))))"

definition renderTelegramRequest :: "env \<Rightarrow> telegramChannelConfig \<Rightarrow> Alert \<Rightarrow> (http_request \<times> string) io" where
  "renderTelegramRequest E cfg alert = renderTelegramBatchRequest E cfg [alert]"

definition buildNotificationProxyHTTPClient :: "env \<Rightarrow> NotificationProxy \<Rightarrow> go_error + http_client" where
  "buildNotificationProxyHTTPClient E notificationProxy =
     (case parseNotificationProxyURL E (px_ProxyType notificationProxy) (px_URL notificationProxy) of
        Inl e \<Rightarrow> Inl e
      | Inr proxyURL \<Rightarrow>
          (let t = normalizeNotificationProxyType E (px_ProxyType notificationProxy)
           in if t = ''http'' then Inr (HTTPProxyClient proxyURL)
              else if t = ''socks'' then
                (if xproxy_ok E proxyURL then Inr (SocksProxyClient proxyURL)
                 else Inl (Sentinel ErrInvalidNotificationProxy))
              else Inl (Sentinel ErrInvalidNotificationProxy)))"

text \<open>\<^verbatim>\<open>httpClient.Do(req)\<close>: the request leaves the program (it is added to \<open>outbox\<close>).\<close>

definition client_Do :: "env \<Rightarrow> http_client \<Rightarrow> http_request \<Rightarrow> http_response io" where
  "client_Do E client req =
     bnd (modify (\<lambda>w. w\<lparr>outbox := outbox w @ [(client, req)]\<rparr>)) (\<lambda>_.
     bnd (external (\<lambda>n. http_Do E n client req)) (\<lambda>r.
     case r of Inl e \<Rightarrow> fail (Foreign e) | Inr resp \<Rightarrow> ret resp))"

definition doNotificationRequest :: "env \<Rightarrow> http_request \<Rightarrow> nat option \<Rightarrow> http_response io" where
  "doNotificationRequest E req proxyID =
     (case normalizeNotificationProxyID proxyID of
        None \<Rightarrow> client_Do E DefaultClient req
      | Some i \<Rightarrow>
          attempt (NotificationProxyRepo_GetByID E i)
            (\<lambda>e. if IsRecordNotFound e then fail (Sentinel ErrInvalidNotificationProxy)
                 else fail (Wrapf ''get notification proxy: '' e []))
            (\<lambda>notificationProxy.
               case buildNotificationProxyHTTPClient E notificationProxy of
                 Inl e \<Rightarrow> fail e
               | Inr httpClient \<Rightarrow> client_Do E httpClient req))"

text \<open>\<^verbatim>\<open>io.ReadAll(io.LimitReader(resp.Body, 1024))\<close>: the bytes, and the read error if it comes
  before the limit.\<close>

definition read_limited :: "http_response \<Rightarrow> string \<times> string option" where
  "read_limited resp =
     (take 1024 (hs_Body resp), if length (hs_Body resp) < 1024 then hs_ReadErr resp else None)"

definition sendWebhook :: "env \<Rightarrow> string \<Rightarrow> Alert \<Rightarrow> string io" where
  "sendWebhook E configJSON alert =
     bnd (lift_sum (decodeWebhookChannelConfig E configJSON)) (\<lambda>cfg.
     bnd (renderWebhookRequestFromConfig E cfg alert) (\<lambda>(req, _).
     bnd (wrap ''send webhook request: '' (doNotificationRequest E req (wc_ProxyID cfg))) (\<lambda>resp.
     if 300 \<le> hs_StatusCode resp then fail (Foreign (''webhook status '' @ show_int (hs_StatusCode resp)))
     else ret (fst (read_limited resp)))))"

definition sendTelegramBatch :: "env \<Rightarrow> string \<Rightarrow> Alert list \<Rightarrow> string io" where
  "sendTelegramBatch E configJSON als =
     (case telegram_decode E configJSON of
        (_, Some e) \<Rightarrow> fail (Wrapf ''decode telegram config: '' (Foreign e) [])
      | (cfg, None) \<Rightarrow>
          bnd (renderTelegramBatchRequest E cfg als) (\<lambda>(req, _).
          bnd (wrap ''send telegram request: '' (doNotificationRequest E req (tc_ProxyID cfg))) (\<lambda>resp.
          if 300 \<le> hs_StatusCode resp then fail (Foreign (''telegram status '' @ show_int (hs_StatusCode resp)))
          else ret (fst (read_limited resp)))))"

definition sendTelegram :: "env \<Rightarrow> string \<Rightarrow> Alert \<Rightarrow> string io" where
  "sendTelegram E configJSON alert = sendTelegramBatch E configJSON [alert]"

definition sendNotification :: "env \<Rightarrow> NotificationChannel \<Rightarrow> Alert \<Rightarrow> string io" where
  "sendNotification E channel alert =
     (if ch_ChannelType channel = channelTypeWebhook then sendWebhook E (ch_ConfigJSON channel) alert
      else if ch_ChannelType channel = channelTypeTelegram then sendTelegram E (ch_ConfigJSON channel) alert
      else fail (Sentinel ErrInvalidNotificationChannel))"

section \<open>Channels and proxies\<close>

record UpsertWebhookChannelReq =
  uw_Enabled :: bool
  uw_Method :: string
  uw_URL :: string
  uw_Headers :: "(string \<times> string) list"
  uw_Body :: string
  uw_ProxyID :: "nat option"

record UpsertTelegramChannelReq =
  ut_Enabled :: bool
  ut_BotToken :: string
  ut_ChatID :: string
  ut_Message :: string
  ut_ProxyID :: "nat option"

record NotificationChannelResp =
  nc_ChannelType :: string
  nc_Enabled :: bool
  nc_Configured :: bool
  nc_Method :: string
  nc_URL :: string
  nc_Headers :: "(string \<times> string) list"
  nc_Body :: string
  nc_ChatID :: string
  nc_Message :: string
  nc_TokenMasked :: string
  nc_ProxyID :: "nat option"

record UpsertNotificationProxyReq =
  up_Name :: string
  up_ProxyType :: string
  up_URL :: string

record NotificationProxyResp =
  pr_ID :: nat
  pr_Name :: string
  pr_ProxyType :: string
  pr_URL :: string
  pr_CreatedAt :: gotime
  pr_UpdatedAt :: gotime

record TestTelegramChannelResp =
  tt_StatusCode :: int
  tt_Body :: string
  tt_RenderedMessage :: string

definition validateNotificationProxyID :: "env \<Rightarrow> nat option \<Rightarrow> unit io" where
  "validateNotificationProxyID E proxyID =
     (case normalizeNotificationProxyID proxyID of
        None \<Rightarrow> ret ()
      | Some i \<Rightarrow>
          attempt (NotificationProxyRepo_GetByID E i)
            (\<lambda>e. if IsRecordNotFound e then fail (Sentinel ErrInvalidNotificationProxy)
                 else fail (Wrapf ''get notification proxy: '' e []))
            (\<lambda>_. ret ()))"

definition channelResp :: "env \<Rightarrow> NotificationChannel \<Rightarrow> NotificationChannelResp list" where
  "channelResp E channel =
     (if ch_ChannelType channel = channelTypeWebhook then
        let cfg = fst (webhook_decode E (ch_ConfigJSON channel));
            m = ToUpper E (TrimSpace (wc_Method cfg))
        in [\<lparr>nc_ChannelType = ch_ChannelType channel, nc_Enabled = ch_Enabled channel,
             nc_Configured = (TrimSpace (wc_URL cfg) \<noteq> []), nc_Method = (if m = [] then ''POST'' else m),
             nc_URL = wc_URL cfg, nc_Headers = wc_Headers cfg, nc_Body = wc_Body cfg, nc_ChatID = [],
             nc_Message = [], nc_TokenMasked = [], nc_ProxyID = wc_ProxyID cfg\<rparr>]
      else if ch_ChannelType channel = channelTypeTelegram then
        let cfg = fst (telegram_decode E (ch_ConfigJSON channel));
            m = TrimSpace (tc_Message cfg)
        in [\<lparr>nc_ChannelType = ch_ChannelType channel, nc_Enabled = ch_Enabled channel,
             nc_Configured = (TrimSpace (tc_BotToken cfg) \<noteq> [] \<and> TrimSpace (tc_ChatID cfg) \<noteq> []), nc_Method = [],
             nc_URL = [], nc_Headers = [], nc_Body = [], nc_ChatID = tc_ChatID cfg,
             nc_Message = (if m = [] then defaultTelegramMessage else m),
             nc_TokenMasked = maskToken (tc_BotToken cfg), nc_ProxyID = tc_ProxyID cfg\<rparr>]
      else [])"

definition AlertService_ListNotificationChannels :: "env \<Rightarrow> NotificationChannelResp list io" where
  "AlertService_ListNotificationChannels E =
     bnd (wrap ''list notification channels: '' (NotificationChannelRepo_List E))
       (\<lambda>rows. ret (concat (map (channelResp E) rows)))"

definition toNotificationProxyResp :: "env \<Rightarrow> NotificationProxy \<Rightarrow> NotificationProxyResp" where
  "toNotificationProxyResp E p =
     \<lparr>pr_ID = px_ID p, pr_Name = px_Name p, pr_ProxyType = px_ProxyType p,
      pr_URL = maskProxyURL E (px_URL p), pr_CreatedAt = px_CreatedAt p, pr_UpdatedAt = px_UpdatedAt p\<rparr>"

definition AlertService_ListNotificationProxies :: "env \<Rightarrow> NotificationProxyResp list io" where
  "AlertService_ListNotificationProxies E =
     bnd (wrap ''list notification proxies: '' (NotificationProxyRepo_List E))
       (\<lambda>rows. ret (map (toNotificationProxyResp E) rows))"

definition buildNotificationProxy :: "env \<Rightarrow> nat \<Rightarrow> UpsertNotificationProxyReq \<Rightarrow> NotificationProxy io" where
  "buildNotificationProxy E proxyID req =
     (let name = TrimSpace (up_Name req);
          proxyType = normalizeNotificationProxyType E (up_ProxyType req);
          proxyURL = TrimSpace (up_URL req)
      in bnd (if proxyID \<noteq> 0
              then attempt (NotificationProxyRepo_GetByID E proxyID)
                     (\<lambda>e. if IsRecordNotFound e then fail (Sentinel ErrNotificationProxyNotFound)
                          else fail (Wrapf ''get notification proxy: '' e []))
                     (\<lambda>existing. ret (Some existing, if proxyURL = maskProxyURL E (px_URL existing)
                                                    then px_URL existing else proxyURL))
              else ret (None, proxyURL))
         (\<lambda>(existing, proxyURL).
            if name = [] \<or> proxyType = [] \<or> proxyURL = [] then fail (Sentinel ErrInvalidNotificationProxy)
            else case parseNotificationProxyURL E proxyType proxyURL of
                   Inl e \<Rightarrow> fail e
                 | Inr parsedProxyURL \<Rightarrow>
                     ret \<lparr>px_ID = (if proxyID \<noteq> 0 then proxyID else 0),
                          px_CreatedAt = (case existing of Some x \<Rightarrow> px_CreatedAt x | None \<Rightarrow> zero_time),
                          px_UpdatedAt = (case existing of Some x \<Rightarrow> px_UpdatedAt x | None \<Rightarrow> zero_time),
                          px_Name = name, px_ProxyType = proxyType, px_URL = url_String E parsedProxyURL\<rparr>))"

definition AlertService_CreateNotificationProxy ::
  "env \<Rightarrow> UpsertNotificationProxyReq \<Rightarrow> NotificationProxyResp io" where
  "AlertService_CreateNotificationProxy E req =
     bnd (buildNotificationProxy E 0 req) (\<lambda>notificationProxy.
     bnd (wrap ''create notification proxy: '' (NotificationProxyRepo_Create E notificationProxy)) (\<lambda>row.
     ret (toNotificationProxyResp E row)))"

definition AlertService_UpdateNotificationProxy ::
  "env \<Rightarrow> nat \<Rightarrow> UpsertNotificationProxyReq \<Rightarrow> NotificationProxyResp io" where
  "AlertService_UpdateNotificationProxy E proxyID req =
     bnd (buildNotificationProxy E proxyID req) (\<lambda>notificationProxy.
     attempt (NotificationProxyRepo_Update E notificationProxy)
       (\<lambda>e. if IsRecordNotFound e then fail (Sentinel ErrNotificationProxyNotFound)
            else fail (Wrapf ''update notification proxy: '' e []))
       (\<lambda>_. ret (toNotificationProxyResp E notificationProxy)))"

definition AlertService_DeleteNotificationProxy :: "env \<Rightarrow> nat \<Rightarrow> unit io" where
  "AlertService_DeleteNotificationProxy E proxyID =
     attempt (NotificationProxyRepo_Delete E proxyID)
       (\<lambda>e. if IsRecordNotFound e then fail (Sentinel ErrNotificationProxyNotFound)
            else fail (Wrapf ''delete notification proxy: '' e []))
       ret"

definition webhookConfigOf :: "env \<Rightarrow> UpsertWebhookChannelReq \<Rightarrow> webhookChannelConfig" where
  "webhookConfigOf E req =
     (let m = ToUpper E (TrimSpace (uw_Method req))
      in \<lparr>wc_URL = TrimSpace (uw_URL req), wc_Method = (if m = [] then ''POST'' else m),
          wc_Headers = uw_Headers req, wc_Body = uw_Body req,
          wc_ProxyID = normalizeNotificationProxyID (uw_ProxyID req)\<rparr>)"

definition AlertService_UpsertWebhookChannel :: "env \<Rightarrow> UpsertWebhookChannelReq \<Rightarrow> unit io" where
  "AlertService_UpsertWebhookChannel E req =
     bnd (validateNotificationProxyID E (uw_ProxyID req)) (\<lambda>_.
     wrap ''upsert webhook channel: '' (NotificationChannelRepo_Upsert E
       \<lparr>ch_ID = 0, ch_CreatedAt = zero_time, ch_UpdatedAt = zero_time, ch_ChannelType = channelTypeWebhook,
        ch_Enabled = uw_Enabled req, ch_ConfigJSON = webhook_encode E (webhookConfigOf E req)\<rparr>))"

definition test_alert :: "string \<Rightarrow> Alert" where
  "test_alert k =
     \<lparr>al_ID = 0, al_CreatedAt = zero_time, al_UpdatedAt = zero_time, al_MachineID = 1,
      al_PeriodType = ''hourly'', al_MetricType = ''total'', al_BucketTime = time_Date 2026 4 25 12 0,
      al_ThresholdMB = 1024, al_ActualMB = 1536, al_AlertKey = k, al_NotifyStatus = ''pending''\<rparr>"

definition AlertService_TestWebhookChannel :: "env \<Rightarrow> UpsertWebhookChannelReq \<Rightarrow> string io" where
  "AlertService_TestWebhookChannel E req =
     (if wc_Method (webhookConfigOf E req) \<noteq> ''POST'' \<and> wc_Method (webhookConfigOf E req) \<noteq> ''GET''
      then fail (Sentinel ErrInvalidNotificationChannel)
      else
        bnd (lift_sum (decodeWebhookChannelConfig E (webhook_encode E (webhookConfigOf E req)))) (\<lambda>cfg.
        bnd (renderWebhookRequestFromConfig E cfg (test_alert ''test:webhook:alert'')) (\<lambda>(httpRequest, previewJSON).
        bnd (wrap ''send webhook request: '' (doNotificationRequest E httpRequest (wc_ProxyID cfg))) (\<lambda>resp.
        case read_limited resp of
          (_, Some e) \<Rightarrow> fail (Wrapf ''read webhook response: '' (Foreign e) [])
        | (responseBody, None) \<Rightarrow>
            bnd (lift_foreign ''decode webhook preview: '' (preview_decode E previewJSON)) (\<lambda>preview.
            if 300 \<le> hs_StatusCode resp
            then fail (Foreign (''webhook status '' @ show_int (hs_StatusCode resp) @ '': '' @ responseBody))
            else ret (test_webhook_encode E
                   \<lparr>tw_StatusCode = hs_StatusCode resp, tw_Body = responseBody, tw_RenderedURL = wp_URL preview,
                    tw_RenderedHeaders = wp_Headers preview, tw_RenderedBody = wp_Body preview\<rparr>))))))"

text \<open>The loop of \<^verbatim>\<open>buildTelegramChannelConfig\<close> looks at the first Telegram channel only.\<close>

definition keptBotToken :: "env \<Rightarrow> NotificationChannel list \<Rightarrow> string \<Rightarrow> string" where
  "keptBotToken E rows botToken =
     (case find (\<lambda>c. ch_ChannelType c = channelTypeTelegram) rows of
        None \<Rightarrow> botToken
      | Some channel \<Rightarrow>
          (let existingBotToken = TrimSpace (tc_BotToken (fst (telegram_decode E (ch_ConfigJSON channel))))
           in if existingBotToken \<noteq> [] \<and> (botToken = [] \<or> botToken = maskToken existingBotToken)
              then existingBotToken else botToken))"

definition buildTelegramChannelConfig :: "env \<Rightarrow> UpsertTelegramChannelReq \<Rightarrow> telegramChannelConfig io" where
  "buildTelegramChannelConfig E req =
     (let botToken = TrimSpace (ut_BotToken req); chatID = TrimSpace (ut_ChatID req);
          m = TrimSpace (ut_Message req); message = (if m = [] then defaultTelegramMessage else m)
      in bnd (validateNotificationProxyID E (ut_ProxyID req)) (\<lambda>_.
         bnd (wrap ''list notification channels: '' (NotificationChannelRepo_List E)) (\<lambda>rows.
         ret \<lparr>tc_BotToken = keptBotToken E rows botToken, tc_ChatID = chatID, tc_Message = message,
              tc_ProxyID = normalizeNotificationProxyID (ut_ProxyID req)\<rparr>)))"

definition AlertService_UpsertTelegramChannel :: "env \<Rightarrow> UpsertTelegramChannelReq \<Rightarrow> unit io" where
  "AlertService_UpsertTelegramChannel E req =
     bnd (buildTelegramChannelConfig E req) (\<lambda>cfg.
     wrap ''upsert telegram channel: '' (NotificationChannelRepo_Upsert E
       \<lparr>ch_ID = 0, ch_CreatedAt = zero_time, ch_UpdatedAt = zero_time, ch_ChannelType = channelTypeTelegram,
        ch_Enabled = ut_Enabled req, ch_ConfigJSON = telegram_encode E cfg\<rparr>))"

definition AlertService_TestTelegramChannel :: "env \<Rightarrow> UpsertTelegramChannelReq \<Rightarrow> TestTelegramChannelResp io" where
  "AlertService_TestTelegramChannel E req =
     bnd (buildTelegramChannelConfig E req) (\<lambda>cfg.
     bnd (renderTelegramRequest E cfg (test_alert ''test:telegram:alert'')) (\<lambda>(httpRequest, renderedMessage).
     bnd (wrap ''send telegram request: '' (doNotificationRequest E httpRequest (tc_ProxyID cfg))) (\<lambda>resp.
     case read_limited resp of
       (_, Some e) \<Rightarrow> fail (Wrapf ''read telegram response: '' (Foreign e) [])
     | (responseBody, None) \<Rightarrow>
         if 300 \<le> hs_StatusCode resp
         then fail (Foreign (''telegram status '' @ show_int (hs_StatusCode resp) @ '': '' @ responseBody))
         else ret \<lparr>tt_StatusCode = hs_StatusCode resp, tt_Body = responseBody,
                   tt_RenderedMessage = renderedMessage\<rparr>)))"

section \<open>What sending touches\<close>

text \<open>Reads keep every invariant that does not mention the call counter; sending also writes the
  log of sent requests, and nothing else.\<close>

definition outbox_free :: "(world \<Rightarrow> bool) \<Rightarrow> bool" where
  "outbox_free I \<longleftrightarrow> (\<forall>w b. I (w\<lparr>outbox := b\<rparr>) = I w)"

lemma keeps_read:
  assumes "tick_free I" and "\<And>t w. snd (f t w) = w"
  shows "keeps I (statement E f)"
  by (rule keeps_statement [OF assms(1)]) (simp add: keeps_def assms(2))

lemma keeps_get_proxy: "tick_free I \<Longrightarrow> keeps I (NotificationProxyRepo_GetByID E i)"
  unfolding NotificationProxyRepo_GetByID_def
  by (intro keeps_intros keeps_read) (simp_all split: option.split)

lemma keeps_list_channels: "tick_free I \<Longrightarrow> keeps I (NotificationChannelRepo_List E)"
  unfolding NotificationChannelRepo_List_def
  by (intro keeps_intros keeps_read) simp_all

lemma keeps_lift [keeps_intros]: "keeps I (lift_foreign msg r)" "keeps I (lift_wrap msg r')"
  by (auto simp: lift_foreign_def lift_wrap_def intro: keeps_intros split: sum.split)

lemma keeps_NewRequest [keeps_intros]: "keeps I (NewRequest E msg meth u b)"
  unfolding NewRequest_def by (intro keeps_intros)

lemma keeps_template_data [keeps_intros]: "tick_free I \<Longrightarrow> keeps I (buildWebhookTemplateData E a)"
  unfolding buildWebhookTemplateData_def by (intro keeps_intros keeps_get_machine)

lemma keeps_client_Do: "tick_free I \<Longrightarrow> outbox_free I \<Longrightarrow> keeps I (client_Do E c r)"
  unfolding client_Do_def
  by (intro keeps_intros) (simp_all add: keeps_def modify_def outbox_free_def)

lemma keeps_doRequest: "tick_free I \<Longrightarrow> outbox_free I \<Longrightarrow> keeps I (doNotificationRequest E r i)"
  unfolding doNotificationRequest_def
  by (intro keeps_intros keeps_client_Do keeps_get_proxy)

lemma keeps_render_webhook [keeps_intros]: "tick_free I \<Longrightarrow> keeps I (renderWebhookRequestFromConfig E cfg a)"
  unfolding renderWebhookRequestFromConfig_def Let_def by (intro keeps_intros)

lemma keeps_render_telegram [keeps_intros]: "tick_free I \<Longrightarrow> keeps I (renderTelegramBatchRequest E cfg as)"
  unfolding renderTelegramBatchRequest_def Let_def by (intro keeps_intros)

lemma keeps_sendTelegramBatch: "tick_free I \<Longrightarrow> outbox_free I \<Longrightarrow> keeps I (sendTelegramBatch E j as)"
  unfolding sendTelegramBatch_def
  by (cases "telegram_decode E j") (auto intro!: keeps_intros keeps_doRequest split: option.split)

lemma keeps_sendNotification: "tick_free I \<Longrightarrow> outbox_free I \<Longrightarrow> keeps I (sendNotification E ch a)"
  unfolding sendNotification_def sendWebhook_def sendTelegram_def
  by (intro keeps_intros keeps_doRequest keeps_sendTelegramBatch)

end
