(* ===== verification/Backup.thy ===== *)
theory Backup
  imports Machines Threshold Notify
begin

text \<open>
  The backup service, \<^verbatim>\<open>internal/service/backup_service.go\<close>: exporting machines, SSH keys, notification
  settings and thresholds into one file that is encrypted under a password, and importing such a
  file into another instance. The payload is turned into bytes by \<^verbatim>\<open>encoding/json\<close>; the two
  directions are the parameters \<open>marshal\<close> and \<open>unmarshal\<close>. \<^verbatim>\<open>gcm.Open\<close> panics on a nonce of the wrong
  length: the panic is the error value \<open>go_panic\<close>, which \<^verbatim>\<open>gin.Recovery\<close> turns into status 500.
  Ranging over a Go map visits the entries in an order that is not specified: the
  parameter \<open>tie_rank\<close> chooses it.
\<close>

section \<open>Data\<close>

record BackupExportReq =
  be_Password :: string
  be_IncludeAllMachines :: bool
  be_MachineIDs :: "nat list"
  be_IncludeAllSSHKeys :: bool
  be_SSHKeyIDs :: "nat list"

record BackupEncryption =
  bc_Algorithm :: string
  bc_KDF :: string
  bc_Iterations :: int
  bc_Salt :: string
  bc_Nonce :: string

record EncryptedBackup =
  eb_Version :: int
  eb_Encrypted :: bool
  eb_Encryption :: BackupEncryption
  eb_Payload :: string

record BackupImportReq =
  bi_Password :: string
  bi_Backup :: EncryptedBackup

record BackupImportResp =
  ImportedSSHKeys :: int
  SkippedSSHKeys :: int
  ImportedMachines :: int
  SkippedMachines :: int
  ImportedNotificationChannels :: int
  SkippedNotificationChannels :: int
  ImportedNotificationProxies :: int
  SkippedNotificationProxies :: int
  ImportedThresholdRules :: int
  SkippedThresholdRules :: int

record backupSSHKeyPayload =
  bk_Name :: string
  bk_SourceType :: string
  bk_PrivateKey :: string

record backupMachinePayload =
  bm_Name :: string
  bm_Host :: string
  bm_Port :: int
  bm_SSHUser :: string
  bm_NetworkInterface :: string
  bm_SSHKeyName :: string
  bm_CollectEnabled :: bool
  bm_Remark :: string

record backupNotificationProxyPayload =
  bp_Name :: string
  bp_ProxyType :: string
  bp_URL :: string

record backupNotificationChannelPayload =
  bn_ChannelType :: string
  bn_Enabled :: bool
  bn_ConfigJSON :: string
  bn_ProxyName :: string

record backupGlobalThresholdPayload =
  bg_PeriodType :: string
  bg_MetricType :: string
  bg_ThresholdMB :: float64
  bg_Enabled :: bool

record backupMachineThresholdPayload =
  bt_MachineName :: string
  bt_PeriodType :: string
  bt_MetricType :: string
  bt_ThresholdMB :: float64
  bt_Enabled :: bool

record backupPayload =
  bl_ExportedAt :: gotime
  bl_SSHKeys :: "backupSSHKeyPayload list"
  bl_Machines :: "backupMachinePayload list"
  bl_NotificationProxies :: "backupNotificationProxyPayload list"
  bl_NotificationChannels :: "backupNotificationChannelPayload list"
  bl_GlobalThresholdRules :: "backupGlobalThresholdPayload list"
  bl_MachineThresholdRules :: "backupMachineThresholdPayload list"

definition backupVersion :: int where "backupVersion = 2"
definition backupMinSupportedVersion :: int where "backupMinSupportedVersion = 1"
definition backupChannelProxyIDField :: string where "backupChannelProxyIDField = ''proxy_id''"
definition backupMaxNameLength :: nat where "backupMaxNameLength = 255"
definition backupMaxProxyNameLength :: nat where "backupMaxProxyNameLength = 100"
definition backupEncryptionAlgorithm :: string where "backupEncryptionAlgorithm = ''AES-256-GCM''"
definition backupEncryptionKDF :: string where "backupEncryptionKDF = ''PBKDF2-SHA256''"
definition backupEncryptionIterations :: nat where "backupEncryptionIterations = 210000"
definition backupSaltSize :: nat where "backupSaltSize = 16"
definition backupKeySize :: nat where "backupKeySize = 32"

definition go_panic :: "string \<Rightarrow> go_error" where
  "go_panic msg = Foreign (''panic: '' @ msg)"

section \<open>Encryption\<close>

definition randomBytes :: "env \<Rightarrow> nat \<Rightarrow> string io" where
  "randomBytes E sz =
     bnd (external (\<lambda>n. rand_bytes E n sz)) (\<lambda>r.
     case r of Inl e \<Rightarrow> fail (Wrapf ''generate random bytes: '' (Foreign e) []) | Inr bytes \<Rightarrow> ret bytes)"

definition backup_key_error :: "string \<Rightarrow> go_error" where
  "backup_key_error key =
     Wrapf ''create backup cipher: '' (Foreign (''crypto/aes: invalid key size '' @ show_nat (length key))) []"

definition encryptBackupPayload :: "env \<Rightarrow> string \<Rightarrow> string \<Rightarrow> EncryptedBackup io" where
  "encryptBackupPayload E password plaintext =
     bnd (randomBytes E backupSaltSize) (\<lambda>salt.
     let key = pbkdf2_key E password salt backupEncryptionIterations backupKeySize
     in if \<not> aes_key_size_ok key then fail (backup_key_error key)
        else bnd (randomBytes E gcm_NonceSize) (\<lambda>nonce.
          let ciphertext = gcm_seal E key nonce plaintext
          in ret \<lparr>eb_Version = backupVersion, eb_Encrypted = True,
                  eb_Encryption = \<lparr>bc_Algorithm = backupEncryptionAlgorithm, bc_KDF = backupEncryptionKDF,
                    bc_Iterations = int backupEncryptionIterations, bc_Salt = b64_encode salt, bc_Nonce = b64_encode nonce\<rparr>,
                  eb_Payload = b64_encode ciphertext\<rparr>))"

text \<open>A field that has to be Base64 and not empty.\<close>

definition decode_field :: "string \<Rightarrow> string option" where
  "decode_field s = (case b64_decode s of None \<Rightarrow> None | Some [] \<Rightarrow> None | Some (c # cs) \<Rightarrow> Some (c # cs))"

definition decryptBackupPayload :: "env \<Rightarrow> string \<Rightarrow> EncryptedBackup \<Rightarrow> go_error + string" where
  "decryptBackupPayload E password backup =
     (let invalid = Inl (Sentinel ErrInvalidBackupPayload); enc = eb_Encryption backup
      in if eb_Version backup < backupMinSupportedVersion \<or> eb_Version backup > backupVersion \<or> \<not> eb_Encrypted backup
            \<or> eb_Payload backup = [] then invalid
         else if bc_Algorithm enc \<noteq> backupEncryptionAlgorithm \<or> bc_KDF enc \<noteq> backupEncryptionKDF
                 \<or> bc_Iterations enc \<noteq> int backupEncryptionIterations then invalid
         else case decode_field (bc_Salt enc) of
           None \<Rightarrow> invalid
         | Some salt \<Rightarrow>
             (case decode_field (bc_Nonce enc) of
                None \<Rightarrow> invalid
              | Some nonce \<Rightarrow>
                  (case decode_field (eb_Payload backup) of
                     None \<Rightarrow> invalid
                   | Some ciphertext \<Rightarrow>
                       (let key = pbkdf2_key E password salt (nat (bc_Iterations enc)) backupKeySize
                        in if \<not> aes_key_size_ok key then Inl (backup_key_error key)
                           else if length nonce \<noteq> gcm_NonceSize
                             then Inl (go_panic ''crypto/cipher: incorrect nonce length given to GCM'')
                           else case gcm_open E key nonce ciphertext of
                                  None \<Rightarrow> Inl (Sentinel ErrBackupDecryptFailed)
                                | Some plaintext \<Rightarrow> Inr plaintext))))"

section \<open>Channel configurations\<close>

text \<open>A decoded configuration is a Go map, here the list of its entries, one for each key; encoding it (which cannot fail
  for values that came out of the decoder) writes the keys in sorted order.\<close>

definition decodeBackupChannelConfig :: "env \<Rightarrow> string \<Rightarrow> go_error + (string \<times> json) list" where
  "decodeBackupChannelConfig E configJSON =
     (let trimmedConfig = TrimSpace configJSON
      in if trimmedConfig = [] then Inr []
         else case json_object E trimmedConfig of
                Some (JObj config) \<Rightarrow> Inr config
              | Some JNull \<Rightarrow> Inr []
              | _ \<Rightarrow> Inl (Wrapf [] (Sentinel ErrInvalidBackupPayload) '': decode notification channel config''))"

definition encodeBackupChannelConfig :: "env \<Rightarrow> (string \<times> json) list \<Rightarrow> string" where
  "encodeBackupChannelConfig E config = json_print E (JObj (sort_key fst config))"

definition delete_field :: "string \<Rightarrow> (string \<times> json) list \<Rightarrow> (string \<times> json) list" where
  "delete_field k config = filter (\<lambda>(k', _). k' \<noteq> k) config"

definition backupChannelProxyID :: "(string \<times> json) list \<Rightarrow> nat option" where
  "backupChannelProxyID config =
     (case map_of config backupChannelProxyIDField of
        Some (JNum number) \<Rightarrow>
          (case Atoi number of None \<Rightarrow> None | Some proxyID \<Rightarrow> if proxyID \<le> 0 then None else Some (nat proxyID))
      | _ \<Rightarrow> None)"

definition buildBackupChannelPayload :: "env \<Rightarrow> NotificationChannel \<Rightarrow> (nat \<rightharpoonup> string) \<Rightarrow> backupNotificationChannelPayload" where
  "buildBackupChannelPayload E channel proxyNameByID =
     (let payload = \<lparr>bn_ChannelType = ch_ChannelType channel, bn_Enabled = ch_Enabled channel, bn_ConfigJSON = ''{}'', bn_ProxyName = []\<rparr>
      in case decodeBackupChannelConfig E (ch_ConfigJSON channel) of
           Inl _ \<Rightarrow> payload
         | Inr config \<Rightarrow>
             (let name = (case backupChannelProxyID config of
                            None \<Rightarrow> []
                          | Some proxyID \<Rightarrow> (case proxyNameByID proxyID of None \<Rightarrow> [] | Some n \<Rightarrow> n))
              in payload\<lparr>bn_ProxyName := name,
                   bn_ConfigJSON := encodeBackupChannelConfig E (delete_field backupChannelProxyIDField config)\<rparr>))"

definition applyBackupChannelProxy :: "env \<Rightarrow> string \<Rightarrow> string \<Rightarrow> (string \<rightharpoonup> nat) \<Rightarrow> go_error + string" where
  "applyBackupChannelProxy E configJSON proxyName proxyIDByName =
     (case decodeBackupChannelConfig E configJSON of
        Inl e \<Rightarrow> Inl e
      | Inr decoded \<Rightarrow>
          (let config = delete_field backupChannelProxyIDField decoded; name = TrimSpace proxyName
           in Inr (encodeBackupChannelConfig E
                (if name = [] then config
                 else case proxyIDByName name of
                        None \<Rightarrow> config
                      | Some proxyID \<Rightarrow> (backupChannelProxyIDField, JNum (show_nat proxyID)) # config))))"

section \<open>Validation\<close>

definition payload_error :: "string \<Rightarrow> go_error" where
  "payload_error post = Wrapf [] (Sentinel ErrInvalidBackupPayload) post"

definition validateBackupFieldLength :: "string \<Rightarrow> string \<Rightarrow> nat \<Rightarrow> go_error option" where
  "validateBackupFieldLength field val maxLength =
     (if maxLength < RuneCount val then Some (payload_error ('': '' @ field @ '' exceeds '' @ show_nat maxLength @ '' characters''))
      else None)"

text \<open>The first error of a list of checks.\<close>

fun first_error :: "('a \<Rightarrow> go_error option) \<Rightarrow> 'a list \<Rightarrow> go_error option" where
  "first_error f [] = None"
| "first_error f (x # xs) = (case f x of Some e \<Rightarrow> Some e | None \<Rightarrow> first_error f xs)"

definition check_field :: "string \<times> string \<Rightarrow> go_error option" where
  "check_field = (\<lambda>(field, val).
     if val = [] then Some (payload_error ('': '' @ field @ '' is empty'')) else validateBackupFieldLength field val backupMaxNameLength)"

text \<open>\<open>visit\<close> ranks the four fields of the map: the order in which Go visits them.\<close>

definition validateBackupMachinePayload :: "(nat \<Rightarrow> nat) \<Rightarrow> backupMachinePayload \<Rightarrow> go_error option" where
  "validateBackupMachinePayload visit item =
     (let fields = [(0, ''machine name'', TrimSpace (bm_Name item)), (1, ''machine host'', TrimSpace (bm_Host item)),
                    (2, ''machine ssh user'', TrimSpace (bm_SSHUser item)),
                    (3, ''machine network interface'', TrimSpace (bm_NetworkInterface item))]
      in case first_error check_field (map snd (sort_key (visit o fst) fields)) of
           Some e \<Rightarrow> Some e
         | None \<Rightarrow> if bm_Port item \<le> 0 \<or> bm_Port item > 65535 then Some (payload_error '': machine port'') else None)"

definition validateBackupSSHKey :: "env \<Rightarrow> backupSSHKeyPayload \<Rightarrow> go_error option" where
  "validateBackupSSHKey E item =
     (let name = TrimSpace (bk_Name item); privateKey = TrimSpace (bk_PrivateKey item)
      in if name = [] \<or> privateKey = [] then Some (payload_error '': ssh key'')
         else case validateBackupFieldLength ''ssh key name'' name backupMaxNameLength of
                Some e \<Rightarrow> Some e
              | None \<Rightarrow> (case parsePrivateKey E privateKey of Inl _ \<Rightarrow> Some (payload_error '': parse ssh key'') | Inr _ \<Rightarrow> None))"

definition validateBackupProxy :: "env \<Rightarrow> backupNotificationProxyPayload \<Rightarrow> go_error option" where
  "validateBackupProxy E item =
     (let name = TrimSpace (bp_Name item)
      in if name = [] then Some (payload_error '': notification proxy name'')
         else case validateBackupFieldLength ''notification proxy name'' name backupMaxProxyNameLength of
                Some e \<Rightarrow> Some e
              | None \<Rightarrow> (case parseNotificationProxyURL E (bp_ProxyType item) (bp_URL item) of
                  Inl _ \<Rightarrow> Some (payload_error '': parse notification proxy url'') | Inr _ \<Rightarrow> None))"

definition isBackupNotificationChannelType :: "string \<Rightarrow> bool" where
  "isBackupNotificationChannelType channelType \<longleftrightarrow> channelType = ''webhook'' \<or> channelType = ''telegram''"

definition validateBackupChannel :: "env \<Rightarrow> backupNotificationChannelPayload \<Rightarrow> go_error option" where
  "validateBackupChannel E item =
     (if \<not> isBackupNotificationChannelType (TrimSpace (bn_ChannelType item)) then Some (payload_error '': notification channel type'')
      else case decodeBackupChannelConfig E (bn_ConfigJSON item) of Inl e \<Rightarrow> Some e | Inr _ \<Rightarrow> None)"

definition validateBackupThresholdRule :: "string \<Rightarrow> string \<Rightarrow> float64 \<Rightarrow> go_error option" where
  "validateBackupThresholdRule periodType metricType thresholdMB =
     (case validateThresholdDimension periodType metricType of
        Inl _ \<Rightarrow> Some (payload_error '': threshold rule dimension'')
      | Inr _ \<Rightarrow> if thresholdMB \<le> 0 then Some (payload_error '': threshold rule value'') else None)"

definition orElse :: "go_error option \<Rightarrow> go_error option \<Rightarrow> go_error option" where
  "orElse a b = (case a of Some e \<Rightarrow> Some e | None \<Rightarrow> b)"

text \<open>The sections are checked in this order; the visiting order of the machine fields may differ from machine
  to machine, \<open>visit\<close> gets the machine's index too.\<close>

definition validateBackupPayload :: "env \<Rightarrow> (nat \<Rightarrow> nat) \<Rightarrow> backupPayload \<Rightarrow> go_error option" where
  "validateBackupPayload E visit payload =
     orElse (first_error (validateBackupSSHKey E) (bl_SSHKeys payload))
    (orElse (first_error (\<lambda>(i, item). validateBackupMachinePayload (\<lambda>j. visit (4 * i + j)) item)
               (enumerate 0 (bl_Machines payload)))
    (orElse (first_error (validateBackupProxy E) (bl_NotificationProxies payload))
    (orElse (first_error (validateBackupChannel E) (bl_NotificationChannels payload))
    (orElse (first_error (\<lambda>r. validateBackupThresholdRule (bg_PeriodType r) (bg_MetricType r) (bg_ThresholdMB r))
               (bl_GlobalThresholdRules payload))
      (first_error (\<lambda>r. validateBackupThresholdRule (bt_PeriodType r) (bt_MetricType r) (bt_ThresholdMB r))
               (bl_MachineThresholdRules payload))))))"

definition validateBackupMachine :: "Machine \<Rightarrow> go_error option" where
  "validateBackupMachine m =
     (if mc_Name m = [] \<or> mc_Host m = [] \<or> mc_SSHUser m = [] \<or> mc_NetworkInterface m = [] \<or> mc_SSHKeyID m = 0
      then Some (Sentinel ErrInvalidBackupPayload)
      else if mc_Port m \<le> 0 \<or> mc_Port m > 65535 then Some (Sentinel ErrInvalidBackupPayload) else None)"

section \<open>Export\<close>

definition uintSet :: "nat list \<Rightarrow> nat set" where
  "uintSet vals = set (filter (\<lambda>v. 0 < v) vals)"

definition selectBackupMachines :: "Machine list \<Rightarrow> BackupExportReq \<Rightarrow> Machine list" where
  "selectBackupMachines ms req =
     (if be_IncludeAllMachines req then ms else filter (\<lambda>m. mc_ID m \<in> uintSet (be_MachineIDs req)) ms)"

definition selectBackupSSHKeys :: "SSHKey list \<Rightarrow> Machine list \<Rightarrow> BackupExportReq \<Rightarrow> SSHKey list" where
  "selectBackupSSHKeys ks ms req =
     (let ids = (if be_IncludeAllSSHKeys req then set (map sk_ID ks) else uintSet (be_SSHKeyIDs req)) \<union> set (map mc_SSHKeyID ms)
      in filter (\<lambda>k. sk_ID k \<in> ids) ks)"

text \<open>A Go map filled in a loop: the last entry for a key wins.\<close>

definition map_from :: "('r \<Rightarrow> 'k) \<Rightarrow> ('r \<Rightarrow> 'v) \<Rightarrow> 'r list \<Rightarrow> ('k \<rightharpoonup> 'v)" where
  "map_from key val rows = map_of (rev (map (\<lambda>r. (key r, val r)) rows))"

definition exportSSHKey :: "env \<Rightarrow> string \<Rightarrow> SSHKey \<Rightarrow> go_error + backupSSHKeyPayload" where
  "exportSSHKey E masterKey k =
     (case DataProtector_Decrypt E masterKey (sk_PrivateKeyCiphertext k) of
        Inl _ \<Rightarrow> Inl (Wrapf [] (Sentinel ErrBackupSSHKeyDecryptFail) ('': decrypt ssh key '' @ show_nat (sk_ID k)))
      | Inr privateKey \<Rightarrow> Inr \<lparr>bk_Name = sk_Name k, bk_SourceType = sk_SourceType k, bk_PrivateKey = privateKey\<rparr>)"

definition exportMachine :: "(nat \<rightharpoonup> SSHKey) \<Rightarrow> Machine \<Rightarrow> go_error + backupMachinePayload" where
  "exportMachine sshKeyByID m =
     (case sshKeyByID (mc_SSHKeyID m) of
        None \<Rightarrow> Inl (payload_error '': machine ssh key missing'')
      | Some k \<Rightarrow> Inr \<lparr>bm_Name = mc_Name m, bm_Host = mc_Host m, bm_Port = mc_Port m, bm_SSHUser = mc_SSHUser m,
          bm_NetworkInterface = mc_NetworkInterface m, bm_SSHKeyName = sk_Name k,
          bm_CollectEnabled = mc_CollectEnabled m, bm_Remark = mc_Remark m\<rparr>)"

definition exportMachineRule :: "(nat \<rightharpoonup> string) \<Rightarrow> MachineThresholdRule \<Rightarrow> backupMachineThresholdPayload list" where
  "exportMachineRule machineNameByID r =
     (case machineNameByID (mr_MachineID r) of
        None \<Rightarrow> []
      | Some machineName \<Rightarrow> [\<lparr>bt_MachineName = machineName, bt_PeriodType = mr_PeriodType r, bt_MetricType = mr_MetricType r,
          bt_ThresholdMB = mr_ThresholdMB r, bt_Enabled = mr_Enabled r\<rparr>])"

definition buildBackupPayload :: "env \<Rightarrow> string \<Rightarrow> Machine list \<Rightarrow> SSHKey list \<Rightarrow> SSHKey list \<Rightarrow> backupPayload io" where
  "buildBackupPayload E masterKey ms ks allSSHKeys =
     bnd (map_each ks (\<lambda>k. lift_sum (exportSSHKey E masterKey k))) (\<lambda>sshKeyPayloads.
     bnd (map_each ms (\<lambda>m. lift_sum (exportMachine (map_from sk_ID id allSSHKeys) m))) (\<lambda>machinePayloads.
     bnd (wrap ''list notification proxies for backup export: '' (NotificationProxyRepo_List E)) (\<lambda>ps.
     bnd (wrap ''list notification channels for backup export: '' (NotificationChannelRepo_List E)) (\<lambda>cs.
     bnd (wrap ''list global threshold rules for backup export: '' (ThresholdRuleRepo_ListGlobalRules E)) (\<lambda>gs.
     bnd (wrap ''list machine threshold rules for backup export: ''
            (ThresholdRuleRepo_ListMachineRulesByMachineIDs E (map mc_ID ms))) (\<lambda>rs.
     bnd (time_Now E) (\<lambda>now.
     ret \<lparr>bl_ExportedAt = now,
          bl_SSHKeys = sshKeyPayloads,
          bl_Machines = machinePayloads,
          bl_NotificationProxies = map (\<lambda>p. \<lparr>bp_Name = px_Name p, bp_ProxyType = px_ProxyType p, bp_URL = px_URL p\<rparr>) ps,
          bl_NotificationChannels = map (\<lambda>c. buildBackupChannelPayload E c (map_from px_ID px_Name ps)) cs,
          bl_GlobalThresholdRules = map (\<lambda>r. \<lparr>bg_PeriodType = gr_PeriodType r, bg_MetricType = gr_MetricType r,
             bg_ThresholdMB = gr_ThresholdMB r, bg_Enabled = gr_Enabled r\<rparr>) gs,
          bl_MachineThresholdRules = concat (map (exportMachineRule (map_from mc_ID mc_Name ms)) rs)\<rparr>)))))))"

definition BackupService_Export ::
  "env \<Rightarrow> (backupPayload \<Rightarrow> string) \<Rightarrow> string \<Rightarrow> BackupExportReq \<Rightarrow> EncryptedBackup io" where
  "BackupService_Export E marshal masterKey req =
     (if TrimSpace (be_Password req) = [] then fail (Sentinel ErrInvalidBackupRequest)
      else bnd (wrap ''list machines for backup export: '' (MachineRepo_List E)) (\<lambda>ms.
        bnd (wrap ''list ssh keys for backup export: '' (SSHKeyRepo_List E)) (\<lambda>ks.
        let selectedMachines = selectBackupMachines ms req;
            selectedSSHKeys = selectBackupSSHKeys ks selectedMachines req
        in if selectedMachines = [] \<and> selectedSSHKeys = [] then fail (Sentinel ErrInvalidBackupRequest)
           else bnd (buildBackupPayload E masterKey selectedMachines selectedSSHKeys ks) (\<lambda>payload.
             encryptBackupPayload E (be_Password req) (marshal payload)))))"

section \<open>Import\<close>

text \<open>A loop that updates local variables \<open>s\<close> and may return an error.\<close>

fun fold_each :: "('a \<Rightarrow> 's \<Rightarrow> 's io) \<Rightarrow> 'a list \<Rightarrow> 's \<Rightarrow> 's io" where
  "fold_each f [] s = ret s"
| "fold_each f (x # xs) s = bnd (f x s) (fold_each f xs)"

definition normalizeBackupSSHKeySource :: "string \<Rightarrow> string" where
  "normalizeBackupSSHKeySource sourceType = (if TrimSpace sourceType = ''generated'' then ''generated'' else ''imported'')"

text \<open>The body of the loop over the SSH keys; its variables are the counters and the two maps.\<close>

type_synonym key_vars = "BackupImportResp \<times> (string \<rightharpoonup> nat) \<times> (string \<rightharpoonup> nat)"

definition importSSHKey :: "env \<Rightarrow> string \<Rightarrow> backupSSHKeyPayload \<Rightarrow> key_vars \<Rightarrow> key_vars io" where
  "importSSHKey E masterKey item = (\<lambda>(resp, idByName, idByFingerprint).
     let name = TrimSpace (bk_Name item);
         privateKey = TrimSpace (bk_PrivateKey item);
         skipped = resp\<lparr>SkippedSSHKeys := SkippedSSHKeys resp + 1\<rparr>
     in if name = [] \<or> privateKey = [] then fail (Sentinel ErrInvalidBackupPayload)
        else if idByName name \<noteq> None then ret (skipped, idByName, idByFingerprint)
        else case parsePrivateKey E privateKey of
          Inl _ \<Rightarrow> fail (payload_error '': parse ssh key'')
        | Inr (keyType, publicKey, fingerprint) \<Rightarrow>
            bnd (wrap ''encrypt imported backup ssh key: '' (DataProtector_Encrypt E masterKey privateKey)) (\<lambda>ciphertext.
            attempt (SSHKeyRepo_Create E
                \<lparr>sk_ID = 0, sk_CreatedAt = zero_time, sk_UpdatedAt = zero_time, sk_Name = name,
                 sk_SourceType = normalizeBackupSSHKeySource (bk_SourceType item), sk_KeyType = keyType, sk_PublicKey = publicKey,
                 sk_PrivateKeyCiphertext = ciphertext, sk_Fingerprint = fingerprint\<rparr>)
              (\<lambda>e. if IsDuplicateKeyError e
                   then ret (skipped,
                             (case idByFingerprint fingerprint of None \<Rightarrow> idByName | Some i \<Rightarrow> idByName(name \<mapsto> i)),
                             idByFingerprint)
                   else fail (Wrapf ''create backup ssh key: '' e []))
              (\<lambda>row. ret (resp\<lparr>ImportedSSHKeys := ImportedSSHKeys resp + 1\<rparr>, idByName(name \<mapsto> sk_ID row),
                           idByFingerprint(fingerprint \<mapsto> sk_ID row)))))"

definition importMachine ::
  "env \<Rightarrow> (string \<rightharpoonup> nat) \<Rightarrow> backupMachinePayload \<Rightarrow> BackupImportResp \<times> (string \<rightharpoonup> nat) \<Rightarrow> (BackupImportResp \<times> (string \<rightharpoonup> nat)) io" where
  "importMachine E keyIDByName item = (\<lambda>(resp, machineIDByName).
     let name = TrimSpace (bm_Name item);
         skipped = resp\<lparr>SkippedMachines := SkippedMachines resp + 1\<rparr>
     in if name = [] then fail (Sentinel ErrInvalidBackupPayload)
        else if machineIDByName name \<noteq> None then ret (skipped, machineIDByName)
        else case keyIDByName (TrimSpace (bm_SSHKeyName item)) of
          None \<Rightarrow> ret (skipped, machineIDByName)
        | Some sshKeyID \<Rightarrow>
            (let machine = \<lparr>mc_ID = 0, mc_CreatedAt = zero_time, mc_UpdatedAt = zero_time, mc_Name = name,
                   mc_Host = TrimSpace (bm_Host item), mc_Port = bm_Port item, mc_SSHUser = TrimSpace (bm_SSHUser item),
                   mc_NetworkInterface = TrimSpace (bm_NetworkInterface item), mc_SSHKeyID = sshKeyID,
                   mc_CollectEnabled = bm_CollectEnabled item, mc_Remark = TrimSpace (bm_Remark item)\<rparr>
             in case validateBackupMachine machine of
                  Some e \<Rightarrow> fail e
                | None \<Rightarrow>
                    bnd (wrap ''create backup machine: '' (MachineRepo_Create E machine)) (\<lambda>row.
                    ret (resp\<lparr>ImportedMachines := ImportedMachines resp + 1\<rparr>, machineIDByName(name \<mapsto> mc_ID row)))))"

definition importNotificationProxy ::
  "env \<Rightarrow> string set \<Rightarrow> backupNotificationProxyPayload \<Rightarrow> BackupImportResp \<times> (string \<rightharpoonup> nat) \<Rightarrow> (BackupImportResp \<times> (string \<rightharpoonup> nat)) io" where
  "importNotificationProxy E existingProxyNames item = (\<lambda>(resp, proxyIDByName).
     let name = TrimSpace (bp_Name item)
     in if name \<in> existingProxyNames
        then ret (resp\<lparr>SkippedNotificationProxies := SkippedNotificationProxies resp + 1\<rparr>, proxyIDByName)
        else
          let proxyType = normalizeNotificationProxyType E (bp_ProxyType item)
          in case parseNotificationProxyURL E proxyType (TrimSpace (bp_URL item)) of
               Inl _ \<Rightarrow> fail (payload_error '': parse notification proxy url'')
             | Inr parsedProxyURL \<Rightarrow>
                 bnd (wrap ''create backup notification proxy: '' (NotificationProxyRepo_Create E
                     \<lparr>px_ID = 0, px_CreatedAt = zero_time, px_UpdatedAt = zero_time, px_Name = name, px_ProxyType = proxyType,
                      px_URL = url_String E parsedProxyURL\<rparr>)) (\<lambda>row.
                 ret (resp\<lparr>ImportedNotificationProxies := ImportedNotificationProxies resp + 1\<rparr>,
                      if proxyIDByName name = None then proxyIDByName(name \<mapsto> px_ID row) else proxyIDByName)))"

text \<open>The first proxy of a name is the one its name stands for.\<close>

definition first_ids :: "NotificationProxy list \<Rightarrow> (string \<rightharpoonup> nat)" where
  "first_ids ps = map_of (map (\<lambda>p. (px_Name p, px_ID p)) ps)"

definition importNotificationProxies ::
  "env \<Rightarrow> backupNotificationProxyPayload list \<Rightarrow> BackupImportResp \<Rightarrow> (BackupImportResp \<times> (string \<rightharpoonup> nat)) io" where
  "importNotificationProxies E payloads resp =
     bnd (wrap ''list notification proxies for backup import: '' (NotificationProxyRepo_List E)) (\<lambda>existingProxies.
     fold_each (importNotificationProxy E (set (map px_Name existingProxies))) payloads (resp, first_ids existingProxies))"

definition importNotificationChannel ::
  "env \<Rightarrow> (string \<rightharpoonup> nat) \<Rightarrow> backupNotificationChannelPayload \<Rightarrow> BackupImportResp \<times> string set \<Rightarrow> (BackupImportResp \<times> string set) io" where
  "importNotificationChannel E proxyIDByName item = (\<lambda>(resp, channelTypeExists).
     let channelType = TrimSpace (bn_ChannelType item);
         skipped = resp\<lparr>SkippedNotificationChannels := SkippedNotificationChannels resp + 1\<rparr>
     in if channelType \<in> channelTypeExists then ret (skipped, channelTypeExists)
        else case applyBackupChannelProxy E (bn_ConfigJSON item) (bn_ProxyName item) proxyIDByName of
          Inl e \<Rightarrow> fail e
        | Inr configJSON \<Rightarrow>
            bnd (wrap ''create backup notification channel: '' (NotificationChannelRepo_CreateIfAbsent E
                \<lparr>ch_ID = 0, ch_CreatedAt = zero_time, ch_UpdatedAt = zero_time, ch_ChannelType = channelType,
                 ch_Enabled = bn_Enabled item, ch_ConfigJSON = configJSON\<rparr>)) (\<lambda>created.
            ret (if created then resp\<lparr>ImportedNotificationChannels := ImportedNotificationChannels resp + 1\<rparr> else skipped,
                 insert channelType channelTypeExists)))"

definition importNotificationChannels ::
  "env \<Rightarrow> backupNotificationChannelPayload list \<Rightarrow> (string \<rightharpoonup> nat) \<Rightarrow> BackupImportResp \<Rightarrow> BackupImportResp io" where
  "importNotificationChannels E payloads proxyIDByName resp =
     bnd (wrap ''list notification channels for backup import: '' (NotificationChannelRepo_List E)) (\<lambda>existingChannels.
     bnd (fold_each (importNotificationChannel E proxyIDByName) payloads (resp, set (map ch_ChannelType existingChannels)))
       (\<lambda>(resp', _). ret resp'))"

text \<open>Picking the rules that are new: the loop keeps the keys it has seen and the rules to create.\<close>

definition count_rules :: "BackupImportResp \<Rightarrow> int \<Rightarrow> int \<Rightarrow> BackupImportResp" where
  "count_rules resp imported skipped =
     resp\<lparr>ImportedThresholdRules := ImportedThresholdRules resp + imported,
          SkippedThresholdRules := SkippedThresholdRules resp + skipped\<rparr>"

fun newGlobalRules :: "backupGlobalThresholdPayload list \<Rightarrow> string set \<Rightarrow> int \<times> GlobalThresholdRule list" where
  "newGlobalRules [] ruleKeyExists = (0, [])"
| "newGlobalRules (item # items) ruleKeyExists =
     (let key = thresholdRuleKey (bg_PeriodType item) (bg_MetricType item)
      in if key \<in> ruleKeyExists then (case newGlobalRules items ruleKeyExists of (skipped, rules) \<Rightarrow> (skipped + 1, rules))
         else case newGlobalRules items (insert key ruleKeyExists) of (skipped, rules) \<Rightarrow>
           (skipped, \<lparr>gr_ID = 0, gr_CreatedAt = zero_time, gr_UpdatedAt = zero_time, gr_PeriodType = bg_PeriodType item,
                     gr_MetricType = bg_MetricType item, gr_ThresholdMB = bg_ThresholdMB item, gr_Enabled = bg_Enabled item\<rparr> # rules))"

definition importGlobalThresholdRules :: "env \<Rightarrow> backupGlobalThresholdPayload list \<Rightarrow> BackupImportResp \<Rightarrow> BackupImportResp io" where
  "importGlobalThresholdRules E payloads resp =
     (if payloads = [] then ret resp
      else bnd (wrap ''list global threshold rules for backup import: '' (ThresholdRuleRepo_ListGlobalRules E)) (\<lambda>existingRules.
        case newGlobalRules payloads (set (map (\<lambda>r. thresholdRuleKey (gr_PeriodType r) (gr_MetricType r)) existingRules)) of
          (skipped, rules) \<Rightarrow>
            bnd (wrap ''create backup global threshold rules: '' (ThresholdRuleRepo_CreateGlobalRulesIfAbsent E rules)) (\<lambda>created.
            ret (count_rules resp (int created) (skipped + int (length rules) - int created)))))"

definition machineThresholdRuleKey :: "nat \<Rightarrow> string \<Rightarrow> string \<Rightarrow> string" where
  "machineThresholdRuleKey machineID periodType metricType = show_nat machineID @ '':'' @ thresholdRuleKey periodType metricType"

fun newMachineRules ::
  "(string \<rightharpoonup> nat) \<Rightarrow> backupMachineThresholdPayload list \<Rightarrow> string set \<Rightarrow> int \<times> MachineThresholdRule list" where
  "newMachineRules machineIDByName [] ruleKeyExists = (0, [])"
| "newMachineRules machineIDByName (item # items) ruleKeyExists =
     (case machineIDByName (TrimSpace (bt_MachineName item)) of
        None \<Rightarrow> (case newMachineRules machineIDByName items ruleKeyExists of (skipped, rules) \<Rightarrow> (skipped + 1, rules))
      | Some machineID \<Rightarrow>
          (let key = machineThresholdRuleKey machineID (bt_PeriodType item) (bt_MetricType item)
           in if key \<in> ruleKeyExists
              then (case newMachineRules machineIDByName items ruleKeyExists of (skipped, rules) \<Rightarrow> (skipped + 1, rules))
              else case newMachineRules machineIDByName items (insert key ruleKeyExists) of (skipped, rules) \<Rightarrow>
                (skipped, \<lparr>mr_ID = 0, mr_CreatedAt = zero_time, mr_UpdatedAt = zero_time, mr_MachineID = machineID,
                          mr_PeriodType = bt_PeriodType item, mr_MetricType = bt_MetricType item,
                          mr_ThresholdMB = bt_ThresholdMB item, mr_Enabled = bt_Enabled item\<rparr> # rules)))"

text \<open>The identifiers of the machines that rules are imported for; their order does not matter, the
  statement asks for membership.\<close>

definition ruleMachineIDs :: "(string \<rightharpoonup> nat) \<Rightarrow> backupMachineThresholdPayload list \<Rightarrow> nat list" where
  "ruleMachineIDs machineIDByName payloads =
     remdups (List.map_filter (\<lambda>item. machineIDByName (TrimSpace (bt_MachineName item))) payloads)"

definition importMachineThresholdRules ::
  "env \<Rightarrow> backupMachineThresholdPayload list \<Rightarrow> (string \<rightharpoonup> nat) \<Rightarrow> BackupImportResp \<Rightarrow> BackupImportResp io" where
  "importMachineThresholdRules E payloads machineIDByName resp =
     (if payloads = [] then ret resp
      else bnd (wrap ''list machine threshold rules for backup import: ''
                 (ThresholdRuleRepo_ListMachineRulesByMachineIDs E (ruleMachineIDs machineIDByName payloads))) (\<lambda>existingRules.
        case newMachineRules machineIDByName payloads
               (set (map (\<lambda>r. machineThresholdRuleKey (mr_MachineID r) (mr_PeriodType r) (mr_MetricType r)) existingRules)) of
          (skipped, rules) \<Rightarrow>
            bnd (wrap ''create backup machine threshold rules: '' (ThresholdRuleRepo_CreateMachineRulesIfAbsent E rules)) (\<lambda>created.
            ret (count_rules resp (int created) (skipped + int (length rules) - int created)))))"

definition importThresholdRules :: "env \<Rightarrow> backupPayload \<Rightarrow> (string \<rightharpoonup> nat) \<Rightarrow> BackupImportResp \<Rightarrow> BackupImportResp io" where
  "importThresholdRules E payload machineIDByName resp =
     bnd (importGlobalThresholdRules E (bl_GlobalThresholdRules payload) resp)
       (importMachineThresholdRules E (bl_MachineThresholdRules payload) machineIDByName)"

definition no_imports :: BackupImportResp where
  "no_imports = \<lparr>ImportedSSHKeys = 0, SkippedSSHKeys = 0, ImportedMachines = 0, SkippedMachines = 0,
     ImportedNotificationChannels = 0, SkippedNotificationChannels = 0, ImportedNotificationProxies = 0,
     SkippedNotificationProxies = 0, ImportedThresholdRules = 0, SkippedThresholdRules = 0\<rparr>"

definition importPayload :: "env \<Rightarrow> string \<Rightarrow> backupPayload \<Rightarrow> BackupImportResp io" where
  "importPayload E masterKey payload =
     bnd (external (\<lambda>n. validateBackupPayload E (tie_rank E n) payload)) (\<lambda>err.
     case err of
       Some e \<Rightarrow> fail e
     | None \<Rightarrow>
         bnd (wrap ''list ssh keys for backup import: '' (SSHKeyRepo_List E)) (\<lambda>existingSSHKeys.
         bnd (fold_each (importSSHKey E masterKey) (bl_SSHKeys payload)
                (no_imports, map_from sk_Name sk_ID existingSSHKeys, map_from sk_Fingerprint sk_ID existingSSHKeys))
           (\<lambda>(resp, keyIDByName, _).
         bnd (wrap ''list machines for backup import: '' (MachineRepo_List E)) (\<lambda>existingMachines.
         bnd (fold_each (importMachine E keyIDByName) (bl_Machines payload) (resp, map_from mc_Name mc_ID existingMachines))
           (\<lambda>(resp, machineIDByName).
         bnd (importNotificationProxies E (bl_NotificationProxies payload) resp) (\<lambda>(resp, proxyIDByName).
         bnd (importNotificationChannels E (bl_NotificationChannels payload) proxyIDByName resp)
           (importThresholdRules E payload machineIDByName)))))))"

definition BackupService_Import ::
  "env \<Rightarrow> (string \<Rightarrow> backupPayload option) \<Rightarrow> string \<Rightarrow> BackupImportReq \<Rightarrow> BackupImportResp io" where
  "BackupService_Import E unmarshal masterKey req =
     (if TrimSpace (bi_Password req) = [] then fail (Sentinel ErrInvalidBackupRequest)
      else bnd (lift_sum (decryptBackupPayload E (bi_Password req) (bi_Backup req))) (\<lambda>plaintext.
        case unmarshal plaintext of
          None \<Rightarrow> fail (payload_error '': decode backup payload'')
        | Some payload \<Rightarrow> importPayload E masterKey payload))"

end
