(* ===== verification/Alerting.thy ===== *)
theory Alerting
  imports Threshold Notify
begin

text \<open>
  The evaluation half of \<^verbatim>\<open>internal/service/alert_service.go\<close>: samples are compared with the
  effective rules of their machine, an alert is created for every exceeded threshold of a
  completed period, at most once per alert key, and the created alerts are sent to the enabled
  channels. The rules come from a provider, which \<open>EvaluateSamples\<close> takes as an argument like
  the code does (\<^verbatim>\<open>ThresholdRuleProvider\<close>); the program passes the threshold service.
\<close>

section \<open>Definitions\<close>

abbreviation (input) alertNotifyStatusPending :: string where "alertNotifyStatusPending \<equiv> ''pending''"
abbreviation (input) alertNotifyStatusSent :: string where "alertNotifyStatusSent \<equiv> ''sent''"
abbreviation (input) alertNotifyStatusFailed :: string where "alertNotifyStatusFailed \<equiv> ''failed''"
abbreviation (input) alertNotifyStatusSkipped :: string where "alertNotifyStatusSkipped \<equiv> ''skipped''"

definition buildAlertKey :: "nat \<Rightarrow> string \<Rightarrow> string \<Rightarrow> gotime \<Rightarrow> string" where
  "buildAlertKey machineID periodType metricType bucketTime =
     show_nat machineID @ '':'' @ periodType @ '':'' @ metricType @ '':'' @ show_int (time_Unix bucketTime)"

definition isCompletedAlertPeriod :: "TrafficSample \<Rightarrow> gotime \<Rightarrow> bool" where
  "isCompletedAlertPeriod sample now =
     (if ts_PeriodType sample = thresholdPeriodHourly then ts_BucketTime sample < truncate_hour now
      else if ts_PeriodType sample = thresholdPeriodDaily then ts_BucketTime sample < day_start now
      else True)"

fun ruleMap :: "ThresholdRuleResp list \<Rightarrow> (string \<rightharpoonup> ThresholdRuleResp) \<Rightarrow> (string \<rightharpoonup> ThresholdRuleResp)" where
  "ruleMap [] m = m"
| "ruleMap (rule # rules) m =
     ruleMap rules (m(thresholdRuleKey (tr_PeriodType rule) (tr_MetricType rule) \<mapsto> rule))"

definition alertFor :: "TrafficSample \<Rightarrow> string \<Rightarrow> float64 \<Rightarrow> float64 \<Rightarrow> Alert" where
  "alertFor sample metricType actualMB thresholdMB =
     \<lparr>al_ID = 0, al_CreatedAt = zero_time, al_UpdatedAt = zero_time, al_MachineID = ts_MachineID sample,
      al_PeriodType = ts_PeriodType sample, al_MetricType = metricType, al_BucketTime = ts_BucketTime sample,
      al_ThresholdMB = thresholdMB, al_ActualMB = actualMB,
      al_AlertKey = buildAlertKey (ts_MachineID sample) (ts_PeriodType sample) metricType (ts_BucketTime sample),
      al_NotifyStatus = alertNotifyStatusPending\<rparr>"

definition sampleMetrics :: "TrafficSample \<Rightarrow> (string \<times> float64) list" where
  "sampleMetrics sample =
     [(thresholdMetricUpload, ts_UploadMB sample), (thresholdMetricDownload, ts_DownloadMB sample),
      (thresholdMetricTotal, ts_TotalMB sample)]"

fun evaluateMetrics ::
  "env \<Rightarrow> TrafficSample \<Rightarrow> (string \<rightharpoonup> ThresholdRuleResp) \<Rightarrow> (string \<times> float64) list \<Rightarrow> Alert list io" where
  "evaluateMetrics E sample rules [] = ret []"
| "evaluateMetrics E sample rules ((metricType, actualMB) # metrics) =
     (case rules (thresholdRuleKey (ts_PeriodType sample) metricType) of
        None \<Rightarrow> evaluateMetrics E sample rules metrics
      | Some rule \<Rightarrow>
          if \<not> tr_Enabled rule \<or> actualMB \<le> tr_ThresholdMB rule then evaluateMetrics E sample rules metrics
          else
            bnd (wrap ''create alert: ''
                   (AlertRepo_CreateIfAbsent E (alertFor sample metricType actualMB (tr_ThresholdMB rule))))
              (\<lambda>(created, alert).
                 bnd (evaluateMetrics E sample rules metrics) (\<lambda>rest.
                 ret (if created then alert # rest else rest))))"

definition evaluateSample :: "env \<Rightarrow> TrafficSample \<Rightarrow> (string \<rightharpoonup> ThresholdRuleResp) \<Rightarrow> Alert list io" where
  "evaluateSample E sample rules = evaluateMetrics E sample rules (sampleMetrics sample)"

definition createNotificationDelivery :: "env \<Rightarrow> string \<Rightarrow> Alert \<Rightarrow> go_error + string \<Rightarrow> unit io" where
  "createNotificationDelivery E channelType alert sendResult =
     wrap ''create notification delivery: '' (NotificationDeliveryRepo_Create E
       (case sendResult of
          Inl sendErr \<Rightarrow> \<lparr>dl_ID = 0, dl_CreatedAt = zero_time, dl_UpdatedAt = zero_time, dl_AlertID = al_ID alert,
                         dl_ChannelType = channelType, dl_Success = False, dl_ResponseExcerpt = [],
                         dl_ErrorMessage = trimMessage (error_text sendErr)\<rparr>
        | Inr responseExcerpt \<Rightarrow>
            \<lparr>dl_ID = 0, dl_CreatedAt = zero_time, dl_UpdatedAt = zero_time, dl_AlertID = al_ID alert,
             dl_ChannelType = channelType, dl_Success = True, dl_ResponseExcerpt = trimMessage responseExcerpt,
             dl_ErrorMessage = []\<rparr>))"

text \<open>The map \<^verbatim>\<open>alertSucceeded\<close> is the list of identifiers set to \<^verbatim>\<open>false\<close>: the program only ever
  sets entries from \<^verbatim>\<open>true\<close> to \<^verbatim>\<open>false\<close>.\<close>

fun recordBatch :: "env \<Rightarrow> string \<Rightarrow> go_error + string \<Rightarrow> Alert list \<Rightarrow> nat list \<Rightarrow> nat list io" where
  "recordBatch E channelType sendResult [] failedIDs = ret failedIDs"
| "recordBatch E channelType sendResult (alert # als) failedIDs =
     bnd (createNotificationDelivery E channelType alert sendResult) (\<lambda>_.
     recordBatch E channelType sendResult als
       (case sendResult of Inl _ \<Rightarrow> al_ID alert # failedIDs | Inr _ \<Rightarrow> failedIDs))"

fun sendEach :: "env \<Rightarrow> NotificationChannel \<Rightarrow> Alert list \<Rightarrow> nat list \<Rightarrow> nat list io" where
  "sendEach E channel [] failedIDs = ret failedIDs"
| "sendEach E channel (alert # als) failedIDs =
     bnd (catching (sendNotification E channel alert)) (\<lambda>sendResult.
     bnd (createNotificationDelivery E (ch_ChannelType channel) alert sendResult) (\<lambda>_.
     sendEach E channel als
       (case sendResult of Inl _ \<Rightarrow> al_ID alert # failedIDs | Inr _ \<Rightarrow> failedIDs)))"

definition dispatchChannel :: "env \<Rightarrow> Alert list \<Rightarrow> NotificationChannel \<Rightarrow> nat list \<Rightarrow> nat list io" where
  "dispatchChannel E als channel failedIDs =
     (if ch_ChannelType channel = channelTypeTelegram
      then bnd (catching (sendTelegramBatch E (ch_ConfigJSON channel) als)) (\<lambda>sendResult.
           recordBatch E (ch_ChannelType channel) sendResult als failedIDs)
      else sendEach E channel als failedIDs)"

fun dispatchChannels :: "env \<Rightarrow> Alert list \<Rightarrow> NotificationChannel list \<Rightarrow> nat list \<Rightarrow> nat list io" where
  "dispatchChannels E als [] failedIDs = ret failedIDs"
| "dispatchChannels E als (channel # chs) failedIDs =
     bnd (dispatchChannel E als channel failedIDs) (\<lambda>failedIDs'. dispatchChannels E als chs failedIDs')"

definition dispatchAlerts :: "env \<Rightarrow> Alert list \<Rightarrow> unit io" where
  "dispatchAlerts E als =
     (if als = [] then ret ()
      else bnd (wrap ''list notification channels: '' (NotificationChannelRepo_List E)) (\<lambda>chs.
        let enabledChannels = filter ch_Enabled chs
        in if enabledChannels = []
           then for_each als (\<lambda>alert. AlertRepo_UpdateNotifyStatus E (al_ID alert) alertNotifyStatusSkipped)
           else bnd (dispatchChannels E als enabledChannels []) (\<lambda>failedIDs.
             for_each als (\<lambda>alert. AlertRepo_UpdateNotifyStatus E (al_ID alert)
               (if al_ID alert \<in> set failedIDs then alertNotifyStatusFailed else alertNotifyStatusSent)))))"

definition dispatchAlert :: "env \<Rightarrow> Alert \<Rightarrow> unit io" where
  "dispatchAlert E alert = dispatchAlerts E [alert]"

fun evaluateAll ::
  "env \<Rightarrow> gotime \<Rightarrow> (string \<rightharpoonup> ThresholdRuleResp) \<Rightarrow> TrafficSample list \<Rightarrow> Alert list io" where
  "evaluateAll E now rules [] = ret []"
| "evaluateAll E now rules (sample # smps) =
     (if \<not> isCompletedAlertPeriod sample now then evaluateAll E now rules smps
      else bnd (evaluateSample E sample rules) (\<lambda>als.
           bnd (evaluateAll E now rules smps) (\<lambda>rest. ret (als @ rest))))"

definition EvaluateSamples ::
  "(nat \<Rightarrow> ThresholdRuleResp list io) \<Rightarrow> env \<Rightarrow> nat \<Rightarrow> TrafficSample list \<Rightarrow> unit io" where
  "EvaluateSamples listEffectiveMachineRules E machineID smps =
     bnd (wrap ''list effective threshold rules: '' (listEffectiveMachineRules machineID)) (\<lambda>rules.
     if rules = [] then ret ()
     else bnd (time_Now E) (\<lambda>now.
       bnd (evaluateAll E now (ruleMap rules Map.empty) smps) (\<lambda>createdAlerts.
       dispatchAlerts E createdAlerts)))"

definition AlertService_EvaluateSamples :: "env \<Rightarrow> nat \<Rightarrow> TrafficSample list \<Rightarrow> unit io" where
  "AlertService_EvaluateSamples E = EvaluateSamples (ThresholdService_ListEffectiveMachineRules E) E"

record AlertResp =
  ar_ID :: nat
  ar_MachineID :: nat
  ar_PeriodType :: string
  ar_MetricType :: string
  ar_BucketTime :: gotime
  ar_ThresholdMB :: float64
  ar_ActualMB :: float64
  ar_NotifyStatus :: string
  ar_NotifiedAt :: "gotime option"
  ar_CreatedAt :: gotime

definition alertResp :: "(nat \<rightharpoonup> NotificationDelivery) \<Rightarrow> Alert \<Rightarrow> AlertResp" where
  "alertResp latestDeliveries alert =
     \<lparr>ar_ID = al_ID alert, ar_MachineID = al_MachineID alert, ar_PeriodType = al_PeriodType alert,
      ar_MetricType = al_MetricType alert, ar_BucketTime = al_BucketTime alert,
      ar_ThresholdMB = al_ThresholdMB alert, ar_ActualMB = al_ActualMB alert,
      ar_NotifyStatus = al_NotifyStatus alert,
      ar_NotifiedAt = map_option dl_CreatedAt (latestDeliveries (al_ID alert)),
      ar_CreatedAt = al_CreatedAt alert\<rparr>"

definition AlertService_ListAlerts :: "env \<Rightarrow> AlertFilter \<Rightarrow> (AlertResp list \<times> nat) io" where
  "AlertService_ListAlerts E query =
     bnd (wrap ''list alerts: '' (AlertRepo_List E query)) (\<lambda>(als, total).
     bnd (wrap ''list latest notification deliveries: ''
            (NotificationDeliveryRepo_GetLatestByAlertIDs E (map al_ID als))) (\<lambda>latestDeliveries.
     ret (map (alertResp latestDeliveries) als, total)))"

section \<open>Alert keys\<close>

lemma show_int_no_colon: "CHR '':'' \<notin> set (show_int i)"
  by (auto simp: show_int_def show_nat_no_colon)

lemma alert_key_inj:
  assumes "CHR '':'' \<notin> set p" and "CHR '':'' \<notin> set p'" and "CHR '':'' \<notin> set q" and "CHR '':'' \<notin> set q'"
  shows "buildAlertKey m p q t = buildAlertKey m' p' q' t' \<longleftrightarrow>
     m = m' \<and> p = p' \<and> q = q' \<and> time_Unix t = time_Unix t'"
proof
  assume eq: "buildAlertKey m p q t = buildAlertKey m' p' q' t'"
  have 1: "show_nat m = show_nat m' \<and>
      p @ CHR '':'' # q @ CHR '':'' # show_int (time_Unix t) = p' @ CHR '':'' # q' @ CHR '':'' # show_int (time_Unix t')"
    using eq show_nat_no_colon by (intro split_at_sep) (simp_all add: buildAlertKey_def)
  then have 2: "p = p' \<and> q @ CHR '':'' # show_int (time_Unix t) = q' @ CHR '':'' # show_int (time_Unix t')"
    using assms by (intro split_at_sep) simp_all
  then have "q = q' \<and> show_int (time_Unix t) = show_int (time_Unix t')"
    using assms by (intro split_at_sep) simp_all
  with 1 2 show "m = m' \<and> p = p' \<and> q = q' \<and> time_Unix t = time_Unix t'" by simp
qed (simp add: buildAlertKey_def)

section \<open>Candidates\<close>

text \<open>The alerts that samples call for: one for each metric of a completed period whose enabled
  rule is exceeded. The evaluation creates these, in this order, unless their key exists.\<close>

definition exceeded :: "(string \<rightharpoonup> ThresholdRuleResp) \<Rightarrow> TrafficSample \<Rightarrow> string \<times> float64 \<Rightarrow> Alert list" where
  "exceeded rules s m =
     (case rules (thresholdRuleKey (ts_PeriodType s) (fst m)) of
        Some r \<Rightarrow> if tr_Enabled r \<and> tr_ThresholdMB r < snd m then [alertFor s (fst m) (snd m) (tr_ThresholdMB r)] else []
      | None \<Rightarrow> [])"

definition candidates :: "(string \<rightharpoonup> ThresholdRuleResp) \<Rightarrow> gotime \<Rightarrow> TrafficSample list \<Rightarrow> Alert list" where
  "candidates rules now smps =
     concat (map (\<lambda>s. concat (map (exceeded rules s) (sampleMetrics s)))
       (filter (\<lambda>s. isCompletedAlertPeriod s now) smps))"

fun createAll :: "env \<Rightarrow> Alert list \<Rightarrow> Alert list io" where
  "createAll E [] = ret []"
| "createAll E (c # cs) =
     bnd (wrap ''create alert: '' (AlertRepo_CreateIfAbsent E c)) (\<lambda>(created, alert).
     bnd (createAll E cs) (\<lambda>rest. ret (if created then alert # rest else rest)))"

lemma evaluateMetrics_eq: "evaluateMetrics E s rules ms = createAll E (concat (map (exceeded rules s) ms))"
  by (induction ms) (auto simp: exceeded_def split: option.split)

lemma createAll_append:
  "createAll E (xs @ ys) = bnd (createAll E xs) (\<lambda>a. bnd (createAll E ys) (\<lambda>b. ret (a @ b)))"
proof (induction xs)
  case Nil
  show ?case by (rule ext) (auto simp: run_simps split: prod.split sum.split)
next
  case (Cons c xs)
  show ?case
    unfolding append_Cons createAll.simps Cons
    by (rule ext) (auto simp: run_simps split: prod.split sum.split)
qed

lemma evaluateAll_eq: "evaluateAll E now rules smps = createAll E (candidates rules now smps)"
proof (induction smps)
  case Nil
  show ?case by (simp add: candidates_def)
next
  case (Cons s smps)
  then show ?case
    by (simp add: evaluateSample_def evaluateMetrics_eq candidates_def createAll_append)
qed

text \<open>A stored alert that was made from a candidate.\<close>

definition stored_as :: "Alert \<Rightarrow> Alert \<Rightarrow> bool" where
  "stored_as c a \<longleftrightarrow> a = c\<lparr>al_ID := al_ID a, al_CreatedAt := al_CreatedAt a, al_UpdatedAt := al_UpdatedAt a\<rparr>"

definition alert_ids_ok :: "world \<Rightarrow> bool" where
  "alert_ids_ok w \<longleftrightarrow> distinct (map al_ID (alerts w)) \<and> (\<forall>a\<in>set (alerts w). al_ID a < seqs w TAlerts)"

lemma create_run:
  assumes "no_faults E"
  shows "wrap ''create alert: '' (AlertRepo_CreateIfAbsent E c) w =
     (let row = c\<lparr>al_ID := seqs w TAlerts, al_CreatedAt := gorm_stamp (al_CreatedAt c) (clk E (tick w)),
                  al_UpdatedAt := gorm_stamp (al_UpdatedAt c) (clk E (tick w))\<rparr>
      in if al_AlertKey c \<in> al_AlertKey ` set (alerts w)
         then (Inr (False, c), bump_seq TAlerts 1 (ticked 1 w))
         else (Inr (True, row), (bump_seq TAlerts 1 (ticked 1 w))\<lparr>alerts := alerts w @ [row]\<rparr>))"
  using assms
  by (simp add: AlertRepo_CreateIfAbsent_def run_simps Let_def sql_insert_ignore_def bump_seq_def)

lemma createAll_run:
  assumes "no_faults E" and "alert_ids_ok w"
  shows "\<exists>als w'. createAll E cs w = (Inr als, w') \<and> alerts w' = alerts w @ als \<and>
     al_AlertKey ` set (alerts w') = al_AlertKey ` set (alerts w) \<union> al_AlertKey ` set cs \<and>
     (\<forall>a\<in>set als. al_AlertKey a \<notin> al_AlertKey ` set (alerts w) \<and> (\<exists>c\<in>set cs. stored_as c a)) \<and>
     distinct (map al_AlertKey als) \<and> alert_ids_ok w' \<and>
     deliveries w' = deliveries w \<and> outbox w' = outbox w \<and> channels w' = channels w"
  using assms(2)
proof (induction cs arbitrary: w)
  case Nil
  then show ?case by (auto simp: run_simps)
next
  case (Cons c cs)
  let ?row = "c\<lparr>al_ID := seqs w TAlerts, al_CreatedAt := gorm_stamp (al_CreatedAt c) (clk E (tick w)),
                al_UpdatedAt := gorm_stamp (al_UpdatedAt c) (clk E (tick w))\<rparr>"
  show ?case
  proof (cases "al_AlertKey c \<in> al_AlertKey ` set (alerts w)")
    case True
    have "alert_ids_ok (bump_seq TAlerts 1 (ticked 1 w))"
      using Cons.prems by (auto simp: alert_ids_ok_def)
    from Cons.IH [OF this] True show ?thesis
      by (auto simp: run_bnd create_run [OF assms(1)] run_ret)
  next
    case False
    let ?w = "(bump_seq TAlerts 1 (ticked 1 w))\<lparr>alerts := alerts w @ [?row]\<rparr>"
    have "alert_ids_ok ?w"
      using Cons.prems by (auto simp: alert_ids_ok_def)
    from Cons.IH [OF this] obtain als w' where ih: "createAll E cs ?w = (Inr als, w')"
      "alerts w' = (alerts w @ [?row]) @ als"
      "al_AlertKey ` set (alerts w') = al_AlertKey ` set (alerts w @ [?row]) \<union> al_AlertKey ` set cs"
      "\<forall>a\<in>set als. al_AlertKey a \<notin> al_AlertKey ` set (alerts w @ [?row]) \<and> (\<exists>c\<in>set cs. stored_as c a)"
      "distinct (map al_AlertKey als)" "alert_ids_ok w'" "deliveries w' = deliveries w" "outbox w' = outbox w"
      "channels w' = channels w"
      by auto
    have "createAll E (c # cs) w = (Inr (?row # als), w')"
      using False ih(1) by (simp add: run_bnd create_run [OF assms(1)] run_ret Let_def)
    moreover have "stored_as c ?row" by (simp add: stored_as_def)
    ultimately show ?thesis using ih False by auto
  qed
qed

section \<open>Dispatch\<close>

definition tables :: "world \<Rightarrow> world" where
  "tables w = w\<lparr>tick := 0, outbox := [], ssh_log := []\<rparr>"

lemma tables_eq:
  assumes "tables v = tables w"
  shows "alerts v = alerts w" "deliveries v = deliveries w" "channels v = channels w" "seqs v = seqs w"
    "machines v = machines w" "proxies v = proxies w" "samples v = samples w"
  using arg_cong [OF assms, of alerts] arg_cong [OF assms, of deliveries] arg_cong [OF assms, of channels]
    arg_cong [OF assms, of seqs] arg_cong [OF assms, of machines] arg_cong [OF assms, of proxies]
    arg_cong [OF assms, of samples]
  by (simp_all add: tables_def)

lemma tables_free: "tick_free (\<lambda>v. tables v = t)" "outbox_free (\<lambda>v. tables v = t)"
  by (simp_all add: tick_free_def outbox_free_def tables_def)

lemma send_tables: "tables (snd (sendNotification E ch a w)) = tables w"
  using keeps_sendNotification [OF tables_free, of "tables w" E ch a] by (simp add: keeps_def)

lemma send_batch_tables: "tables (snd (sendTelegramBatch E j as w)) = tables w"
  using keeps_sendTelegramBatch [OF tables_free, of "tables w" E j as] by (simp add: keeps_def)

text \<open>What handing alerts to channels leaves behind: one delivery per listed pair of channel and
  alert, the failed ones collected, and no alert changed.\<close>

definition delivery_pair :: "NotificationDelivery \<Rightarrow> string \<times> nat" where
  "delivery_pair d = (dl_ChannelType d, dl_AlertID d)"

definition delivered :: "(string \<times> nat) list \<Rightarrow> nat list \<Rightarrow> world \<Rightarrow> nat list \<Rightarrow> world \<Rightarrow> bool" where
  "delivered pairs f w f' w' \<longleftrightarrow> alerts w' = alerts w \<and>
     (\<exists>news. deliveries w' = deliveries w @ news \<and> map delivery_pair news = pairs \<and>
        set f' = set f \<union> dl_AlertID ` {d \<in> set news. \<not> dl_Success d})"

lemma delivered_refl: "delivered [] f w f w"
  by (simp add: delivered_def)

lemma delivered_trans:
  assumes "delivered ps f w f1 w1" and "delivered qs f1 w1 f2 w2"
  shows "delivered (ps @ qs) f w f2 w2"
proof -
  from assms(1) obtain a where a: "deliveries w1 = deliveries w @ a" "map delivery_pair a = ps"
    "set f1 = set f \<union> dl_AlertID ` {d \<in> set a. \<not> dl_Success d}" "alerts w1 = alerts w"
    by (auto simp: delivered_def)
  from assms(2) obtain b where b: "deliveries w2 = deliveries w1 @ b" "map delivery_pair b = qs"
    "set f2 = set f1 \<union> dl_AlertID ` {d \<in> set b. \<not> dl_Success d}" "alerts w2 = alerts w1"
    by (auto simp: delivered_def)
  from a b show ?thesis
    unfolding delivered_def by (intro conjI exI [of _ "a @ b"]) auto
qed

lemma delivery_run:
  assumes "no_faults E"
  shows "\<exists>w'. createNotificationDelivery E ct a r w = (Inr (), w') \<and>
     delivered [(ct, al_ID a)] f w (case r of Inl _ \<Rightarrow> al_ID a # f | Inr _ \<Rightarrow> f) w'"
proof (cases r)
  case (Inl e)
  show ?thesis
    unfolding createNotificationDelivery_def NotificationDeliveryRepo_Create_def Inl
    by (simp add: run_statement [OF assms] run_wrap Let_def delivered_def delivery_pair_def)
      (force simp: image_iff)
next
  case (Inr t)
  show ?thesis
    unfolding createNotificationDelivery_def NotificationDeliveryRepo_Create_def Inr
    by (simp add: run_statement [OF assms] run_wrap Let_def delivered_def delivery_pair_def) auto
qed

lemma recordBatch_run:
  assumes "no_faults E"
  shows "\<exists>f' w'. recordBatch E ct r as f w = (Inr f', w') \<and> delivered (map (\<lambda>a. (ct, al_ID a)) as) f w f' w'"
proof (induction as arbitrary: f w)
  case Nil
  then show ?case by (simp add: run_simps delivered_refl)
next
  case (Cons a as)
  let ?f = "case r of Inl _ \<Rightarrow> al_ID a # f | Inr _ \<Rightarrow> f"
  obtain w1 where w1: "createNotificationDelivery E ct a r w = (Inr (), w1)"
    "delivered [(ct, al_ID a)] f w ?f w1"
    using delivery_run [OF assms] by blast
  obtain f' w' where "recordBatch E ct r as ?f w1 = (Inr f', w')"
    and d: "delivered (map (\<lambda>a. (ct, al_ID a)) as) ?f w1 f' w'"
    using Cons by blast
  with w1 have "recordBatch E ct r (a # as) f w = (Inr f', w')" by (simp add: run_simps)
  moreover have "delivered (map (\<lambda>a. (ct, al_ID a)) (a # as)) f w f' w'"
    using delivered_trans [OF w1(2) d] by simp
  ultimately show ?case by blast
qed

lemma delivered_after_send:
  "tables v = tables w \<Longrightarrow> delivered ps f v f' w' \<Longrightarrow> delivered ps f w f' w'"
  using tables_eq [of v w] by (simp add: delivered_def)

lemma sendEach_run:
  assumes "no_faults E"
  shows "\<exists>f' w'. sendEach E ch as f w = (Inr f', w') \<and>
     delivered (map (\<lambda>a. (ch_ChannelType ch, al_ID a)) as) f w f' w'"
proof (induction as arbitrary: f w)
  case Nil
  then show ?case by (simp add: run_simps delivered_refl)
next
  case (Cons a as)
  let ?r = "fst (sendNotification E ch a w)" and ?v = "snd (sendNotification E ch a w)"
  let ?f = "case ?r of Inl _ \<Rightarrow> al_ID a # f | Inr _ \<Rightarrow> f"
  obtain w1 where w1: "createNotificationDelivery E (ch_ChannelType ch) a ?r ?v = (Inr (), w1)"
    "delivered [(ch_ChannelType ch, al_ID a)] f ?v ?f w1"
    using delivery_run [OF assms] by blast
  obtain f' w' where "sendEach E ch as ?f w1 = (Inr f', w')"
    and d: "delivered (map (\<lambda>a. (ch_ChannelType ch, al_ID a)) as) ?f w1 f' w'"
    using Cons by blast
  with w1 have "sendEach E ch (a # as) f w = (Inr f', w')" by (simp add: run_simps)
  moreover have "delivered (map (\<lambda>a. (ch_ChannelType ch, al_ID a)) (a # as)) f w f' w'"
    using delivered_after_send [OF send_tables delivered_trans [OF w1(2) d]] by simp
  ultimately show ?case by blast
qed

lemma dispatchChannel_run:
  assumes "no_faults E"
  shows "\<exists>f' w'. dispatchChannel E as ch f w = (Inr f', w') \<and>
     delivered (map (\<lambda>a. (ch_ChannelType ch, al_ID a)) as) f w f' w'"
proof (cases "ch_ChannelType ch = ''telegram''")
  case True
  let ?r = "fst (sendTelegramBatch E (ch_ConfigJSON ch) as w)"
  let ?v = "snd (sendTelegramBatch E (ch_ConfigJSON ch) as w)"
  obtain f' w' where "recordBatch E (ch_ChannelType ch) ?r as f ?v = (Inr f', w')"
    and "delivered (map (\<lambda>a. (ch_ChannelType ch, al_ID a)) as) f ?v f' w'"
    using recordBatch_run [OF assms] by blast
  then show ?thesis
    using True delivered_after_send [OF send_batch_tables] by (auto simp: dispatchChannel_def run_simps)
next
  case False
  with sendEach_run [OF assms] show ?thesis by (simp add: dispatchChannel_def)
qed

definition delivery_plan :: "NotificationChannel list \<Rightarrow> Alert list \<Rightarrow> (string \<times> nat) list" where
  "delivery_plan chs as = concat (map (\<lambda>ch. map (\<lambda>a. (ch_ChannelType ch, al_ID a)) as) chs)"

lemma dispatchChannels_run:
  assumes "no_faults E"
  shows "\<exists>f' w'. dispatchChannels E as chs f w = (Inr f', w') \<and> delivered (delivery_plan chs as) f w f' w'"
proof (induction chs arbitrary: f w)
  case Nil
  then show ?case by (simp add: run_simps delivered_refl delivery_plan_def)
next
  case (Cons ch chs)
  obtain f1 w1 where 1: "dispatchChannel E as ch f w = (Inr f1, w1)"
    "delivered (map (\<lambda>a. (ch_ChannelType ch, al_ID a)) as) f w f1 w1"
    using dispatchChannel_run [OF assms] by blast
  obtain f' w' where 2: "dispatchChannels E as chs f1 w1 = (Inr f', w')" "delivered (delivery_plan chs as) f1 w1 f' w'"
    using Cons by blast
  from delivered_trans [OF 1(2) 2(2)] 1 2 show ?case
    by (auto simp: run_simps delivery_plan_def)
qed

definition alert_view :: "Alert \<Rightarrow> Alert" where
  "alert_view a = a\<lparr>al_UpdatedAt := 0\<rparr>"

lemma update_status_run:
  assumes "no_faults E"
  shows "\<exists>w'. for_each as (\<lambda>a. AlertRepo_UpdateNotifyStatus E (al_ID a) (g (al_ID a))) w = (Inr (), w') \<and>
     map alert_view (alerts w') =
       map (\<lambda>r. alert_view (if al_ID r \<in> al_ID ` set as then r\<lparr>al_NotifyStatus := g (al_ID r)\<rparr> else r)) (alerts w) \<and>
     deliveries w' = deliveries w \<and> outbox w' = outbox w"
proof (induction as arbitrary: w)
  case Nil
  then show ?case by (simp add: run_simps)
next
  case (Cons a as)
  let ?upd = "\<lambda>r. if al_ID r = al_ID a then r\<lparr>al_NotifyStatus := g (al_ID a), al_UpdatedAt := clk E (tick w)\<rparr> else r"
  let ?w = "(ticked 1 w)\<lparr>alerts := map ?upd (alerts w)\<rparr>"
  have 1: "AlertRepo_UpdateNotifyStatus E (al_ID a) (g (al_ID a)) w = (Inr (), ?w)"
    using assms by (simp add: AlertRepo_UpdateNotifyStatus_def run_simps sql_update_def)
  obtain w' where 2: "for_each as (\<lambda>a. AlertRepo_UpdateNotifyStatus E (al_ID a) (g (al_ID a))) ?w = (Inr (), w')"
    "map alert_view (alerts w') = map (\<lambda>r. alert_view (if al_ID r \<in> al_ID ` set as
        then r\<lparr>al_NotifyStatus := g (al_ID r)\<rparr> else r)) (alerts ?w)"
    "deliveries w' = deliveries ?w" "outbox w' = outbox ?w"
    using Cons [of ?w] by blast
  have "for_each (a # as) (\<lambda>a. AlertRepo_UpdateNotifyStatus E (al_ID a) (g (al_ID a))) w = (Inr (), w')"
    by (simp only: for_each.simps run_bnd 1 2(1) prod.case sum.case)
  moreover have "map alert_view (alerts w') = map (\<lambda>r. alert_view (if al_ID r \<in> al_ID ` set (a # as)
        then r\<lparr>al_NotifyStatus := g (al_ID r)\<rparr> else r)) (alerts w)"
    unfolding 2(2) by (simp add: alert_view_def)
  ultimately show ?case using 2(3,4) by simp
qed

text \<open>The specification of a dispatch: what it leaves in the two tables.\<close>

definition dispatched :: "Alert list \<Rightarrow> world \<Rightarrow> world \<Rightarrow> bool" where
  "dispatched as w w' \<longleftrightarrow>
     (let enabled = filter ch_Enabled (sort_key ch_ChannelType (channels w)) in
      \<exists>news. deliveries w' = deliveries w @ news \<and> map delivery_pair news = delivery_plan enabled as \<and>
        map alert_view (alerts w') =
          map (\<lambda>r. alert_view (if al_ID r \<in> al_ID ` set as
             then r\<lparr>al_NotifyStatus :=
                if enabled = [] then ''skipped''
                else if \<exists>d\<in>set news. dl_AlertID d = al_ID r \<and> \<not> dl_Success d then ''failed'' else ''sent''\<rparr>
             else r)) (alerts w))"

lemma dispatch_run:
  assumes "no_faults E"
  shows "\<exists>w'. dispatchAlerts E as w = (Inr (), w') \<and> dispatched as w w'"
proof -
  let ?chs = "filter ch_Enabled (sort_key ch_ChannelType (channels w))"
  have list: "wrap ''list notification channels: '' (NotificationChannelRepo_List E) w =
      (Inr (sort_key ch_ChannelType (channels w)), ticked 1 w)"
    using assms by (simp add: NotificationChannelRepo_List_def run_simps)
  consider "as = []" | "as \<noteq> []" "?chs = []" | "as \<noteq> []" "?chs \<noteq> []" by blast
  then show ?thesis
  proof cases
    case 1
    then show ?thesis
      by (simp add: dispatchAlerts_def run_ret dispatched_def delivery_plan_def)
  next
    case 2
    then have "dispatchAlerts E as w =
        for_each as (\<lambda>a. AlertRepo_UpdateNotifyStatus E (al_ID a) ''skipped'') (ticked 1 w)"
      by (simp add: dispatchAlerts_def run_bnd list Let_def)
    with 2 update_status_run [OF assms, of as "\<lambda>_. ''skipped''" "ticked 1 w"] show ?thesis
      by (auto simp: dispatched_def delivery_plan_def)
  next
    case 3
    obtain f w1 where f: "dispatchChannels E as ?chs [] (ticked 1 w) = (Inr f, w1)"
      and d: "delivered (delivery_plan ?chs as) [] (ticked 1 w) f w1"
      using dispatchChannels_run [OF assms] by blast
    from d obtain news where news: "deliveries w1 = deliveries w @ news" "alerts w1 = alerts w"
      "map delivery_pair news = delivery_plan ?chs as" "set f = dl_AlertID ` {d \<in> set news. \<not> dl_Success d}"
      by (auto simp: delivered_def)
    let ?g = "\<lambda>i. if \<exists>d\<in>set news. dl_AlertID d = i \<and> \<not> dl_Success d then ''failed'' else ''sent''"
    have "i \<in> set f \<longleftrightarrow> (\<exists>d\<in>set news. dl_AlertID d = i \<and> \<not> dl_Success d)" for i
      using news(4) by auto
    then have g: "(\<lambda>a. AlertRepo_UpdateNotifyStatus E (al_ID a) (if al_ID a \<in> set f then ''failed'' else ''sent'')) =
        (\<lambda>a. AlertRepo_UpdateNotifyStatus E (al_ID a) (?g (al_ID a)))"
      by simp
    from 3 f have run: "dispatchAlerts E as w = for_each as (\<lambda>a. AlertRepo_UpdateNotifyStatus E (al_ID a) (?g (al_ID a))) w1"
      by (simp add: dispatchAlerts_def run_bnd list Let_def g [symmetric])
    obtain w' where w': "for_each as (\<lambda>a. AlertRepo_UpdateNotifyStatus E (al_ID a) (?g (al_ID a))) w1 = (Inr (), w')"
      "map alert_view (alerts w') = map (\<lambda>r. alert_view (if al_ID r \<in> al_ID ` set as
          then r\<lparr>al_NotifyStatus := ?g (al_ID r)\<rparr> else r)) (alerts w1)" "deliveries w' = deliveries w1"
      using update_status_run [OF assms, of as ?g w1] by blast
    have "dispatched as w w'"
      unfolding dispatched_def Let_def
      using 3 news w' by (intro exI [of _ news] conjI) (simp_all only: if_False)
    with w'(1) run show ?thesis by auto
  qed
qed

section \<open>Evaluation against a provider of rules\<close>

lemma ruleMap_lookup:
  assumes "\<forall>r\<in>set rs. valid_dimension (tr_PeriodType r) (tr_MetricType r)"
    and "distinct (map tr_key rs)" and "valid_dimension p q"
  shows "ruleMap rs m (thresholdRuleKey p q) =
     (case lookup_by tr_key (p, q) rs of Some r \<Rightarrow> Some r | None \<Rightarrow> m (thresholdRuleKey p q))"
  using assms
proof (induction rs arbitrary: m)
  case Nil
  then show ?case by (simp add: lookup_by_def)
next
  case (Cons r rs)
  have split: "lookup_by tr_key (p, q) (r # rs) = (if tr_key r = (p, q) then Some r else lookup_by tr_key (p, q) rs)"
    by (simp add: lookup_by_def)
  show ?case
  proof (cases "tr_key r = (p, q)")
    case True
    with Cons.prems have "lookup_by tr_key (p, q) rs = None"
      by (auto simp: resp_tbl.lookup_None)
    moreover from True have "tr_PeriodType r = p" "tr_MetricType r = q" by (simp_all add: tr_key_def)
    ultimately show ?thesis using Cons True by (simp add: split)
  next
    case False
    with Cons.prems have "thresholdRuleKey p q \<noteq> thresholdRuleKey (tr_PeriodType r) (tr_MetricType r)"
      by (auto simp: thresholdRuleKey_eq_iff tr_key_def)
    with Cons False show ?thesis by (simp add: split cong: option.case_cong)
  qed
qed

text \<open>What samples call for, in terms of the rules in force: a sample whose clock hour or UTC day is
  over, a metric with its measured value, and the exceeded threshold of an enabled rule.\<close>

definition period_over :: "TrafficSample \<Rightarrow> gotime \<Rightarrow> bool" where
  "period_over s now \<longleftrightarrow>
     ts_PeriodType s = ''hourly'' \<and> ts_BucketTime s div hour_ns < now div hour_ns \<or>
     ts_PeriodType s = ''daily'' \<and> ts_BucketTime s div day_ns < now div day_ns"

definition measured :: "TrafficSample \<Rightarrow> string \<Rightarrow> float64 \<Rightarrow> bool" where
  "measured s q v \<longleftrightarrow> q = ''upload'' \<and> v = ts_UploadMB s \<or> q = ''download'' \<and> v = ts_DownloadMB s \<or>
     q = ''total'' \<and> v = ts_TotalMB s"

definition alerting ::
  "(string \<times> string \<Rightarrow> ThresholdRuleResp option) \<Rightarrow> gotime \<Rightarrow> TrafficSample list
     \<Rightarrow> (TrafficSample \<times> string \<times> float64 \<times> float64) set" where
  "alerting rules now smps =
     {(s, q, actual, threshold). s \<in> set smps \<and> period_over s now \<and> measured s q actual \<and>
        (\<exists>r. rules (ts_PeriodType s, q) = Some r \<and> tr_Enabled r \<and> tr_ThresholdMB r = threshold \<and> threshold < actual)}"

definition alertFor_tuple :: "TrafficSample \<times> string \<times> float64 \<times> float64 \<Rightarrow> Alert" where
  "alertFor_tuple x = (case x of (s, q, actual, threshold) \<Rightarrow> alertFor s q actual threshold)"

definition known_period :: "TrafficSample \<Rightarrow> bool" where
  "known_period s \<longleftrightarrow> ts_PeriodType s = ''hourly'' \<or> ts_PeriodType s = ''daily''"

definition rules_wf :: "ThresholdRuleResp list \<Rightarrow> bool" where
  "rules_wf rs \<longleftrightarrow> distinct (map tr_key rs) \<and> (\<forall>r\<in>set rs. valid_dimension (tr_PeriodType r) (tr_MetricType r))"

lemma before_boundary: "0 < h \<Longrightarrow> b < n - n mod h \<longleftrightarrow> b div h < n div h" for b n h :: int
proof -
  assume h: "0 < h"
  have b: "b = h * (b div h) + b mod h" "0 \<le> b mod h" "b mod h < h" using h by simp_all
  have "h * (n div h) \<le> b" if "n div h \<le> b div h"
    using mult_left_mono [OF that, of h] b h by linarith
  moreover have "b < h * (n div h)" if "b div h + 1 \<le> n div h"
  proof -
    have "h * (b div h) + h \<le> h * (n div h)" using mult_left_mono [OF that, of h] h by (simp add: distrib_left)
    with b show ?thesis by linarith
  qed
  ultimately have "b < h * (n div h) \<longleftrightarrow> b div h < n div h" by force
  then show ?thesis by (simp add: minus_mod_eq_mult_div)
qed

lemma completed_iff: "known_period s \<Longrightarrow> isCompletedAlertPeriod s now \<longleftrightarrow> period_over s now"
  by (auto simp: known_period_def isCompletedAlertPeriod_def period_over_def truncate_hour_def day_start_def
      before_boundary hour_ns_def day_ns_def second_ns_def)

lemma measured_iff: "measured s q v \<longleftrightarrow> (q, v) \<in> set (sampleMetrics s)"
  by (auto simp: measured_def sampleMetrics_def)

lemma candidates_set:
  assumes "rules_wf rs" and "\<forall>s\<in>set smps. known_period s"
  shows "set (candidates (ruleMap rs Map.empty) now smps) =
     alertFor_tuple ` alerting (\<lambda>d. lookup_by tr_key d rs) now smps"
proof -
  have key: "ruleMap rs Map.empty (thresholdRuleKey (ts_PeriodType s) (fst m)) = lookup_by tr_key (ts_PeriodType s, fst m) rs"
    if "s \<in> set smps" "m \<in> set (sampleMetrics s)" for s m
  proof -
    have "valid_dimension (ts_PeriodType s) (fst m)"
      using that assms(2) by (auto simp: sampleMetrics_def valid_dimension_iff known_period_def)
    then show ?thesis
      using assms(1) by (simp add: rules_wf_def ruleMap_lookup split: option.split)
  qed
  have ex: "x \<in> set (exceeded (ruleMap rs Map.empty) s m) \<longleftrightarrow>
      (\<exists>r. lookup_by tr_key (ts_PeriodType s, fst m) rs = Some r \<and> tr_Enabled r \<and> tr_ThresholdMB r < snd m \<and>
         x = alertFor s (fst m) (snd m) (tr_ThresholdMB r))"
    if "s \<in> set smps" "m \<in> set (sampleMetrics s)" for s m x
    using key [OF that]
    by (cases "lookup_by tr_key (ts_PeriodType s, fst m) rs") (auto simp: exceeded_def)
  show ?thesis
  proof (intro set_eqI iffI)
    fix x assume "x \<in> set (candidates (ruleMap rs Map.empty) now smps)"
    then obtain s m where s: "s \<in> set smps" "isCompletedAlertPeriod s now" "m \<in> set (sampleMetrics s)"
      and x: "x \<in> set (exceeded (ruleMap rs Map.empty) s m)"
      by (auto simp: candidates_def)
    with ex [OF s(1,3)] obtain r where "lookup_by tr_key (ts_PeriodType s, fst m) rs = Some r" "tr_Enabled r"
      "tr_ThresholdMB r < snd m" "x = alertFor_tuple (s, fst m, snd m, tr_ThresholdMB r)"
      by (auto simp: alertFor_tuple_def)
    with s show "x \<in> alertFor_tuple ` alerting (\<lambda>d. lookup_by tr_key d rs) now smps"
      by (intro image_eqI [of _ _ "(s, fst m, snd m, tr_ThresholdMB r)"])
        (simp_all add: alerting_def measured_iff completed_iff [symmetric] assms(2))
  next
    fix x assume "x \<in> alertFor_tuple ` alerting (\<lambda>d. lookup_by tr_key d rs) now smps"
    then obtain s q v t r where x: "x = alertFor s q v t" and s: "s \<in> set smps" "isCompletedAlertPeriod s now"
      "(q, v) \<in> set (sampleMetrics s)" "lookup_by tr_key (ts_PeriodType s, q) rs = Some r" "tr_Enabled r"
      "tr_ThresholdMB r = t" "t < v"
      using assms(2) by (auto simp: alerting_def alertFor_tuple_def measured_iff completed_iff)
    then have "x \<in> set (exceeded (ruleMap rs Map.empty) s (q, v))"
      using ex [OF s(1,3)] by simp
    with s show "x \<in> set (candidates (ruleMap rs Map.empty) now smps)"
      by (auto simp: candidates_def)
  qed
qed

lemma alert_view_fields:
  assumes "alert_view a = alert_view b"
  shows "al_ID a = al_ID b" "al_AlertKey a = al_AlertKey b" "al_MachineID a = al_MachineID b"
    "al_PeriodType a = al_PeriodType b" "al_MetricType a = al_MetricType b" "al_BucketTime a = al_BucketTime b"
    "al_ThresholdMB a = al_ThresholdMB b" "al_ActualMB a = al_ActualMB b" "al_NotifyStatus a = al_NotifyStatus b"
  using arg_cong [OF assms, of al_ID] arg_cong [OF assms, of al_AlertKey] arg_cong [OF assms, of al_MachineID]
    arg_cong [OF assms, of al_PeriodType] arg_cong [OF assms, of al_MetricType]
    arg_cong [OF assms, of al_BucketTime] arg_cong [OF assms, of al_ThresholdMB]
    arg_cong [OF assms, of al_ActualMB] arg_cong [OF assms, of al_NotifyStatus]
  by (simp_all add: alert_view_def)

text \<open>An alert row for the same event: equal up to identifier, time stamps and status.\<close>

definition same_event :: "Alert \<Rightarrow> Alert \<Rightarrow> bool" where
  "same_event c a \<longleftrightarrow> al_AlertKey a = al_AlertKey c \<and> al_MachineID a = al_MachineID c \<and>
     al_PeriodType a = al_PeriodType c \<and> al_MetricType a = al_MetricType c \<and> al_BucketTime a = al_BucketTime c \<and>
     al_ThresholdMB a = al_ThresholdMB c \<and> al_ActualMB a = al_ActualMB c"

lemma stored_as_fields:
  assumes "stored_as c a"
  shows "al_AlertKey a = al_AlertKey c" "al_MachineID a = al_MachineID c" "al_PeriodType a = al_PeriodType c"
    "al_MetricType a = al_MetricType c" "al_BucketTime a = al_BucketTime c"
    "al_ThresholdMB a = al_ThresholdMB c" "al_ActualMB a = al_ActualMB c"
  using arg_cong [OF assms [unfolded stored_as_def], of al_AlertKey]
    arg_cong [OF assms [unfolded stored_as_def], of al_MachineID]
    arg_cong [OF assms [unfolded stored_as_def], of al_PeriodType]
    arg_cong [OF assms [unfolded stored_as_def], of al_MetricType]
    arg_cong [OF assms [unfolded stored_as_def], of al_BucketTime]
    arg_cong [OF assms [unfolded stored_as_def], of al_ThresholdMB]
    arg_cong [OF assms [unfolded stored_as_def], of al_ActualMB]
  by simp_all

lemma dispatched_status:
  assumes "dispatched as w w'"
  obtains st where "\<forall>i. st i \<in> {''skipped'', ''failed'', ''sent''}"
    and "map alert_view (alerts w') = map (\<lambda>r. alert_view (if al_ID r \<in> al_ID ` set as
        then r\<lparr>al_NotifyStatus := st (al_ID r)\<rparr> else r)) (alerts w)"
proof -
  let ?enabled = "filter ch_Enabled (sort_key ch_ChannelType (channels w))"
  from assms obtain news :: "NotificationDelivery list" where n: "map alert_view (alerts w') =
          map (\<lambda>r. alert_view (if al_ID r \<in> al_ID ` set as
             then r\<lparr>al_NotifyStatus :=
                if ?enabled = [] then ''skipped''
                else if \<exists>d\<in>set news. dl_AlertID d = al_ID r \<and> \<not> dl_Success d then ''failed'' else ''sent''\<rparr>
             else r)) (alerts w)"
    unfolding dispatched_def Let_def by blast
  show ?thesis
    by (rule that [of "\<lambda>i. if ?enabled = [] then ''skipped''
          else if \<exists>d\<in>set news. dl_AlertID d = i \<and> \<not> dl_Success d then ''failed'' else ''sent''", OF _ n]) simp
qed

locale rule_provider =
  fixes listRules :: "nat \<Rightarrow> ThresholdRuleResp list io"
    and ready :: "nat \<Rightarrow> world \<Rightarrow> bool"
    and rules_of :: "world \<Rightarrow> nat \<Rightarrow> string \<times> string \<Rightarrow> ThresholdRuleResp option"
    and calls :: nat
  assumes provides: "ready mid w \<Longrightarrow> \<exists>rs. listRules mid w = (Inr rs, ticked calls w) \<and> rules_wf rs \<and>
     (\<forall>d. lookup_by tr_key d rs = rules_of w mid d)"
begin

definition wanted :: "env \<Rightarrow> world \<Rightarrow> nat \<Rightarrow> TrafficSample list \<Rightarrow> Alert set" where
  "wanted E w mid smps = alertFor_tuple ` alerting (rules_of w mid) (clk E (tick w + calls)) smps"

text \<open>The evaluation creates the wanted alerts whose key is new, then dispatches them.\<close>

lemma evaluation_steps:
  assumes "no_faults E" and "ready mid w" and "alert_ids_ok w" and "\<forall>s\<in>set smps. known_period s"
  obtains als w1 w' where "EvaluateSamples listRules E mid smps w = (Inr (), w')"
    and "alerts w1 = alerts w @ als" and "distinct (map al_AlertKey als)"
    and "\<forall>a\<in>set als. al_AlertKey a \<notin> al_AlertKey ` set (alerts w) \<and> (\<exists>c\<in>wanted E w mid smps. stored_as c a)"
    and "al_AlertKey ` set (alerts w1) = al_AlertKey ` set (alerts w) \<union> al_AlertKey ` wanted E w mid smps"
    and "deliveries w1 = deliveries w" and "outbox w1 = outbox w"
    and "dispatchAlerts E als w1 = (Inr (), w')"
proof -
  obtain rs where rs: "listRules mid w = (Inr rs, ticked calls w)" "rules_wf rs" "\<forall>d. lookup_by tr_key d rs = rules_of w mid d"
    using provides [OF assms(2)] by blast
  let ?now = "clk E (tick w + calls)"
  let ?cs = "candidates (ruleMap rs Map.empty) ?now smps"
  have "(\<lambda>d. lookup_by tr_key d rs) = rules_of w mid" using rs(3) by auto
  with candidates_set [OF rs(2) assms(4), of ?now] have cs: "set ?cs = wanted E w mid smps"
    by (simp add: wanted_def)
  show ?thesis
  proof (cases "rs = []")
    case True
    then have "?cs = []"
      by (simp add: candidates_def exceeded_def)
    with cs have "wanted E w mid smps = {}" by simp
    moreover have "EvaluateSamples listRules E mid smps w = (Inr (), ticked calls w)"
      using rs True by (simp add: EvaluateSamples_def run_simps)
    ultimately show ?thesis
      by (intro that [of "ticked calls w" "ticked calls w" "[]"]) (simp_all add: dispatchAlerts_def run_ret)
  next
    case False
    let ?w0 = "ticked (Suc calls) w"
    have "alert_ids_ok ?w0" using assms(3) by (simp add: alert_ids_ok_def)
    from createAll_run [OF assms(1) this, of ?cs] obtain als w1 where c: "createAll E ?cs ?w0 = (Inr als, w1)"
      "alerts w1 = alerts w @ als" "al_AlertKey ` set (alerts w1) = al_AlertKey ` set (alerts w) \<union> al_AlertKey ` set ?cs"
      "\<forall>a\<in>set als. al_AlertKey a \<notin> al_AlertKey ` set (alerts w) \<and> (\<exists>c\<in>set ?cs. stored_as c a)"
      "distinct (map al_AlertKey als)" "alert_ids_ok w1" "deliveries w1 = deliveries w" "outbox w1 = outbox w"
      "channels w1 = channels w"
      by auto
    obtain w' where "dispatchAlerts E als w1 = (Inr (), w')"
      using dispatch_run [OF assms(1)] by blast
    moreover from this c(1) False rs(1) have "EvaluateSamples listRules E mid smps w = (Inr (), w')"
      by (simp add: EvaluateSamples_def run_simps evaluateAll_eq)
    ultimately show ?thesis using c by (intro that [of w' w1 als]) (simp_all add: cs)
  qed
qed

lemma evaluation_correct:
  assumes "no_faults E" and "ready mid w" and "alert_ids_ok w" and "\<forall>s\<in>set smps. known_period s"
  shows "\<exists>w'. EvaluateSamples listRules E mid smps w = (Inr (), w') \<and>
     al_AlertKey ` set (alerts w') = al_AlertKey ` set (alerts w) \<union> al_AlertKey ` wanted E w mid smps \<and>
     (\<forall>a\<in>set (alerts w'). al_AlertKey a \<notin> al_AlertKey ` set (alerts w) \<longrightarrow>
        al_NotifyStatus a \<in> {''skipped'', ''failed'', ''sent''} \<and>
        (\<exists>c\<in>wanted E w mid smps. same_event c a)) \<and>
     (alert_tbl.unique (alerts w) \<longrightarrow> alert_tbl.unique (alerts w'))"
proof -
  obtain als w1 w' where run: "EvaluateSamples listRules E mid smps w = (Inr (), w')"
    and w1: "alerts w1 = alerts w @ als" "distinct (map al_AlertKey als)"
      "\<forall>a\<in>set als. al_AlertKey a \<notin> al_AlertKey ` set (alerts w) \<and> (\<exists>c\<in>wanted E w mid smps. stored_as c a)"
      "al_AlertKey ` set (alerts w1) = al_AlertKey ` set (alerts w) \<union> al_AlertKey ` wanted E w mid smps"
    and disp: "dispatchAlerts E als w1 = (Inr (), w')"
    by (rule evaluation_steps [OF assms])
  have "dispatched als w1 w'"
    using dispatch_run [OF assms(1), of als w1] disp by simp
  then obtain st where st: "\<forall>i. st i \<in> {''skipped'', ''failed'', ''sent''}"
    and v: "map alert_view (alerts w') = map (\<lambda>r. alert_view (if al_ID r \<in> al_ID ` set als
        then r\<lparr>al_NotifyStatus := st (al_ID r)\<rparr> else r)) (alerts w1)"
    by (rule dispatched_status)
  have "al_AlertKey (alert_view (if b then r\<lparr>al_NotifyStatus := t\<rparr> else r)) = al_AlertKey r" for b r t
    by (simp add: alert_view_def)
  moreover have "al_AlertKey (alert_view r) = al_AlertKey r" for r
    by (simp add: alert_view_def)
  ultimately have keys: "map al_AlertKey (alerts w') = map al_AlertKey (alerts w1)"
    using arg_cong [OF v, of "map al_AlertKey"] by (simp add: comp_def)
  then have kset: "al_AlertKey ` set (alerts w') = al_AlertKey ` set (alerts w1)"
    by (metis list.set_map)
  have "al_NotifyStatus a \<in> {''skipped'', ''failed'', ''sent''} \<and> (\<exists>c\<in>wanted E w mid smps. same_event c a)"
    if a: "a \<in> set (alerts w')" "al_AlertKey a \<notin> al_AlertKey ` set (alerts w)" for a
  proof -
    have "alert_view a \<in> set (map alert_view (alerts w'))" using a(1) by simp
    then obtain r where r: "r \<in> set (alerts w1)"
      "alert_view a = alert_view (if al_ID r \<in> al_ID ` set als then r\<lparr>al_NotifyStatus := st (al_ID r)\<rparr> else r)"
      unfolding v by auto
    then have "al_AlertKey a = al_AlertKey r" using alert_view_fields(2) [OF r(2)] by (simp split: if_splits)
    with r(1) a(2) w1(1) have als: "r \<in> set als" by auto
    then obtain c where c: "c \<in> wanted E w mid smps" "stored_as c r" using w1(3) by blast
    from r(2) als have f: "alert_view a = alert_view (r\<lparr>al_NotifyStatus := st (al_ID r)\<rparr>)" by simp
    from alert_view_fields [OF f] c(2) have "same_event c a"
      by (simp add: same_event_def stored_as_fields)
    moreover from alert_view_fields [OF f] have "al_NotifyStatus a = st (al_ID r)" by simp
    ultimately show ?thesis using c(1) st by auto
  qed
  moreover have "alert_tbl.unique (alerts w')" if "alert_tbl.unique (alerts w)"
    using that w1(1,2,3) unfolding alert_tbl.unique_def keys by (auto simp: image_iff) metis
  ultimately show ?thesis using run kset w1(4) by auto
qed

text \<open>When every wanted alert exists already, the evaluation changes no table and sends nothing.\<close>

lemma evaluation_idle:
  assumes "no_faults E" and "ready mid w" and "alert_ids_ok w" and "\<forall>s\<in>set smps. known_period s"
    and "al_AlertKey ` wanted E w mid smps \<subseteq> al_AlertKey ` set (alerts w)"
  shows "\<exists>w'. EvaluateSamples listRules E mid smps w = (Inr (), w') \<and> alerts w' = alerts w \<and>
     deliveries w' = deliveries w \<and> outbox w' = outbox w"
proof -
  obtain als w1 w' where run: "EvaluateSamples listRules E mid smps w = (Inr (), w')"
    and w1: "alerts w1 = alerts w @ als"
      "\<forall>a\<in>set als. al_AlertKey a \<notin> al_AlertKey ` set (alerts w) \<and> (\<exists>c\<in>wanted E w mid smps. stored_as c a)"
      "deliveries w1 = deliveries w" "outbox w1 = outbox w"
    and disp: "dispatchAlerts E als w1 = (Inr (), w')"
    by (rule evaluation_steps [OF assms(1-4)])
  have "als = []"
  proof (rule ccontr)
    assume "als \<noteq> []"
    then have "hd als \<in> set als" by simp
    with w1(2) obtain c where c: "al_AlertKey (hd als) \<notin> al_AlertKey ` set (alerts w)" "c \<in> wanted E w mid smps"
      "stored_as c (hd als)" by blast
    with assms(5) stored_as_fields(1) [OF c(3)] show False by auto
  qed
  with run w1 disp show ?thesis by (auto simp: dispatchAlerts_def run_ret)
qed

end

text \<open>The threshold service is such a provider, for the machines that exist.\<close>

lemma threshold_provides:
  assumes "no_faults E" and "rules_ok w" and "mid \<in> mc_ID ` set (machines w)"
  shows "\<exists>rs. ThresholdService_ListEffectiveMachineRules E mid w = (Inr rs, ticked 3 w) \<and> rules_wf rs \<and>
     (\<forall>d. lookup_by tr_key d rs = machine_effective E w mid d)"
  using effective_rules_list [OF assms] unfolding rules_wf_def by blast

definition rules_ready :: "env \<Rightarrow> nat \<Rightarrow> world \<Rightarrow> bool" where
  "rules_ready E mid w \<longleftrightarrow> no_faults E \<and> rules_ok w \<and> mid \<in> mc_ID ` set (machines w)"

interpretation thresholds: rule_provider
    "ThresholdService_ListEffectiveMachineRules E" "rules_ready E" "machine_effective E" 3 for E
  by unfold_locales (unfold rules_ready_def, blast intro: threshold_provides)

text \<open>C2. Dispatching alerts, whatever the receivers answer, records exactly one delivery for each
  enabled channel and alert, and sets the status of each alert: skipped without enabled
  channels, failed when one of its deliveries failed, otherwise sent. No other alert changes.\<close>

theorem dispatch_correct:
  assumes "no_faults E"
  shows "\<exists>w'. dispatchAlerts E as w = (Inr (), w') \<and> dispatched as w w'"
  using assms by (rule dispatch_run)

text \<open>The alerts a run of the service has to produce, at the time it reads the clock.\<close>

definition wanted_alerts :: "env \<Rightarrow> world \<Rightarrow> nat \<Rightarrow> TrafficSample list \<Rightarrow> Alert set" where
  "wanted_alerts E w mid smps = alertFor_tuple ` alerting (machine_effective E w mid) (clk E (tick w + 3)) smps"

lemma wanted_alerts_eq: "thresholds.wanted E E w mid smps = wanted_alerts E w mid smps"
  by (simp add: thresholds.wanted_def wanted_alerts_def)

text \<open>C1. Evaluating the samples of a machine ends without error and leaves an alert for each
  exceeded threshold: a completed period, a metric whose measured value is above the
  enabled effective rule. Afterwards the alert keys are the old ones and those of the
  exceeded thresholds; a new alert records the machine, period, metric, bucket, threshold and
  value and is no longer pending; keys stay unique.\<close>

theorem evaluate_samples_correct:
  assumes "no_faults E" and "rules_ok w" and "mid \<in> mc_ID ` set (machines w)" and "alert_ids_ok w"
    and "\<forall>s\<in>set smps. known_period s"
  shows "\<exists>w'. AlertService_EvaluateSamples E mid smps w = (Inr (), w') \<and>
     al_AlertKey ` set (alerts w') = al_AlertKey ` set (alerts w) \<union> al_AlertKey ` wanted_alerts E w mid smps \<and>
     (\<forall>a\<in>set (alerts w'). al_AlertKey a \<notin> al_AlertKey ` set (alerts w) \<longrightarrow>
        al_NotifyStatus a \<in> {''skipped'', ''failed'', ''sent''} \<and>
        (\<exists>c\<in>wanted_alerts E w mid smps. same_event c a)) \<and>
     (alert_tbl.unique (alerts w) \<longrightarrow> alert_tbl.unique (alerts w'))"
proof -
  have "rules_ready E mid w" using assms by (simp add: rules_ready_def)
  from thresholds.evaluation_correct [OF assms(1) this assms(4,5)] show ?thesis
    by (simp only: AlertService_EvaluateSamples_def wanted_alerts_eq)
qed

text \<open>An event is notified at most once: when the alerts that samples call for exist already,
  evaluating the samples again creates no alert, records no delivery and sends no request.\<close>

lemma evaluate_samples_once:
  assumes "no_faults E" and "rules_ok w" and "mid \<in> mc_ID ` set (machines w)" and "alert_ids_ok w"
    and "\<forall>s\<in>set smps. known_period s"
    and "al_AlertKey ` wanted_alerts E w mid smps \<subseteq> al_AlertKey ` set (alerts w)"
  shows "\<exists>w'. AlertService_EvaluateSamples E mid smps w = (Inr (), w') \<and> alerts w' = alerts w \<and>
     deliveries w' = deliveries w \<and> outbox w' = outbox w"
proof -
  have "rules_ready E mid w" using assms by (simp add: rules_ready_def)
  from thresholds.evaluation_idle [OF assms(1) this assms(4,5), unfolded wanted_alerts_eq, OF assms(6)]
  show ?thesis by (simp only: AlertService_EvaluateSamples_def)
qed

text \<open>Alert keys identify events: for samples of the two known periods, two alerts have the
  same key exactly when machine, period, metric and bucket (to the second) agree.\<close>

lemma alert_key_identifies:
  assumes "known_period s" and "known_period s'" and "q \<in> {''upload'', ''download'', ''total''}"
    and "q' \<in> {''upload'', ''download'', ''total''}"
  shows "al_AlertKey (alertFor s q v t) = al_AlertKey (alertFor s' q' v' t') \<longleftrightarrow>
     ts_MachineID s = ts_MachineID s' \<and> ts_PeriodType s = ts_PeriodType s' \<and> q = q' \<and>
     time_Unix (ts_BucketTime s) = time_Unix (ts_BucketTime s')"
proof -
  have "CHR '':'' \<notin> set (ts_PeriodType s)" "CHR '':'' \<notin> set (ts_PeriodType s')" "CHR '':'' \<notin> set q" "CHR '':'' \<notin> set q'"
    using assms by (auto simp: known_period_def)
  from alert_key_inj [OF this] show ?thesis by (simp add: alertFor_def)
qed

section \<open>Examples\<close>

definition example_sample :: TrafficSample where
  "example_sample =
     \<lparr>ts_ID = 1, ts_CreatedAt = 0, ts_UpdatedAt = 0, ts_MachineID = 1, ts_PeriodType = ''hourly'',
      ts_BucketTime = 1699990000 * second_ns, ts_UploadMB = 100, ts_DownloadMB = 900, ts_TotalMB = 1000,
      ts_RawPayload = [], ts_CollectedAt = 0\<rparr>"

definition example_channels :: world where
  "example_channels = example_rules\<lparr>channels :=
     [\<lparr>ch_ID = 1, ch_CreatedAt = 0, ch_UpdatedAt = 0, ch_ChannelType = ''telegram'', ch_Enabled = True,
       ch_ConfigJSON = ''token''\<rparr>,
      \<lparr>ch_ID = 2, ch_CreatedAt = 0, ch_UpdatedAt = 0, ch_ChannelType = ''webhook'', ch_Enabled = True,
       ch_ConfigJSON = ''https://example.org/hook''\<rparr>]\<rparr>"

lemma example_channels_ok:
  "rules_ok example_channels" "1 \<in> mc_ID ` set (machines example_channels)" "alert_ids_ok example_channels"
  "\<forall>s\<in>set [example_sample]. known_period s"
  using example_rules_ok example_rules_machine
  by (simp_all add: rules_ok_iff example_channels_def alert_ids_ok_def known_period_def example_sample_def)
    (simp_all add: example_rules_def empty_world_def)

theorem dispatch_correct_witness:
  "\<exists>w'. dispatchAlerts example_env [alertFor example_sample ''total'' 1000 900] example_channels = (Inr (), w') \<and>
     dispatched [alertFor example_sample ''total'' 1000 900] example_channels w'"
  by (rule dispatch_correct) simp

theorem evaluate_samples_correct_witness:
  "\<exists>w'. AlertService_EvaluateSamples example_env 1 [example_sample] example_channels = (Inr (), w') \<and>
     al_AlertKey ` set (alerts w') = al_AlertKey ` set (alerts example_channels) \<union>
       al_AlertKey ` wanted_alerts example_env example_channels 1 [example_sample]"
  using evaluate_samples_correct [OF example_no_faults example_channels_ok(1,2,3,4)] by blast

definition example_alerted :: world where
  "example_alerted = example_channels\<lparr>alerts := [alertFor example_sample ''total'' 1000 900]\<rparr>"

end
