(* ===== verification/Pipeline.thy ===== *)
theory Pipeline
  imports Alerting Collection
begin

text \<open>
  The path from a machine to an alert: the collection service with the alert service as its
  evaluator. The alert service is shown to meet the evaluator's contract, whatever the database
  and the receivers do, and the two services are composed.
\<close>

section \<open>What the evaluation touches\<close>

definition alert_free :: "(world \<Rightarrow> bool) \<Rightarrow> bool" where
  "alert_free I \<longleftrightarrow> tick_free I \<and> outbox_free I \<and> (\<forall>w x. I (w\<lparr>seqs := x\<rparr>) = I w) \<and>
     (\<forall>w x. I (w\<lparr>alerts := x\<rparr>) = I w) \<and> (\<forall>w x. I (w\<lparr>deliveries := x\<rparr>) = I w)"

lemma alert_freeD: "alert_free I \<Longrightarrow> tick_free I" "alert_free I \<Longrightarrow> outbox_free I"
  by (simp_all add: alert_free_def)

lemma keeps_effective_rules: "tick_free I \<Longrightarrow> keeps I (ThresholdService_ListEffectiveMachineRules E mid)"
  unfolding ThresholdService_ListEffectiveMachineRules_def ThresholdRuleRepo_ListGlobalRules_def
    ThresholdRuleRepo_ListMachineRules_def
  by (intro keeps_intros keeps_get_machine keeps_read) simp_all

lemma keeps_delivery:
  assumes "tick_free I" and "\<And>w x. I (w\<lparr>seqs := x\<rparr>) = I w" and "\<And>w x. I (w\<lparr>deliveries := x\<rparr>) = I w"
  shows "keeps I (createNotificationDelivery E ct a r)"
proof -
  have "keeps I (NotificationDeliveryRepo_Create E d)" for d
    unfolding NotificationDeliveryRepo_Create_def Let_def
    by (intro keeps_intros keeps_statement assms(1)) (simp add: keeps_def bump_seq_def assms(2,3))
  then show ?thesis
    unfolding createNotificationDelivery_def by (intro keeps_wrap) simp
qed

lemma keeps_dispatchChannels:
  assumes "tick_free I" and "outbox_free I" and "\<And>w x. I (w\<lparr>seqs := x\<rparr>) = I w" and "\<And>w x. I (w\<lparr>deliveries := x\<rparr>) = I w"
  shows "keeps I (dispatchChannels E as chs f)"
proof -
  note d = keeps_delivery [OF assms(1,3,4)]
  have r: "keeps I (recordBatch E ct r as f)" for ct r as f
    by (induction as arbitrary: f) (auto intro!: keeps_intros d)
  have s: "keeps I (sendEach E ch as f)" for ch as f
    by (induction as arbitrary: f) (auto intro!: keeps_intros d keeps_sendNotification assms(1,2))
  have "keeps I (dispatchChannel E as ch f)" for ch f
    unfolding dispatchChannel_def by (intro keeps_intros keeps_sendTelegramBatch assms(1,2) r s)
  then show ?thesis
    by (induction chs arbitrary: f) (auto intro!: keeps_intros)
qed

lemma keeps_dispatchAlerts:
  assumes "tick_free I" and "outbox_free I" and "\<And>w x. I (w\<lparr>seqs := x\<rparr>) = I w" and "\<And>w x. I (w\<lparr>deliveries := x\<rparr>) = I w"
    and upd: "\<And>w i st t. I w \<Longrightarrow> I (w\<lparr>alerts := sql_update (\<lambda>a. al_ID a = i)
      (\<lambda>a. a\<lparr>al_NotifyStatus := st, al_UpdatedAt := t\<rparr>) (alerts w)\<rparr>)"
  shows "keeps I (dispatchAlerts E as)"
proof -
  have "keeps I (AlertRepo_UpdateNotifyStatus E i st)" for i st
    unfolding AlertRepo_UpdateNotifyStatus_def
    by (intro keeps_intros keeps_statement assms(1)) (simp add: keeps_def upd)
  then show ?thesis
    unfolding dispatchAlerts_def Let_def
    by (intro keeps_intros keeps_list_channels keeps_dispatchChannels assms(1-4))
qed

lemma keeps_evaluation:
  assumes "tick_free I" and "outbox_free I" and "\<And>w x. I (w\<lparr>seqs := x\<rparr>) = I w" and "\<And>w x. I (w\<lparr>deliveries := x\<rparr>) = I w"
    and "\<And>w i st t. I w \<Longrightarrow> I (w\<lparr>alerts := sql_update (\<lambda>a. al_ID a = i)
      (\<lambda>a. a\<lparr>al_NotifyStatus := st, al_UpdatedAt := t\<rparr>) (alerts w)\<rparr>)"
    and ins: "\<And>w r. I w \<Longrightarrow> I (w\<lparr>alerts := sql_insert_ignore al_AlertKey r (alerts w)\<rparr>)"
  shows "keeps I (AlertService_EvaluateSamples E mid smps)"
proof -
  have ins': "I w \<Longrightarrow> I (w\<lparr>seqs := x, alerts := sql_insert_ignore al_AlertKey r (alerts w)\<rparr>)" for w x r
    using ins [of "w\<lparr>seqs := x\<rparr>" r] assms(3) by simp
  have c: "keeps I (AlertRepo_CreateIfAbsent E a)" for a
    unfolding AlertRepo_CreateIfAbsent_def Let_def
    by (intro keeps_intros keeps_statement assms(1)) (auto simp: keeps_def bump_seq_def ins')
  have "keeps I (createAll E cs)" for cs
    by (induction cs) (auto intro!: keeps_intros c)
  then show ?thesis
    unfolding AlertService_EvaluateSamples_def EvaluateSamples_def evaluateAll_eq
    by (intro keeps_intros keeps_effective_rules keeps_dispatchAlerts assms(1-5))
qed

lemma keeps_evaluation_free:
  assumes "alert_free I"
  shows "keeps I (AlertService_EvaluateSamples E mid smps)"
  using assms by (intro keeps_evaluation) (simp_all add: alert_free_def)

text \<open>Whatever the database and the receivers do, an evaluation keeps alert keys unique.\<close>

lemma alert_keys_stay_unique:
  "keeps (\<lambda>w. alert_tbl.unique (alerts w)) (AlertService_EvaluateSamples E mid smps)"
  by (intro keeps_evaluation)
    (simp_all add: tick_free_def outbox_free_def alert_tbl.unique_insert_ignore alert_tbl.unique_update)

interpretation alert_evaluator: sample_evaluator "AlertService_EvaluateSamples E" for E
proof unfold_locales
  show "samples (snd (AlertService_EvaluateSamples E mid smps w)) = samples w" for mid smps w
    using keeps_evaluation_free [of "\<lambda>v. samples v = samples w" E mid smps]
    by (simp add: keeps_def alert_free_def tick_free_def outbox_free_def)
  show "ssh_log (snd (AlertService_EvaluateSamples E mid smps w)) = ssh_log w" for mid smps w
    using keeps_evaluation_free [of "\<lambda>v. ssh_log v = ssh_log w" E mid smps]
    by (simp add: keeps_def alert_free_def tick_free_def outbox_free_def)
qed

section \<open>Collection with alerting\<close>

definition CollectMachine :: "env \<Rightarrow> string \<Rightarrow> Machine \<Rightarrow> TrafficSample list io" where
  "CollectMachine E key m = TrafficCollectionService_CollectMachine (AlertService_EvaluateSamples E) E key m"

text \<open>C9. A collection that succeeds stored what it read: one sample for the hour, one for the
  day or both, under the machine's identifier; a stored sample of the same machine, period
  and bucket is replaced, and every other stored sample is as before.\<close>

theorem collection_stores_samples:
  assumes "CollectMachine E key m w = (Inr smps, w')"
  shows "parsed_for (mc_ID m) smps \<and>
     (\<forall>k. sample_at w' k = (case lookup_by ts_key k smps of Some s \<Rightarrow> Some (sample_view s) | None \<Rightarrow> sample_at w k)) \<and>
     (sample_tbl.unique (samples w) \<longrightarrow> sample_tbl.unique (samples w'))"
  using assms alert_evaluator.collect_success
  by (simp add: CollectMachine_def TrafficCollectionService_CollectMachine_def)

text \<open>A collection, successful or not, runs at most one command by SSH, on the machine's own host,
  port and user, and it is the quoted vnstat command.\<close>

lemma collection_runs_one_command:
  "\<exists>k\<le>1. ssh_log (snd (CollectMachine E key m w)) = ssh_log w @ replicate k (machine_command m)"
  using alert_evaluator.collect_logs [of m E E key]
  by (simp add: logs_def CollectMachine_def TrafficCollectionService_CollectMachine_def)

section \<open>Examples\<close>

definition vnstat_env :: env where
  "vnstat_env = example_env\<lparr>json_vnstat := (\<lambda>_. Inr \<lparr>vr_Interfaces =
     [\<lparr>vi_Name = ''eth0'', vi_Traffic = \<lparr>vf_Hours = [], vf_Hour = [example_entry 1699990000], vf_Days = [], vf_Day = []\<rparr>\<rparr>]\<rparr>)\<rparr>"

definition example_key :: string where "example_key = replicate 32 (CHR ''k'')"

definition example_ciphertext :: string where
  "example_ciphertext = b64_encode (replicate 12 (CHR ''r'') @ ''secret'' @ example_key)"

definition example_collection :: world where
  "example_collection = empty_world\<lparr>machines := [example_machine],
     ssh_keys := [\<lparr>sk_ID = 1, sk_CreatedAt = 0, sk_UpdatedAt = 0, sk_Name = ''k'', sk_SourceType = ''imported'',
       sk_KeyType = ''ed25519'', sk_PublicKey = [], sk_PrivateKeyCiphertext = example_ciphertext,
       sk_Fingerprint = ''f''\<rparr>]\<rparr>"

lemma vnstat_no_faults [simp]: "no_faults vnstat_env"
  using example_no_faults by (simp add: no_faults_def vnstat_env_def)

lemma example_decrypts: "DataProtector_Decrypt vnstat_env example_key example_ciphertext = Inr ''secret''"
  by (simp add: DataProtector_Decrypt_def example_ciphertext_def aes_key_size_ok_def example_key_def gcm_NonceSize_def
      vnstat_env_def example_env_def suffix_def)

lemma example_collects:
  "\<exists>w'. CollectMachine vnstat_env example_key example_machine example_collection =
     (Inr [trafficSampleFromEntry vnstat_env 1 ''hourly'' (example_entry 1699990000) [] (clk vnstat_env 5)], w')"
proof -
  let ?s = "trafficSampleFromEntry vnstat_env 1 ''hourly'' (example_entry 1699990000) [] (clk vnstat_env 5)"
  let ?w = "ticked 5 example_collection"
  let ?w2 = "(ticked 5 example_collection)\<lparr>ssh_log := [machine_command example_machine]\<rparr>"
  let ?w3 = "ticked 1 ?w2"
  have key: "SSHKeyRepo_GetByID vnstat_env (mc_SSHKeyID example_machine) example_collection =
      (Inr (hd (ssh_keys example_collection)), ticked 1 example_collection)"
    by (simp add: SSHKeyRepo_GetByID_def run_simps sql_first_def example_collection_def example_machine_def)
  have run: "SSHRunner_Run vnstat_env (mc_Host example_machine) (mc_Port example_machine) (mc_SSHUser example_machine)
        ''secret'' (''vnstat --json -i '' @ shellEscapeArg (mc_NetworkInterface example_machine)) (ticked 1 example_collection) =
      (Inr (\<lparr>sx_Stdout = [], sx_Stderr = []\<rparr>, None), ?w2)"
    by (simp add: SSHRunner_Run_def run_simps Let_def ticked_ssh_log vnstat_env_def example_env_def machine_command_def)
      (simp add: example_collection_def empty_world_def)
  have parse: "parseVNStatSamples vnstat_env (mc_ID example_machine) (mc_NetworkInterface example_machine) [] ?w2 = (Inr [?s], ?w3)"
    by (simp add: parseVNStatSamples_def run_simps vnstat_env_def findVNStatInterface_def example_machine_def entrySample_def
        latestVNStatEntry_def) (simp add: example_collection_def empty_world_def)
  obtain w4 where store: "TrafficSampleRepo_UpsertSamples vnstat_env [?s] ?w3 = (Inr (), w4)"
    "machines w4 = [example_machine]" "global_rules w4 = []" "machine_rules w4 = []"
    by (simp add: TrafficSampleRepo_UpsertSamples_def run_simps Let_def example_collection_def empty_world_def)
  have eval: "\<exists>w'. AlertService_EvaluateSamples vnstat_env 1 [?s] w4 = (Inr (), w')"
    using store(2-4)
    by (simp add: AlertService_EvaluateSamples_def EvaluateSamples_def ThresholdService_ListEffectiveMachineRules_def
        ThresholdRuleRepo_ListGlobalRules_def ThresholdRuleRepo_ListMachineRules_def run_simps sql_first_def
        example_machine_def mergeEffectiveRules_def)
  have "sk_PrivateKeyCiphertext (hd (ssh_keys example_collection)) = example_ciphertext"
    by (simp add: example_collection_def)
  moreover have "mc_ID example_machine = 1" by (simp add: example_machine_def)
  ultimately show ?thesis
    using eval parse run key store(1)
    by (auto simp: CollectMachine_def TrafficCollectionService_CollectMachine_def collectMachineSamples_def run_attempt
        run_bnd run_wrap run_ret example_decrypts)
qed

theorem collection_stores_samples_witness:
  "\<exists>smps w'. CollectMachine vnstat_env example_key example_machine example_collection = (Inr smps, w') \<and>
     parsed_for 1 smps \<and> sample_at w' (ts_key (hd smps)) = Some (sample_view (hd smps))"
proof -
  let ?s = "trafficSampleFromEntry vnstat_env 1 ''hourly'' (example_entry 1699990000) [] (clk vnstat_env 5)"
  obtain w' where run: "CollectMachine vnstat_env example_key example_machine example_collection = (Inr [?s], w')"
    using example_collects by blast
  note stored = collection_stores_samples [OF run]
  from stored have "sample_at w' (ts_key ?s) = (case lookup_by ts_key (ts_key ?s) [?s] of
      Some s \<Rightarrow> Some (sample_view s) | None \<Rightarrow> sample_at example_collection (ts_key ?s))" by blast
  then have "sample_at w' (ts_key ?s) = Some (sample_view ?s)" by (simp add: lookup_by_def)
  moreover from stored have "parsed_for 1 [?s]" by (simp add: example_machine_def)
  ultimately show ?thesis using run by auto
qed

end
