(* ===== verification/Cleanup.thy ===== *)
theory Cleanup
  imports Config
begin

text \<open>
  The history cleanup of \<^verbatim>\<open>internal/service/history_cleanup_service.go\<close>. Its two delete loops run
  until a batch comes back smaller than the batch size; a loop that never ends has the value
  \<open>None\<close>. The locale \<open>batch_delete\<close> states what one batch does; it is interpreted for the sample
  and the alert table, and gives termination and the exact effect of the loops for both.
  The context's deadline shows as a database failure.
\<close>

section \<open>Definitions\<close>

record CleanupHistoryReq =
  cr_DeleteSamples :: bool
  cr_DeleteAlerts :: bool
  cr_SamplesDays :: "int option"
  cr_AlertsDays :: "int option"
  cr_MachineID :: "nat option"

record CleanupHistoryResp =
  cs_DeletedSamples :: nat
  cs_DeletedAlerts :: nat
  cs_SamplesCutoff :: gotime
  cs_AlertsCutoff :: gotime

record HistoryCleanupResult =
  hc_res_DeletedSamples :: nat
  hc_res_DeletedAlerts :: nat
  hc_res_SamplesCutoff :: gotime
  hc_res_AlertsCutoff :: gotime

text \<open>A computation that may not end.\<close>

type_synonym 'a loop = "world \<Rightarrow> ((go_error + 'a) \<times> world) option"

partial_function (option) deleteLoop :: "nat io \<Rightarrow> string \<Rightarrow> int \<Rightarrow> nat \<Rightarrow> nat loop" where
  "deleteLoop deleteBatch msg batchSize totalDeleted w =
     (case deleteBatch w of
        (Inl e, w') \<Rightarrow> Some (Inl (Wrapf msg e []), w')
      | (Inr deleted, w') \<Rightarrow>
          if int deleted < batchSize then Some (Inr (totalDeleted + deleted), w')
          else deleteLoop deleteBatch msg batchSize (totalDeleted + deleted) w')"

definition deleteExpiredSamples :: "env \<Rightarrow> HistoryCleanupConfig \<Rightarrow> nat option \<Rightarrow> gotime \<Rightarrow> nat loop" where
  "deleteExpiredSamples E cfg machineID cutoff =
     deleteLoop (TrafficSampleRepo_DeleteBefore E
         \<lparr>sd_MachineID = machineID, sd_PeriodType = [], sd_BeforeBucketTime = Some cutoff, sd_Limit = hc_BatchSize cfg\<rparr>)
       ''delete expired traffic samples: '' (hc_BatchSize cfg) 0"

definition deleteExpiredAlerts :: "env \<Rightarrow> HistoryCleanupConfig \<Rightarrow> nat option \<Rightarrow> gotime \<Rightarrow> nat loop" where
  "deleteExpiredAlerts E cfg machineID cutoff =
     deleteLoop (AlertRepo_DeleteExpired E
         \<lparr>ad_MachineID = machineID, ad_BeforeBucketTime = cutoff, ad_Limit = hc_BatchSize cfg\<rparr>)
       ''delete expired alerts: '' (hc_BatchSize cfg) 0"

definition invalid_days :: "string \<Rightarrow> go_error" where
  "invalid_days field = Wrapf [] (Sentinel ErrInvalidHistoryCleanupRequest) ('': '' @ field @ '' must be greater than zero'')"

definition HistoryCleanupService_Cleanup ::
  "env \<Rightarrow> HistoryCleanupConfig \<Rightarrow> CleanupHistoryReq \<Rightarrow> CleanupHistoryResp loop" where
  "HistoryCleanupService_Cleanup E cfg req w =
     (let both = (\<not> cr_DeleteSamples req \<and> \<not> cr_DeleteAlerts req);
          deleteSamples = (cr_DeleteSamples req \<or> both);
          deleteAlerts = (cr_DeleteAlerts req \<or> both);
          samplesDays = (case cr_SamplesDays req of Some d \<Rightarrow> d | None \<Rightarrow> hc_SamplesDays cfg);
          alertsDays = (case cr_AlertsDays req of Some d \<Rightarrow> d | None \<Rightarrow> hc_AlertsDays cfg)
      in if deleteSamples \<and> samplesDays \<le> 0 then Some (Inl (invalid_days ''samples_days''), w)
         else if deleteAlerts \<and> alertsDays \<le> 0 then Some (Inl (invalid_days ''alerts_days''), w)
         else
           let now = clk E (tick w); w0 = w\<lparr>tick := Suc (tick w)\<rparr>;
               samplesCutoff = (if deleteSamples then add_days now (- samplesDays) else zero_time);
               alertsCutoff = (if deleteAlerts then add_days now (- alertsDays) else zero_time)
           in case (if deleteSamples then deleteExpiredSamples E cfg (cr_MachineID req) samplesCutoff w0
                    else Some (Inr 0, w0)) of
                None \<Rightarrow> None
              | Some (Inl e, w1) \<Rightarrow> Some (Inl e, w1)
              | Some (Inr deletedSamples, w1) \<Rightarrow>
                  (case (if deleteAlerts then deleteExpiredAlerts E cfg (cr_MachineID req) alertsCutoff w1
                         else Some (Inr 0, w1)) of
                     None \<Rightarrow> None
                   | Some (Inl e, w2) \<Rightarrow> Some (Inl e, w2)
                   | Some (Inr deletedAlerts, w2) \<Rightarrow>
                       Some (Inr \<lparr>cs_DeletedSamples = deletedSamples, cs_DeletedAlerts = deletedAlerts,
                                  cs_SamplesCutoff = samplesCutoff, cs_AlertsCutoff = alertsCutoff\<rparr>, w2)))"

definition toHistoryCleanupResult :: "CleanupHistoryResp \<Rightarrow> HistoryCleanupResult" where
  "toHistoryCleanupResult resp =
     \<lparr>hc_res_DeletedSamples = cs_DeletedSamples resp, hc_res_DeletedAlerts = cs_DeletedAlerts resp,
      hc_res_SamplesCutoff = cs_SamplesCutoff resp, hc_res_AlertsCutoff = cs_AlertsCutoff resp\<rparr>"

definition HistoryCleanupService_CleanupResult ::
  "env \<Rightarrow> HistoryCleanupConfig \<Rightarrow> CleanupHistoryReq \<Rightarrow> HistoryCleanupResult loop" where
  "HistoryCleanupService_CleanupResult E cfg req w =
     (case HistoryCleanupService_Cleanup E cfg req w of
        None \<Rightarrow> None
      | Some (Inl e, w') \<Rightarrow> Some (Inl e, w')
      | Some (Inr resp, w') \<Rightarrow> Some (Inr (toHistoryCleanupResult resp), w'))"

definition HistoryCleanupService_RunOnce :: "env \<Rightarrow> HistoryCleanupConfig \<Rightarrow> HistoryCleanupResult loop" where
  "HistoryCleanupService_RunOnce E cfg w =
     (case HistoryCleanupService_Cleanup E cfg
         \<lparr>cr_DeleteSamples = True, cr_DeleteAlerts = True, cr_SamplesDays = None, cr_AlertsDays = None,
          cr_MachineID = None\<rparr> w of
        None \<Rightarrow> None
      | Some (Inl e, w') \<Rightarrow> Some (Inl e, w')
      | Some (Inr resp, w') \<Rightarrow> Some (Inr (toHistoryCleanupResult resp), w'))"

section \<open>One batch\<close>

lemma victims_effect:
  fixes k :: nat and p :: "'r \<Rightarrow> bool" and rows :: "'r list" and key :: "'r \<Rightarrow> nat" and f :: "'r \<Rightarrow> 'b::linorder"
  assumes d: "distinct (map key rows)"
  defines "V \<equiv> take k (sort_key f (filter p rows))"
  defines "hit \<equiv> \<lambda>r. key r \<in> set (map key V)"
  shows "length (filter hit rows) = length V"
    and "filter (\<lambda>r. \<not> p r) (filter (\<lambda>r. \<not> hit r) rows) = filter (\<lambda>r. \<not> p r) rows"
    and "length (filter p rows) = length V + length (filter p (filter (\<lambda>r. \<not> hit r) rows))"
proof -
  have sub: "set V \<subseteq> {r \<in> set rows. p r}"
    unfolding V_def using set_take_subset [of k "sort_key f (filter p rows)"] by auto
  have dr: "distinct rows" and inj: "inj_on key (set rows)"
    using d by (simp_all add: distinct_map)
  have dV: "distinct V"
    unfolding V_def using dr by (intro distinct_take) (simp add: distinct_filter)
  have hit: "hit r \<longleftrightarrow> r \<in> set V" if "r \<in> set rows" for r
    using that sub inj by (auto simp: hit_def inj_on_def)
  have hits: "filter hit rows = filter (\<lambda>r. r \<in> set V) rows"
    using hit by (auto intro: filter_cong)
  have "length (filter (\<lambda>r. r \<in> set V) rows) = card (set V)"
    using dr sub by (subst distinct_card [symmetric]) (auto intro: arg_cong [where f = card])
  then show 1: "length (filter hit rows) = length V"
    using dV by (simp add: hits distinct_card)
  show "filter (\<lambda>r. \<not> p r) (filter (\<lambda>r. \<not> hit r) rows) = filter (\<lambda>r. \<not> p r) rows"
    using hit sub by (auto intro!: filter_cong)
  have "filter hit (filter p rows) = filter hit rows"
    unfolding filter_filter using hit sub by (intro filter_cong) auto
  moreover have "length (filter p rows) = length (filter hit (filter p rows)) + length (filter (\<lambda>r. \<not> hit r) (filter p rows))"
    using sum_length_filter_compl [of hit "filter p rows"] by simp
  ultimately show "length (filter p rows) = length V + length (filter p (filter (\<lambda>r. \<not> hit r) rows))"
    using 1 by (simp add: filter_filter conj_commute)
qed

text \<open>The rows left after a batch of at most \<open>k\<close> victims.\<close>

definition batch_left :: "('r \<Rightarrow> nat) \<Rightarrow> ('r \<Rightarrow> bool) \<Rightarrow> nat \<Rightarrow> 'r list \<Rightarrow> nat \<Rightarrow> 'r list \<Rightarrow> bool" where
  "batch_left key p k rows n rows' \<longleftrightarrow> distinct (map key rows') \<and>
     length (filter p rows) = n + length (filter p rows') \<and>
     filter (\<lambda>r. \<not> p r) rows' = filter (\<lambda>r. \<not> p r) rows \<and> (n < k \<longrightarrow> filter p rows' = [])"

lemma batch_left_victims:
  fixes f :: "'r \<Rightarrow> 'b::linorder"
  assumes d: "distinct (map key rows)" and ids: "ids = map key (take k (sort_key f (filter p rows)))"
  shows "batch_left key p k rows (length (filter (\<lambda>r. key r \<in> set ids) rows)) (filter (\<lambda>r. key r \<notin> set ids) rows)"
proof -
  let ?V = "take k (sort_key f (filter p rows))"
  note eff = victims_effect [OF d, where k = k and f = f and p = p, folded ids]
  have "length (filter p rows) = length ?V" if "length ?V < k"
    using that by (auto simp: min_def split: if_splits)
  moreover have "distinct (map key (filter (\<lambda>r. key r \<notin> set ids) rows))"
    using d by (rule distinct_map_filter)
  ultimately show ?thesis
    unfolding batch_left_def using eff by (metis add.right_neutral add_left_cancel length_0_conv)
qed

lemma batch_left_none:
  fixes f :: "'r \<Rightarrow> 'b::linorder"
  assumes "distinct (map key rows)" and "map key (take k (sort_key f (filter p rows))) = []" and "0 < k"
  shows "batch_left key p k rows 0 rows"
proof -
  have "sort_key f (filter p rows) = []" using assms(2,3) by simp
  then have "filter p rows = []" by (metis length_0_conv length_sort)
  with assms(1) show ?thesis by (simp add: batch_left_def)
qed

lemma batch_left_all:
  "distinct (map key rows) \<Longrightarrow> batch_left key p 0 rows (length (filter p rows)) (filter (\<lambda>r. \<not> p r) rows)"
  by (simp add: batch_left_def distinct_map_filter)

lemma deleteLoop_outcome:
  assumes "deleteLoop step msg batch acc w = Some r" and "\<And>v. \<exists>n v'. step v = (Inr n, v')"
  shows "(\<exists>n w'. r = (Inr n, w')) \<and> 0 < batch"
proof (rule deleteLoop.raw_induct [where
      P = "\<lambda>st msg b acc w r. st = step \<longrightarrow> (\<exists>n w'. r = (Inr n, w')) \<and> 0 < b", THEN mp, OF _ assms(1) refl])
  fix loop :: "nat io \<Rightarrow> string \<Rightarrow> int \<Rightarrow> nat \<Rightarrow> nat loop" and st msg b acc w r
  assume ih: "\<And>st msg b acc w r. loop st msg b acc w = Some r \<Longrightarrow>
      st = step \<longrightarrow> (\<exists>n w'. r = (Inr n, w')) \<and> 0 < b"
    and body: "(case st w of (Inl e, w') \<Rightarrow> Some (Inl (Wrapf msg e []), w')
      | (Inr n, w') \<Rightarrow> if int n < b then Some (Inr (acc + n), w') else loop st msg b (acc + n) w') = Some r"
  show "st = step \<longrightarrow> (\<exists>n w'. r = (Inr n, w')) \<and> 0 < b"
  proof
    assume st: "st = step"
    obtain n v where n: "step w = (Inr n, v)" using assms(2) by blast
    show "(\<exists>n w'. r = (Inr n, w')) \<and> 0 < b"
    proof (cases "int n < b")
      case True
      with body st n show ?thesis by auto
    next
      case False
      with body st n have "loop step msg b (acc + n) v = Some r" by simp
      from ih [OF this] show ?thesis by simp
    qed
  qed
qed

section \<open>The contract of one batch, and the loop\<close>

locale batch_delete =
  fixes step :: "nat io" and batch :: int
    and inv :: "world \<Rightarrow> bool" and remaining :: "world \<Rightarrow> nat" and kept :: "world \<Rightarrow> 'k"
  assumes step_ok: "inv w \<Longrightarrow> step w = (Inr n, w') \<Longrightarrow> inv w' \<and> remaining w = n + remaining w' \<and> kept w' = kept w \<and>
     (int n < batch \<longrightarrow> remaining w' = 0)"
    and step_error: "inv w \<Longrightarrow> step w = (Inl e, w') \<Longrightarrow> inv w' \<and> kept w' = kept w"
begin

lemma loop_unfold:
  "deleteLoop step msg batch acc w =
     (case step w of
        (Inl e, w') \<Rightarrow> Some (Inl (Wrapf msg e []), w')
      | (Inr n, w') \<Rightarrow> if int n < batch then Some (Inr (acc + n), w')
                      else deleteLoop step msg batch (acc + n) w')"
  by (rule deleteLoop.simps)

lemma loop_ends:
  assumes "0 < batch" and "inv w"
  shows "\<exists>r w'. deleteLoop step msg batch acc w = Some (r, w') \<and> inv w' \<and> kept w' = kept w \<and>
     (\<forall>n. r = Inr n \<longrightarrow> n = acc + remaining w \<and> remaining w' = 0)"
  using assms(2)
proof (induction "remaining w" arbitrary: w acc rule: less_induct)
  case less
  show ?case
  proof (cases "step w")
    case (Pair r w1)
    show ?thesis
    proof (cases r)
      case (Inl e)
      with Pair step_error [OF less.prems] show ?thesis
        by (subst loop_unfold) auto
    next
      case (Inr n)
      with Pair step_ok [OF less.prems] have s: "inv w1" "remaining w = n + remaining w1" "kept w1 = kept w"
        "int n < batch \<longrightarrow> remaining w1 = 0" by auto
      show ?thesis
      proof (cases "int n < batch")
        case True
        with Pair Inr s show ?thesis by (subst loop_unfold) auto
      next
        case False
        then have "remaining w1 < remaining w" using s(2) assms(1) by linarith
        from less.hyps [OF this s(1), of "acc + n"] False Pair Inr s show ?thesis
          by (subst loop_unfold) auto
      qed
    qed
  qed
qed

text \<open>Without failures the loop returns a count.\<close>

lemma loop_succeeds:
  assumes "0 < batch" and "inv w" and "\<And>v. \<exists>n v'. step v = (Inr n, v')"
  shows "\<exists>w'. deleteLoop step msg batch acc w = Some (Inr (acc + remaining w), w') \<and> inv w' \<and> kept w' = kept w \<and>
     remaining w' = 0"
proof -
  obtain r w' where r: "deleteLoop step msg batch acc w = Some (r, w')" "inv w'" "kept w' = kept w"
    "\<forall>n. r = Inr n \<longrightarrow> n = acc + remaining w \<and> remaining w' = 0"
    using loop_ends [OF assms(1,2)] by blast
  with deleteLoop_outcome [OF r(1) assms(3)] show ?thesis by auto
qed

end

section \<open>The two tables\<close>

definition sample_filter :: "nat option \<Rightarrow> gotime \<Rightarrow> int \<Rightarrow> TrafficSampleDeleteFilter" where
  "sample_filter mid cutoff batch =
     \<lparr>sd_MachineID = mid, sd_PeriodType = [], sd_BeforeBucketTime = Some cutoff, sd_Limit = batch\<rparr>"

definition alert_filter :: "nat option \<Rightarrow> gotime \<Rightarrow> int \<Rightarrow> AlertDeleteFilter" where
  "alert_filter mid cutoff batch = \<lparr>ad_MachineID = mid, ad_BeforeBucketTime = cutoff, ad_Limit = batch\<rparr>"

definition old_sample :: "nat option \<Rightarrow> gotime \<Rightarrow> TrafficSample \<Rightarrow> bool" where
  "old_sample mid cutoff s \<longleftrightarrow> ts_BucketTime s < cutoff \<and> (\<forall>i. mid = Some i \<longrightarrow> ts_MachineID s = i)"

definition old_alert :: "nat option \<Rightarrow> gotime \<Rightarrow> Alert \<Rightarrow> bool" where
  "old_alert mid cutoff a \<longleftrightarrow> al_BucketTime a < cutoff \<and> (\<forall>i. mid = Some i \<longrightarrow> al_MachineID a = i)"

lemma sample_expired_eq: "sample_expired (sample_filter mid cutoff batch) = old_sample mid cutoff"
  by (rule ext) (auto simp: sample_expired_def sample_filter_def old_sample_def split: option.split)

lemma alert_expired_eq: "alert_expired (alert_filter mid cutoff batch) = old_alert mid cutoff"
  by (rule ext) (auto simp: alert_expired_def alert_filter_def old_alert_def split: option.split)

text \<open>The world without the call counter and without the rows to delete.\<close>

definition without_samples :: "(TrafficSample \<Rightarrow> bool) \<Rightarrow> world \<Rightarrow> world" where
  "without_samples p w = w\<lparr>tick := 0, samples := filter (\<lambda>s. \<not> p s) (samples w)\<rparr>"

definition without_alerts :: "(Alert \<Rightarrow> bool) \<Rightarrow> world \<Rightarrow> world" where
  "without_alerts p w = w\<lparr>tick := 0, alerts := filter (\<lambda>a. \<not> p a) (alerts w)\<rparr>"

lemma without_ticked [simp]:
  "without_samples p (ticked n w) = without_samples p w" "without_alerts q (ticked n w) = without_alerts q w"
  by (simp_all add: without_samples_def without_alerts_def ticked_def)

lemma without_update:
  "without_samples p (w\<lparr>samples := x\<rparr>) = w\<lparr>tick := 0, samples := filter (\<lambda>s. \<not> p s) x\<rparr>"
  "without_alerts q ((w\<lparr>alerts := y\<rparr>)) = w\<lparr>tick := 0, alerts := filter (\<lambda>a. \<not> q a) y\<rparr>"
  by (simp_all add: without_samples_def without_alerts_def)

lemma ticked_same: "(ticked n w)\<lparr>samples := samples w\<rparr> = ticked n w"
  by (simp add: ticked_def)

lemma tick_ticked: "(ticked n w)\<lparr>tick := k\<rparr> = w\<lparr>tick := k\<rparr>"
  by (simp add: ticked_def)

lemma statement_value:
  "statement E f w = (Inr x, w') \<Longrightarrow> f (clk E (tick w)) (ticked 1 w) = (Inr x, w')"
  by (auto simp: statement_def Let_def split: option.splits)

lemma wrap_result:
  assumes "wrap msg m w = (Inr x, w')"
  shows "m w = (Inr x, w')"
  using assms by (auto simp: run_wrap split: prod.splits sum.splits)

lemma sample_batch:
  assumes d: "distinct (map ts_ID (samples w))"
    and run: "TrafficSampleRepo_DeleteBefore E (sample_filter mid cutoff batch) w = (Inr n, w')"
  shows "\<exists>k rows. w' = (ticked k w)\<lparr>samples := rows\<rparr> \<and>
     batch_left ts_ID (old_sample mid cutoff) (nat batch) (samples w) n rows"
proof (cases "0 < batch")
  case False
  let ?p = "old_sample mid cutoff" and ?F = "sample_filter mid cutoff batch"
  have lim: "sd_Limit ?F = batch" "sd_BeforeBucketTime ?F \<noteq> None" by (simp_all add: sample_filter_def)
  from run False have "wrap ''delete traffic samples: '' (statement E (\<lambda>_ u.
      (Inr (sql_count ?p (samples u)), u\<lparr>samples := sql_delete ?p (samples u)\<rparr>))) w = (Inr n, w')"
    by (simp add: TrafficSampleRepo_DeleteBefore_def sample_expired_eq lim)
  from statement_value [OF wrap_result [OF this]] have "n = length (filter ?p (samples w))"
    "w' = (ticked 1 w)\<lparr>samples := filter (\<lambda>s. \<not> ?p s) (samples w)\<rparr>"
    by (simp_all add: sql_count_def sql_delete_def)
  with batch_left_all [OF d, where p = ?p] False show ?thesis by auto
next
  case True
  let ?p = "old_sample mid cutoff" and ?F = "sample_filter mid cutoff batch"
  let ?f = "\<lambda>s. (ts_BucketTime s, tie_rank E (Suc (tick w)) (ts_ID s))"
  have lim: "sd_Limit ?F = batch" by (simp add: sample_filter_def)
  from run True obtain ids v where 1: "wrap ''list traffic sample ids for delete: '' (statement E (\<lambda>_ u.
        (Inr (map ts_ID (sample_victims E (tick u) ?F (samples u))), u))) w = (Inr ids, v)"
    and 2: "(if ids = [] then ret 0 else wrap ''delete traffic samples by ids: '' (statement E (\<lambda>_ u.
        (Inr (sql_count (\<lambda>s. ts_ID s \<in> set ids) (samples u)),
         u\<lparr>samples := sql_delete (\<lambda>s. ts_ID s \<in> set ids) (samples u)\<rparr>)))) v = (Inr n, w')"
    by (auto simp: TrafficSampleRepo_DeleteBefore_def lim elim: bnd_InrE)
  from statement_value [OF wrap_result [OF 1]] have ids: "ids = map ts_ID (take (nat batch) (sort_key ?f (filter ?p (samples w))))"
    and v: "v = ticked 1 w"
    by (simp_all add: sample_victims_def sample_expired_eq lim)
  show ?thesis
  proof (cases "ids = []")
    case none: True
    with 2 have "n = 0" "w' = v" by (simp_all add: run_ret)
    moreover from \<open>w' = v\<close> v have "w' = (ticked 1 w)\<lparr>samples := samples w\<rparr>" by (simp only: ticked_same)
    moreover have "batch_left ts_ID ?p (nat batch) (samples w) 0 (samples w)"
      using none True by (intro batch_left_none [OF d, where f = ?f]) (simp_all add: ids)
    ultimately show ?thesis by blast
  next
    case False
    with 2 have "wrap ''delete traffic samples by ids: '' (statement E (\<lambda>_ u.
        (Inr (sql_count (\<lambda>s. ts_ID s \<in> set ids) (samples u)),
         u\<lparr>samples := sql_delete (\<lambda>s. ts_ID s \<in> set ids) (samples u)\<rparr>))) v = (Inr n, w')" by simp
    from statement_value [OF wrap_result [OF this]] v have "n = length (filter (\<lambda>s. ts_ID s \<in> set ids) (samples w))"
      "w' = (ticked 2 w)\<lparr>samples := filter (\<lambda>s. ts_ID s \<notin> set ids) (samples w)\<rparr>"
      by (simp_all add: sql_count_def sql_delete_def numeral_2_eq_2)
    with batch_left_victims [OF d ids] show ?thesis by blast
  qed
qed

lemma alert_batch:
  assumes d: "distinct (map al_ID (alerts w))"
    and run: "AlertRepo_DeleteExpired E (alert_filter mid cutoff batch) w = (Inr n, w')"
  shows "\<exists>k rows. w' = (ticked k w)\<lparr>alerts := rows\<rparr> \<and>
     batch_left al_ID (old_alert mid cutoff) (nat batch) (alerts w) n rows"
proof -
  let ?p = "old_alert mid cutoff" and ?F = "alert_filter mid cutoff batch"
  let ?f = "\<lambda>a. (al_BucketTime a, tie_rank E (Suc (tick w)) (al_ID a))"
  let ?ids = "map al_ID (take (nat batch) (sort_key ?f (filter ?p (alerts w))))"
  have lim: "ad_Limit ?F = batch" by (simp add: alert_filter_def)
  have V: "alert_victims E (Suc (tick w)) ?F (alerts w) = take (nat batch) (sort_key ?f (filter ?p (alerts w)))"
    by (simp add: alert_victims_def alert_expired_eq lim)
  from run have "wrap ''delete expired alerts: '' (statement E (\<lambda>_ u. if 0 < ad_Limit ?F
      then let ids = map al_ID (alert_victims E (tick u) ?F (alerts u)); hit = (\<lambda>a. al_ID a \<in> set ids)
           in (Inr (sql_count hit (alerts u)), u\<lparr>alerts := sql_delete hit (alerts u)\<rparr>)
      else (Inr (sql_count (alert_expired ?F) (alerts u)), u\<lparr>alerts := sql_delete (alert_expired ?F) (alerts u)\<rparr>))) w = (Inr n, w')"
    by (auto simp: AlertRepo_DeleteExpired_def run_fail split: if_splits)
  note w' = statement_value [OF wrap_result [OF this], unfolded lim alert_expired_eq]
  show ?thesis
  proof (cases "0 < batch")
    case True
    with w' have "n = length (filter (\<lambda>a. al_ID a \<in> set ?ids) (alerts w))"
      "w' = (ticked 1 w)\<lparr>alerts := filter (\<lambda>a. al_ID a \<notin> set ?ids) (alerts w)\<rparr>"
      by (simp_all add: sql_count_def sql_delete_def Let_def V del: set_map)
    with batch_left_victims [OF d refl, where k = "nat batch" and f = ?f and p = ?p] show ?thesis by blast
  next
    case False
    with w' have "n = length (filter ?p (alerts w))" "w' = (ticked 1 w)\<lparr>alerts := filter (\<lambda>a. \<not> ?p a) (alerts w)\<rparr>"
      by (simp_all add: sql_count_def sql_delete_def)
    with batch_left_all [OF d, where p = ?p] False show ?thesis by auto
  qed
qed

lemma statement_read_error:
  assumes "wrap msg (statement E f) v = (Inl e, w')" and "\<And>t u. \<exists>x u'. f t u = (Inr x, u')"
  shows "w' = ticked 1 v"
proof -
  obtain e' where "statement E f v = (Inl e', w')" using assms(1) by (rule wrap_error)
  then show ?thesis
  proof (rule statement_error)
    assume "f (clk E (tick v)) (ticked 1 v) = (Inl e', w')"
    with assms(2) [of "clk E (tick v)" "ticked 1 v"] show ?thesis by auto
  qed
qed

lemma sample_batch_error:
  assumes "TrafficSampleRepo_DeleteBefore E (sample_filter mid cutoff batch) w = (Inl e, w')"
  shows "\<exists>k. w' = ticked k w"
proof (cases "0 < batch")
  case False
  let ?F = "sample_filter mid cutoff batch"
  have lim: "sd_Limit ?F = batch" "sd_BeforeBucketTime ?F \<noteq> None" by (simp_all add: sample_filter_def)
  from assms False have "wrap ''delete traffic samples: '' (statement E (\<lambda>_ u.
      (Inr (sql_count (sample_expired ?F) (samples u)), u\<lparr>samples := sql_delete (sample_expired ?F) (samples u)\<rparr>))) w = (Inl e, w')"
    by (simp add: TrafficSampleRepo_DeleteBefore_def lim)
  from statement_read_error [OF this] show ?thesis by blast
next
  case True
  let ?F = "sample_filter mid cutoff batch"
  have lim: "sd_Limit ?F = batch" by (simp add: sample_filter_def)
  from assms True have "bnd (wrap ''list traffic sample ids for delete: ''
          (statement E (\<lambda>_ u. (Inr (map ts_ID (sample_victims E (tick u) ?F (samples u))), u))))
        (\<lambda>ids. if ids = [] then ret 0
           else wrap ''delete traffic samples by ids: ''
             (statement E (\<lambda>_ u. (Inr (sql_count (\<lambda>s. ts_ID s \<in> set ids) (samples u)),
                 u\<lparr>samples := sql_delete (\<lambda>s. ts_ID s \<in> set ids) (samples u)\<rparr>)))) w = (Inl e, w')"
    by (simp add: TrafficSampleRepo_DeleteBefore_def lim)
  then show ?thesis
  proof (rule bnd_InlE)
    assume "wrap ''list traffic sample ids for delete: ''
          (statement E (\<lambda>_ u. (Inr (map ts_ID (sample_victims E (tick u) ?F (samples u))), u))) w = (Inl e, w')"
    from statement_read_error [OF this] show ?thesis by blast
  next
    fix ids v assume 1: "wrap ''list traffic sample ids for delete: ''
          (statement E (\<lambda>_ u. (Inr (map ts_ID (sample_victims E (tick u) ?F (samples u))), u))) w = (Inr ids, v)"
      and 2: "(if ids = [] then ret 0
           else wrap ''delete traffic samples by ids: ''
             (statement E (\<lambda>_ u. (Inr (sql_count (\<lambda>s. ts_ID s \<in> set ids) (samples u)),
                 u\<lparr>samples := sql_delete (\<lambda>s. ts_ID s \<in> set ids) (samples u)\<rparr>)))) v = (Inl e, w')"
    from statement_value [OF wrap_result [OF 1]] have v: "v = ticked 1 w" by simp
    from 2 have "wrap ''delete traffic samples by ids: ''
             (statement E (\<lambda>_ u. (Inr (sql_count (\<lambda>s. ts_ID s \<in> set ids) (samples u)),
                 u\<lparr>samples := sql_delete (\<lambda>s. ts_ID s \<in> set ids) (samples u)\<rparr>))) v = (Inl e, w')"
      by (simp add: run_ret split: if_splits)
    from statement_read_error [OF this] v show ?thesis by auto
  qed
qed

lemma alert_batch_error:
  assumes "AlertRepo_DeleteExpired E (alert_filter mid cutoff batch) w = (Inl e, w')"
  shows "\<exists>k. w' = ticked k w"
proof (cases "cutoff = zero_time")
  case True
  with assms show ?thesis
    by (intro exI [of _ 0]) (simp add: AlertRepo_DeleteExpired_def alert_filter_def run_fail ticked_def)
next
  case False
  let ?F = "alert_filter mid cutoff batch"
  from False assms have "wrap ''delete expired alerts: '' (statement E (\<lambda>_ u. if 0 < ad_Limit ?F
      then let ids = map al_ID (alert_victims E (tick u) ?F (alerts u)); hit = (\<lambda>a. al_ID a \<in> set ids)
           in (Inr (sql_count hit (alerts u)), u\<lparr>alerts := sql_delete hit (alerts u)\<rparr>)
      else (Inr (sql_count (alert_expired ?F) (alerts u)), u\<lparr>alerts := sql_delete (alert_expired ?F) (alerts u)\<rparr>))) w = (Inl e, w')"
    by (simp add: AlertRepo_DeleteExpired_def) (simp add: alert_filter_def)
  from statement_read_error [OF this] show ?thesis by (auto simp: Let_def)
qed

interpretation sample_cleanup: batch_delete
    "TrafficSampleRepo_DeleteBefore E (sample_filter mid cutoff batch)" batch
    "\<lambda>w. distinct (map ts_ID (samples w))" "\<lambda>w. length (filter (old_sample mid cutoff) (samples w))"
    "without_samples (old_sample mid cutoff)" for E mid cutoff batch
proof unfold_locales
  fix w n w'
  assume d: "distinct (map ts_ID (samples w))"
    and "TrafficSampleRepo_DeleteBefore E (sample_filter mid cutoff batch) w = (Inr n, w')"
  from sample_batch [OF this] obtain k rows where "w' = (ticked k w)\<lparr>samples := rows\<rparr>"
    "batch_left ts_ID (old_sample mid cutoff) (nat batch) (samples w) n rows" by blast
  then show "distinct (map ts_ID (samples w')) \<and>
      length (filter (old_sample mid cutoff) (samples w)) = n + length (filter (old_sample mid cutoff) (samples w')) \<and>
      without_samples (old_sample mid cutoff) w' = without_samples (old_sample mid cutoff) w \<and>
      (int n < batch \<longrightarrow> length (filter (old_sample mid cutoff) (samples w')) = 0)"
    by (simp add: batch_left_def without_update tick_ticked) (auto simp: without_samples_def)
next
  fix w e w'
  assume "distinct (map ts_ID (samples w))"
    and "TrafficSampleRepo_DeleteBefore E (sample_filter mid cutoff batch) w = (Inl e, w')"
  with sample_batch_error [of E mid cutoff batch w e w']
  show "distinct (map ts_ID (samples w')) \<and>
      without_samples (old_sample mid cutoff) w' = without_samples (old_sample mid cutoff) w" by auto
qed

interpretation alert_cleanup: batch_delete
    "AlertRepo_DeleteExpired E (alert_filter mid cutoff batch)" batch
    "\<lambda>w. distinct (map al_ID (alerts w))" "\<lambda>w. length (filter (old_alert mid cutoff) (alerts w))"
    "without_alerts (old_alert mid cutoff)" for E mid cutoff batch
proof unfold_locales
  fix w n w'
  assume d: "distinct (map al_ID (alerts w))"
    and "AlertRepo_DeleteExpired E (alert_filter mid cutoff batch) w = (Inr n, w')"
  from alert_batch [OF this] obtain k rows where "w' = (ticked k w)\<lparr>alerts := rows\<rparr>"
    "batch_left al_ID (old_alert mid cutoff) (nat batch) (alerts w) n rows" by blast
  then show "distinct (map al_ID (alerts w')) \<and>
      length (filter (old_alert mid cutoff) (alerts w)) = n + length (filter (old_alert mid cutoff) (alerts w')) \<and>
      without_alerts (old_alert mid cutoff) w' = without_alerts (old_alert mid cutoff) w \<and>
      (int n < batch \<longrightarrow> length (filter (old_alert mid cutoff) (alerts w')) = 0)"
    by (simp add: batch_left_def without_update tick_ticked) (auto simp: without_alerts_def)
next
  fix w e w'
  assume "distinct (map al_ID (alerts w))"
    and "AlertRepo_DeleteExpired E (alert_filter mid cutoff batch) w = (Inl e, w')"
  with alert_batch_error [of E mid cutoff batch w e w']
  show "distinct (map al_ID (alerts w')) \<and>
      without_alerts (old_alert mid cutoff) w' = without_alerts (old_alert mid cutoff) w" by auto
qed

section \<open>The service\<close>

lemma sample_step_total:
  assumes "no_faults E"
  shows "\<exists>n v'. TrafficSampleRepo_DeleteBefore E (sample_filter mid cutoff batch) v = (Inr n, v')"
  using assms
  by (simp add: TrafficSampleRepo_DeleteBefore_def run_simps sample_filter_def split: if_splits)

lemma alert_step_total:
  assumes "no_faults E" and "cutoff \<noteq> zero_time"
  shows "\<exists>n v'. AlertRepo_DeleteExpired E (alert_filter mid cutoff batch) v = (Inr n, v')"
  using assms by (simp add: AlertRepo_DeleteExpired_def run_simps alert_filter_def Let_def)

lemma filter_rest: "length (filter p rows) = 0 \<Longrightarrow> filter (\<lambda>r. \<not> p r) rows = rows"
  by (simp add: filter_empty_conv filter_id_conv)

lemma delete_samples_run:
  assumes "no_faults E" and "0 < hc_BatchSize cfg" and "distinct (map ts_ID (samples w))"
  obtains w' where "deleteExpiredSamples E cfg mid cutoff w = Some (Inr (length (filter (old_sample mid cutoff) (samples w))), w')"
    and "samples w' = filter (\<lambda>s. \<not> old_sample mid cutoff s) (samples w)" and "alerts w' = alerts w"
proof -
  from sample_cleanup.loop_succeeds [OF assms(2,3) sample_step_total [OF assms(1)],
      where acc = 0 and mid = mid and cutoff = cutoff and msg = "''delete expired traffic samples: ''"]
  obtain w' where w': "deleteExpiredSamples E cfg mid cutoff w = Some (Inr (length (filter (old_sample mid cutoff) (samples w))), w')"
    "without_samples (old_sample mid cutoff) w' = without_samples (old_sample mid cutoff) w"
    "length (filter (old_sample mid cutoff) (samples w')) = 0"
    unfolding deleteExpiredSamples_def sample_filter_def [symmetric] by auto
  from arg_cong [OF w'(2), of samples] arg_cong [OF w'(2), of alerts] filter_rest [OF w'(3)]
  have "samples w' = filter (\<lambda>s. \<not> old_sample mid cutoff s) (samples w)" "alerts w' = alerts w"
    by (simp_all add: without_samples_def)
  with w'(1) that show ?thesis by blast
qed

lemma delete_alerts_run:
  assumes "no_faults E" and "0 < hc_BatchSize cfg" and "distinct (map al_ID (alerts w))" and "cutoff \<noteq> zero_time"
  obtains w' where "deleteExpiredAlerts E cfg mid cutoff w = Some (Inr (length (filter (old_alert mid cutoff) (alerts w))), w')"
    and "alerts w' = filter (\<lambda>a. \<not> old_alert mid cutoff a) (alerts w)" and "samples w' = samples w"
proof -
  from alert_cleanup.loop_succeeds [OF assms(2,3) alert_step_total [OF assms(1,4)],
      where acc = 0 and mid = mid and msg = "''delete expired alerts: ''"]
  obtain w' where w': "deleteExpiredAlerts E cfg mid cutoff w = Some (Inr (length (filter (old_alert mid cutoff) (alerts w))), w')"
    "without_alerts (old_alert mid cutoff) w' = without_alerts (old_alert mid cutoff) w"
    "length (filter (old_alert mid cutoff) (alerts w')) = 0"
    unfolding deleteExpiredAlerts_def alert_filter_def [symmetric] by auto
  from arg_cong [OF w'(2), of alerts] arg_cong [OF w'(2), of samples] filter_rest [OF w'(3)]
  have "alerts w' = filter (\<lambda>a. \<not> old_alert mid cutoff a) (alerts w)" "samples w' = samples w"
    by (simp_all add: without_alerts_def)
  with w'(1) that show ?thesis by blast
qed

lemma delete_samples_ends:
  assumes "0 < hc_BatchSize cfg" and "distinct (map ts_ID (samples v))"
  obtains r w' where "deleteExpiredSamples E cfg mid cutoff v = Some (r, w')" and "alerts w' = alerts v"
proof -
  from sample_cleanup.loop_ends [OF assms, where E = E and mid = mid and cutoff = cutoff and acc = 0
      and msg = "''delete expired traffic samples: ''"]
  obtain r w' where w': "deleteExpiredSamples E cfg mid cutoff v = Some (r, w')"
    "without_samples (old_sample mid cutoff) w' = without_samples (old_sample mid cutoff) v"
    unfolding deleteExpiredSamples_def sample_filter_def [symmetric] by blast
  from arg_cong [OF w'(2), of alerts] have "alerts w' = alerts v" by (simp add: without_samples_def)
  with w'(1) that show ?thesis by blast
qed

lemma delete_alerts_ends:
  assumes "0 < hc_BatchSize cfg" and "distinct (map al_ID (alerts v))"
  obtains r where "deleteExpiredAlerts E cfg mid cutoff v = Some r"
  using alert_cleanup.loop_ends [OF assms, where E = E and mid = mid and cutoff = cutoff and acc = 0
      and msg = "''delete expired alerts: ''"]
  unfolding deleteExpiredAlerts_def alert_filter_def [symmetric] by blast

text \<open>What a request asks for.\<close>

definition wants_samples :: "CleanupHistoryReq \<Rightarrow> bool" where
  "wants_samples req \<longleftrightarrow> cr_DeleteSamples req \<or> \<not> cr_DeleteAlerts req"

definition wants_alerts :: "CleanupHistoryReq \<Rightarrow> bool" where
  "wants_alerts req \<longleftrightarrow> cr_DeleteAlerts req \<or> \<not> cr_DeleteSamples req"

definition samples_days :: "HistoryCleanupConfig \<Rightarrow> CleanupHistoryReq \<Rightarrow> int" where
  "samples_days cfg req = (case cr_SamplesDays req of Some d \<Rightarrow> d | None \<Rightarrow> hc_SamplesDays cfg)"

definition alerts_days :: "HistoryCleanupConfig \<Rightarrow> CleanupHistoryReq \<Rightarrow> int" where
  "alerts_days cfg req = (case cr_AlertsDays req of Some d \<Rightarrow> d | None \<Rightarrow> hc_AlertsDays cfg)"

definition valid_cleanup :: "HistoryCleanupConfig \<Rightarrow> CleanupHistoryReq \<Rightarrow> bool" where
  "valid_cleanup cfg req \<longleftrightarrow>
     (wants_samples req \<longrightarrow> 0 < samples_days cfg req) \<and> (wants_alerts req \<longrightarrow> 0 < alerts_days cfg req)"

lemma wants_simps:
  "(cr_DeleteSamples req \<or> \<not> cr_DeleteSamples req \<and> \<not> cr_DeleteAlerts req) = wants_samples req"
  "(cr_DeleteAlerts req \<or> \<not> cr_DeleteSamples req \<and> \<not> cr_DeleteAlerts req) = wants_alerts req"
  by (auto simp: wants_samples_def wants_alerts_def)

lemmas cleanup_unfold =
  HistoryCleanupService_Cleanup_def [unfolded wants_simps samples_days_def [symmetric] alerts_days_def [symmetric] Let_def]


lemma cleanup_ends:
  assumes "0 < hc_BatchSize cfg" and "distinct (map ts_ID (samples w))" and "distinct (map al_ID (alerts w))"
  shows "HistoryCleanupService_Cleanup E cfg req w \<noteq> None"
proof -
  let ?sc = "add_days (clk E (tick w)) (- samples_days cfg req)" and ?ac = "add_days (clk E (tick w)) (- alerts_days cfg req)"
  let ?mid = "cr_MachineID req"
  have d0: "distinct (map ts_ID (samples (ticked 1 w)))" "distinct (map al_ID (alerts (ticked 1 w)))"
    using assms(2,3) by simp_all
  obtain r1 w1 where r1: "deleteExpiredSamples E cfg ?mid ?sc (ticked 1 w) = Some (r1, w1)" "alerts w1 = alerts w"
    using delete_samples_ends [OF assms(1) d0(1), where E = E and mid = ?mid and cutoff = ?sc] by (metis ticked_simps(6))
  with assms(3) have d1: "distinct (map al_ID (alerts w1))" by simp
  obtain r2 where r2: "deleteExpiredAlerts E cfg ?mid ?ac w1 = Some r2"
    using delete_alerts_ends [OF assms(1) d1] by blast
  obtain r3 where r3: "deleteExpiredAlerts E cfg ?mid ?ac (ticked 1 w) = Some r3"
    using delete_alerts_ends [OF assms(1) d0(2)] by blast
  from r1(1) r2 r3 show ?thesis
    by (cases "wants_samples req"; cases "wants_alerts req"; cases r1)
      (simp_all add: cleanup_unfold split: prod.split sum.split)
qed

text \<open>C17. With a positive batch size a cleanup always ends, whatever the database does.\<close>

theorem cleanup_terminates:
  assumes "0 < hc_BatchSize cfg" and "distinct (map ts_ID (samples w))" and "distinct (map al_ID (alerts w))"
  shows "HistoryCleanupService_Cleanup E cfg req w \<noteq> None"
  using assms by (rule cleanup_ends)

text \<open>C18. With a batch size that is not positive, which the configuration only rejects when the
  scheduled cleanup is enabled, a valid cleanup never ends unless the database fails (the
  request's deadline): no batch is ever smaller than the batch size.\<close>

theorem cleanup_diverges:
  assumes "no_faults E" and "hc_BatchSize cfg \<le> 0" and "valid_cleanup cfg req"
    and "add_days (clk E (tick w)) (- alerts_days cfg req) \<noteq> zero_time"
  shows "HistoryCleanupService_Cleanup E cfg req w = None"
proof -
  have s: "deleteExpiredSamples E cfg mid cutoff v = None" for mid cutoff v
    using deleteLoop_outcome [of "TrafficSampleRepo_DeleteBefore E (sample_filter mid cutoff (hc_BatchSize cfg))"]
      sample_step_total [OF assms(1)] assms(2)
    unfolding deleteExpiredSamples_def sample_filter_def [symmetric] by (meson not_less option.exhaust)
  have a: "deleteExpiredAlerts E cfg mid cutoff v = None" if "cutoff \<noteq> zero_time" for mid cutoff v
    using deleteLoop_outcome [of "AlertRepo_DeleteExpired E (alert_filter mid cutoff (hc_BatchSize cfg))"]
      alert_step_total [OF assms(1) that] assms(2)
    unfolding deleteExpiredAlerts_def alert_filter_def [symmetric] by (meson not_less option.exhaust)
  have "wants_samples req \<or> wants_alerts req" by (auto simp: wants_samples_def wants_alerts_def)
  moreover have "\<not> (wants_samples req \<and> samples_days cfg req \<le> 0)" "\<not> (wants_alerts req \<and> alerts_days cfg req \<le> 0)"
    using assms(3) by (auto simp: valid_cleanup_def)
  ultimately show ?thesis
    by (cases "wants_samples req") (simp_all add: cleanup_unfold s a [OF assms(4)])
qed

section \<open>Examples\<close>

definition example_cleanup :: HistoryCleanupConfig where
  "example_cleanup = \<lparr>hc_Enabled = True, hc_Interval = 3600, hc_SamplesDays = 30, hc_AlertsDays = 90,
     hc_BatchSize = 1, hc_Timeout = 60\<rparr>"

definition old_row :: TrafficSample where
  "old_row = \<lparr>ts_ID = 1, ts_CreatedAt = 0, ts_UpdatedAt = 0, ts_MachineID = 1, ts_PeriodType = ''daily'', ts_BucketTime = 5,
     ts_UploadMB = 1, ts_DownloadMB = 1, ts_TotalMB = 2, ts_RawPayload = [], ts_CollectedAt = 5\<rparr>"

definition new_row :: TrafficSample where
  "new_row = old_row\<lparr>ts_ID := 2, ts_BucketTime := 1700000000 * second_ns\<rparr>"

definition all_samples :: CleanupHistoryReq where
  "all_samples = \<lparr>cr_DeleteSamples = True, cr_DeleteAlerts = False, cr_SamplesDays = None, cr_AlertsDays = None,
     cr_MachineID = None\<rparr>"

abbreviation history_world :: world where
  "history_world \<equiv> empty_world\<lparr>samples := [old_row, new_row]\<rparr>"

lemmas cleanup_example = example_cleanup_def old_row_def new_row_def all_samples_def empty_world_def
  valid_cleanup_def wants_samples_def wants_alerts_def samples_days_def alerts_days_def

lemma example_cutoffs:
  "add_days (clk example_env 0) (- 30) = 1697408000 * second_ns" "add_days (clk example_env 0) (- 90) \<noteq> zero_time"
  by (simp_all add: example_env_def add_days_def zero_time_def day_ns_def hour_ns_def second_ns_def)


theorem cleanup_terminates_witness:
  "HistoryCleanupService_Cleanup (example_env\<lparr>db_fault := \<lambda>_. Some ''connection lost''\<rparr>) example_cleanup all_samples
     history_world \<noteq> None"
  by (rule cleanup_terminates) (simp_all add: cleanup_example)

lemma run_once_ends:
  assumes "Config_Validate cfg = None" and "hc_Enabled (cf_HistoryCleanup cfg)"
    and "distinct (map ts_ID (samples w))" and "distinct (map al_ID (alerts w))"
  shows "HistoryCleanupService_RunOnce E (cf_HistoryCleanup cfg) w \<noteq> None"
proof -
  have "0 < hc_BatchSize (cf_HistoryCleanup cfg)"
    using assms(1,2) by (simp add: Config_Validate_def Let_def invalid_def split: if_splits)
  then show ?thesis
    using cleanup_ends [OF _ assms(3,4), of "cf_HistoryCleanup cfg"]
    by (simp add: HistoryCleanupService_RunOnce_def split: option.split prod.split sum.split)
qed

theorem cleanup_diverges_witness:
  "HistoryCleanupService_Cleanup example_env (example_cleanup\<lparr>hc_BatchSize := 0\<rparr>) all_samples history_world = None"
  by (rule cleanup_diverges) (simp_all add: cleanup_example example_cutoffs)

end
