(* ===== verification/Handlers.thy ===== *)
theory Handlers
  imports Auth Backup Pipeline Cleanup
begin

text \<open>
  The HTTP handlers of machines, SSH keys, thresholds, traffic samples, alerts and backups,
  \<^verbatim>\<open>internal/handler/*_handler.go\<close>, in the form the handlers of theory \<open>Auth\<close> have: a handler takes
  the raw path parameter, the bound body (\<open>None\<close> when binding failed) or the query, calls its
  service and answers every outcome. Only a panic of the service is left to \<^verbatim>\<open>gin.Recovery\<close>.
\<close>

section \<open>Answers\<close>

definition created :: "'d \<Rightarrow> 'd Response" where
  "created d = \<lparr>rp_Code = 201, rp_Data = Some d, rp_Message = ''success''\<rparr>"

definition no_content :: "unit Response" where
  "no_content = reply 200 ''success''"

definition badRequest :: "string \<Rightarrow> 'd Response" where
  "badRequest message = reply 400 message"

text \<open>A service call whose error \<open>h\<close> answers and whose value \<open>k\<close> does.\<close>

definition answer :: "'a io \<Rightarrow> (go_error \<Rightarrow> 'd Response) \<Rightarrow> ('a \<Rightarrow> 'd Response) \<Rightarrow> 'd Response io" where
  "answer m h k = attempt m (\<lambda>e. ret (h e)) (\<lambda>x. ret (k x))"

definition with_id :: "string \<Rightarrow> string \<Rightarrow> (nat \<Rightarrow> 'd Response io) \<Rightarrow> 'd Response io" where
  "with_id message raw k = (case ParseUint raw of None \<Rightarrow> ret (badRequest message) | Some i \<Rightarrow> k i)"

definition with_body :: "'b option \<Rightarrow> ('b \<Rightarrow> 'd Response io) \<Rightarrow> 'd Response io" where
  "with_body bound k = (case bound of None \<Rightarrow> ret (badRequest ''invalid request'') | Some req \<Rightarrow> k req)"

text \<open>A code point of three UTF-8 bytes, and the message for a key that cannot be decrypted.\<close>

definition utf8 :: "nat list \<Rightarrow> string" where
  "utf8 points = concat (map (\<lambda>n. [char_of (0xE0 + n div 4096), char_of (0x80 + n div 64 mod 64), char_of (0x80 + n mod 64)]) points)"

definition decryptFailedMessage :: string where
  "decryptFailedMessage =
     ''SSH ''
     @ utf8 [0x79C1, 0x94A5, 0x65E0, 0x6CD5, 0x89E3, 0x5BC6, 0xFF0C, 0x5F53, 0x524D]
     @ '' APP_MASTER_KEY ''
     @ utf8 [0x53EF, 0x80FD, 0x4E0E, 0x5BFC, 0x5165, 0x8BE5, 0x5BC6, 0x94A5, 0x65F6, 0x4F7F, 0x7528, 0x7684, 0x4E0D, 0x4E00, 0x81F4, 0xFF0C, 0x8BF7, 0x6062, 0x590D, 0x65E7, 0x5BC6, 0x94A5, 0x6216, 0x91CD, 0x65B0, 0x5BFC, 0x5165]
     @ '' SSH Key''"

section \<open>Machines\<close>

definition handleMachineServiceError :: "go_error \<Rightarrow> 'd Response" where
  "handleMachineServiceError e =
     (if errors_Is e ErrMachineNotFound then reply 404 ''machine not found''
      else if errors_Is e ErrSSHKeyNotFound then reply 400 ''ssh key not found''
      else if errors_Is e ErrInvalidMachineConfig then reply 400 ''invalid machine config''
      else if errors_Is e ErrSSHKeyDecryptFailed then reply 409 decryptFailedMessage
      else internal_error)"

definition MachineHandler_List :: "env \<Rightarrow> MachineResp list Response io" where
  "MachineHandler_List E = answer (MachineService_List E) (\<lambda>_. internal_error) success"

definition MachineHandler_Create :: "env \<Rightarrow> CreateMachineReq option \<Rightarrow> MachineResp Response io" where
  "MachineHandler_Create E bound =
     with_body bound (\<lambda>req. answer (MachineService_Create E req) handleMachineServiceError created)"

definition MachineHandler_Get :: "env \<Rightarrow> string \<Rightarrow> MachineResp Response io" where
  "MachineHandler_Get E raw =
     with_id ''invalid machine id'' raw (\<lambda>machineID. answer (MachineService_Get E machineID) handleMachineServiceError success)"

definition MachineHandler_Update :: "env \<Rightarrow> string \<Rightarrow> UpdateMachineReq option \<Rightarrow> MachineResp Response io" where
  "MachineHandler_Update E raw bound =
     with_id ''invalid machine id'' raw (\<lambda>machineID. with_body bound (\<lambda>req.
       answer (MachineService_Update E machineID req) handleMachineServiceError success))"

definition MachineHandler_Delete :: "env \<Rightarrow> string \<Rightarrow> unit Response io" where
  "MachineHandler_Delete E raw =
     with_id ''invalid machine id'' raw (\<lambda>machineID.
       answer (MachineService_Delete E machineID) handleMachineServiceError (\<lambda>_. no_content))"

text \<open>The answer to the outcome of a connection test.\<close>

definition connectionReply :: "MachineConnectionTestResp \<times> go_error option \<Rightarrow> MachineConnectionTestResp Response" where
  "connectionReply = (\<lambda>(result, err). case err of
      None \<Rightarrow> success result
    | Some e \<Rightarrow>
        if errors_Is e ErrSSHKeyDecryptFailed
        then \<lparr>rp_Code = 409, rp_Data = Some result, rp_Message = decryptFailedMessage\<rparr>
        else if errors_Is e ErrVNStatUnavailable
        then \<lparr>rp_Code = 400, rp_Data = Some result,
              rp_Message = (if mt_Status result = ''vnstat_not_installed'' then ''vnstat not installed''
                            else if mt_Status result = ''vnstat_interface_missing'' then ''vnstat interface not found''
                            else ''vnstat unavailable'')\<rparr>
        else handleMachineServiceError e)"

definition MachineHandler_TestConnection :: "env \<Rightarrow> string \<Rightarrow> string \<Rightarrow> MachineConnectionTestResp Response io" where
  "MachineHandler_TestConnection E masterKey raw =
     with_id ''invalid machine id'' raw (\<lambda>machineID.
     bnd (MachineService_TestConnection E masterKey machineID) (\<lambda>r. ret (connectionReply r)))"

section \<open>SSH keys\<close>

definition SSHKeyHandler_List :: "env \<Rightarrow> SSHKeyResp list Response io" where
  "SSHKeyHandler_List E = answer (SSHKeyService_List E) (\<lambda>_. internal_error) success"

definition SSHKeyHandler_Import :: "env \<Rightarrow> string \<Rightarrow> ImportSSHKeyReq option \<Rightarrow> SSHKeyResp Response io" where
  "SSHKeyHandler_Import E masterKey bound =
     with_body bound (\<lambda>req. answer (SSHKeyService_Import E masterKey req)
       (\<lambda>e. if errors_Is e ErrDuplicateSSHKeyFingerprint then reply 409 ''ssh key fingerprint already exists''
            else reply 400 ''invalid private key'') created)"

definition SSHKeyHandler_Generate :: "env \<Rightarrow> string \<Rightarrow> GenerateSSHKeyReq option \<Rightarrow> SSHKeyResp Response io" where
  "SSHKeyHandler_Generate E masterKey bound =
     with_body bound (\<lambda>req. answer (SSHKeyService_Generate E masterKey req)
       (\<lambda>e. if errors_Is e ErrDuplicateSSHKeyFingerprint then reply 409 ''ssh key fingerprint already exists''
            else internal_error) created)"

definition SSHKeyHandler_GetPublicKey :: "env \<Rightarrow> string \<Rightarrow> SSHKeyResp Response io" where
  "SSHKeyHandler_GetPublicKey E raw =
     with_id ''invalid ssh key id'' raw (\<lambda>sshKeyID.
       answer (SSHKeyService_GetPublicKey E sshKeyID) (\<lambda>_. reply 404 ''ssh key not found'') success)"

record RenameSSHKeyReq =
  rn_Name :: string

definition SSHKeyHandler_Rename :: "env \<Rightarrow> string \<Rightarrow> RenameSSHKeyReq option \<Rightarrow> SSHKeyResp Response io" where
  "SSHKeyHandler_Rename E raw bound =
     with_id ''invalid ssh key id'' raw (\<lambda>sshKeyID. with_body bound (\<lambda>req.
       answer (SSHKeyService_Rename E sshKeyID (rn_Name req))
         (\<lambda>e. if errors_Is e ErrSSHKeyNotFound then reply 404 ''ssh key not found'' else internal_error) success))"

definition SSHKeyHandler_Delete :: "env \<Rightarrow> string \<Rightarrow> unit Response io" where
  "SSHKeyHandler_Delete E raw =
     with_id ''invalid ssh key id'' raw (\<lambda>sshKeyID.
       answer (SSHKeyService_Delete E sshKeyID)
         (\<lambda>e. if errors_Is e ErrSSHKeyInUse
              then reply 409 ''ssh key is still referenced by machines; please update or remove those machines first''
              else internal_error) (\<lambda>_. no_content))"

section \<open>Thresholds\<close>

definition handleThresholdError :: "go_error \<Rightarrow> 'd Response" where
  "handleThresholdError e =
     (if errors_Is e ErrInvalidThresholdRule then badRequest ''invalid threshold rule''
      else if errors_Is e ErrMachineNotFound then reply 404 ''machine not found''
      else internal_error)"

definition ThresholdHandler_ListGlobalRules :: "env \<Rightarrow> ThresholdRuleResp list Response io" where
  "ThresholdHandler_ListGlobalRules E = answer (ThresholdService_ListGlobalRules E) (\<lambda>_. internal_error) success"

definition ThresholdHandler_UpsertGlobalRules :: "env \<Rightarrow> ThresholdRulePayload list option \<Rightarrow> unit Response io" where
  "ThresholdHandler_UpsertGlobalRules E bound =
     with_body bound (\<lambda>req. answer (ThresholdService_UpsertGlobalRules E req) handleThresholdError (\<lambda>_. no_content))"

definition ThresholdHandler_ListMachineRules :: "env \<Rightarrow> string \<Rightarrow> ThresholdRuleResp list Response io" where
  "ThresholdHandler_ListMachineRules E raw =
     with_id ''invalid machine id'' raw (\<lambda>machineID.
       answer (ThresholdService_ListEffectiveMachineRules E machineID) handleThresholdError success)"

definition ThresholdHandler_UpsertMachineRules :: "env \<Rightarrow> string \<Rightarrow> ThresholdRulePayload list option \<Rightarrow> unit Response io" where
  "ThresholdHandler_UpsertMachineRules E raw bound =
     with_id ''invalid machine id'' raw (\<lambda>machineID. with_body bound (\<lambda>req.
       answer (ThresholdService_UpsertMachineRules E machineID req) handleThresholdError (\<lambda>_. no_content)))"

section \<open>Traffic samples\<close>

text \<open>The common part of the two list queries: the machine, the page and its size.\<close>

definition query_int :: "string \<Rightarrow> int option" where
  "query_int raw = (if raw = [] then Some 0 else Atoi raw)"

definition query_machine :: "string \<Rightarrow> nat option option" where
  "query_machine raw = (if raw = [] then Some None else map_option Some (ParseUint raw))"

definition parseListTrafficSamplesQuery :: "(string \<Rightarrow> string) \<Rightarrow> TrafficSampleFilter option" where
  "parseListTrafficSamplesQuery query =
     (case query_machine (query ''machine_id'') of
        None \<Rightarrow> None
      | Some machineID \<Rightarrow>
          (case query_int (query ''page'') of
             None \<Rightarrow> None
           | Some page \<Rightarrow>
               (case query_int (query ''page_size'') of
                  None \<Rightarrow> None
                | Some pageSize \<Rightarrow> Some \<lparr>sf_MachineID = machineID, sf_PeriodType = query ''period_type'',
                                          sf_Page = page, sf_PageSize = pageSize\<rparr>)))"

definition TrafficSampleHandler_ListSamples :: "env \<Rightarrow> (string \<Rightarrow> string) \<Rightarrow> (TrafficSampleResp list \<times> nat) Response io" where
  "TrafficSampleHandler_ListSamples E query =
     (case parseListTrafficSamplesQuery query of
        None \<Rightarrow> ret (badRequest ''invalid query'')
      | Some q \<Rightarrow> answer (TrafficCollectionService_ListSamples E q) (\<lambda>_. internal_error) success)"

text \<open>Two bodies may be missing: what was bound comes with the error of binding, \<^verbatim>\<open>EOF\<close> for an empty body.\<close>

definition bad_body :: "string option \<Rightarrow> bool" where
  "bad_body err \<longleftrightarrow> err \<noteq> None \<and> err \<noteq> Some ''EOF''"

definition handleTrafficCollectionError :: "go_error \<Rightarrow> 'd Response" where
  "handleTrafficCollectionError e =
     (if errors_Is e ErrMachineNotFound then reply 404 ''machine not found''
      else if errors_Is e ErrSSHKeyNotFound then reply 400 ''ssh key not found''
      else internal_error)"

definition TrafficSampleHandler_CollectNow ::
  "env \<Rightarrow> string \<Rightarrow> nat option \<times> string option \<Rightarrow> CollectNowMachineResp list Response io" where
  "TrafficSampleHandler_CollectNow E masterKey bound =
     (if bad_body (snd bound) then ret (badRequest ''invalid request'')
      else answer (TrafficCollectionService_CollectNow (AlertService_EvaluateSamples E) E masterKey (fst bound))
             handleTrafficCollectionError success)"

definition handleHistoryCleanupError :: "go_error \<Rightarrow> 'd Response" where
  "handleHistoryCleanupError e =
     (if errors_Is e ErrInvalidHistoryCleanupRequest then reply 400 ''invalid history cleanup request''
      else if errors_Is e ErrMachineNotFound then reply 404 ''machine not found''
      else internal_error)"

definition TrafficSampleHandler_CleanupHistory ::
  "env \<Rightarrow> HistoryCleanupConfig \<Rightarrow> CleanupHistoryReq \<times> string option \<Rightarrow> CleanupHistoryResp Response loop" where
  "TrafficSampleHandler_CleanupHistory E cfg bound w =
     (if bad_body (snd bound) then Some (Inr (badRequest ''invalid request''), w)
      else case HistoryCleanupService_Cleanup E cfg (fst bound) w of
             None \<Rightarrow> None
           | Some (Inl e, w') \<Rightarrow> Some (Inr (handleHistoryCleanupError e), w')
           | Some (Inr resp, w') \<Rightarrow> Some (Inr (success resp), w'))"

section \<open>Alerts and notifications\<close>

definition parseListAlertsQuery :: "(string \<Rightarrow> string) \<Rightarrow> AlertFilter option" where
  "parseListAlertsQuery query =
     (case query_machine (query ''machine_id'') of
        None \<Rightarrow> None
      | Some machineID \<Rightarrow>
          (case query_int (query ''page'') of
             None \<Rightarrow> None
           | Some page \<Rightarrow>
               (case query_int (query ''page_size'') of
                  None \<Rightarrow> None
                | Some pageSize \<Rightarrow> Some \<lparr>af_MachineID = machineID, af_PeriodType = query ''period_type'',
                                          af_Page = page, af_PageSize = pageSize\<rparr>)))"

definition AlertHandler_ListAlerts :: "env \<Rightarrow> (string \<Rightarrow> string) \<Rightarrow> (AlertResp list \<times> nat) Response io" where
  "AlertHandler_ListAlerts E query =
     (case parseListAlertsQuery query of
        None \<Rightarrow> ret (badRequest ''invalid query'')
      | Some q \<Rightarrow> answer (AlertService_ListAlerts E q) (\<lambda>_. internal_error) success)"

definition AlertHandler_ListNotificationChannels :: "env \<Rightarrow> NotificationChannelResp list Response io" where
  "AlertHandler_ListNotificationChannels E = answer (AlertService_ListNotificationChannels E) (\<lambda>_. internal_error) success"

definition AlertHandler_ListNotificationProxies :: "env \<Rightarrow> NotificationProxyResp list Response io" where
  "AlertHandler_ListNotificationProxies E = answer (AlertService_ListNotificationProxies E) (\<lambda>_. internal_error) success"

definition handleNotificationProxyError :: "go_error \<Rightarrow> 'd Response" where
  "handleNotificationProxyError e =
     (if errors_Is e ErrInvalidNotificationProxy then reply 400 ''invalid notification proxy config''
      else if errors_Is e ErrNotificationProxyNotFound then reply 404 ''notification proxy not found''
      else internal_error)"

definition AlertHandler_CreateNotificationProxy :: "env \<Rightarrow> UpsertNotificationProxyReq option \<Rightarrow> NotificationProxyResp Response io" where
  "AlertHandler_CreateNotificationProxy E bound =
     with_body bound (\<lambda>req. answer (AlertService_CreateNotificationProxy E req) handleNotificationProxyError created)"

definition AlertHandler_UpdateNotificationProxy ::
  "env \<Rightarrow> string \<Rightarrow> UpsertNotificationProxyReq option \<Rightarrow> NotificationProxyResp Response io" where
  "AlertHandler_UpdateNotificationProxy E raw bound =
     with_id ''invalid notification proxy id'' raw (\<lambda>proxyID. with_body bound (\<lambda>req.
       answer (AlertService_UpdateNotificationProxy E proxyID req) handleNotificationProxyError success))"

definition AlertHandler_DeleteNotificationProxy :: "env \<Rightarrow> string \<Rightarrow> unit Response io" where
  "AlertHandler_DeleteNotificationProxy E raw =
     with_id ''invalid notification proxy id'' raw (\<lambda>proxyID.
       answer (AlertService_DeleteNotificationProxy E proxyID) handleNotificationProxyError (\<lambda>_. no_content))"

text \<open>The two errors every channel operation knows; the rest differs.\<close>

definition channelError :: "'d Response \<Rightarrow> go_error \<Rightarrow> 'd Response" where
  "channelError other e =
     (if errors_Is e ErrInvalidNotificationChannel then reply 400 ''invalid notification channel config''
      else if errors_Is e ErrInvalidNotificationProxy then reply 400 ''invalid notification proxy config''
      else other)"

definition handleAlertServiceError :: "go_error \<Rightarrow> 'd Response" where
  "handleAlertServiceError e = channelError internal_error e"

definition handleWebhookTestError :: "go_error \<Rightarrow> 'd Response" where
  "handleWebhookTestError e = channelError (reply 400 (''webhook test failed: '' @ error_text e)) e"

definition handleTelegramTestError :: "go_error \<Rightarrow> 'd Response" where
  "handleTelegramTestError e = channelError (reply 400 (''telegram test failed: '' @ error_text e)) e"

definition AlertHandler_UpsertWebhookChannel :: "env \<Rightarrow> UpsertWebhookChannelReq option \<Rightarrow> unit Response io" where
  "AlertHandler_UpsertWebhookChannel E bound =
     with_body bound (\<lambda>req. answer (AlertService_UpsertWebhookChannel E req) handleAlertServiceError (\<lambda>_. no_content))"

text \<open>The service gives its report as JSON text; \<open>decode\<close> is \<^verbatim>\<open>json.Unmarshal\<close> into the report.\<close>

definition AlertHandler_TestWebhookChannel ::
  "env \<Rightarrow> (string \<Rightarrow> TestWebhookChannelResp option) \<Rightarrow> UpsertWebhookChannelReq option \<Rightarrow> TestWebhookChannelResp Response io" where
  "AlertHandler_TestWebhookChannel E decode bound =
     with_body bound (\<lambda>req. answer (AlertService_TestWebhookChannel E req) handleWebhookTestError
       (\<lambda>responseExcerpt. case decode responseExcerpt of
          None \<Rightarrow> success \<lparr>tw_StatusCode = 200, tw_Body = responseExcerpt, tw_RenderedURL = [], tw_RenderedHeaders = [],
                           tw_RenderedBody = []\<rparr>
        | Some response \<Rightarrow> success (response\<lparr>tw_StatusCode := 200\<rparr>)))"

definition AlertHandler_UpsertTelegramChannel :: "env \<Rightarrow> UpsertTelegramChannelReq option \<Rightarrow> unit Response io" where
  "AlertHandler_UpsertTelegramChannel E bound =
     with_body bound (\<lambda>req. answer (AlertService_UpsertTelegramChannel E req) handleAlertServiceError (\<lambda>_. no_content))"

definition AlertHandler_TestTelegramChannel :: "env \<Rightarrow> UpsertTelegramChannelReq option \<Rightarrow> TestTelegramChannelResp Response io" where
  "AlertHandler_TestTelegramChannel E bound =
     with_body bound (\<lambda>req. answer (AlertService_TestTelegramChannel E req) handleTelegramTestError success)"

section \<open>Backups\<close>

definition handleBackupServiceError :: "go_error \<Rightarrow> 'd Response" where
  "handleBackupServiceError e =
     (if errors_Is e ErrInvalidBackupRequest then reply 400 ''invalid backup request''
      else if errors_Is e ErrInvalidBackupPayload then reply 400 ''invalid backup payload''
      else if errors_Is e ErrBackupDecryptFailed then reply 400 ''backup decrypt failed''
      else if errors_Is e ErrBackupSSHKeyDecryptFail then reply 409 decryptFailedMessage
      else internal_error)"

definition BackupHandler_Export ::
  "env \<Rightarrow> (backupPayload \<Rightarrow> string) \<Rightarrow> string \<Rightarrow> BackupExportReq option \<Rightarrow> EncryptedBackup Response io" where
  "BackupHandler_Export E marshal masterKey bound =
     with_body bound (\<lambda>req. answer (BackupService_Export E marshal masterKey req) handleBackupServiceError success)"

text \<open>A panic unwinds the handler.\<close>

definition is_panic :: "go_error \<Rightarrow> bool" where
  "is_panic e = (case e of Foreign msg \<Rightarrow> HasPrefix msg ''panic: '' | _ \<Rightarrow> False)"

definition BackupHandler_Import ::
  "env \<Rightarrow> (string \<Rightarrow> backupPayload option) \<Rightarrow> string \<Rightarrow> BackupImportReq option \<Rightarrow> BackupImportResp Response io" where
  "BackupHandler_Import E unmarshal masterKey bound =
     with_body bound (\<lambda>req. attempt (BackupService_Import E unmarshal masterKey req)
       (\<lambda>e. if is_panic e then fail e else ret (handleBackupServiceError e)) (\<lambda>response. ret (success response)))"

end
