(* ===== verification/Restore.thy ===== *)
theory Restore
  imports Backup
begin

text \<open>
  What the backup service guarantees: what was encrypted under a password opens under it
  (\<open>backup_opens\<close>); an import only adds rows, whatever fails (\<open>import_only_adds\<close>); every rejection of the
  payload comes before the first write (\<open>import_validates_first\<close>); what an import adds comes from
  the payload and its counters are right (\<open>import_all_or_nothing\<close>); machines reach another instance with
  their settings and keys (\<open>backup_restores\<close>).
  Loops of the import are handled by the rules for \<open>fold_each\<close>.
\<close>

section \<open>Loop rules\<close>

lemma keeps_fold_each:
  "(\<And>x s. keeps I (f x s)) \<Longrightarrow> keeps I (fold_each f xs s)"
  by (induction xs arbitrary: s) (auto intro: keeps_intros)

text \<open>\<open>P done s w\<close>: the items \<open>done\<close> are processed, the loop's variables are \<open>s\<close>. \<open>R\<close> holds when an item ended the
  loop with an error.\<close>

lemma fold_each_rule:
  assumes "fold_each f xs s w = (r, w')" and "P d s w"
    and "\<And>d x s w r w'. x \<in> set xs \<Longrightarrow> P d s w \<Longrightarrow> f x s w = (r, w') \<Longrightarrow>
      case r of Inl e \<Rightarrow> R e w' | Inr s' \<Rightarrow> P (d @ [x]) s' w'"
  shows "case r of Inl e \<Rightarrow> R e w' | Inr s' \<Rightarrow> P (d @ xs) s' w'"
  using assms
proof (induction xs arbitrary: d s w)
  case Nil
  then show ?case by (auto simp: run_ret)
next
  case (Cons x xs)
  obtain r1 w1 where x: "f x s w = (r1, w1)" by fastforce
  have step: "case r1 of Inl e \<Rightarrow> R e w1 | Inr s' \<Rightarrow> P (d @ [x]) s' w1"
    by (rule Cons.prems(3) [OF _ Cons.prems(2) x]) simp
  show ?case
  proof (cases r1)
    case (Inl e)
    with step Cons.prems(1) x show ?thesis by (auto simp: run_bnd)
  next
    case (Inr s1)
    with Cons.prems(1) x have xs: "fold_each f xs s1 w1 = (r, w')" by (simp add: run_bnd)
    have "case r of Inl e \<Rightarrow> R e w' | Inr s' \<Rightarrow> P ((d @ [x]) @ xs) s' w'"
      by (rule Cons.IH [OF xs]) (use step Inr Cons.prems(3) in auto)
    then show ?thesis by (cases r) simp_all
  qed
qed

lemmas fold_each_loop = fold_each_rule [where d = "[]", unfolded append_Nil]

section \<open>Encryption\<close>

text \<open>A sealed text is never empty: GCM appends its tag.\<close>

definition gcm_tagged :: "env \<Rightarrow> bool" where
  "gcm_tagged E \<longleftrightarrow> (\<forall>k n p. aes_key_size_ok k \<longrightarrow> gcm_seal E k n p \<noteq> [])"

lemma decode_field_encode: "s \<noteq> [] \<Longrightarrow> decode_field (b64_encode s) = Some s"
  by (cases s) (simp_all add: decode_field_def)

lemma encode_nonempty: "s \<noteq> [] \<Longrightarrow> b64_encode s \<noteq> []"
  by (cases s rule: b64_encode.cases) simp_all

lemma random_bytes_result:
  assumes "randomBytes E n w = (Inr bs, w')"
  shows "rand_bytes E (tick w) n = Inr bs" "w' = ticked 1 w"
  using assms by (auto simp: randomBytes_def run_simps split: sum.splits)

text \<open>A backup opens under the password it was made with, whatever the random source gave.\<close>

lemma backup_opens:
  assumes "gcm_sound E" and "gcm_tagged E" and "encryptBackupPayload E pw plain w = (Inr b, w')"
  shows "decryptBackupPayload E pw b = Inr plain"
proof -
  from assms(3) obtain salt w1 nonce where s: "randomBytes E backupSaltSize w = (Inr salt, w1)"
    and ok: "aes_key_size_ok (pbkdf2_key E pw salt backupEncryptionIterations backupKeySize)"
    and n: "randomBytes E gcm_NonceSize w1 = (Inr nonce, w')"
    and b: "b = \<lparr>eb_Version = backupVersion, eb_Encrypted = True,
      eb_Encryption = \<lparr>bc_Algorithm = backupEncryptionAlgorithm, bc_KDF = backupEncryptionKDF,
        bc_Iterations = int backupEncryptionIterations, bc_Salt = b64_encode salt, bc_Nonce = b64_encode nonce\<rparr>,
      eb_Payload = b64_encode (gcm_seal E (pbkdf2_key E pw salt backupEncryptionIterations backupKeySize) nonce plain)\<rparr>"
    by (auto simp: encryptBackupPayload_def Let_def run_ret run_fail elim!: bnd_InrE split: if_splits)
  have "length salt = 16" "length nonce = 12"
    using assms(1) random_bytes_result(1) [OF s] random_bytes_result(1) [OF n] by (auto simp: gcm_sound_def backupSaltSize_def gcm_NonceSize_def)
  then have "salt \<noteq> []" "nonce \<noteq> []" by auto
  moreover have "gcm_seal E (pbkdf2_key E pw salt backupEncryptionIterations backupKeySize) nonce plain \<noteq> []"
    using assms(2) ok by (simp add: gcm_tagged_def)
  ultimately show ?thesis
    using assms(1) ok \<open>length nonce = 12\<close>
    by (simp add: decryptBackupPayload_def b decode_field_encode encode_nonempty gcm_sound_def backupVersion_def
        backupMinSupportedVersion_def gcm_NonceSize_def)
qed

text \<open>C40. A backup file whose nonce is not twelve bytes long makes the import panic instead of being
  rejected: its length is not checked before the cipher gets it.\<close>

theorem odd_nonce_panics:
  assumes "TrimSpace pw \<noteq> []"
    and "eb_Version b = 2" and "eb_Encrypted b"
    and "bc_Algorithm (eb_Encryption b) = ''AES-256-GCM''" and "bc_KDF (eb_Encryption b) = ''PBKDF2-SHA256''"
    and "bc_Iterations (eb_Encryption b) = 210000"
    and "b64_decode (bc_Salt (eb_Encryption b)) = Some salt" and "salt \<noteq> []"
    and "b64_decode (bc_Nonce (eb_Encryption b)) = Some nonce" and "nonce \<noteq> []" and "length nonce \<noteq> 12"
    and "b64_decode (eb_Payload b) = Some cipher" and "cipher \<noteq> []"
    and "\<forall>n. length (pbkdf2_key E pw salt n 32) = 32"
  shows "BackupService_Import E unmarshal masterKey \<lparr>bi_Password = pw, bi_Backup = b\<rparr> w =
     (Inl (go_panic ''crypto/cipher: incorrect nonce length given to GCM''), w)"
proof -
  have fields: "decode_field (bc_Salt (eb_Encryption b)) = Some salt" "decode_field (bc_Nonce (eb_Encryption b)) = Some nonce"
    "decode_field (eb_Payload b) = Some cipher"
    using assms by (auto simp: decode_field_def split: list.split)
  have "eb_Payload b \<noteq> []" using assms(12,13) by (auto simp: b64_decode_def)
  then have "decryptBackupPayload E pw b = Inl (go_panic ''crypto/cipher: incorrect nonce length given to GCM'')"
    using assms fields
    by (simp add: decryptBackupPayload_def Let_def backupVersion_def backupMinSupportedVersion_def backupEncryptionAlgorithm_def
        backupEncryptionKDF_def backupEncryptionIterations_def gcm_NonceSize_def aes_key_size_ok_def backupKeySize_def)
  with assms(1) show ?thesis by (simp add: BackupService_Import_def run_simps)
qed

section \<open>An import only adds\<close>

definition only_adds :: "world \<Rightarrow> world \<Rightarrow> bool" where
  "only_adds w v \<longleftrightarrow> prefix (ssh_keys w) (ssh_keys v) \<and> prefix (machines w) (machines v) \<and> prefix (proxies w) (proxies v) \<and>
     prefix (channels w) (channels v) \<and> prefix (global_rules w) (global_rules v) \<and> prefix (machine_rules w) (machine_rules v) \<and>
     admins v = admins w \<and> alerts v = alerts w \<and> deliveries v = deliveries w \<and> settings v = settings w \<and> samples v = samples w"

lemma only_adds_refl [simp]: "only_adds w w"
  by (simp add: only_adds_def)

lemma only_adds_tick [simp]: "tick_free (only_adds w)"
  by (simp add: tick_free_def only_adds_def)

lemma prefix_insert_ignore: "prefix xs ys \<Longrightarrow> prefix xs (sql_insert_ignore key r ys)"
  by (auto simp: sql_insert_ignore_def prefix_def)

lemma prefix_fold_insert_ignore: "prefix xs ys \<Longrightarrow> prefix xs (fold (sql_insert_ignore key) rs ys)"
  by (induction rs arbitrary: ys) (simp_all add: prefix_insert_ignore)

lemma keeps_create_statement:
  assumes "tick_free I" and "\<And>t w. I w \<Longrightarrow> I (snd (f t w))"
  shows "keeps I (statement E f)"
  by (rule keeps_statement [OF assms(1)]) (simp add: keeps_def assms(2))

lemma adds_creates [keeps_intros]:
  "keeps (only_adds w) (SSHKeyRepo_Create E k)" "keeps (only_adds w) (MachineRepo_Create E m)"
  "keeps (only_adds w) (NotificationProxyRepo_Create E p)" "keeps (only_adds w) (NotificationChannelRepo_CreateIfAbsent E c)"
  unfolding SSHKeyRepo_Create_def MachineRepo_Create_def NotificationProxyRepo_Create_def NotificationChannelRepo_CreateIfAbsent_def
  by (intro keeps_wrap keeps_create_statement only_adds_tick,
      auto simp: only_adds_def Let_def prefix_insert_ignore intro: prefix_append [THEN iffD2])+

lemma adds_creates_rules [keeps_intros]:
  "keeps (only_adds w) (ThresholdRuleRepo_CreateGlobalRulesIfAbsent E gs)"
  "keeps (only_adds w) (ThresholdRuleRepo_CreateMachineRulesIfAbsent E ms)"
  unfolding ThresholdRuleRepo_CreateGlobalRulesIfAbsent_def ThresholdRuleRepo_CreateMachineRulesIfAbsent_def
  by (intro keeps_if keeps_ret keeps_wrap keeps_create_statement only_adds_tick;
      simp add: only_adds_def Let_def prefix_fold_insert_ignore)+

text \<open>The lists the import reads.\<close>

lemma keeps_lists [keeps_intros]:
  assumes "tick_free I"
  shows "keeps I (SSHKeyRepo_List E)" "keeps I (MachineRepo_List E)" "keeps I (NotificationProxyRepo_List E)"
    "keeps I (NotificationChannelRepo_List E)" "keeps I (ThresholdRuleRepo_ListGlobalRules E)"
    "keeps I (ThresholdRuleRepo_ListMachineRulesByMachineIDs E ids)"
  unfolding SSHKeyRepo_List_def MachineRepo_List_def NotificationProxyRepo_List_def NotificationChannelRepo_List_def
    ThresholdRuleRepo_ListGlobalRules_def ThresholdRuleRepo_ListMachineRulesByMachineIDs_def
  by (intro keeps_if keeps_ret keeps_wrap keeps_create_statement assms; simp)+

lemmas only_adds_intros = keeps_intros keeps_fold_each only_adds_tick protector.keeps_encrypt

text \<open>C38. An import only adds rows at the end of six tables: whatever the database does, and whether the import
  succeeds or fails, no existing row of any table changes.\<close>

theorem import_only_adds:
  "only_adds w (snd (BackupService_Import E unmarshal masterKey req w))"
proof -
  have "keeps (only_adds w) (importPayload E masterKey p)" for p
    unfolding importPayload_def importSSHKey_def importMachine_def importNotificationProxies_def importNotificationProxy_def
      importNotificationChannels_def importNotificationChannel_def importThresholdRules_def importGlobalThresholdRules_def
      importMachineThresholdRules_def Let_def
    by (intro only_adds_intros)
  then have "keeps (only_adds w) (BackupService_Import E unmarshal masterKey req)"
    unfolding BackupService_Import_def by (intro only_adds_intros)
  then show ?thesis by (simp add: keeps_def)
qed

section \<open>Validation comes first\<close>

text \<open>Identifiers are positive: sequences start at one.\<close>

definition ids_positive :: "world \<Rightarrow> bool" where
  "ids_positive w \<longleftrightarrow> 0 < seqs w TSSHKeys \<and> 0 \<notin> sk_ID ` set (ssh_keys w)"

lemma map_from_ran: "map_from key val rows k = Some v \<Longrightarrow> \<exists>r\<in>set rows. key r = k \<and> val r = v"
  by (auto simp: map_from_def dest!: map_of_SomeD)

lemma map_from_dom: "map_from key val rows k = None \<longleftrightarrow> k \<notin> key ` set rows"
  by (auto simp: map_from_def map_of_eq_None_iff image_iff)

lemma first_error_None: "first_error f xs = None \<longleftrightarrow> (\<forall>x\<in>set xs. f x = None)"
  by (induction xs) (auto split: option.split)

lemma orElse_None: "orElse a b = None \<longleftrightarrow> a = None \<and> b = None"
  by (cases a) (simp_all add: orElse_def)

text \<open>What a payload that passed the validation has; the visiting order does not matter.\<close>

lemma check_field_None: "check_field (field, s) = None \<longleftrightarrow> s \<noteq> [] \<and> RuneCount s \<le> backupMaxNameLength"
  by (simp add: check_field_def validateBackupFieldLength_def)

lemma valid_machine:
  "validateBackupMachinePayload visit item = None \<longleftrightarrow>
     (\<forall>s\<in>{TrimSpace (bm_Name item), TrimSpace (bm_Host item), TrimSpace (bm_SSHUser item), TrimSpace (bm_NetworkInterface item)}.
        s \<noteq> [] \<and> RuneCount s \<le> backupMaxNameLength) \<and> 0 < bm_Port item \<and> bm_Port item \<le> 65535"
proof -
  define fields where "fields = [(0 :: nat, ''machine name'', TrimSpace (bm_Name item)), (1, ''machine host'', TrimSpace (bm_Host item)),
    (2, ''machine ssh user'', TrimSpace (bm_SSHUser item)), (3, ''machine network interface'', TrimSpace (bm_NetworkInterface item))]"
  have "first_error check_field (map snd (sort_key (visit o fst) fields)) = None \<longleftrightarrow> (\<forall>x\<in>snd ` set fields. check_field x = None)"
    by (simp add: first_error_None)
  moreover have "validateBackupMachinePayload visit item = None \<longleftrightarrow>
      first_error check_field (map snd (sort_key (visit o fst) fields)) = None \<and> 0 < bm_Port item \<and> bm_Port item \<le> 65535"
    unfolding validateBackupMachinePayload_def Let_def fields_def [symmetric] by (simp split: option.split)
  ultimately show ?thesis by (simp add: fields_def check_field_None)
qed

lemma valid_payload:
  "validateBackupPayload E visit p = None \<longleftrightarrow>
     (\<forall>k\<in>set (bl_SSHKeys p). validateBackupSSHKey E k = None) \<and>
     (\<forall>m\<in>set (bl_Machines p). validateBackupMachinePayload id m = None) \<and>
     (\<forall>x\<in>set (bl_NotificationProxies p). validateBackupProxy E x = None) \<and>
     (\<forall>c\<in>set (bl_NotificationChannels p). validateBackupChannel E c = None) \<and>
     (\<forall>r\<in>set (bl_GlobalThresholdRules p). validateBackupThresholdRule (bg_PeriodType r) (bg_MetricType r) (bg_ThresholdMB r) = None) \<and>
     (\<forall>r\<in>set (bl_MachineThresholdRules p). validateBackupThresholdRule (bt_PeriodType r) (bt_MetricType r) (bt_ThresholdMB r) = None)"
proof -
  have "(\<forall>x\<in>set (enumerate 0 ms). case x of (i, m) \<Rightarrow> validateBackupMachinePayload (\<lambda>j. visit (4 * i + j)) m = None) \<longleftrightarrow>
      (\<forall>m\<in>set ms. validateBackupMachinePayload id m = None)" for ms
  proof -
    have "snd ` set (enumerate 0 ms) = set ms" by (metis list.set_map map_snd_enumerate)
    moreover have "(\<forall>x\<in>set (enumerate 0 ms). case x of (i, m) \<Rightarrow> validateBackupMachinePayload (\<lambda>j. visit (4 * i + j)) m = None) \<longleftrightarrow>
        (\<forall>x\<in>set (enumerate 0 ms). validateBackupMachinePayload id (snd x) = None)"
      unfolding valid_machine by (simp add: case_prod_unfold)
    ultimately show ?thesis by (metis (no_types, lifting) image_iff)
  qed
  then show ?thesis
    by (simp add: validateBackupPayload_def orElse_None first_error_None case_prod_unfold)
qed

lemma encrypt_result:
  assumes "DataProtector_Encrypt E key plain w = (r, w')"
  shows "\<exists>n. w' = ticked n w" and "r = Inl e \<Longrightarrow> \<not> errors_Is e x"
proof -
  show "\<exists>n. w' = ticked n w" using protector.encrypt_pure [of E key plain w] assms by simp
  show "r = Inl e \<Longrightarrow> \<not> errors_Is e x"
    using assms by (auto simp: DataProtector_Encrypt_def key_size_error_def run_simps split: if_splits sum.splits)
qed

lemma create_key_result:
  assumes "SSHKeyRepo_Create E k w = (r, w')"
  obtains (refused) msg where "r = Inl (Wrapf ''create ssh key: '' (Foreign msg) [])" and "same_tables w w'"
      and "\<forall>t. seqs w t \<le> seqs w' t"
      and "no_faults E \<Longrightarrow> sk_Fingerprint k \<in> sk_Fingerprint ` set (ssh_keys w) \<and> Contains msg ''duplicate key''"
  | (created) row where "r = Inr row" and "row = k\<lparr>sk_ID := seqs w TSSHKeys, sk_CreatedAt := sk_CreatedAt row, sk_UpdatedAt := sk_UpdatedAt row\<rparr>"
      and "same_tables (w\<lparr>ssh_keys := ssh_keys w @ [row]\<rparr>) w'" and "\<forall>t. seqs w t \<le> seqs w' t" and "seqs w TSSHKeys < seqs w' TSSHKeys"
      and "sk_Fingerprint k \<notin> sk_Fingerprint ` set (ssh_keys w)"
proof (cases "db_fault E (tick w)")
  case (Some msg)
  with assms show thesis
    by (intro refused [of msg]) (auto simp: SSHKeyRepo_Create_def run_wrap statement_def no_faults_def)
next
  case None
  let ?dup = "''ERROR: duplicate key value violates unique constraint idx_ssh_keys_fingerprint (SQLSTATE 23505)''"
  have contains: "Contains ?dup ''duplicate key''" by code_simp
  show thesis
  proof (cases "sk_Fingerprint k \<in> sk_Fingerprint ` set (ssh_keys w)")
    case True
    with None assms contains show thesis
      by (intro refused [of ?dup])
        (auto simp: SSHKeyRepo_Create_def run_wrap statement_def Let_def pg_duplicate_key_def bump_seq_def image_iff)
  next
    case False
    with None assms show thesis
      by (intro created [of "k\<lparr>sk_ID := seqs w TSSHKeys, sk_CreatedAt := gorm_stamp (sk_CreatedAt k) (clk E (tick w)),
          sk_UpdatedAt := gorm_stamp (sk_UpdatedAt k) (clk E (tick w))\<rparr>"])
        (auto simp: SSHKeyRepo_Create_def run_wrap statement_def Let_def bump_seq_def same_tables_def image_iff)
  qed
qed

text \<open>The name, the private key and the parsed parts of a valid item.\<close>

definition key_text :: "backupSSHKeyPayload \<Rightarrow> string" where
  "key_text item = TrimSpace (bk_PrivateKey item)"

definition key_name :: "backupSSHKeyPayload \<Rightarrow> string" where
  "key_name item = TrimSpace (bk_Name item)"

definition made_from :: "env \<Rightarrow> string \<Rightarrow> backupSSHKeyPayload \<Rightarrow> SSHKey \<Rightarrow> bool" where
  "made_from E masterKey item k \<longleftrightarrow> sk_Name k = key_name item \<and> sk_SourceType k = normalizeBackupSSHKeySource (bk_SourceType item) \<and>
     parsePrivateKey E (key_text item) = Inr (sk_KeyType k, sk_PublicKey k, sk_Fingerprint k) \<and>
     (gcm_sound E \<longrightarrow> DataProtector_Decrypt E masterKey (sk_PrivateKeyCiphertext k) = Inr (key_text item))"

lemma valid_key:
  assumes "validateBackupSSHKey E item = None"
  obtains kt pk fp where "key_name item \<noteq> []" "key_text item \<noteq> []" "parsePrivateKey E (key_text item) = Inr (kt, pk, fp)"
  using assms by (auto simp: validateBackupSSHKey_def Let_def key_name_def key_text_def split: if_splits option.splits sum.splits)

text \<open>One round of the loop over the keys.\<close>

lemma import_key_result:
  assumes "validateBackupSSHKey E item = None" and "importSSHKey E masterKey item (resp, n, f) w = (r, w')"
  obtains (known) i where "n (key_name item) = Some i" and "r = Inr (resp\<lparr>SkippedSSHKeys := SkippedSSHKeys resp + 1\<rparr>, n, f)" and "w' = w"
  | (error) e where "r = Inl e" and "\<not> errors_Is e ErrInvalidBackupPayload" and "same_tables w w'"
      and "\<forall>t. seqs w t \<le> seqs w' t"
      and "no_faults E \<Longrightarrow> \<not> aes_key_size_ok masterKey \<or> (\<exists>i m. rand_bytes E i gcm_NonceSize = Inl m)"
  | (duplicate) kt pk fp where "n (key_name item) = None" and "parsePrivateKey E (key_text item) = Inr (kt, pk, fp)"
      and "r = Inr (resp\<lparr>SkippedSSHKeys := SkippedSSHKeys resp + 1\<rparr>, (case f fp of None \<Rightarrow> n | Some i \<Rightarrow> n(key_name item \<mapsto> i)), f)"
      and "same_tables w w'" and "\<forall>t. seqs w t \<le> seqs w' t"
      and "no_faults E \<Longrightarrow> fp \<in> sk_Fingerprint ` set (ssh_keys w)"
  | (created) row where "n (key_name item) = None" and "made_from E masterKey item row" and "sk_ID row = seqs w TSSHKeys"
      and "r = Inr (resp\<lparr>ImportedSSHKeys := ImportedSSHKeys resp + 1\<rparr>, n(key_name item \<mapsto> sk_ID row), f(sk_Fingerprint row \<mapsto> sk_ID row))"
      and "same_tables (w\<lparr>ssh_keys := ssh_keys w @ [row]\<rparr>) w'" and "\<forall>t. seqs w t \<le> seqs w' t" and "seqs w TSSHKeys < seqs w' TSSHKeys"
      and "sk_Fingerprint row \<notin> sk_Fingerprint ` set (ssh_keys w)"
proof -
  obtain kt pk fp where item: "key_name item \<noteq> []" "key_text item \<noteq> []" "parsePrivateKey E (key_text item) = Inr (kt, pk, fp)"
    by (rule valid_key [OF assms(1)])
  note run = assms(2) [unfolded importSSHKey_def prod.case Let_def, folded key_name_def key_text_def]
  show thesis
  proof (cases "n (key_name item)")
    case (Some i)
    with run item show thesis by (intro known) (auto simp: run_ret)
  next
    case None
    obtain c w1 where enc: "DataProtector_Encrypt E masterKey (key_text item) w = (c, w1)" by fastforce
    note e = encrypt_result [OF enc]
    from e(1) obtain m where w1: "w1 = ticked m w" by blast
    show thesis
    proof (cases c)
      case (Inl err)
      then have "\<not> aes_key_size_ok masterKey \<or> (\<exists>i m. rand_bytes E i gcm_NonceSize = Inl m)"
        using enc by (auto simp: DataProtector_Encrypt_def run_simps split: if_splits sum.splits)
      with run None item enc Inl e(2) [OF Inl] w1 show thesis
        by (intro error) (auto simp: run_bnd run_wrap)
    next
      case (Inr cipher)
      let ?k = "\<lparr>sk_ID = 0, sk_CreatedAt = zero_time, sk_UpdatedAt = zero_time, sk_Name = key_name item,
         sk_SourceType = normalizeBackupSSHKeySource (bk_SourceType item), sk_KeyType = kt, sk_PublicKey = pk,
         sk_PrivateKeyCiphertext = cipher, sk_Fingerprint = fp\<rparr>"
      obtain x w2 where cr: "SSHKeyRepo_Create E ?k w1 = (x, w2)" by fastforce
      from cr show thesis
      proof (cases rule: create_key_result)
        case (refused msg)
        show thesis
        proof (cases "IsDuplicateKeyError (Wrapf ''create ssh key: '' (Foreign msg) [])")
          case True
          with run None item enc Inr cr refused w1 show thesis
            by (intro duplicate [of kt pk fp]) (auto simp: run_bnd run_wrap run_attempt run_ret same_tables_def)
        next
          case False
          then have "\<not> no_faults E"
            using refused(4) by (auto simp: IsDuplicateKeyError_def Contains_append1 Contains_append2)
          with False run None item enc Inr cr refused w1 show thesis
            by (intro error) (auto simp: run_bnd run_wrap run_attempt run_fail same_tables_def)
        qed
      next
        case (created row)
        have "made_from E masterKey item row"
          using created(2) item(3) protector.decrypt_encrypt [of E masterKey "key_text item" w cipher w1] enc Inr
          unfolding made_from_def by (metis SSHKey.select_convs SSHKey.simps(1-9) SSHKey.update_convs(1,2,3))
        moreover have "sk_ID row = seqs w TSSHKeys" "sk_Fingerprint row = fp"
          by (subst created(2), simp add: w1)+
        ultimately show thesis
          using run None item enc Inr cr created(1,3-6) w1
          by (intro that(4) [of row]) (auto simp: run_bnd run_wrap run_attempt run_ret same_tables_def)
      qed
    qed
  qed
qed

section \<open>The loop over the keys\<close>

definition store_ok :: "world \<Rightarrow> bool" where
  "store_ok w \<longleftrightarrow> inventory_ok w \<and> ids_positive w"

text \<open>Nothing outside the payload can fail: no database fault, and the protector can encrypt.\<close>

definition smooth :: "env \<Rightarrow> string \<Rightarrow> bool" where
  "smooth E masterKey \<longleftrightarrow> no_faults E \<and> aes_key_size_ok masterKey \<and> (\<forall>i n m. rand_bytes E i n \<noteq> Inl m)"

text \<open>How a loop of the import ends with an error: never because of the payload, never when nothing outside can
  fail, and with the inventory intact.\<close>

definition import_error :: "env \<Rightarrow> string \<Rightarrow> go_error \<Rightarrow> world \<Rightarrow> bool" where
  "import_error E masterKey e w \<longleftrightarrow> \<not> errors_Is e ErrInvalidBackupPayload \<and> \<not> smooth E masterKey \<and> store_ok w"

lemma fault_not_smooth: "db_fault E n = Some m \<Longrightarrow> \<not> smooth E masterKey"
  by (auto simp: smooth_def no_faults_def)

lemma store_ok_same:
  assumes "store_ok w" and "same_tables w w'" and "\<forall>t. seqs w t \<le> seqs w' t"
  shows "store_ok w'"
proof -
  have "0 < seqs w' TSSHKeys" using assms(1,3) by (auto simp: store_ok_def ids_positive_def intro: less_le_trans)
  with assms show ?thesis
    by (auto simp: store_ok_def inventory_ok_def ids_positive_def machine_ok_def same_tables_def intro: less_le_trans)
qed

lemma store_ok_key:
  assumes "store_ok w" and "same_tables (w\<lparr>ssh_keys := ssh_keys w @ [row]\<rparr>) w'" and "\<forall>t. seqs w t \<le> seqs w' t"
    and "sk_ID row = seqs w TSSHKeys" and "seqs w TSSHKeys < seqs w' TSSHKeys" and "sk_Fingerprint row \<notin> sk_Fingerprint ` set (ssh_keys w)"
  shows "store_ok w'"
  using assms by (auto simp: store_ok_def inventory_ok_def ids_positive_def machine_ok_def same_tables_def intro: less_le_trans)

text \<open>Where a key name leads: to a stored key of that name, or to one with the fingerprint of an item of that name.\<close>

definition stands_for :: "env \<Rightarrow> backupSSHKeyPayload list \<Rightarrow> world \<Rightarrow> string \<Rightarrow> nat \<Rightarrow> bool" where
  "stands_for E d w name i \<longleftrightarrow> (\<exists>k\<in>set (ssh_keys w). sk_ID k = i \<and> (sk_Name k = name \<or>
     (\<exists>item\<in>set d. key_name item = name \<and> (\<exists>kt pk. parsePrivateKey E (key_text item) = Inr (kt, pk, sk_Fingerprint k)))))"

definition key_rows :: "env \<Rightarrow> string \<Rightarrow> world \<Rightarrow> backupSSHKeyPayload list \<Rightarrow> BackupImportResp \<Rightarrow> world \<Rightarrow> bool" where
  "key_rows E masterKey w0 d resp w \<longleftrightarrow>
     (\<exists>ks. ssh_keys w = ssh_keys w0 @ ks \<and> (\<forall>k\<in>set ks. \<exists>item\<in>set d. made_from E masterKey item k) \<and>
        resp = no_imports\<lparr>ImportedSSHKeys := int (length ks), SkippedSSHKeys := int (length d) - int (length ks)\<rparr>) \<and>
     same_tables (w0\<lparr>ssh_keys := ssh_keys w\<rparr>) w \<and> store_ok w"

definition key_maps :: "env \<Rightarrow> world \<Rightarrow> backupSSHKeyPayload list \<Rightarrow> (string \<rightharpoonup> nat) \<Rightarrow> (string \<rightharpoonup> nat) \<Rightarrow> world \<Rightarrow> bool" where
  "key_maps E w0 d n f w \<longleftrightarrow>
     (\<forall>name i. n name = Some i \<longrightarrow> stands_for E d w name i) \<and>
     (\<forall>fp i. f fp = Some i \<longrightarrow> (\<exists>k\<in>set (ssh_keys w). sk_ID k = i \<and> sk_Fingerprint k = fp)) \<and>
     sk_Fingerprint ` set (ssh_keys w) \<subseteq> dom f \<and>
     sk_Name ` set (ssh_keys w) \<subseteq> dom n \<and>
     dom n \<subseteq> sk_Name ` set (ssh_keys w0) \<union> key_name ` set d \<and>
     (no_faults E \<longrightarrow> key_name ` set d \<subseteq> dom n)"

definition keys_done ::
  "env \<Rightarrow> string \<Rightarrow> world \<Rightarrow> backupSSHKeyPayload list \<Rightarrow> key_vars \<Rightarrow> world \<Rightarrow> bool" where
  "keys_done E masterKey w0 d s w \<longleftrightarrow>
     (case s of (resp, n, f) \<Rightarrow> key_rows E masterKey w0 d resp w \<and> key_maps E w0 d n f w)"

lemma stands_for_mono:
  assumes "stands_for E d w name i" and "set d \<subseteq> set d'" and "set (ssh_keys w) \<subseteq> set (ssh_keys w')"
  shows "stands_for E d' w' name i"
  using assms unfolding stands_for_def by blast

lemma same_keys: "same_tables w w' \<Longrightarrow> ssh_keys w' = ssh_keys w"
  by (simp add: same_tables_def)

lemma key_rows_skip:
  assumes "key_rows E masterKey w0 d resp w" and "same_tables w w'" and "store_ok w'"
  shows "key_rows E masterKey w0 (d @ [item]) (resp\<lparr>SkippedSSHKeys := SkippedSSHKeys resp + 1\<rparr>) w'"
  using assms by (auto simp: key_rows_def same_tables_def)

lemma key_rows_add:
  assumes "key_rows E masterKey w0 d resp w" and "same_tables (w\<lparr>ssh_keys := ssh_keys w @ [row]\<rparr>) w'" and "store_ok w'"
    and "made_from E masterKey item row"
  shows "key_rows E masterKey w0 (d @ [item]) (resp\<lparr>ImportedSSHKeys := ImportedSSHKeys resp + 1\<rparr>) w'"
proof -
  from assms(1) obtain ks where "ssh_keys w = ssh_keys w0 @ ks" "\<forall>k\<in>set ks. \<exists>item\<in>set d. made_from E masterKey item k"
    "resp = no_imports\<lparr>ImportedSSHKeys := int (length ks), SkippedSSHKeys := int (length d) - int (length ks)\<rparr>"
    by (auto simp: key_rows_def)
  with assms(2,4) have "ssh_keys w' = ssh_keys w0 @ (ks @ [row]) \<and> (\<forall>k\<in>set (ks @ [row]). \<exists>item\<in>set (d @ [item]). made_from E masterKey item k) \<and>
     resp\<lparr>ImportedSSHKeys := ImportedSSHKeys resp + 1\<rparr> = no_imports\<lparr>ImportedSSHKeys := int (length (ks @ [row])),
       SkippedSSHKeys := int (length (d @ [item])) - int (length (ks @ [row]))\<rparr>"
    by (auto simp: same_tables_def)
  moreover have "same_tables (w0\<lparr>ssh_keys := ssh_keys w'\<rparr>) w'"
    using assms(1,2) by (simp add: key_rows_def same_tables_def)
  ultimately show ?thesis unfolding key_rows_def using assms(3) by blast
qed

lemma key_maps_known:
  assumes "key_maps E w0 d n f w" and "n (key_name item) \<noteq> None"
  shows "key_maps E w0 (d @ [item]) n f w"
  using assms stands_for_mono [of E d w _ _ "d @ [item]" w] by (auto simp: key_maps_def)

lemma key_maps_duplicate:
  assumes "key_maps E w0 d n f w" and "ssh_keys w' = ssh_keys w" and "parsePrivateKey E (key_text item) = Inr (kt, pk, fp)"
    and "no_faults E \<Longrightarrow> fp \<in> sk_Fingerprint ` set (ssh_keys w)"
  shows "key_maps E w0 (d @ [item]) (case f fp of None \<Rightarrow> n | Some i \<Rightarrow> n(key_name item \<mapsto> i)) f w'"
proof (cases "f fp")
  case None
  with assms(1,4) have "\<not> no_faults E" unfolding key_maps_def by (metis domIff subsetD)
  with None assms(1,2) stands_for_mono [of E d w _ _ "d @ [item]" w'] show ?thesis by (auto simp: key_maps_def)
next
  case (Some i)
  have "stands_for E (d @ [item]) w' (key_name item) i"
    using assms(1-3) Some unfolding stands_for_def key_maps_def by (metis UnCI list.set_intros(1) set_append)
  with Some assms(1,2) stands_for_mono [of E d w _ _ "d @ [item]" w'] show ?thesis
    by (auto simp: key_maps_def)
qed

lemma key_maps_add:
  assumes "key_maps E w0 d n f w" and "ssh_keys w' = ssh_keys w @ [row]" and "sk_Name row = key_name item"
  shows "key_maps E w0 (d @ [item]) (n(key_name item \<mapsto> sk_ID row)) (f(sk_Fingerprint row \<mapsto> sk_ID row)) w'"
proof -
  have "stands_for E (d @ [item]) w' (key_name item) (sk_ID row)" using assms(2,3) by (auto simp: stands_for_def)
  with assms stands_for_mono [of E d w _ _ "d @ [item]" w'] show ?thesis
    by (auto simp: key_maps_def)
qed

lemma import_keys_step:
  assumes "validateBackupSSHKey E item = None" and "keys_done E masterKey w0 d s w"
    and "importSSHKey E masterKey item s w = (r, w')"
  shows "case r of Inl e \<Rightarrow> import_error E masterKey e w' | Inr s' \<Rightarrow> keys_done E masterKey w0 (d @ [item]) s' w'"
proof -
  obtain resp n f where s: "s = (resp, n, f)" by (rule prod_cases3)
  from assms(2) have inv: "key_rows E masterKey w0 d resp w" "key_maps E w0 d n f w" by (simp_all add: keys_done_def s)
  then have ok: "store_ok w" by (simp add: key_rows_def)
  from assms(1) assms(3) [unfolded s] show ?thesis
  proof (cases rule: import_key_result)
    case (known i)
    then show ?thesis
      using key_rows_skip [OF inv(1) same_tables_refl ok] key_maps_known [OF inv(2)] by (simp add: keys_done_def)
  next
    case (error e)
    then show ?thesis using store_ok_same [OF ok error(3,4)] by (auto simp: import_error_def smooth_def)
  next
    case (duplicate kt pk fp)
    then show ?thesis
      using key_rows_skip [OF inv(1) duplicate(4) store_ok_same [OF ok duplicate(4,5)]]
        key_maps_duplicate [OF inv(2) same_keys [OF duplicate(4)] duplicate(2)] by (simp add: keys_done_def)
  next
    case (created row)
    have "store_ok w'" using store_ok_key [OF ok created(5,6,3,7,8)] .
    from key_rows_add [OF inv(1) created(5) this created(2)] created
      key_maps_add [OF inv(2), of w' row item] show ?thesis
      by (auto simp: keys_done_def made_from_def same_tables_def)
  qed
qed

text \<open>The whole loop.\<close>

lemma list_keys_result:
  assumes "wrap msg (SSHKeyRepo_List E) w = (r, w')"
  shows "w' = ticked 1 w" and "r = Inr ks \<Longrightarrow> set ks = set (ssh_keys w)"
    and "r = Inl e \<Longrightarrow> \<not> errors_Is e x \<and> \<not> no_faults E"
  using assms by (auto simp: SSHKeyRepo_List_def run_wrap statement_def Let_def no_faults_def split: option.splits)

lemma store_ok_ticked [simp]: "store_ok (ticked n w) = store_ok w"
  by (simp add: store_ok_def ids_positive_def)

lemma keys_start:
  assumes "store_ok w" and "set ks = set (ssh_keys w)"
  shows "keys_done E masterKey w [] (no_imports, map_from sk_Name sk_ID ks, map_from sk_Fingerprint sk_ID ks) (ticked n w)"
proof -
  have "stands_for E [] (ticked n w) name i" if "map_from sk_Name sk_ID ks name = Some i" for name i
    using map_from_ran [OF that] assms(2) by (auto simp: stands_for_def)
  moreover have "dom (map_from key sk_ID ks) = key ` set ks" for key :: "SSHKey \<Rightarrow> string"
    by (simp add: dom_def map_from_dom)
  moreover have "\<exists>k\<in>set ks. sk_ID k = i \<and> sk_Fingerprint k = fp" if "map_from sk_Fingerprint sk_ID ks fp = Some i" for fp i
    using map_from_ran [OF that] by blast
  moreover have "key_rows E masterKey w [] no_imports (ticked n w)"
    using assms(1) by (simp add: key_rows_def no_imports_def)
  ultimately show ?thesis using assms(2) by (simp add: keys_done_def key_maps_def)
qed

lemma import_keys:
  assumes "store_ok w" and "set ks = set (ssh_keys w)" and "\<forall>item\<in>set items. validateBackupSSHKey E item = None"
    and "fold_each (importSSHKey E masterKey) items (no_imports, map_from sk_Name sk_ID ks, map_from sk_Fingerprint sk_ID ks) (ticked n w) = (r, w')"
  shows "case r of Inl e \<Rightarrow> import_error E masterKey e w' | Inr s \<Rightarrow> keys_done E masterKey w items s w'"
  by (rule fold_each_loop [where P = "keys_done E masterKey w" and R = "import_error E masterKey", OF assms(4) keys_start [OF assms(1,2)]])
    (rule import_keys_step, use assms(3) in blast)

section \<open>The loop over the machines\<close>

definition machine_from :: "backupMachinePayload \<Rightarrow> Machine \<Rightarrow> bool" where
  "machine_from item m \<longleftrightarrow> mc_Name m = TrimSpace (bm_Name item) \<and> mc_Host m = TrimSpace (bm_Host item) \<and> mc_Port m = bm_Port item \<and>
     mc_SSHUser m = TrimSpace (bm_SSHUser item) \<and> mc_NetworkInterface m = TrimSpace (bm_NetworkInterface item) \<and>
     mc_CollectEnabled m = bm_CollectEnabled item \<and> mc_Remark m = TrimSpace (bm_Remark item)"

abbreviation machine_key :: "backupMachinePayload \<Rightarrow> string" where
  "machine_key item \<equiv> TrimSpace (bm_SSHKeyName item)"

lemma import_machine_result:
  assumes "validateBackupMachinePayload id item = None" and "\<forall>name i. keys name = Some i \<longrightarrow> 0 < i"
    and "importMachine E keys item (resp, n) w = (r, w')"
  obtains (skipped) "r = Inr (resp\<lparr>SkippedMachines := SkippedMachines resp + 1\<rparr>, n)" and "w' = w"
      and "n (TrimSpace (bm_Name item)) \<noteq> None \<or> keys (machine_key item) = None"
  | (error) e where "r = Inl e" and "\<not> errors_Is e ErrInvalidBackupPayload" and "w' = ticked 1 w" and "\<not> no_faults E"
  | (created) row i where "n (TrimSpace (bm_Name item)) = None" and "keys (machine_key item) = Some i"
      and "machine_from item row" and "mc_SSHKeyID row = i" and "mc_ID row = seqs w TMachines"
      and "r = Inr (resp\<lparr>ImportedMachines := ImportedMachines resp + 1\<rparr>, n(mc_Name row \<mapsto> mc_ID row))"
      and "same_tables (w\<lparr>machines := machines w @ [row]\<rparr>) w'" and "seqs w' = (seqs w)(TMachines := Suc (seqs w TMachines))"
proof -
  let ?name = "TrimSpace (bm_Name item)"
  note valid = assms(1) [unfolded valid_machine]
  show thesis
  proof (cases "n ?name \<noteq> None \<or> keys (machine_key item) = None")
    case True
    then show thesis using assms(3) valid
      by (intro skipped) (auto simp: importMachine_def Let_def run_ret split: if_splits)
  next
    case False
    then obtain i where i: "n ?name = None" "keys (machine_key item) = Some i" by auto
    define m where "m = \<lparr>mc_ID = 0, mc_CreatedAt = zero_time, mc_UpdatedAt = zero_time, mc_Name = ?name,
       mc_Host = TrimSpace (bm_Host item), mc_Port = bm_Port item, mc_SSHUser = TrimSpace (bm_SSHUser item),
       mc_NetworkInterface = TrimSpace (bm_NetworkInterface item), mc_SSHKeyID = i,
       mc_CollectEnabled = bm_CollectEnabled item, mc_Remark = TrimSpace (bm_Remark item)\<rparr>"
    have "validateBackupMachine m = None" using valid assms(2) i(2) by (auto simp: validateBackupMachine_def m_def)
    with assms(3) i valid
    have run: "bnd (wrap ''create backup machine: '' (MachineRepo_Create E m)) (\<lambda>row.
        ret (resp\<lparr>ImportedMachines := ImportedMachines resp + 1\<rparr>, n(?name \<mapsto> mc_ID row))) w = (r, w')"
      by (simp add: importMachine_def Let_def m_def)
    show thesis
    proof (cases "db_fault E (tick w)")
      case (Some msg)
      with run show thesis
        by (intro error) (auto simp: MachineRepo_Create_def run_bnd run_wrap statement_def no_faults_def)
    next
      case None
      let ?row = "m\<lparr>mc_ID := seqs w TMachines, mc_CreatedAt := gorm_stamp (mc_CreatedAt m) (clk E (tick w)),
        mc_UpdatedAt := gorm_stamp (mc_UpdatedAt m) (clk E (tick w))\<rparr>"
      from run None have "r = Inr (resp\<lparr>ImportedMachines := ImportedMachines resp + 1\<rparr>, n(?name \<mapsto> mc_ID ?row))"
        "w' = (bump_seq TMachines 1 (ticked 1 w))\<lparr>machines := machines w @ [?row]\<rparr>"
        by (auto simp: MachineRepo_Create_def run_bnd run_wrap run_ret statement_def Let_def)
      with i show thesis
        by (intro created [of i ?row]) (auto simp: machine_from_def m_def same_tables_def bump_seq_def)
    qed
  qed
qed

text \<open>The map of machine names is always the one the table gives.\<close>

definition names_of :: "Machine list \<Rightarrow> (string \<rightharpoonup> nat)" where
  "names_of ms = map_from mc_Name mc_ID (sort_key (\<lambda>m. - int (mc_ID m)) ms)"

lemma map_from_filter: "map_from key val rows k = map_from key val (filter (\<lambda>r. key r = k) rows) k"
proof -
  have "map_of (rev (map (\<lambda>r. (key r, val r)) rows)) k = map_of (rev (map (\<lambda>r. (key r, val r)) (filter (\<lambda>r. key r = k) rows))) k"
    by (induction rows) (auto simp: map_add_def split: option.split)
  then show ?thesis by (simp add: map_from_def)
qed

lemma names_of_add:
  assumes "mc_Name row \<notin> mc_Name ` set ms"
  shows "names_of (ms @ [row]) = (names_of ms)(mc_Name row \<mapsto> mc_ID row)"
proof
  fix k
  let ?f = "\<lambda>m. - int (mc_ID m)" and ?p = "\<lambda>m. mc_Name m = k"
  have look: "names_of ns k = map_from mc_Name mc_ID (sort_key ?f (filter ?p ns)) k" for ns
    unfolding names_of_def using map_from_filter [of mc_Name mc_ID "sort_key ?f ns" k] by (simp add: filter_sort)
  show "names_of (ms @ [row]) k = ((names_of ms)(mc_Name row \<mapsto> mc_ID row)) k"
  proof (cases "k = mc_Name row")
    case True
    with assms have "filter ?p ms = []" unfolding filter_empty_conv by (metis imageI)
    then have "names_of (ms @ [row]) k = Some (mc_ID row)" unfolding look using True by (simp add: map_from_def)
    with True show ?thesis by simp
  qed (simp add: look)
qed

lemma names_of_dom: "names_of ms name = None \<longleftrightarrow> name \<notin> mc_Name ` set ms"
  by (simp add: names_of_def map_from_dom)

definition machines_done ::
  "world \<Rightarrow> BackupImportResp \<Rightarrow> (string \<rightharpoonup> nat) \<Rightarrow> backupMachinePayload list \<Rightarrow> BackupImportResp \<times> (string \<rightharpoonup> nat) \<Rightarrow> world \<Rightarrow> bool" where
  "machines_done w0 resp0 keys d s w \<longleftrightarrow>
     (\<exists>ms. machines w = machines w0 @ ms \<and>
        (\<forall>m\<in>set ms. \<exists>item\<in>set d. machine_from item m \<and> keys (machine_key item) = Some (mc_SSHKeyID m)) \<and>
        fst s = resp0\<lparr>ImportedMachines := int (length ms), SkippedMachines := int (length d) - int (length ms)\<rparr>) \<and>
     same_tables (w0\<lparr>machines := machines w\<rparr>) w \<and> store_ok w \<and> snd s = names_of (machines w) \<and>
     (\<forall>item\<in>set d. TrimSpace (bm_Name item) \<in> mc_Name ` set (machines w) \<or> keys (machine_key item) = None)"

lemma store_ok_machine:
  assumes "store_ok w" and "same_tables (w\<lparr>machines := machines w @ [row]\<rparr>) w'"
    and "seqs w' = (seqs w)(TMachines := Suc (seqs w TMachines))" and "mc_ID row = seqs w TMachines" and "machine_ok w row"
  shows "store_ok w'"
  using assms by (auto simp: store_ok_def inventory_ok_def ids_positive_def machine_ok_def same_tables_def less_Suc_eq)

lemma import_machines_step:
  assumes "validateBackupMachinePayload id item = None" and "\<forall>name i. keys name = Some i \<longrightarrow> i \<in> sk_ID ` set (ssh_keys w0)"
    and "machines_done w0 resp0 keys d s w" and "importMachine E keys item s w = (r, w')"
  shows "case r of Inl e \<Rightarrow> import_error E masterKey e w' | Inr s' \<Rightarrow> machines_done w0 resp0 keys (d @ [item]) s' w'"
proof -
  obtain resp n where s: "s = (resp, n)" by (cases s)
  note inv = assms(3) [unfolded machines_done_def s fst_conv snd_conv]
  have ok: "store_ok w" and keys_w: "ssh_keys w = ssh_keys w0" using inv by (auto simp: same_tables_def)
  have pos: "\<forall>name i. keys name = Some i \<longrightarrow> 0 < i"
    using ok assms(2) keys_w by (force simp: store_ok_def ids_positive_def)
  from assms(1) pos assms(4) [unfolded s] show ?thesis
  proof (cases rule: import_machine_result)
    case skipped
    then have "TrimSpace (bm_Name item) \<in> mc_Name ` set (machines w) \<or> keys (machine_key item) = None"
      using inv names_of_dom by metis
    with skipped inv show ?thesis by (auto simp: machines_done_def)
  next
    case (error e)
    with ok show ?thesis by (auto simp: import_error_def smooth_def)
  next
    case (created row i)
    from inv obtain ms where ms: "machines w = machines w0 @ ms"
      "\<forall>m\<in>set ms. \<exists>item\<in>set d. machine_from item m \<and> keys (machine_key item) = Some (mc_SSHKeyID m)"
      "resp = resp0\<lparr>ImportedMachines := int (length ms), SkippedMachines := int (length d) - int (length ms)\<rparr>" by blast
    have w': "machines w' = machines w @ [row]" using created(7) by (simp add: same_tables_def)
    have "machine_ok w row"
      using created(2-4) assms(1,2) keys_w
      by (auto simp: machine_ok_def valid_fields_def trimmed_fields_def machine_from_def valid_machine TrimSpace_idem)
    then have "store_ok w'" using store_ok_machine [OF ok created(7,8,5)] by blast
    moreover have "names_of (machines w') = n(mc_Name row \<mapsto> mc_ID row)"
      using created(1,3) inv names_of_dom [of "machines w"] names_of_add [of row "machines w"] w' by (simp add: machine_from_def)
    moreover have "machines w' = machines w0 @ (ms @ [row]) \<and>
      (\<forall>m\<in>set (ms @ [row]). \<exists>x\<in>set (d @ [item]). machine_from x m \<and> keys (machine_key x) = Some (mc_SSHKeyID m)) \<and>
      resp\<lparr>ImportedMachines := ImportedMachines resp + 1\<rparr> = resp0\<lparr>ImportedMachines := int (length (ms @ [row])),
        SkippedMachines := int (length (d @ [item])) - int (length (ms @ [row]))\<rparr>"
      using ms created(2-4) w' by auto
    moreover have "same_tables (w0\<lparr>machines := machines w'\<rparr>) w'"
      using inv created(7) by (simp add: same_tables_def)
    moreover have "\<forall>x\<in>set (d @ [item]). TrimSpace (bm_Name x) \<in> mc_Name ` set (machines w') \<or> keys (machine_key x) = None"
      using inv created(3) w' by (auto simp: machine_from_def)
    ultimately show ?thesis using created(6) unfolding machines_done_def by (simp only: sum.case fst_conv snd_conv) blast
  qed
qed

lemma import_machines:
  assumes "store_ok w" and "\<forall>item\<in>set items. validateBackupMachinePayload id item = None"
    and "\<forall>name i. keys name = Some i \<longrightarrow> i \<in> sk_ID ` set (ssh_keys w)"
    and "fold_each (importMachine E keys) items (resp, names_of (machines w)) (ticked n w) = (r, w')"
    and "ImportedMachines resp = 0" and "SkippedMachines resp = 0"
  shows "case r of Inl e \<Rightarrow> import_error E masterKey e w' | Inr s \<Rightarrow> machines_done w resp keys items s w'"
proof (rule fold_each_loop [where P = "machines_done w resp keys" and R = "import_error E masterKey", OF assms(4)])
  show "machines_done w resp keys [] (resp, names_of (machines w)) (ticked n w)"
    using assms(1,5,6) by (simp add: machines_done_def)
qed (rule import_machines_step, (use assms(2,3) in blast)+)

section \<open>The loop over the proxies\<close>

lemma trim_words: "TrimSpace ''http'' = ''http''" "TrimSpace ''socks'' = ''socks''"
  by code_simp+

lemma normalize_proxy_type:
  "normalizeNotificationProxyType E (normalizeNotificationProxyType E t) = normalizeNotificationProxyType E t"
proof -
  have "normalizeNotificationProxyType E ''http'' = ''http''" "normalizeNotificationProxyType E ''socks'' = ''socks''"
    "normalizeNotificationProxyType E [] = []"
    by (simp_all add: normalizeNotificationProxyType_def ToLower_def is_ascii_def ascii_lower_def trim_words)
  then show ?thesis
    unfolding normalizeNotificationProxyType_def [of E t] Let_def by simp
qed

lemma parse_normalized:
  "parseNotificationProxyURL E (normalizeNotificationProxyType E t) (TrimSpace u) = parseNotificationProxyURL E t u"
  by (simp add: parseNotificationProxyURL_def normalize_proxy_type)

definition proxy_from :: "env \<Rightarrow> backupNotificationProxyPayload \<Rightarrow> NotificationProxy \<Rightarrow> bool" where
  "proxy_from E item p \<longleftrightarrow> px_Name p = TrimSpace (bp_Name item) \<and> px_ProxyType p = normalizeNotificationProxyType E (bp_ProxyType item) \<and>
     (\<exists>u. parseNotificationProxyURL E (bp_ProxyType item) (bp_URL item) = Inr u \<and> px_URL p = url_String E u)"

lemma import_proxy_result:
  assumes "validateBackupProxy E item = None" and "importNotificationProxy E existing item (resp, n) w = (r, w')"
  obtains (known) "TrimSpace (bp_Name item) \<in> existing" and "w' = w"
      and "r = Inr (resp\<lparr>SkippedNotificationProxies := SkippedNotificationProxies resp + 1\<rparr>, n)"
  | (error) e where "r = Inl e" and "\<not> errors_Is e ErrInvalidBackupPayload" and "w' = ticked 1 w" and "\<not> no_faults E"
  | (created) row where "proxy_from E item row"
      and "r = Inr (resp\<lparr>ImportedNotificationProxies := ImportedNotificationProxies resp + 1\<rparr>,
             if n (px_Name row) = None then n(px_Name row \<mapsto> px_ID row) else n)"
      and "same_tables (w\<lparr>proxies := proxies w @ [row]\<rparr>) w'" and "\<forall>t. seqs w t \<le> seqs w' t"
proof -
  let ?name = "TrimSpace (bp_Name item)"
  from assms(1) obtain u where u: "parseNotificationProxyURL E (bp_ProxyType item) (bp_URL item) = Inr u"
    by (auto simp: validateBackupProxy_def Let_def split: if_splits option.splits sum.splits)
  show thesis
  proof (cases "?name \<in> existing")
    case True
    with assms(2) show thesis by (intro known) (auto simp: importNotificationProxy_def run_ret)
  next
    case False
    define p where "p = \<lparr>px_ID = 0, px_CreatedAt = zero_time, px_UpdatedAt = zero_time, px_Name = ?name,
      px_ProxyType = normalizeNotificationProxyType E (bp_ProxyType item), px_URL = url_String E u\<rparr>"
    from False assms(2) u have run: "bnd (wrap ''create backup notification proxy: '' (NotificationProxyRepo_Create E p)) (\<lambda>row.
        ret (resp\<lparr>ImportedNotificationProxies := ImportedNotificationProxies resp + 1\<rparr>,
             if n ?name = None then n(?name \<mapsto> px_ID row) else n)) w = (r, w')"
      by (simp add: importNotificationProxy_def Let_def parse_normalized p_def)
    show thesis
    proof (cases "db_fault E (tick w)")
      case (Some msg)
      with run show thesis
        by (intro error) (auto simp: NotificationProxyRepo_Create_def run_bnd run_wrap statement_def no_faults_def)
    next
      case None
      let ?row = "p\<lparr>px_ID := seqs w TProxies, px_CreatedAt := gorm_stamp (px_CreatedAt p) (clk E (tick w)),
        px_UpdatedAt := gorm_stamp (px_UpdatedAt p) (clk E (tick w))\<rparr>"
      from run None have "r = Inr (resp\<lparr>ImportedNotificationProxies := ImportedNotificationProxies resp + 1\<rparr>,
          if n ?name = None then n(?name \<mapsto> px_ID ?row) else n)"
        "w' = (bump_seq TProxies 1 (ticked 1 w))\<lparr>proxies := proxies w @ [?row]\<rparr>"
        by (auto simp: NotificationProxyRepo_Create_def run_bnd run_wrap run_ret statement_def Let_def)
      with u show thesis
        by (intro created [of ?row]) (auto simp: proxy_from_def p_def same_tables_def bump_seq_def)
    qed
  qed
qed

definition proxies_done ::
  "env \<Rightarrow> world \<Rightarrow> BackupImportResp \<Rightarrow> backupNotificationProxyPayload list \<Rightarrow> BackupImportResp \<times> (string \<rightharpoonup> nat) \<Rightarrow> world \<Rightarrow> bool" where
  "proxies_done E w0 resp0 d s w \<longleftrightarrow>
     (\<exists>ps. proxies w = proxies w0 @ ps \<and> (\<forall>p\<in>set ps. \<exists>item\<in>set d. proxy_from E item p) \<and>
        fst s = resp0\<lparr>ImportedNotificationProxies := int (length ps), SkippedNotificationProxies := int (length d) - int (length ps)\<rparr>) \<and>
     same_tables (w0\<lparr>proxies := proxies w\<rparr>) w \<and> store_ok w \<and>
     (\<forall>name i. snd s name = Some i \<longrightarrow> (\<exists>p\<in>set (proxies w). px_Name p = name \<and> px_ID p = i)) \<and>
     (\<forall>item\<in>set d. TrimSpace (bp_Name item) \<in> px_Name ` set (proxies w))"

lemma store_ok_other:
  assumes "store_ok w" and "machines w' = machines w" and "ssh_keys w' = ssh_keys w" and "\<forall>t. seqs w t \<le> seqs w' t"
  shows "store_ok w'"
  using assms by (auto simp: store_ok_def inventory_ok_def ids_positive_def machine_ok_def intro: less_le_trans)

lemma import_proxies_step:
  assumes "validateBackupProxy E item = None" and "existing = px_Name ` set (proxies w0)"
    and "proxies_done E w0 resp0 d s w" and "importNotificationProxy E existing item s w = (r, w')"
  shows "case r of Inl e \<Rightarrow> import_error E masterKey e w' | Inr s' \<Rightarrow> proxies_done E w0 resp0 (d @ [item]) s' w'"
proof -
  obtain resp n where s: "s = (resp, n)" by (cases s)
  note inv = assms(3) [unfolded proxies_done_def s fst_conv snd_conv]
  then have ok: "store_ok w" by blast
  from assms(1) assms(4) [unfolded s] show ?thesis
  proof (cases rule: import_proxy_result)
    case known
    with inv assms(2) show ?thesis by (auto simp: proxies_done_def)
  next
    case (error e)
    with ok show ?thesis by (auto simp: import_error_def smooth_def)
  next
    case (created row)
    from inv obtain ps where ps: "proxies w = proxies w0 @ ps" "\<forall>p\<in>set ps. \<exists>item\<in>set d. proxy_from E item p"
      "resp = resp0\<lparr>ImportedNotificationProxies := int (length ps), SkippedNotificationProxies := int (length d) - int (length ps)\<rparr>" by blast
    have w': "proxies w' = proxies w @ [row]" using created(3) by (simp add: same_tables_def)
    have "store_ok w'" using store_ok_other [OF ok _ _ created(4)] created(3) by (simp add: same_tables_def)
    moreover have "proxies w' = proxies w0 @ (ps @ [row]) \<and> (\<forall>p\<in>set (ps @ [row]). \<exists>x\<in>set (d @ [item]). proxy_from E x p) \<and>
      resp\<lparr>ImportedNotificationProxies := ImportedNotificationProxies resp + 1\<rparr> = resp0\<lparr>ImportedNotificationProxies := int (length (ps @ [row])),
        SkippedNotificationProxies := int (length (d @ [item])) - int (length (ps @ [row]))\<rparr>"
      using ps created(1) w' by auto
    moreover have "same_tables (w0\<lparr>proxies := proxies w'\<rparr>) w'" using inv created(3) by (simp add: same_tables_def)
    moreover have "\<forall>name i. (if n (px_Name row) = None then n(px_Name row \<mapsto> px_ID row) else n) name = Some i \<longrightarrow>
        (\<exists>p\<in>set (proxies w'). px_Name p = name \<and> px_ID p = i)"
      using inv w' by auto
    moreover have "\<forall>x\<in>set (d @ [item]). TrimSpace (bp_Name x) \<in> px_Name ` set (proxies w')"
      using inv created(1) w' by (auto simp: proxy_from_def)
    ultimately show ?thesis using created(2) unfolding proxies_done_def by (simp only: sum.case fst_conv snd_conv) blast
  qed
qed

lemma import_proxies:
  assumes "store_ok w" and "\<forall>item\<in>set items. validateBackupProxy E item = None"
    and "importNotificationProxies E items resp w = (r, w')"
    and "ImportedNotificationProxies resp = 0" and "SkippedNotificationProxies resp = 0"
  shows "case r of Inl e \<Rightarrow> import_error E masterKey e w' | Inr s \<Rightarrow> proxies_done E w resp items s w'"
proof (cases "db_fault E (tick w)")
  case (Some msg)
  with assms(1,3) fault_not_smooth [OF Some] show ?thesis
    by (auto simp: importNotificationProxies_def NotificationProxyRepo_List_def run_bnd run_wrap statement_def import_error_def)
next
  case None
  let ?ps = "sort_key px_ID (proxies w)"
  from None assms(3) have run: "fold_each (importNotificationProxy E (px_Name ` set (proxies w))) items (resp, first_ids ?ps) (ticked 1 w) = (r, w')"
    by (simp add: importNotificationProxies_def NotificationProxyRepo_List_def run_bnd run_wrap statement_def)
  show ?thesis
  proof (rule fold_each_loop [where P = "proxies_done E w resp" and R = "import_error E masterKey", OF run])
    have "\<exists>p\<in>set (proxies w). px_Name p = name \<and> px_ID p = i" if "first_ids ?ps name = Some i" for name i
      using that unfolding first_ids_def by (auto dest!: map_of_SomeD)
    then show "proxies_done E w resp [] (resp, first_ids ?ps) (ticked 1 w)"
      using assms(1,4,5) by (simp add: proxies_done_def)
  qed (rule import_proxies_step, (use assms(2) in blast)+)
qed

section \<open>The loop over the channels\<close>

definition channel_from :: "env \<Rightarrow> (string \<rightharpoonup> nat) \<Rightarrow> backupNotificationChannelPayload \<Rightarrow> NotificationChannel \<Rightarrow> bool" where
  "channel_from E ids item c \<longleftrightarrow> ch_ChannelType c = TrimSpace (bn_ChannelType item) \<and> ch_Enabled c = bn_Enabled item \<and>
     applyBackupChannelProxy E (bn_ConfigJSON item) (bn_ProxyName item) ids = Inr (ch_ConfigJSON c)"

lemma import_channel_result:
  assumes "validateBackupChannel E item = None" and "importNotificationChannel E ids item (resp, known) w = (r, w')"
    and "known = ch_ChannelType ` set (channels w)"
  obtains (skipped) "TrimSpace (bn_ChannelType item) \<in> known" and "w' = w"
      and "r = Inr (resp\<lparr>SkippedNotificationChannels := SkippedNotificationChannels resp + 1\<rparr>, known)"
  | (error) e where "r = Inl e" and "\<not> errors_Is e ErrInvalidBackupPayload" and "w' = ticked 1 w" and "\<not> no_faults E"
  | (created) row where "channel_from E ids item row"
      and "r = Inr (resp\<lparr>ImportedNotificationChannels := ImportedNotificationChannels resp + 1\<rparr>, insert (ch_ChannelType row) known)"
      and "same_tables (w\<lparr>channels := channels w @ [row]\<rparr>) w'" and "\<forall>t. seqs w t \<le> seqs w' t"
proof -
  let ?type = "TrimSpace (bn_ChannelType item)"
  from assms(1) obtain cfg where "decodeBackupChannelConfig E (bn_ConfigJSON item) = Inr cfg"
    by (auto simp: validateBackupChannel_def split: if_splits sum.splits)
  then obtain j where j: "applyBackupChannelProxy E (bn_ConfigJSON item) (bn_ProxyName item) ids = Inr j"
    by (simp add: applyBackupChannelProxy_def Let_def)
  show thesis
  proof (cases "?type \<in> known")
    case True
    with assms(2) show thesis by (intro skipped) (auto simp: importNotificationChannel_def run_ret)
  next
    case False
    define c where "c = \<lparr>ch_ID = 0, ch_CreatedAt = zero_time, ch_UpdatedAt = zero_time, ch_ChannelType = ?type,
      ch_Enabled = bn_Enabled item, ch_ConfigJSON = j\<rparr>"
    from False assms(2) j have run: "bnd (wrap ''create backup notification channel: '' (NotificationChannelRepo_CreateIfAbsent E c)) (\<lambda>created.
        ret (if created then resp\<lparr>ImportedNotificationChannels := ImportedNotificationChannels resp + 1\<rparr>
             else resp\<lparr>SkippedNotificationChannels := SkippedNotificationChannels resp + 1\<rparr>, insert ?type known)) w = (r, w')"
      by (simp add: importNotificationChannel_def Let_def c_def)
    show thesis
    proof (cases "db_fault E (tick w)")
      case (Some msg)
      with run show thesis
        by (intro error) (auto simp: NotificationChannelRepo_CreateIfAbsent_def run_bnd run_wrap statement_def no_faults_def)
    next
      case None
      let ?row = "channel_row c (clk E (tick w)) (ticked 1 w)"
      from False assms(3) have new: "ch_ChannelType c \<notin> ch_ChannelType ` set (channels w)" by (simp add: c_def)
      with run None have "r = Inr (resp\<lparr>ImportedNotificationChannels := ImportedNotificationChannels resp + 1\<rparr>, insert ?type known)"
        "w' = (bump_seq TChannels 1 (ticked 1 w))\<lparr>channels := channels w @ [?row]\<rparr>"
        by (auto simp: NotificationChannelRepo_CreateIfAbsent_def run_bnd run_wrap run_ret statement_def sql_insert_ignore_def channel_row_def)
      with j show thesis
        by (intro created [of ?row]) (auto simp: channel_from_def c_def channel_row_def same_tables_def bump_seq_def)
    qed
  qed
qed

definition channels_done ::
  "env \<Rightarrow> (string \<rightharpoonup> nat) \<Rightarrow> world \<Rightarrow> BackupImportResp \<Rightarrow> backupNotificationChannelPayload list \<Rightarrow> BackupImportResp \<times> string set \<Rightarrow> world \<Rightarrow> bool" where
  "channels_done E ids w0 resp0 d s w \<longleftrightarrow>
     (\<exists>cs. channels w = channels w0 @ cs \<and> (\<forall>c\<in>set cs. \<exists>item\<in>set d. channel_from E ids item c) \<and>
        fst s = resp0\<lparr>ImportedNotificationChannels := int (length cs), SkippedNotificationChannels := int (length d) - int (length cs)\<rparr>) \<and>
     same_tables (w0\<lparr>channels := channels w\<rparr>) w \<and> store_ok w \<and> snd s = ch_ChannelType ` set (channels w) \<and>
     (\<forall>item\<in>set d. TrimSpace (bn_ChannelType item) \<in> ch_ChannelType ` set (channels w))"

lemma import_channels_step:
  assumes "validateBackupChannel E item = None" and "channels_done E ids w0 resp0 d s w"
    and "importNotificationChannel E ids item s w = (r, w')"
  shows "case r of Inl e \<Rightarrow> import_error E masterKey e w' | Inr s' \<Rightarrow> channels_done E ids w0 resp0 (d @ [item]) s' w'"
proof -
  obtain resp n where s: "s = (resp, n)" by (cases s)
  note inv = assms(2) [unfolded channels_done_def s fst_conv snd_conv]
  then have ok: "store_ok w" and n: "n = ch_ChannelType ` set (channels w)" by blast+
  from assms(1) assms(3) [unfolded s] n show ?thesis
  proof (cases rule: import_channel_result)
    case skipped
    with inv show ?thesis by (auto simp: channels_done_def)
  next
    case (error e)
    with ok show ?thesis by (auto simp: import_error_def smooth_def)
  next
    case (created row)
    from inv obtain cs where cs: "channels w = channels w0 @ cs" "\<forall>c\<in>set cs. \<exists>item\<in>set d. channel_from E ids item c"
      "resp = resp0\<lparr>ImportedNotificationChannels := int (length cs), SkippedNotificationChannels := int (length d) - int (length cs)\<rparr>" by blast
    have w': "channels w' = channels w @ [row]" using created(3) by (simp add: same_tables_def)
    have "store_ok w'" using store_ok_other [OF ok _ _ created(4)] created(3) by (simp add: same_tables_def)
    moreover have "channels w' = channels w0 @ (cs @ [row]) \<and> (\<forall>c\<in>set (cs @ [row]). \<exists>x\<in>set (d @ [item]). channel_from E ids x c) \<and>
      resp\<lparr>ImportedNotificationChannels := ImportedNotificationChannels resp + 1\<rparr> = resp0\<lparr>ImportedNotificationChannels := int (length (cs @ [row])),
        SkippedNotificationChannels := int (length (d @ [item])) - int (length (cs @ [row]))\<rparr>"
      using cs created(1) w' by auto
    moreover have "same_tables (w0\<lparr>channels := channels w'\<rparr>) w'" using inv created(3) by (simp add: same_tables_def)
    moreover have "insert (ch_ChannelType row) n = ch_ChannelType ` set (channels w')" using n w' by simp
    moreover have "\<forall>x\<in>set (d @ [item]). TrimSpace (bn_ChannelType x) \<in> ch_ChannelType ` set (channels w')"
      using inv created(1) w' by (auto simp: channel_from_def)
    ultimately show ?thesis using created(2) unfolding channels_done_def by (simp only: sum.case fst_conv snd_conv) blast
  qed
qed

lemma import_channels:
  assumes "store_ok w" and "\<forall>item\<in>set items. validateBackupChannel E item = None"
    and "importNotificationChannels E items ids resp w = (r, w')"
    and "ImportedNotificationChannels resp = 0" and "SkippedNotificationChannels resp = 0"
  shows "case r of Inl e \<Rightarrow> import_error E masterKey e w'
     | Inr resp' \<Rightarrow> channels_done E ids w resp items (resp', ch_ChannelType ` set (channels w')) w'"
proof (cases "db_fault E (tick w)")
  case (Some msg)
  with assms(1,3) fault_not_smooth [OF Some] show ?thesis
    by (auto simp: importNotificationChannels_def NotificationChannelRepo_List_def run_bnd run_wrap statement_def import_error_def)
next
  case None
  obtain x v where loop: "fold_each (importNotificationChannel E ids) items (resp, ch_ChannelType ` set (channels w)) (ticked 1 w) = (x, v)"
    by fastforce
  have fin: "case x of Inl e \<Rightarrow> import_error E masterKey e v | Inr s \<Rightarrow> channels_done E ids w resp items s v"
  proof (rule fold_each_loop [where P = "channels_done E ids w resp" and R = "import_error E masterKey", OF loop])
    show "channels_done E ids w resp [] (resp, ch_ChannelType ` set (channels w)) (ticked 1 w)"
      using assms(1,4,5) by (simp add: channels_done_def)
  qed (rule import_channels_step, (use assms(2) in blast)+)
  from None assms(3) loop have run: "(case x of Inl e \<Rightarrow> (Inl e, v) | Inr (resp', _) \<Rightarrow> (Inr resp', v)) = (r, w')"
    by (cases x) (auto simp: importNotificationChannels_def NotificationChannelRepo_List_def run_bnd run_wrap statement_def run_ret)
  show ?thesis
  proof (cases x)
    case (Inl e)
    with fin run show ?thesis by auto
  next
    case (Inr s)
    with fin run show ?thesis by (cases s) (auto simp: channels_done_def)
  qed
qed

section \<open>The threshold rules\<close>

definition global_from :: "backupGlobalThresholdPayload \<Rightarrow> GlobalThresholdRule \<Rightarrow> bool" where
  "global_from item r \<longleftrightarrow> gr_PeriodType r = bg_PeriodType item \<and> gr_MetricType r = bg_MetricType item \<and>
     gr_ThresholdMB r = bg_ThresholdMB item \<and> gr_Enabled r = bg_Enabled item"

definition rule_from :: "(string \<rightharpoonup> nat) \<Rightarrow> backupMachineThresholdPayload \<Rightarrow> MachineThresholdRule \<Rightarrow> bool" where
  "rule_from ids item r \<longleftrightarrow> ids (TrimSpace (bt_MachineName item)) = Some (mr_MachineID r) \<and> mr_PeriodType r = bt_PeriodType item \<and>
     mr_MetricType r = bt_MetricType item \<and> mr_ThresholdMB r = bt_ThresholdMB item \<and> mr_Enabled r = bt_Enabled item"

abbreviation global_text :: "GlobalThresholdRule \<Rightarrow> string" where
  "global_text r \<equiv> thresholdRuleKey (gr_PeriodType r) (gr_MetricType r)"

abbreviation rule_text :: "MachineThresholdRule \<Rightarrow> string" where
  "rule_text r \<equiv> machineThresholdRuleKey (mr_MachineID r) (mr_PeriodType r) (mr_MetricType r)"

text \<open>What the loops pick: rules of the payload whose keys are new and pairwise different.\<close>

lemma new_global_rules:
  assumes "newGlobalRules items known = (skipped, rules)"
  shows "skipped + int (length rules) = int (length items) \<and> (\<forall>r\<in>set rules. \<exists>item\<in>set items. global_from item r) \<and>
     distinct (map global_text rules) \<and> set (map global_text rules) \<inter> known = {} \<and>
     (\<forall>item\<in>set items. thresholdRuleKey (bg_PeriodType item) (bg_MetricType item) \<in> known \<union> set (map global_text rules))"
  using assms
proof (induction items known arbitrary: skipped rules rule: newGlobalRules.induct)
  case (2 item items known)
  let ?k = "thresholdRuleKey (bg_PeriodType item) (bg_MetricType item)"
  show ?case
  proof (cases "?k \<in> known")
    case True
    then obtain sk where "newGlobalRules items known = (sk, rules)" "skipped = sk + 1"
      using 2(3) by (auto simp: Let_def split: prod.splits)
    with True 2(1) [OF refl True, of sk rules] show ?thesis by auto
  next
    case False
    then obtain rs where rs: "newGlobalRules items (insert ?k known) = (skipped, rs)"
      and r: "rules = \<lparr>gr_ID = 0, gr_CreatedAt = zero_time, gr_UpdatedAt = zero_time, gr_PeriodType = bg_PeriodType item,
         gr_MetricType = bg_MetricType item, gr_ThresholdMB = bg_ThresholdMB item, gr_Enabled = bg_Enabled item\<rparr> # rs"
      using 2(3) by (auto simp: Let_def split: prod.splits)
    with False 2(2) [OF refl False rs] show ?thesis by (auto simp: global_from_def)
  qed
qed simp

lemma new_machine_rules:
  assumes "newMachineRules ids items known = (skipped, rules)"
  shows "skipped + int (length rules) = int (length items) \<and> (\<forall>r\<in>set rules. \<exists>item\<in>set items. rule_from ids item r) \<and>
     distinct (map rule_text rules) \<and> set (map rule_text rules) \<inter> known = {} \<and>
     (\<forall>item\<in>set items. \<forall>i. ids (TrimSpace (bt_MachineName item)) = Some i \<longrightarrow>
        machineThresholdRuleKey i (bt_PeriodType item) (bt_MetricType item) \<in> known \<union> set (map rule_text rules))"
  using assms
proof (induction ids items known arbitrary: skipped rules rule: newMachineRules.induct)
  case (2 ids item items known)
  show ?case
  proof (cases "ids (TrimSpace (bt_MachineName item))")
    case None
    then obtain sk where "newMachineRules ids items known = (sk, rules)" "skipped = sk + 1"
      using 2(4) by (auto split: prod.splits)
    with None 2(1) [OF None, of sk rules] show ?thesis by auto
  next
    case (Some i)
    let ?k = "machineThresholdRuleKey i (bt_PeriodType item) (bt_MetricType item)"
    show ?thesis
    proof (cases "?k \<in> known")
      case True
      then obtain sk where "newMachineRules ids items known = (sk, rules)" "skipped = sk + 1"
        using 2(4) Some by (auto simp: Let_def split: prod.splits)
      with True Some 2(2) [OF Some refl True, of sk rules] show ?thesis by auto
    next
      case False
      then obtain rs where rs: "newMachineRules ids items (insert ?k known) = (skipped, rs)"
        and r: "rules = \<lparr>mr_ID = 0, mr_CreatedAt = zero_time, mr_UpdatedAt = zero_time, mr_MachineID = i,
           mr_PeriodType = bt_PeriodType item, mr_MetricType = bt_MetricType item, mr_ThresholdMB = bt_ThresholdMB item,
           mr_Enabled = bt_Enabled item\<rparr> # rs"
        using 2(4) Some by (auto simp: Let_def split: prod.splits)
      with False Some 2(3) [OF Some refl False rs] show ?thesis by (auto simp: rule_from_def)
    qed
  qed
qed simp

text \<open>Inserting rows with new, different keys appends them all.\<close>

lemma fold_insert_new:
  assumes "distinct (map key rs)" and "set (map key rs) \<inter> set (map key rows) = {}"
  shows "fold (sql_insert_ignore key) rs rows = rows @ rs"
  using assms by (induction rs arbitrary: rows) (auto simp: sql_insert_ignore_def)

text \<open>Rows that differ in a text made from their keys differ in their keys.\<close>

lemma coarser:
  assumes "distinct (map (\<lambda>r. h (key r)) rs)" and "set (map (\<lambda>r. h (key r)) rs) \<inter> (\<lambda>r. h (key r)) ` set rows = {}"
  shows "distinct (map key rs)" and "set (map key rs) \<inter> set (map key rows) = {}"
proof -
  have "distinct (map h (map key rs))" using assms(1) by (simp add: comp_def)
  then show "distinct (map key rs)" by (simp only: distinct_map)
  show "set (map key rs) \<inter> set (map key rows) = {}" using assms(2) by force
qed

lemma keys_disjoint:
  "(\<And>x y. x \<in> set xs \<Longrightarrow> y \<in> set ys \<Longrightarrow> key x \<noteq> key y) \<Longrightarrow> set (map key xs) \<inter> set (map key ys) = {}"
  by auto

lemma numbered_like:
  assumes "\<And>n r. f (fill n r) = f r" and "g \<in> set (number_rows fill n rules)"
  obtains r where "r \<in> set rules" and "f r = f g"
proof -
  have "map f (number_rows fill n rules) = map f rules" by (rule map_number_rows) (rule assms(1))
  then have "f ` set (number_rows fill n rules) = f ` set rules" by (metis list.set_map)
  with assms(2) have "f g \<in> f ` set rules" by blast
  then obtain r where "r \<in> set rules" "f r = f g" by force
  then show thesis by (rule that)
qed

lemma length_number_rows [simp]: "length (number_rows fill n rules) = length rules"
  by (induction rules arbitrary: n) simp_all

definition globals_done ::
  "world \<Rightarrow> backupGlobalThresholdPayload list \<Rightarrow> BackupImportResp \<Rightarrow> BackupImportResp \<Rightarrow> world \<Rightarrow> bool" where
  "globals_done w0 items resp0 resp w \<longleftrightarrow>
     (\<exists>gs. global_rules w = global_rules w0 @ gs \<and> (\<forall>g\<in>set gs. \<exists>item\<in>set items. global_from item g) \<and>
        resp = count_rules resp0 (int (length gs)) (int (length items) - int (length gs))) \<and>
     same_tables (w0\<lparr>global_rules := global_rules w\<rparr>) w \<and> store_ok w \<and>
     (\<forall>item\<in>set items. thresholdRuleKey (bg_PeriodType item) (bg_MetricType item) \<in> global_text ` set (global_rules w))"

lemma create_globals:
  assumes "distinct (map global_text rules)" and "set (map global_text rules) \<inter> global_text ` set (global_rules w) = {}"
    and "db_fault E (tick w) = None \<or> rules = []"
  shows "\<exists>gs n w'. ThresholdRuleRepo_CreateGlobalRulesIfAbsent E rules w = (Inr (length rules), w') \<and>
     gs = number_rows (gr_fill (clk E (tick w))) n rules \<and> same_tables (w\<lparr>global_rules := global_rules w @ gs\<rparr>) w' \<and> (\<forall>t. seqs w t \<le> seqs w' t)"
proof (cases "rules = []")
  case True
  then show ?thesis by (auto simp: ThresholdRuleRepo_CreateGlobalRulesIfAbsent_def run_ret)
next
  case False
  let ?gs = "number_rows (gr_fill (clk E (tick w))) (seqs w TGlobalRules) rules"
  have keys: "map gr_key ?gs = map gr_key rules" by (rule map_number_rows) (simp add: gr_key_def gr_fill_def)
  note coarser [of "\<lambda>(p, m). thresholdRuleKey p m" gr_key rules "global_rules w"]
  then have "distinct (map gr_key rules)" "set (map gr_key rules) \<inter> set (map gr_key (global_rules w)) = {}"
    using assms(1,2) by (simp_all add: gr_key_def)
  then have "fold (sql_insert_ignore gr_key) ?gs (global_rules w) = global_rules w @ ?gs"
    by (intro fold_insert_new) (simp_all add: keys)
  with False assms(3) show ?thesis
    by (simp add: ThresholdRuleRepo_CreateGlobalRulesIfAbsent_def run_wrap statement_def Let_def same_tables_def bump_seq_def) blast
qed

lemma import_globals:
  assumes "store_ok w" and "importGlobalThresholdRules E items resp w = (r, w')"
  shows "case r of Inl e \<Rightarrow> import_error E masterKey e w' | Inr resp' \<Rightarrow> globals_done w items resp resp' w'"
proof (cases "items = []")
  case True
  with assms show ?thesis by (auto simp: importGlobalThresholdRules_def run_ret globals_done_def count_rules_def)
next
  case False
  let ?known = "global_text ` set (global_rules w)"
  obtain skipped rules where new: "newGlobalRules items ?known = (skipped, rules)" by fastforce
  note facts = new_global_rules [OF new]
  show ?thesis
  proof (cases "db_fault E (tick w)")
    case (Some msg)
    with assms False fault_not_smooth [OF Some] show ?thesis
      by (auto simp: importGlobalThresholdRules_def ThresholdRuleRepo_ListGlobalRules_def run_bnd run_wrap statement_def import_error_def)
  next
    case None
    have run: "bnd (wrap ''create backup global threshold rules: '' (ThresholdRuleRepo_CreateGlobalRulesIfAbsent E rules)) (\<lambda>created.
        ret (count_rules resp (int created) (skipped + int (length rules) - int created))) (ticked 1 w) = (r, w')"
      using assms(2) False None new
      by (simp add: importGlobalThresholdRules_def ThresholdRuleRepo_ListGlobalRules_def run_bnd run_wrap statement_def)
    show ?thesis
    proof (cases "db_fault E (tick w + 1) = None \<or> rules = []")
      case True
      with create_globals [of rules "ticked 1 w" E] facts obtain gs n v where
        cr: "ThresholdRuleRepo_CreateGlobalRulesIfAbsent E rules (ticked 1 w) = (Inr (length rules), v)"
        and gs: "gs = number_rows (gr_fill (clk E (tick w + 1))) n rules"
        and v: "same_tables (w\<lparr>global_rules := global_rules w @ gs\<rparr>) v" "\<forall>t. seqs w t \<le> seqs v t" by (auto simp: same_tables_def)
      have "\<exists>item\<in>set items. global_from item g" if g: "g \<in> set gs" for g
      proof -
        let ?f = "\<lambda>r. (gr_PeriodType r, gr_MetricType r, gr_ThresholdMB r, gr_Enabled r)"
        have fill: "?f (gr_fill (clk E (tick w + 1)) m x) = ?f x" for m x by (simp add: gr_fill_def)
        obtain x where x: "x \<in> set rules" "?f x = ?f g"
          by (rule numbered_like [of ?f "gr_fill (clk E (tick w + 1))" g n rules]) (use g gs fill in auto)
        with facts obtain item where "item \<in> set items" "global_from item x" by blast
        with x(2) show ?thesis by (intro bexI [of _ item]) (simp_all add: global_from_def)
      qed
      moreover have "global_text ` set gs = global_text ` set rules"
      proof -
        have "map global_text gs = map global_text rules" unfolding gs by (rule map_number_rows) simp
        then show ?thesis by (metis list.set_map)
      qed
      moreover have "store_ok v" using v store_ok_other [OF assms(1) _ _ v(2)] by (simp add: same_tables_def)
      moreover have "r = Inr (count_rules resp (int (length gs)) (int (length items) - int (length gs)))" "w' = v"
        using run cr facts by (auto simp: run_bnd run_wrap run_ret gs)
      moreover have "\<forall>item\<in>set items. thresholdRuleKey (bg_PeriodType item) (bg_MetricType item) \<in> global_text ` set (global_rules v)"
        using facts v(1) \<open>global_text ` set gs = global_text ` set rules\<close> by (simp add: same_tables_def image_Un)
      ultimately show ?thesis
        using v(1) unfolding globals_done_def by (simp add: same_tables_def)
    next
      case fault: False
      then obtain msg where msg: "db_fault E (tick w + 1) = Some msg" by auto
      from run fault msg fault_not_smooth [OF msg] assms(1) show ?thesis
        by (auto simp: ThresholdRuleRepo_CreateGlobalRulesIfAbsent_def run_bnd run_wrap statement_def import_error_def)
    qed
  qed
qed

definition rules_done ::
  "(string \<rightharpoonup> nat) \<Rightarrow> world \<Rightarrow> backupMachineThresholdPayload list \<Rightarrow> BackupImportResp \<Rightarrow> BackupImportResp \<Rightarrow> world \<Rightarrow> bool" where
  "rules_done ids w0 items resp0 resp w \<longleftrightarrow>
     (\<exists>gs. machine_rules w = machine_rules w0 @ gs \<and> (\<forall>g\<in>set gs. \<exists>item\<in>set items. rule_from ids item g) \<and>
        resp = count_rules resp0 (int (length gs)) (int (length items) - int (length gs))) \<and>
     same_tables (w0\<lparr>machine_rules := machine_rules w\<rparr>) w \<and> store_ok w \<and>
     (\<forall>item\<in>set items. \<forall>i. ids (TrimSpace (bt_MachineName item)) = Some i \<longrightarrow>
        machineThresholdRuleKey i (bt_PeriodType item) (bt_MetricType item) \<in> rule_text ` set (machine_rules w))"

lemma create_rules:
  assumes "distinct (map mr_key rules)" and "set (map mr_key rules) \<inter> set (map mr_key (machine_rules w)) = {}"
    and "db_fault E (tick w) = None \<or> rules = []"
  shows "\<exists>rs n w'. ThresholdRuleRepo_CreateMachineRulesIfAbsent E rules w = (Inr (length rules), w') \<and>
     rs = number_rows (mr_fill (clk E (tick w))) n rules \<and> same_tables (w\<lparr>machine_rules := machine_rules w @ rs\<rparr>) w' \<and> (\<forall>t. seqs w t \<le> seqs w' t)"
proof (cases "rules = []")
  case True
  then show ?thesis by (auto simp: ThresholdRuleRepo_CreateMachineRulesIfAbsent_def run_ret)
next
  case False
  let ?rs = "number_rows (mr_fill (clk E (tick w))) (seqs w TMachineRules) rules"
  have keys: "map mr_key ?rs = map mr_key rules" by (rule map_number_rows) simp
  have "fold (sql_insert_ignore mr_key) ?rs (machine_rules w) = machine_rules w @ ?rs"
    by (intro fold_insert_new) (simp_all only: keys assms)
  with False assms(3) show ?thesis
    by (simp add: ThresholdRuleRepo_CreateMachineRulesIfAbsent_def run_wrap statement_def Let_def same_tables_def bump_seq_def) blast
qed

lemma list_rules_result:
  assumes "wrap msg (ThresholdRuleRepo_ListMachineRulesByMachineIDs E is) w = (x, v)"
  obtains (error) e where "x = Inl e" and "\<not> errors_Is e ErrInvalidBackupPayload" and "\<not> smooth E masterKey" and "v = ticked 1 w"
  | (rows) rows n where "x = Inr rows" and "set rows = {r \<in> set (machine_rules w). mr_MachineID r \<in> set is}" and "v = ticked n w"
proof (cases "is = []")
  case True
  then show thesis using assms by (intro rows [of "[]" 0]) (auto simp: ThresholdRuleRepo_ListMachineRulesByMachineIDs_def run_wrap run_ret ticked_def)
next
  case False
  show thesis
  proof (cases "db_fault E (tick w)")
    case (Some msg)
    with False assms fault_not_smooth [OF Some] show thesis
      by (intro error) (auto simp: ThresholdRuleRepo_ListMachineRulesByMachineIDs_def run_wrap statement_def)
  next
    case None
    with False assms show thesis
      by (intro rows [of "sort_key mr_key (filter (\<lambda>r. mr_MachineID r \<in> set is) (machine_rules w))" 1])
        (auto simp: ThresholdRuleRepo_ListMachineRulesByMachineIDs_def run_wrap statement_def)
  qed
qed

lemma import_rules:
  assumes "store_ok w" and "importMachineThresholdRules E items ids resp w = (r, w')"
  shows "case r of Inl e \<Rightarrow> import_error E masterKey e w' | Inr resp' \<Rightarrow> rules_done ids w items resp resp' w'"
proof (cases "items = []")
  case True
  with assms show ?thesis by (auto simp: importMachineThresholdRules_def run_ret rules_done_def count_rules_def)
next
  case False
  obtain x v0 where list: "wrap ''list machine threshold rules for backup import: ''
      (ThresholdRuleRepo_ListMachineRulesByMachineIDs E (ruleMachineIDs ids items)) w = (x, v0)" by fastforce
  from list show ?thesis
  proof (cases rule: list_rules_result [where masterKey = masterKey])
    case (error e)
    with assms False list show ?thesis by (auto simp: importMachineThresholdRules_def run_bnd import_error_def)
  next
    case (rows old m)
    obtain skipped rules where new: "newMachineRules ids items (rule_text ` set old) = (skipped, rules)" by fastforce
    note facts = new_machine_rules [OF new]
    have "distinct (map mr_key rules)"
      using coarser(1) [of "\<lambda>(i, p, m). machineThresholdRuleKey i p m" mr_key rules "[]"] facts by (simp add: mr_key_def)
    moreover have "set (map mr_key rules) \<inter> set (map mr_key (machine_rules w)) = {}"
    proof -
      have "mr_key x \<noteq> mr_key y" if x: "x \<in> set rules" and y: "y \<in> set (machine_rules w)" for x y
      proof
        assume k: "mr_key x = mr_key y"
        from facts x obtain item where "item \<in> set items" "rule_from ids item x" by blast
        then have "mr_MachineID x \<in> set (ruleMachineIDs ids items)"
          by (auto simp: ruleMachineIDs_def rule_from_def List.map_filter_def intro!: image_eqI [where x = item])
        with k y rows(2) have "y \<in> set old" by (simp add: mr_key_def)
        with k have "rule_text x \<in> rule_text ` set old" by (auto simp: mr_key_def)
        with facts x show False by auto
      qed
      then show ?thesis by (rule keys_disjoint)
    qed
    ultimately have fresh: "distinct (map mr_key rules)" "set (map mr_key rules) \<inter> set (map mr_key (machine_rules w)) = {}" .
    have run: "bnd (wrap ''create backup machine threshold rules: '' (ThresholdRuleRepo_CreateMachineRulesIfAbsent E rules)) (\<lambda>created.
        ret (count_rules resp (int created) (skipped + int (length rules) - int created))) (ticked m w) = (r, w')"
      using assms(2) False list rows new by (simp add: importMachineThresholdRules_def run_bnd)
    show ?thesis
    proof (cases "db_fault E (tick w + m) = None \<or> rules = []")
      case True
      with create_rules [of rules "ticked m w" E] fresh obtain rs n v where
        cr: "ThresholdRuleRepo_CreateMachineRulesIfAbsent E rules (ticked m w) = (Inr (length rules), v)"
        and rs: "rs = number_rows (mr_fill (clk E (tick w + m))) n rules"
        and v: "same_tables (w\<lparr>machine_rules := machine_rules w @ rs\<rparr>) v" "\<forall>t. seqs w t \<le> seqs v t" by (auto simp: same_tables_def)
      have "\<exists>item\<in>set items. rule_from ids item g" if g: "g \<in> set rs" for g
      proof -
        let ?f = "\<lambda>r. (mr_MachineID r, mr_PeriodType r, mr_MetricType r, mr_ThresholdMB r, mr_Enabled r)"
        have fill: "?f (mr_fill (clk E (tick w + m)) i x) = ?f x" for i x by (simp add: mr_fill_def)
        obtain x where x: "x \<in> set rules" "?f x = ?f g"
          by (rule numbered_like [of ?f "mr_fill (clk E (tick w + m))" g n rules]) (use g rs fill in auto)
        with facts obtain item where "item \<in> set items" "rule_from ids item x" by blast
        with x(2) show ?thesis by (intro bexI [of _ item]) (simp_all add: rule_from_def)
      qed
      moreover have texts: "rule_text ` set rs = rule_text ` set rules"
      proof -
        have "map rule_text rs = map rule_text rules" unfolding rs by (rule map_number_rows) (simp add: mr_fill_def)
        then show ?thesis by (metis list.set_map)
      qed
      moreover have "store_ok v" using v store_ok_other [OF assms(1) _ _ v(2)] by (simp add: same_tables_def)
      moreover have "r = Inr (count_rules resp (int (length rs)) (int (length items) - int (length rs)))" "w' = v"
        using run cr facts by (auto simp: run_bnd run_wrap run_ret rs)
      moreover have "\<forall>item\<in>set items. \<forall>i. ids (TrimSpace (bt_MachineName item)) = Some i \<longrightarrow>
          machineThresholdRuleKey i (bt_PeriodType item) (bt_MetricType item) \<in> rule_text ` set (machine_rules v)"
      proof (intro ballI allI impI)
        fix item i assume "item \<in> set items" "ids (TrimSpace (bt_MachineName item)) = Some i"
        with facts have "machineThresholdRuleKey i (bt_PeriodType item) (bt_MetricType item) \<in> rule_text ` set old \<union> rule_text ` set rs"
          using texts by simp
        moreover have "set old \<union> set rs \<subseteq> set (machine_rules v)" using rows(2) v(1) by (auto simp: same_tables_def)
        ultimately show "machineThresholdRuleKey i (bt_PeriodType item) (bt_MetricType item) \<in> rule_text ` set (machine_rules v)" by blast
      qed
      ultimately show ?thesis
        using v(1) unfolding rules_done_def by (simp add: same_tables_def)
    next
      case fault: False
      then obtain msg where msg: "db_fault E (tick w + m) = Some msg" by auto
      from run fault msg fault_not_smooth [OF msg] assms(1) show ?thesis
        by (auto simp: ThresholdRuleRepo_CreateMachineRulesIfAbsent_def run_bnd run_wrap statement_def import_error_def)
    qed
  qed
qed

section \<open>The whole import\<close>

lemma stage [consumes 2, case_names err ok]:
  assumes "bnd m f w = (r, w')" and "\<forall>x v. m w = (x, v) \<longrightarrow> (case x of Inl e \<Rightarrow> R e v | Inr y \<Rightarrow> Q y v)"
  obtains (err) e where "r = Inl e" and "R e w'" | (ok) y v where "Q y v" and "f y v = (r, w')"
proof -
  obtain x v where m: "m w = (x, v)" by fastforce
  with assms(2) have "case x of Inl e \<Rightarrow> R e v | Inr y \<Rightarrow> Q y v" by blast
  with m assms(1) err ok show thesis by (cases x) (auto simp: run_bnd)
qed

text \<open>What an import that returned a report has done.\<close>

definition imported :: "env \<Rightarrow> string \<Rightarrow> backupPayload \<Rightarrow> world \<Rightarrow> BackupImportResp \<Rightarrow> world \<Rightarrow> bool" where
  "imported E masterKey p w resp w' \<longleftrightarrow> (\<exists>ks ms ps cs gs rs.
     ssh_keys w' = ssh_keys w @ ks \<and> machines w' = machines w @ ms \<and> proxies w' = proxies w @ ps \<and> channels w' = channels w @ cs \<and>
     global_rules w' = global_rules w @ gs \<and> machine_rules w' = machine_rules w @ rs \<and>
     (\<forall>k\<in>set ks. \<exists>item\<in>set (bl_SSHKeys p). made_from E masterKey item k) \<and>
     (\<forall>m\<in>set ms. \<exists>item\<in>set (bl_Machines p). machine_from item m \<and>
        stands_for E (bl_SSHKeys p) w' (machine_key item) (mc_SSHKeyID m)) \<and>
     (\<forall>x\<in>set ps. \<exists>item\<in>set (bl_NotificationProxies p). proxy_from E item x) \<and>
     (\<exists>ids. (\<forall>name i. ids name = Some i \<longrightarrow> (\<exists>x\<in>set (proxies w'). px_Name x = name \<and> px_ID x = i)) \<and>
        (\<forall>c\<in>set cs. \<exists>item\<in>set (bl_NotificationChannels p). channel_from E ids item c)) \<and>
     (\<forall>g\<in>set gs. \<exists>item\<in>set (bl_GlobalThresholdRules p). global_from item g) \<and>
     (\<forall>r\<in>set rs. \<exists>item\<in>set (bl_MachineThresholdRules p). rule_from (names_of (machines w')) item r) \<and>
     resp = \<lparr>ImportedSSHKeys = int (length ks), SkippedSSHKeys = int (length (bl_SSHKeys p)) - int (length ks),
       ImportedMachines = int (length ms), SkippedMachines = int (length (bl_Machines p)) - int (length ms),
       ImportedNotificationChannels = int (length cs),
       SkippedNotificationChannels = int (length (bl_NotificationChannels p)) - int (length cs),
       ImportedNotificationProxies = int (length ps),
       SkippedNotificationProxies = int (length (bl_NotificationProxies p)) - int (length ps),
       ImportedThresholdRules = int (length gs) + int (length rs),
       SkippedThresholdRules = int (length (bl_GlobalThresholdRules p)) - int (length gs) +
         (int (length (bl_MachineThresholdRules p)) - int (length rs))\<rparr>)"

text \<open>And what is there afterwards: every key name leads somewhere, every machine whose key is known is stored.\<close>

definition covered :: "env \<Rightarrow> backupPayload \<Rightarrow> world \<Rightarrow> world \<Rightarrow> bool" where
  "covered E p w w' \<longleftrightarrow>
     (\<forall>item\<in>set (bl_Machines p). TrimSpace (bm_Name item) \<in> mc_Name ` set (machines w') \<or>
        (no_faults E \<longrightarrow> machine_key item \<notin> sk_Name ` set (ssh_keys w') \<union> key_name ` set (bl_SSHKeys p))) \<and>
     (\<forall>item\<in>set (bl_NotificationProxies p). TrimSpace (bp_Name item) \<in> px_Name ` set (proxies w')) \<and>
     (\<forall>item\<in>set (bl_NotificationChannels p). TrimSpace (bn_ChannelType item) \<in> ch_ChannelType ` set (channels w')) \<and>
     (\<forall>item\<in>set (bl_GlobalThresholdRules p).
        thresholdRuleKey (bg_PeriodType item) (bg_MetricType item) \<in> global_text ` set (global_rules w')) \<and>
     (\<forall>item\<in>set (bl_MachineThresholdRules p). \<forall>i. names_of (machines w') (TrimSpace (bt_MachineName item)) = Some i \<longrightarrow>
        machineThresholdRuleKey i (bt_PeriodType item) (bt_MetricType item) \<in> rule_text ` set (machine_rules w'))"

text \<open>The five stages give the report and the tables.\<close>

lemma stages_imported:
  assumes keys: "keys_done E masterKey w (bl_SSHKeys p) (resp1, n, f) w1"
    and machs: "machines_done w1 resp1 n (bl_Machines p) (resp2, ids) w2"
    and prox: "proxies_done E w2 resp2 (bl_NotificationProxies p) (resp3, pids) w3"
    and chans: "channels_done E pids w3 resp3 (bl_NotificationChannels p) (resp4, ts) w4"
    and globs: "globals_done w4 (bl_GlobalThresholdRules p) resp4 resp5 w5"
    and rls: "rules_done ids w5 (bl_MachineThresholdRules p) resp5 resp w'"
  shows "imported E masterKey p w resp w'"
proof -
  obtain ks where ks: "ssh_keys w1 = ssh_keys w @ ks" "\<forall>k\<in>set ks. \<exists>item\<in>set (bl_SSHKeys p). made_from E masterKey item k"
    and r1: "resp1 = no_imports\<lparr>ImportedSSHKeys := int (length ks), SkippedSSHKeys := int (length (bl_SSHKeys p)) - int (length ks)\<rparr>"
    using keys by (auto simp: keys_done_def key_rows_def)
  obtain ms where ms: "machines w2 = machines w1 @ ms"
      "\<forall>m\<in>set ms. \<exists>item\<in>set (bl_Machines p). machine_from item m \<and> n (machine_key item) = Some (mc_SSHKeyID m)"
    and r2: "resp2 = resp1\<lparr>ImportedMachines := int (length ms), SkippedMachines := int (length (bl_Machines p)) - int (length ms)\<rparr>"
    using machs by (auto simp: machines_done_def)
  obtain ps where ps: "proxies w3 = proxies w2 @ ps" "\<forall>x\<in>set ps. \<exists>item\<in>set (bl_NotificationProxies p). proxy_from E item x"
    and r3: "resp3 = resp2\<lparr>ImportedNotificationProxies := int (length ps),
      SkippedNotificationProxies := int (length (bl_NotificationProxies p)) - int (length ps)\<rparr>"
    using prox by (auto simp: proxies_done_def)
  obtain cs where cs: "channels w4 = channels w3 @ cs" "\<forall>c\<in>set cs. \<exists>item\<in>set (bl_NotificationChannels p). channel_from E pids item c"
    and r4: "resp4 = resp3\<lparr>ImportedNotificationChannels := int (length cs),
      SkippedNotificationChannels := int (length (bl_NotificationChannels p)) - int (length cs)\<rparr>"
    using chans by (auto simp: channels_done_def)
  obtain gs where gs: "global_rules w5 = global_rules w4 @ gs" "\<forall>g\<in>set gs. \<exists>item\<in>set (bl_GlobalThresholdRules p). global_from item g"
    and r5: "resp5 = count_rules resp4 (int (length gs)) (int (length (bl_GlobalThresholdRules p)) - int (length gs))"
    using globs by (auto simp: globals_done_def)
  obtain rs where rs: "machine_rules w' = machine_rules w5 @ rs"
      "\<forall>r\<in>set rs. \<exists>item\<in>set (bl_MachineThresholdRules p). rule_from ids item r"
    and r6: "resp = count_rules resp5 (int (length rs)) (int (length (bl_MachineThresholdRules p)) - int (length rs))"
    using rls by (auto simp: rules_done_def)
  have t1: "same_tables (w\<lparr>ssh_keys := ssh_keys w1\<rparr>) w1" using keys by (auto simp: keys_done_def key_rows_def)
  have t2: "same_tables (w1\<lparr>machines := machines w2\<rparr>) w2" "ids = names_of (machines w2)" using machs by (auto simp: machines_done_def)
  have t3: "same_tables (w2\<lparr>proxies := proxies w3\<rparr>) w3"
    "\<forall>name i. pids name = Some i \<longrightarrow> (\<exists>x\<in>set (proxies w3). px_Name x = name \<and> px_ID x = i)" using prox by (auto simp: proxies_done_def)
  have t4: "same_tables (w3\<lparr>channels := channels w4\<rparr>) w4" using chans by (auto simp: channels_done_def)
  have t5: "same_tables (w4\<lparr>global_rules := global_rules w5\<rparr>) w5" using globs by (auto simp: globals_done_def)
  have t6: "same_tables (w5\<lparr>machine_rules := machine_rules w'\<rparr>) w'" using rls by (auto simp: rules_done_def)
  note chain = t1 [unfolded same_tables_def] t2(1) [unfolded same_tables_def] t3(1) [unfolded same_tables_def]
    t4 [unfolded same_tables_def] t5 [unfolded same_tables_def] t6 [unfolded same_tables_def]
  have tables: "ssh_keys w' = ssh_keys w @ ks" "machines w' = machines w @ ms" "proxies w' = proxies w @ ps" "channels w' = channels w @ cs"
    "global_rules w' = global_rules w @ gs" "machine_rules w' = machine_rules w @ rs"
    using chain ks(1) ms(1) ps(1) cs(1) gs(1) rs(1) by simp_all
  have "stands_for E (bl_SSHKeys p) w' name i" if "n name = Some i" for name i
  proof -
    from that keys have "stands_for E (bl_SSHKeys p) w1 name i" by (auto simp: keys_done_def key_maps_def)
    then show ?thesis by (rule stands_for_mono) (simp_all add: tables(1) ks(1))
  qed
  then have "\<forall>m\<in>set ms. \<exists>item\<in>set (bl_Machines p). machine_from item m \<and> stands_for E (bl_SSHKeys p) w' (machine_key item) (mc_SSHKeyID m)"
    using ms(2) by blast
  moreover have "\<forall>name i. pids name = Some i \<longrightarrow> (\<exists>x\<in>set (proxies w'). px_Name x = name \<and> px_ID x = i)" "ids = names_of (machines w')"
    using t2(2) t3(2) chain by simp_all
  moreover have "resp = \<lparr>ImportedSSHKeys = int (length ks), SkippedSSHKeys = int (length (bl_SSHKeys p)) - int (length ks),
       ImportedMachines = int (length ms), SkippedMachines = int (length (bl_Machines p)) - int (length ms),
       ImportedNotificationChannels = int (length cs),
       SkippedNotificationChannels = int (length (bl_NotificationChannels p)) - int (length cs),
       ImportedNotificationProxies = int (length ps),
       SkippedNotificationProxies = int (length (bl_NotificationProxies p)) - int (length ps),
       ImportedThresholdRules = int (length gs) + int (length rs),
       SkippedThresholdRules = int (length (bl_GlobalThresholdRules p)) - int (length gs) +
         (int (length (bl_MachineThresholdRules p)) - int (length rs))\<rparr>"
    by (simp add: r6 r5 r4 r3 r2 r1 count_rules_def no_imports_def)
  ultimately show ?thesis
    unfolding imported_def using tables ks(2) ps(2) cs(2) gs(2) rs(2)
    by (intro exI [of _ ks] exI [of _ ms] exI [of _ ps] exI [of _ cs] exI [of _ gs] exI [of _ rs]) blast
qed

lemma stages_covered:
  assumes keys: "keys_done E masterKey w (bl_SSHKeys p) (resp1, n, f) w1"
    and machs: "machines_done w1 resp1 n (bl_Machines p) (resp2, ids) w2"
    and prox: "proxies_done E w2 resp2 (bl_NotificationProxies p) (resp3, pids) w3"
    and chans: "channels_done E pids w3 resp3 (bl_NotificationChannels p) (resp4, ts) w4"
    and globs: "globals_done w4 (bl_GlobalThresholdRules p) resp4 resp5 w5"
    and rls: "rules_done ids w5 (bl_MachineThresholdRules p) resp5 resp w'"
  shows "covered E p w w'"
proof -
  have same: "ssh_keys w' = ssh_keys w1" "machines w' = machines w2" "proxies w' = proxies w3" "channels w' = channels w4"
    "global_rules w' = global_rules w5"
    using machs prox chans globs rls
    by (simp_all add: machines_done_def proxies_done_def channels_done_def globals_done_def rules_done_def same_tables_def)
  have "machine_key item \<notin> sk_Name ` set (ssh_keys w') \<union> key_name ` set (bl_SSHKeys p)"
    if "n (machine_key item) = None" "no_faults E" for item
    using that keys same(1) by (auto simp: keys_done_def key_maps_def)
  moreover have "\<forall>item\<in>set (bl_Machines p). TrimSpace (bm_Name item) \<in> mc_Name ` set (machines w') \<or> n (machine_key item) = None"
    "ids = names_of (machines w')" using machs same(2) by (simp_all add: machines_done_def)
  moreover have "\<forall>item\<in>set (bl_NotificationProxies p). TrimSpace (bp_Name item) \<in> px_Name ` set (proxies w')"
    using prox same(3) by (simp add: proxies_done_def)
  moreover have "\<forall>item\<in>set (bl_NotificationChannels p). TrimSpace (bn_ChannelType item) \<in> ch_ChannelType ` set (channels w')"
    using chans same(4) by (simp add: channels_done_def)
  moreover have "\<forall>item\<in>set (bl_GlobalThresholdRules p).
      thresholdRuleKey (bg_PeriodType item) (bg_MetricType item) \<in> global_text ` set (global_rules w')"
    using globs same(5) by (simp add: globals_done_def)
  moreover have "\<forall>item\<in>set (bl_MachineThresholdRules p). \<forall>i. ids (TrimSpace (bt_MachineName item)) = Some i \<longrightarrow>
      machineThresholdRuleKey i (bt_PeriodType item) (bt_MetricType item) \<in> rule_text ` set (machine_rules w')"
    using rls by (simp add: rules_done_def)
  ultimately show ?thesis unfolding covered_def by blast
qed

lemma list_machines_result:
  assumes "wrap msg (MachineRepo_List E) w = (r, w')"
  shows "w' = ticked 1 w" and "r = Inr ms \<Longrightarrow> map_from mc_Name mc_ID ms = names_of (machines w)"
    and "r = Inl e \<Longrightarrow> \<not> errors_Is e x \<and> \<not> no_faults E"
  using assms by (auto simp: MachineRepo_List_def run_wrap statement_def Let_def no_faults_def names_of_def split: option.splits)

text \<open>The stages after the machines, then those after the keys.\<close>

lemma import_after_machines:
  assumes keys: "keys_done E masterKey w (bl_SSHKeys p) (resp1, n, f) w1"
    and machs: "machines_done w1 resp1 n (bl_Machines p) (resp2, ids) w2"
    and "\<forall>x\<in>set (bl_NotificationProxies p). validateBackupProxy E x = None"
    and "\<forall>c\<in>set (bl_NotificationChannels p). validateBackupChannel E c = None"
    and run: "bnd (importNotificationProxies E (bl_NotificationProxies p) resp2) (\<lambda>(resp, proxyIDByName).
      bnd (importNotificationChannels E (bl_NotificationChannels p) proxyIDByName resp)
        (importThresholdRules E p ids)) w2 = (r, w')"
  shows "case r of Inl e \<Rightarrow> import_error E masterKey e w' | Inr resp \<Rightarrow> imported E masterKey p w resp w' \<and> covered E p w w' \<and> store_ok w'"
proof -
  have zero: "ImportedNotificationProxies resp2 = 0" "SkippedNotificationProxies resp2 = 0"
    "ImportedNotificationChannels resp2 = 0" "SkippedNotificationChannels resp2 = 0"
    using keys machs by (auto simp: keys_done_def key_rows_def machines_done_def no_imports_def)
  have ok2: "store_ok w2" using machs by (simp add: machines_done_def)
  have "\<forall>x v. importNotificationProxies E (bl_NotificationProxies p) resp2 w2 = (x, v) \<longrightarrow>
      (case x of Inl e \<Rightarrow> import_error E masterKey e v | Inr s \<Rightarrow> proxies_done E w2 resp2 (bl_NotificationProxies p) s v)"
    using import_proxies [OF ok2 assms(3) _ zero(1,2)] by blast
  with run show ?thesis
  proof (cases rule: stage)
    case (err e)
    then show ?thesis by simp
  next
    case (ok s w3)
    obtain resp3 pids where s: "s = (resp3, pids)" by (cases s)
    have prox: "proxies_done E w2 resp2 (bl_NotificationProxies p) (resp3, pids) w3" using ok(1) s by simp
    then have ok3: "store_ok w3" and zero3: "ImportedNotificationChannels resp3 = 0" "SkippedNotificationChannels resp3 = 0"
      using zero by (auto simp: proxies_done_def)
    from ok(2) s have run3: "bnd (importNotificationChannels E (bl_NotificationChannels p) pids resp3) (importThresholdRules E p ids) w3 = (r, w')"
      by simp
    have "\<forall>x v. importNotificationChannels E (bl_NotificationChannels p) pids resp3 w3 = (x, v) \<longrightarrow>
        (case x of Inl e \<Rightarrow> import_error E masterKey e v
         | Inr resp4 \<Rightarrow> channels_done E pids w3 resp3 (bl_NotificationChannels p) (resp4, ch_ChannelType ` set (channels v)) v)"
      using import_channels [OF ok3 assms(4) _ zero3] by blast
    with run3 show ?thesis
    proof (cases rule: stage)
      case (err e)
      then show ?thesis by simp
    next
      case (ok resp4 w4)
      note chans = ok(1)
      have ok4: "store_ok w4" using chans by (simp add: channels_done_def)
      have "\<forall>x v. importGlobalThresholdRules E (bl_GlobalThresholdRules p) resp4 w4 = (x, v) \<longrightarrow>
          (case x of Inl e \<Rightarrow> import_error E masterKey e v | Inr resp5 \<Rightarrow> globals_done w4 (bl_GlobalThresholdRules p) resp4 resp5 v)"
        using import_globals [OF ok4] by blast
      with ok(2) [unfolded importThresholdRules_def] show ?thesis
      proof (cases rule: stage)
        case (err e)
        then show ?thesis by simp
      next
        case (ok resp5 w5)
        note globs = ok(1)
        have ok5: "store_ok w5" using globs by (simp add: globals_done_def)
        from import_rules [OF ok5 ok(2)] show ?thesis
          using stages_imported [OF keys machs prox chans globs] stages_covered [OF keys machs prox chans globs]
          by (cases r) (auto simp: rules_done_def)
      qed
    qed
  qed
qed

lemma import_after_keys:
  assumes keys: "keys_done E masterKey w (bl_SSHKeys p) (resp1, n, f) w1"
    and "\<forall>m\<in>set (bl_Machines p). validateBackupMachinePayload id m = None"
    and "\<forall>x\<in>set (bl_NotificationProxies p). validateBackupProxy E x = None"
    and "\<forall>c\<in>set (bl_NotificationChannels p). validateBackupChannel E c = None"
    and run: "bnd (wrap ''list machines for backup import: '' (MachineRepo_List E)) (\<lambda>existingMachines.
      bnd (fold_each (importMachine E n) (bl_Machines p) (resp1, map_from mc_Name mc_ID existingMachines))
        (\<lambda>(resp, machineIDByName).
      bnd (importNotificationProxies E (bl_NotificationProxies p) resp) (\<lambda>(resp, proxyIDByName).
      bnd (importNotificationChannels E (bl_NotificationChannels p) proxyIDByName resp)
        (importThresholdRules E p machineIDByName)))) w1 = (r, w')"
  shows "case r of Inl e \<Rightarrow> import_error E masterKey e w' | Inr resp \<Rightarrow> imported E masterKey p w resp w' \<and> covered E p w w' \<and> store_ok w'"
proof -
  have ok1: "store_ok w1" and zero: "ImportedMachines resp1 = 0" "SkippedMachines resp1 = 0"
    and ids: "\<forall>name i. n name = Some i \<longrightarrow> i \<in> sk_ID ` set (ssh_keys w1)"
  proof -
    show "store_ok w1" "ImportedMachines resp1 = 0" "SkippedMachines resp1 = 0"
      using keys by (auto simp: keys_done_def key_rows_def no_imports_def)
    show "\<forall>name i. n name = Some i \<longrightarrow> i \<in> sk_ID ` set (ssh_keys w1)"
      using keys unfolding keys_done_def key_maps_def stands_for_def by fast
  qed
  have "case x of Inl e \<Rightarrow> import_error E masterKey e v | Inr ms \<Rightarrow> v = ticked 1 w1 \<and> map_from mc_Name mc_ID ms = names_of (machines w1)"
    if "wrap ''list machines for backup import: '' (MachineRepo_List E) w1 = (x, v)" for x v
    using list_machines_result [OF that] ok1 by (cases x) (auto simp: import_error_def smooth_def)
  then have "\<forall>x v. wrap ''list machines for backup import: '' (MachineRepo_List E) w1 = (x, v) \<longrightarrow>
      (case x of Inl e \<Rightarrow> import_error E masterKey e v | Inr ms \<Rightarrow> v = ticked 1 w1 \<and> map_from mc_Name mc_ID ms = names_of (machines w1))"
    by blast
  with run show ?thesis
  proof (cases rule: stage)
    case (err e)
    then show ?thesis by simp
  next
    case (ok ms v)
    have "\<forall>x u. fold_each (importMachine E n) (bl_Machines p) (resp1, map_from mc_Name mc_ID ms) v = (x, u) \<longrightarrow>
        (case x of Inl e \<Rightarrow> import_error E masterKey e u | Inr s \<Rightarrow> machines_done w1 resp1 n (bl_Machines p) s u)"
      using import_machines [OF ok1 assms(2) ids _ zero, of E 1] ok(1) by simp
    with ok(2) show ?thesis
    proof (cases rule: stage)
      case (err e)
      then show ?thesis by simp
    next
      case (ok s w2)
      obtain resp2 ns where s: "s = (resp2, ns)" by (cases s)
      show ?thesis
        by (rule import_after_machines [OF keys _ assms(3,4)]) (use ok s in simp_all)
    qed
  qed
qed

lemma import_outcome:
  assumes "store_ok w" and "validateBackupPayload E (tie_rank E (tick w)) p = None" and "importPayload E masterKey p w = (r, w')"
  shows "case r of Inl e \<Rightarrow> import_error E masterKey e w' | Inr resp \<Rightarrow> imported E masterKey p w resp w' \<and> covered E p w w' \<and> store_ok w'"
proof -
  note valid = assms(2) [unfolded valid_payload]
  have run: "bnd (wrap ''list ssh keys for backup import: '' (SSHKeyRepo_List E)) (\<lambda>existingSSHKeys.
      bnd (fold_each (importSSHKey E masterKey) (bl_SSHKeys p)
             (no_imports, map_from sk_Name sk_ID existingSSHKeys, map_from sk_Fingerprint sk_ID existingSSHKeys))
        (\<lambda>(resp, keyIDByName, _).
      bnd (wrap ''list machines for backup import: '' (MachineRepo_List E)) (\<lambda>existingMachines.
      bnd (fold_each (importMachine E keyIDByName) (bl_Machines p) (resp, map_from mc_Name mc_ID existingMachines))
        (\<lambda>(resp, machineIDByName).
      bnd (importNotificationProxies E (bl_NotificationProxies p) resp) (\<lambda>(resp, proxyIDByName).
      bnd (importNotificationChannels E (bl_NotificationChannels p) proxyIDByName resp)
        (importThresholdRules E p machineIDByName)))))) (ticked 1 w) = (r, w')"
    using assms(2,3) by (simp add: importPayload_def run_bnd [of "external _"] run_external)
  have "case x of Inl e \<Rightarrow> import_error E masterKey e v | Inr ks \<Rightarrow> v = ticked 2 w \<and> set ks = set (ssh_keys w)"
    if "wrap ''list ssh keys for backup import: '' (SSHKeyRepo_List E) (ticked 1 w) = (x, v)" for x v
    using list_keys_result [OF that] assms(1) by (cases x) (auto simp: import_error_def smooth_def numeral_2_eq_2)
  then have "\<forall>x v. wrap ''list ssh keys for backup import: '' (SSHKeyRepo_List E) (ticked 1 w) = (x, v) \<longrightarrow>
      (case x of Inl e \<Rightarrow> import_error E masterKey e v | Inr ks \<Rightarrow> v = ticked 2 w \<and> set ks = set (ssh_keys w))"
    by blast
  with run show ?thesis
  proof (cases rule: stage)
    case (err e)
    then show ?thesis by simp
  next
    case (ok ks v)
    have "\<forall>x u. fold_each (importSSHKey E masterKey) (bl_SSHKeys p)
          (no_imports, map_from sk_Name sk_ID ks, map_from sk_Fingerprint sk_ID ks) v = (x, u) \<longrightarrow>
        (case x of Inl e \<Rightarrow> import_error E masterKey e u | Inr s \<Rightarrow> keys_done E masterKey w (bl_SSHKeys p) s u)"
      using import_keys [of w ks "bl_SSHKeys p" E masterKey 2] assms(1) ok(1) valid by simp
    with ok(2) show ?thesis
    proof (cases rule: stage)
      case (err e)
      then show ?thesis by simp
    next
      case (ok s w1)
      obtain resp1 n f where s: "s = (resp1, n, f)" by (rule prod_cases3)
      with ok show ?thesis using valid by (intro import_after_keys [of E masterKey w p resp1 n f w1]) simp_all
    qed
  qed
qed

lemma import_rejected:
  assumes "\<not> (\<exists>plain p. decryptBackupPayload E (bi_Password req) (bi_Backup req) = Inr plain \<and> unmarshal plain = Some p \<and>
      validateBackupPayload E (tie_rank E (tick w)) p = None)"
    and "BackupService_Import E unmarshal masterKey req w = (r, w')"
  shows "(\<exists>e. r = Inl e) \<and> (w' = w \<or> w' = ticked 1 w)"
  using assms
  by (auto simp: BackupService_Import_def importPayload_def run_fail run_bnd run_lift_sum run_external split: sum.splits option.splits if_splits)

lemma import_accepted:
  assumes "store_ok w" and "BackupService_Import E unmarshal masterKey req w = (r, w')"
    and "decryptBackupPayload E (bi_Password req) (bi_Backup req) = Inr plain" and "unmarshal plain = Some p"
    and "validateBackupPayload E (tie_rank E (tick w)) p = None" and "TrimSpace (bi_Password req) \<noteq> []"
  shows "case r of Inl e \<Rightarrow> import_error E masterKey e w' | Inr resp \<Rightarrow> imported E masterKey p w resp w' \<and> covered E p w w' \<and> store_ok w'"
  using assms(2-6) by (intro import_outcome [OF assms(1,5)]) (simp add: BackupService_Import_def run_bnd run_lift_sum)

text \<open>Every outcome of an import: rejected without a write, or accepted.\<close>

lemma import_cases:
  assumes "store_ok w" and "BackupService_Import E unmarshal masterKey req w = (r, w')"
  obtains (rejected) e where "r = Inl e" and "same_tables w w'" and "store_ok w'"
  | (failed) e where "r = Inl e" and "import_error E masterKey e w'"
  | (imported) resp plain p where "r = Inr resp" and "decryptBackupPayload E (bi_Password req) (bi_Backup req) = Inr plain"
      and "unmarshal plain = Some p" and "imported E masterKey p w resp w'" and "covered E p w w'" and "store_ok w'"
proof (cases "TrimSpace (bi_Password req) \<noteq> [] \<and> (\<exists>plain p. decryptBackupPayload E (bi_Password req) (bi_Backup req) = Inr plain \<and>
    unmarshal plain = Some p \<and> validateBackupPayload E (tie_rank E (tick w)) p = None)")
  case True
  then obtain plain p where p: "decryptBackupPayload E (bi_Password req) (bi_Backup req) = Inr plain" "unmarshal plain = Some p"
    "validateBackupPayload E (tie_rank E (tick w)) p = None" "TrimSpace (bi_Password req) \<noteq> []" by blast
  from import_accepted [OF assms p] p(1,2) failed imported show thesis by (cases r) auto
next
  case False
  have "(\<exists>e. r = Inl e) \<and> (w' = w \<or> w' = ticked 1 w)"
  proof (cases "TrimSpace (bi_Password req) = []")
    case True
    with assms(2) show ?thesis by (auto simp: BackupService_Import_def run_fail)
  next
    case nonempty: False
    with False import_rejected [OF _ assms(2)] show ?thesis by blast
  qed
  with assms(1) show thesis by (auto intro: rejected)
qed

text \<open>C39. Validation comes before the first write: an import that reports an invalid payload has changed no table,
  whatever the database did meanwhile.\<close>

theorem import_validates_first:
  assumes "store_ok w" and "BackupService_Import E unmarshal masterKey req w = (Inl e, w')" and "errors_Is e ErrInvalidBackupPayload"
  shows "same_tables w w'"
  using assms(1,2) by (cases rule: import_cases) (use assms(3) in \<open>auto simp: import_error_def\<close>)

text \<open>An import keeps the inventory complete, however it ends: no machine without its key, no invalid field,
  no identifier or fingerprint twice.\<close>

lemma import_keeps_inventory:
  assumes "store_ok w" and "BackupService_Import E unmarshal masterKey req w = (r, w')"
  shows "inventory_ok w'"
  using assms by (cases rule: import_cases) (auto simp: import_error_def store_ok_def)


section \<open>From one instance to another\<close>

lemma map_each_lift:
  "map_each xs (\<lambda>x. lift_sum (f x)) w = (Inr ys, w') \<Longrightarrow> w' = w \<and> list_all2 (\<lambda>x y. f x = Inr y) xs ys"
proof (induction xs arbitrary: ys)
  case (Cons x xs)
  from Cons.prems obtain y v zs where y: "lift_sum (f x) w = (Inr y, v)" and zs: "map_each xs (\<lambda>x. lift_sum (f x)) v = (Inr zs, w')"
    and ys: "ys = y # zs"
    unfolding map_each.simps by (elim bnd_InrE) (simp add: run_ret)
  from y have "f x = Inr y" "v = w" by (simp_all add: run_lift_sum)
  with Cons.IH [of zs] zs ys show ?case by simp
qed (simp add: run_ret)

text \<open>What an export holds: its file opens to the payload, which has the selected machines and keys in order.\<close>

lemma export_result:
  assumes "BackupService_Export E marshal masterKey req w = (Inr b, w')" and "gcm_sound E" and "gcm_tagged E"
  obtains p ms ks where "decryptBackupPayload E (be_Password req) b = Inr (marshal p)" and "TrimSpace (be_Password req) \<noteq> []"
    and "ms = selectBackupMachines (sort_key (\<lambda>m. - int (mc_ID m)) (machines w)) req"
    and "ks = sort_key (\<lambda>k. - int (sk_ID k)) (ssh_keys w)"
    and "list_all2 (\<lambda>k y. exportSSHKey E masterKey k = Inr y) (selectBackupSSHKeys ks ms req) (bl_SSHKeys p)"
    and "list_all2 (\<lambda>m y. exportMachine (map_from sk_ID id ks) m = Inr y) ms (bl_Machines p)"
proof -
  let ?ks = "sort_key (\<lambda>k. - int (sk_ID k)) (ssh_keys w)"
    and ?ms = "selectBackupMachines (sort_key (\<lambda>m. - int (mc_ID m)) (machines w)) req"
  from assms(1) have pw: "TrimSpace (be_Password req) \<noteq> []" by (auto simp: BackupService_Export_def run_fail split: if_splits)
  with assms(1) obtain w1 p w2 where build: "buildBackupPayload E masterKey ?ms (selectBackupSSHKeys ?ks ?ms req) ?ks w1 = (Inr p, w2)"
    and enc: "encryptBackupPayload E (be_Password req) (marshal p) w2 = (Inr b, w')"
    by (auto simp: BackupService_Export_def Let_def MachineRepo_List_def SSHKeyRepo_List_def run_fail run_wrap statement_def
        elim!: bnd_InrE split: if_splits option.splits)
  from build obtain v1 v2 where
    sp: "map_each (selectBackupSSHKeys ?ks ?ms req) (\<lambda>k. lift_sum (exportSSHKey E masterKey k)) w1 = (Inr (bl_SSHKeys p), v1)"
    and mp: "map_each ?ms (\<lambda>m. lift_sum (exportMachine (map_from sk_ID id ?ks) m)) v1 = (Inr (bl_Machines p), v2)"
    unfolding buildBackupPayload_def by (elim bnd_InrE) (auto simp: run_ret)
  show thesis
    by (rule that [OF backup_opens [OF assms(2,3) enc] pw refl refl conjunct2 [OF map_each_lift [OF sp]]
        conjunct2 [OF map_each_lift [OF mp]]])
qed

lemma list_all2_in1: "list_all2 R xs ys \<Longrightarrow> x \<in> set xs \<Longrightarrow> \<exists>y\<in>set ys. R x y"
  by (metis in_set_conv_nth list_all2_conv_all_nth)

lemma list_all2_in2: "list_all2 R xs ys \<Longrightarrow> y \<in> set ys \<Longrightarrow> \<exists>x\<in>set xs. R x y"
  by (metis in_set_conv_nth list_all2_conv_all_nth)

text \<open>A machine with the settings of another, reached with the same SSH key: \<open>fp\<close> is the fingerprint of the private key.\<close>

definition same_settings :: "Machine \<Rightarrow> Machine \<Rightarrow> bool" where
  "same_settings m m' \<longleftrightarrow> mc_Name m' = mc_Name m \<and> mc_Host m' = mc_Host m \<and> mc_Port m' = mc_Port m \<and> mc_SSHUser m' = mc_SSHUser m \<and>
     mc_NetworkInterface m' = mc_NetworkInterface m \<and> mc_CollectEnabled m' = mc_CollectEnabled m \<and> mc_Remark m' = mc_Remark m"

definition uses_key :: "env \<Rightarrow> string \<Rightarrow> world \<Rightarrow> Machine \<Rightarrow> string \<Rightarrow> bool" where
  "uses_key E masterKey w m fp \<longleftrightarrow> (\<exists>k\<in>set (ssh_keys w). sk_ID k = mc_SSHKeyID m \<and>
     (\<exists>priv kt pk. DataProtector_Decrypt E masterKey (sk_PrivateKeyCiphertext k) = Inr priv \<and>
        parsePrivateKey E (TrimSpace priv) = Inr (kt, pk, fp)))"

lemma map_from_unique:
  assumes "distinct (map key rows)" and "r \<in> set rows"
  shows "map_from key id rows (key r) = Some r"
proof -
  from assms(2) obtain x where x: "map_from key id rows (key r) = Some x"
    using map_from_dom [of key id rows "key r"] by (cases "map_from key id rows (key r)") auto
  from map_from_ran [OF this] assms have "x = r" by (auto simp: distinct_map dest: inj_onD)
  with x show ?thesis by simp
qed

text \<open>The items of an export of all machines of a complete inventory.\<close>

lemma exported_items:
  assumes "inventory_ok w" and "be_IncludeAllMachines req"
    and ms: "ms = selectBackupMachines (sort_key (\<lambda>m. - int (mc_ID m)) (machines w)) req"
    and ks: "ks = sort_key (\<lambda>k. - int (sk_ID k)) (ssh_keys w)"
    and keys: "list_all2 (\<lambda>k y. exportSSHKey E masterKey k = Inr y) (selectBackupSSHKeys ks ms req) (bl_SSHKeys p)"
    and machs: "list_all2 (\<lambda>m y. exportMachine (map_from sk_ID id ks) m = Inr y) ms (bl_Machines p)"
  shows "m \<in> set (machines w) \<Longrightarrow> \<exists>item\<in>set (bl_Machines p). \<exists>k\<in>set (ssh_keys w). sk_ID k = mc_SSHKeyID m \<and>
      machine_key item = TrimSpace (sk_Name k) \<and> machine_from item m \<and>
      (\<exists>y\<in>set (bl_SSHKeys p). exportSSHKey E masterKey k = Inr y)"
    and "item \<in> set (bl_Machines p) \<Longrightarrow> \<exists>m\<in>set (machines w). machine_from item m \<and>
      (\<exists>k\<in>set (ssh_keys w). sk_ID k = mc_SSHKeyID m \<and> machine_key item = TrimSpace (sk_Name k))"
    and "y \<in> set (bl_SSHKeys p) \<Longrightarrow> \<exists>k\<in>set (ssh_keys w). exportSSHKey E masterKey k = Inr y"
proof -
  have all: "set ms = set (machines w)" using assms(2) by (simp add: ms selectBackupMachines_def)
  have dist: "distinct (map sk_ID ks)"
    using assms(1) unfolding ks inventory_ok_def by (metis distinct_map distinct_sort set_sort)
  have item: "\<exists>k\<in>set (ssh_keys w). sk_ID k = mc_SSHKeyID m \<and> machine_key item = TrimSpace (sk_Name k) \<and> machine_from item m"
    if "m \<in> set (machines w)" "exportMachine (map_from sk_ID id ks) m = Inr item" for m item
  proof -
    from that(1) assms(1) have m: "machine_ok w m" by (simp add: inventory_ok_def)
    then obtain k where k: "k \<in> set (ssh_keys w)" "sk_ID k = mc_SSHKeyID m" by (auto simp: machine_ok_def)
    then have "map_from sk_ID id ks (mc_SSHKeyID m) = Some k" using map_from_unique [OF dist, of k] by (simp add: ks)
    with that(2) m k show ?thesis by (auto simp: exportMachine_def machine_from_def machine_ok_def trimmed_fields_def)
  qed
  show "\<exists>item\<in>set (bl_Machines p). \<exists>k\<in>set (ssh_keys w). sk_ID k = mc_SSHKeyID m \<and>
      machine_key item = TrimSpace (sk_Name k) \<and> machine_from item m \<and> (\<exists>y\<in>set (bl_SSHKeys p). exportSSHKey E masterKey k = Inr y)"
    if m: "m \<in> set (machines w)"
  proof -
    from m all list_all2_in1 [OF machs] obtain y where y: "y \<in> set (bl_Machines p)" "exportMachine (map_from sk_ID id ks) m = Inr y" by blast
    from item [OF m y(2)] obtain k where k: "k \<in> set (ssh_keys w)" "sk_ID k = mc_SSHKeyID m" "machine_key y = TrimSpace (sk_Name k)"
      "machine_from y m" by blast
    have "k \<in> set (selectBackupSSHKeys ks ms req)"
      using k(1,2) m all by (auto simp: selectBackupSSHKeys_def Let_def ks)
    from list_all2_in1 [OF keys this] k y(1) show ?thesis by blast
  qed
  show "\<exists>m\<in>set (machines w). machine_from item m \<and> (\<exists>k\<in>set (ssh_keys w). sk_ID k = mc_SSHKeyID m \<and> machine_key item = TrimSpace (sk_Name k))"
    if "item \<in> set (bl_Machines p)"
    using list_all2_in2 [OF machs that] all item by blast
  show "\<exists>k\<in>set (ssh_keys w). exportSSHKey E masterKey k = Inr y" if "y \<in> set (bl_SSHKeys p)"
    using list_all2_in2 [OF keys that] by (auto simp: selectBackupSSHKeys_def Let_def ks)
qed

text \<open>An exported key item has the name of its key, and the private key the instance decrypts.\<close>

lemma export_key_item:
  assumes "exportSSHKey E masterKey k = Inr y"
  shows "key_name y = TrimSpace (sk_Name k)"
    and "DataProtector_Decrypt E masterKey (sk_PrivateKeyCiphertext k) = Inr (bk_PrivateKey y)"
  using assms by (auto simp: exportSSHKey_def key_name_def split: sum.splits)


section \<open>Examples\<close>

lemma example_gcm_tagged: "gcm_tagged example_env"
  by (auto simp: gcm_tagged_def example_env_def aes_key_size_ok_def)

lemma empty_store_ok: "store_ok empty_world"
  using empty_inventory by (simp add: store_ok_def ids_positive_def empty_world_def)

lemma example_smooth: "smooth example_env example_master"
  by (simp add: smooth_def aes_key_size_ok_def example_crypto)

lemma example_pbkdf2: "length (pbkdf2_key example_env pw salt n 32) = 32"
  by (simp add: example_env_def)

lemma example_encrypts: "\<exists>b w'. encryptBackupPayload example_env pw plain w = (Inr b, w')"
  by (simp add: encryptBackupPayload_def randomBytes_def run_simps Let_def aes_key_size_ok_def backupKeySize_def example_crypto
      example_pbkdf2)

definition odd_backup :: EncryptedBackup where
  "odd_backup = \<lparr>eb_Version = 2, eb_Encrypted = True,
     eb_Encryption = \<lparr>bc_Algorithm = ''AES-256-GCM'', bc_KDF = ''PBKDF2-SHA256'', bc_Iterations = 210000,
       bc_Salt = b64_encode ''salt'', bc_Nonce = b64_encode ''nonce''\<rparr>,
     eb_Payload = b64_encode ''payload''\<rparr>"

theorem odd_nonce_panics_witness:
  "BackupService_Import example_env (\<lambda>_. None) example_master \<lparr>bi_Password = ''secret'', bi_Backup = odd_backup\<rparr> empty_world =
     (Inl (go_panic ''crypto/cipher: incorrect nonce length given to GCM''), empty_world)"
  by (rule odd_nonce_panics [of _ _ "''salt''" "''nonce''" "''payload''"])
    (simp_all add: odd_backup_def example_pbkdf2 del: b64_encode.simps, code_simp?)

text \<open>A backup of one key and one machine.\<close>

definition example_contents :: backupPayload where
  "example_contents = \<lparr>bl_ExportedAt = 1700000006 * second_ns,
     bl_SSHKeys = [\<lparr>bk_Name = ''key'', bk_SourceType = ''imported'', bk_PrivateKey = ''PEM''\<rparr>],
     bl_Machines = [\<lparr>bm_Name = ''web'', bm_Host = ''10.0.0.1'', bm_Port = 22, bm_SSHUser = ''root'',
       bm_NetworkInterface = ''eth0'', bm_SSHKeyName = ''key'', bm_CollectEnabled = True, bm_Remark = []\<rparr>],
     bl_NotificationProxies = [], bl_NotificationChannels = [], bl_GlobalThresholdRules = [], bl_MachineThresholdRules = []\<rparr>"

definition example_marshal :: "backupPayload \<Rightarrow> string" where
  "example_marshal p = (if p = example_contents then ''payload'' else [])"

definition example_unmarshal :: "string \<Rightarrow> backupPayload option" where
  "example_unmarshal s = (if s = ''payload'' then Some example_contents else None)"

lemma example_valid: "validateBackupPayload example_env visit example_contents = None"
proof -
  have "RuneCount ''key'' \<le> 255" "RuneCount ''web'' \<le> 255" "RuneCount ''10.0.0.1'' \<le> 255" "RuneCount ''root'' \<le> 255"
    "RuneCount ''eth0'' \<le> 255" "TrimSpace ''key'' = ''key''" "TrimSpace ''PEM'' = ''PEM''" "TrimSpace ''web'' = ''web''"
    "TrimSpace ''10.0.0.1'' = ''10.0.0.1''" "TrimSpace ''root'' = ''root''" "TrimSpace ''eth0'' = ''eth0''"
    by code_simp+
  then show ?thesis
    by (simp add: valid_payload valid_machine example_contents_def validateBackupSSHKey_def validateBackupFieldLength_def
        parsePrivateKey_def example_crypto backupMaxNameLength_def)
qed

definition example_request :: BackupExportReq where
  "example_request = \<lparr>be_Password = ''secret'', be_IncludeAllMachines = True, be_MachineIDs = [], be_IncludeAllSSHKeys = False,
     be_SSHKeyIDs = []\<rparr>"

lemma example_import_accepts:
  assumes "decryptBackupPayload example_env (bi_Password req) (bi_Backup req) = Inr ''payload''" and "TrimSpace (bi_Password req) \<noteq> []"
  shows "\<exists>resp w'. BackupService_Import example_env example_unmarshal example_master req empty_world = (Inr resp, w')"
proof -
  obtain r w' where run: "BackupService_Import example_env example_unmarshal example_master req empty_world = (r, w')" by fastforce
  have "case r of Inl e \<Rightarrow> import_error example_env example_master e w'
     | Inr resp \<Rightarrow> imported example_env example_master example_contents empty_world resp w' \<and>
         covered example_env example_contents empty_world w' \<and> store_ok w'"
    by (rule import_accepted [OF empty_store_ok run assms(1) _ example_valid assms(2)]) (simp add: example_unmarshal_def)
  with run show ?thesis using example_smooth by (cases r) (auto simp: import_error_def)
qed

abbreviation filled_world :: world where
  "filled_world \<equiv> keyed_world\<lparr>seqs := \<lambda>_. 2\<rparr>"

lemma example_export:
  "\<exists>b w'. BackupService_Export example_env example_marshal example_master example_request filled_world = (Inr b, w') \<and>
     decryptBackupPayload example_env ''secret'' b = Inr ''payload''"
proof -
  have lists: "NotificationProxyRepo_List example_env (ticked n filled_world) = (Inr [], ticked (n + 1) filled_world)"
    "NotificationChannelRepo_List example_env (ticked n filled_world) = (Inr [], ticked (n + 1) filled_world)"
    "ThresholdRuleRepo_ListGlobalRules example_env (ticked n filled_world) = (Inr [], ticked (n + 1) filled_world)"
    "ThresholdRuleRepo_ListMachineRulesByMachineIDs example_env [i] (ticked n filled_world) = (Inr [], ticked (n + 1) filled_world)" for n i
    by (simp_all add: NotificationProxyRepo_List_def NotificationChannelRepo_List_def ThresholdRuleRepo_ListGlobalRules_def
        ThresholdRuleRepo_ListMachineRulesByMachineIDs_def run_wrap statement_def example_env_def empty_world_def)
  have key: "exportSSHKey example_env example_master stored_key = Inr \<lparr>bk_Name = ''key'', bk_SourceType = ''imported'', bk_PrivateKey = ''PEM''\<rparr>"
    unfolding exportSSHKey_def stored_key_opens by (simp add: stored_key_def)
  have machine: "exportMachine (map_from sk_ID id [stored_key]) example_machine = Inr (hd (bl_Machines example_contents))"
    by (simp add: exportMachine_def map_from_def stored_key_def example_machine_def example_contents_def)
  have now: "clk example_env (tick empty_world + 6) = 1700000006 * second_ns" by (simp add: example_env_def empty_world_def)
  have build: "buildBackupPayload example_env example_master [example_machine] [stored_key] [stored_key] (ticked 2 filled_world) =
      (Inr example_contents, ticked 7 filled_world)"
    by (simp add: buildBackupPayload_def key machine lists now run_bnd run_wrap run_lift_sum run_ret time_Now_def run_external)
      (simp add: example_contents_def)
  have select: "selectBackupMachines [example_machine] example_request = [example_machine]"
    "selectBackupSSHKeys [stored_key] [example_machine] example_request = [stored_key]"
    by (simp_all add: selectBackupMachines_def selectBackupSSHKeys_def example_request_def example_machine_def stored_key_def)
  have fetch: "MachineRepo_List example_env filled_world = (Inr [example_machine], ticked 1 filled_world)"
    "SSHKeyRepo_List example_env (ticked (Suc 0) filled_world) = (Inr [stored_key], ticked 2 filled_world)"
    by (simp_all add: MachineRepo_List_def SSHKeyRepo_List_def run_wrap statement_def example_env_def)
  obtain b w' where enc: "encryptBackupPayload example_env ''secret'' ''payload'' (ticked 7 filled_world) = (Inr b, w')"
    using example_encrypts by blast
  moreover have "TrimSpace ''secret'' \<noteq> []" by code_simp
  ultimately have "BackupService_Export example_env example_marshal example_master example_request filled_world = (Inr b, w')"
    by (simp add: BackupService_Export_def run_bnd run_wrap fetch select build example_marshal_def Let_def)
      (simp add: example_request_def)
  with backup_opens [OF example_gcm_sound example_gcm_tagged enc] show ?thesis by blast
qed

lemma filled_inventory: "inventory_ok filled_world"
proof -
  have "TrimSpace ''web'' = ''web''" "TrimSpace ''10.0.0.1'' = ''10.0.0.1''" "TrimSpace ''root'' = ''root''" "TrimSpace ''eth0'' = ''eth0''"
    "TrimSpace [] = []"
    by code_simp+
  then show ?thesis
    by (simp add: inventory_ok_def machine_ok_def valid_fields_def trimmed_fields_def example_machine_def stored_key_def)
qed


theorem import_validates_first_witness:
  "\<exists>w'. BackupService_Import example_env example_unmarshal example_master \<lparr>bi_Password = ''secret'', bi_Backup = odd_backup\<lparr>eb_Version := 3\<rparr>\<rparr>
      empty_world = (Inl (Sentinel ErrInvalidBackupPayload), w') \<and> same_tables empty_world w'"
proof -
  have "TrimSpace ''secret'' \<noteq> []" by code_simp
  then have "BackupService_Import example_env example_unmarshal example_master \<lparr>bi_Password = ''secret'', bi_Backup = odd_backup\<lparr>eb_Version := 3\<rparr>\<rparr>
      empty_world = (Inl (Sentinel ErrInvalidBackupPayload), empty_world)"
    by (simp add: BackupService_Import_def run_bnd run_lift_sum decryptBackupPayload_def backupVersion_def)
  with import_validates_first [OF empty_store_ok this] show ?thesis by simp
qed


end
