(* ===== verification/Routes.thy ===== *)
theory Routes
  imports Handlers Restore
begin

text \<open>
  The server: the routes that \<^verbatim>\<open>RegisterRoutes\<close> of \<^verbatim>\<open>internal/handler/auth_handler.go\<close> and of each handler set up,
  with the middleware of their groups, and what a request to a route does. Matching a path against
  the table is gin's work: a request is given as a \<open>call\<close>, one constructor per route, with what gin bound for
  it. A call whose route is not registered is answered with the start page of the web interface.
  A panic ends in \<^verbatim>\<open>gin.Recovery\<close>, which answers with status 500 and no body.
\<close>

section \<open>The routing table\<close>

datatype access = Open | AdminOnly | AdminOrGuest

text \<open>A group is its path prefix and its middleware; a route its method, path and middleware.\<close>

type_synonym group = "string \<times> access"

type_synonym route = "string \<times> string \<times> access"

definition Group :: "group \<Rightarrow> string \<Rightarrow> group" where "Group g path = (fst g @ path, snd g)"
definition GET :: "group \<Rightarrow> string \<Rightarrow> route" where "GET g path = (''GET'', fst g @ path, snd g)"
definition POST :: "group \<Rightarrow> string \<Rightarrow> route" where "POST g path = (''POST'', fst g @ path, snd g)"
definition PUT :: "group \<Rightarrow> string \<Rightarrow> route" where "PUT g path = (''PUT'', fst g @ path, snd g)"
definition PATCH :: "group \<Rightarrow> string \<Rightarrow> route" where "PATCH g path = (''PATCH'', fst g @ path, snd g)"
definition DELETE :: "group \<Rightarrow> string \<Rightarrow> route" where "DELETE g path = (''DELETE'', fst g @ path, snd g)"

definition MachineHandler_RegisterRoutes :: "group \<Rightarrow> group \<Rightarrow> route list" where
  "MachineHandler_RegisterRoutes readGroup authenticatedGroup =
     [GET readGroup ''/machines'', GET readGroup ''/machines/:id'', POST authenticatedGroup ''/machines'',
      PATCH authenticatedGroup ''/machines/:id'', DELETE authenticatedGroup ''/machines/:id'',
      POST authenticatedGroup ''/machines/:id/test-connection'']"

definition SSHKeyHandler_RegisterRoutes :: "group \<Rightarrow> route list" where
  "SSHKeyHandler_RegisterRoutes authenticatedGroup =
     [GET authenticatedGroup ''/ssh-keys'', POST authenticatedGroup ''/ssh-keys/import'',
      POST authenticatedGroup ''/ssh-keys/generate'', GET authenticatedGroup ''/ssh-keys/:id/public-key'',
      PATCH authenticatedGroup ''/ssh-keys/:id'', DELETE authenticatedGroup ''/ssh-keys/:id'']"

definition ThresholdHandler_RegisterRoutes :: "group \<Rightarrow> group \<Rightarrow> route list" where
  "ThresholdHandler_RegisterRoutes readGroup authenticatedGroup =
     [GET readGroup ''/thresholds/global'', GET readGroup ''/machines/:id/thresholds'',
      PUT authenticatedGroup ''/thresholds/global'', PUT authenticatedGroup ''/machines/:id/thresholds'']"

definition TrafficSampleHandler_RegisterRoutes :: "group \<Rightarrow> group \<Rightarrow> route list" where
  "TrafficSampleHandler_RegisterRoutes readGroup authenticatedGroup =
     [GET readGroup ''/traffic-samples'', POST authenticatedGroup ''/traffic-samples/cleanup'',
      POST authenticatedGroup ''/system/collect-now'']"

definition AlertHandler_RegisterRoutes :: "group \<Rightarrow> group \<Rightarrow> route list" where
  "AlertHandler_RegisterRoutes readGroup authenticatedGroup =
     [GET readGroup ''/alerts'', GET authenticatedGroup ''/notification-channels'',
      PUT authenticatedGroup ''/notification-channels/webhook'', POST authenticatedGroup ''/notification-channels/webhook/test'',
      PUT authenticatedGroup ''/notification-channels/telegram'', POST authenticatedGroup ''/notification-channels/telegram/test'',
      GET authenticatedGroup ''/notification-proxies'', POST authenticatedGroup ''/notification-proxies'',
      PUT authenticatedGroup ''/notification-proxies/:id'', DELETE authenticatedGroup ''/notification-proxies/:id'']"

definition BackupHandler_RegisterRoutes :: "group \<Rightarrow> route list" where
  "BackupHandler_RegisterRoutes authenticatedGroup =
     [POST authenticatedGroup ''/backups/export'', POST authenticatedGroup ''/backups/import'']"

definition SettingsHandler_RegisterRoutes :: "group \<Rightarrow> route list" where
  "SettingsHandler_RegisterRoutes authenticatedGroup =
     (let settingsGroup = Group authenticatedGroup ''/settings''
      in [GET settingsGroup ''/guest-mode'', PUT settingsGroup ''/guest-mode''])"

definition RestoreHandler_RegisterRoutes :: "group \<Rightarrow> route list" where
  "RestoreHandler_RegisterRoutes apiGroup =
     (let restoreGroup = Group apiGroup ''/restore''
      in [GET restoreGroup ''/status'', POST restoreGroup ''/admin-password''])"

text \<open>The middleware of a group or of a single route.\<close>

definition Use :: "access \<Rightarrow> group \<Rightarrow> group" where "Use a g = (fst g, a)"

definition RegisterRoutes :: "RestoreConfig \<Rightarrow> route list" where
  "RegisterRoutes restoreConfig =
     (let engine = ([], Open); apiGroup = Group engine ''/api/v1''
      in [GET engine ''/healthz'', GET apiGroup ''/health'']
         @ (if RestoreConfig_Enabled restoreConfig then RestoreHandler_RegisterRoutes apiGroup
            else
              let authGroup = Group apiGroup ''/auth'';
                  readGroup = Use AdminOrGuest (Group apiGroup []);
                  authenticatedGroup = Use AdminOnly (Group apiGroup [])
              in [POST authGroup ''/login'', POST authGroup ''/logout'',
                  GET (Use AdminOnly authGroup) ''/profile'', PATCH (Use AdminOnly authGroup) ''/password'']
                 @ SettingsHandler_RegisterRoutes authenticatedGroup
                 @ SSHKeyHandler_RegisterRoutes authenticatedGroup
                 @ MachineHandler_RegisterRoutes authenticatedGroup authenticatedGroup
                 @ BackupHandler_RegisterRoutes authenticatedGroup
                 @ ThresholdHandler_RegisterRoutes readGroup authenticatedGroup
                 @ TrafficSampleHandler_RegisterRoutes readGroup authenticatedGroup
                 @ AlertHandler_RegisterRoutes readGroup authenticatedGroup))"

section \<open>Requests\<close>

datatype call =
    GetHealthz | GetHealth
  | GetRestoreStatus | PostRestorePassword "RestoreAdminPasswordReq option"
  | PostLogin "LoginReq option" | PostLogout | GetProfile | PatchPassword "ChangePasswordReq option"
  | GetGuestMode | PutGuestMode "UpdateGuestModeReq option"
  | GetSSHKeys | PostSSHKeyImport "ImportSSHKeyReq option" | PostSSHKeyGenerate "GenerateSSHKeyReq option"
  | GetPublicKey string | PatchSSHKey string "RenameSSHKeyReq option" | DeleteSSHKey string
  | GetMachines | GetMachine string | PostMachine "CreateMachineReq option" | PatchMachine string "UpdateMachineReq option"
  | DelMachine string | PostMachineTest string
  | PostBackupExport "BackupExportReq option" | PostBackupImport "BackupImportReq option"
  | GetGlobalThresholds | GetMachineThresholds string | PutGlobalThresholds "ThresholdRulePayload list option"
  | PutMachineThresholds string "ThresholdRulePayload list option"
  | GetSamples "string \<Rightarrow> string" | PostCleanup "CleanupHistoryReq \<times> string option" | PostCollectNow "nat option \<times> string option"
  | GetAlerts "string \<Rightarrow> string" | GetChannels | PutWebhook "UpsertWebhookChannelReq option"
  | PostWebhookTest "UpsertWebhookChannelReq option" | PutTelegram "UpsertTelegramChannelReq option"
  | PostTelegramTest "UpsertTelegramChannelReq option" | GetProxies | PostProxy "UpsertNotificationProxyReq option"
  | PutProxy string "UpsertNotificationProxyReq option" | DeleteProxy string

text \<open>The method and the path pattern of a call.\<close>

primrec route_of :: "call \<Rightarrow> string \<times> string" where
  "route_of GetHealthz = (''GET'', ''/healthz'')"
| "route_of GetHealth = (''GET'', ''/api/v1/health'')"
| "route_of GetRestoreStatus = (''GET'', ''/api/v1/restore/status'')"
| "route_of (PostRestorePassword b) = (''POST'', ''/api/v1/restore/admin-password'')"
| "route_of (PostLogin b) = (''POST'', ''/api/v1/auth/login'')"
| "route_of PostLogout = (''POST'', ''/api/v1/auth/logout'')"
| "route_of GetProfile = (''GET'', ''/api/v1/auth/profile'')"
| "route_of (PatchPassword b) = (''PATCH'', ''/api/v1/auth/password'')"
| "route_of GetGuestMode = (''GET'', ''/api/v1/settings/guest-mode'')"
| "route_of (PutGuestMode b) = (''PUT'', ''/api/v1/settings/guest-mode'')"
| "route_of GetSSHKeys = (''GET'', ''/api/v1/ssh-keys'')"
| "route_of (PostSSHKeyImport b) = (''POST'', ''/api/v1/ssh-keys/import'')"
| "route_of (PostSSHKeyGenerate b) = (''POST'', ''/api/v1/ssh-keys/generate'')"
| "route_of (GetPublicKey i) = (''GET'', ''/api/v1/ssh-keys/:id/public-key'')"
| "route_of (PatchSSHKey i b) = (''PATCH'', ''/api/v1/ssh-keys/:id'')"
| "route_of (DeleteSSHKey i) = (''DELETE'', ''/api/v1/ssh-keys/:id'')"
| "route_of GetMachines = (''GET'', ''/api/v1/machines'')"
| "route_of (GetMachine i) = (''GET'', ''/api/v1/machines/:id'')"
| "route_of (PostMachine b) = (''POST'', ''/api/v1/machines'')"
| "route_of (PatchMachine i b) = (''PATCH'', ''/api/v1/machines/:id'')"
| "route_of (DelMachine i) = (''DELETE'', ''/api/v1/machines/:id'')"
| "route_of (PostMachineTest i) = (''POST'', ''/api/v1/machines/:id/test-connection'')"
| "route_of (PostBackupExport b) = (''POST'', ''/api/v1/backups/export'')"
| "route_of (PostBackupImport b) = (''POST'', ''/api/v1/backups/import'')"
| "route_of GetGlobalThresholds = (''GET'', ''/api/v1/thresholds/global'')"
| "route_of (GetMachineThresholds i) = (''GET'', ''/api/v1/machines/:id/thresholds'')"
| "route_of (PutGlobalThresholds b) = (''PUT'', ''/api/v1/thresholds/global'')"
| "route_of (PutMachineThresholds i b) = (''PUT'', ''/api/v1/machines/:id/thresholds'')"
| "route_of (GetSamples q) = (''GET'', ''/api/v1/traffic-samples'')"
| "route_of (PostCleanup b) = (''POST'', ''/api/v1/traffic-samples/cleanup'')"
| "route_of (PostCollectNow b) = (''POST'', ''/api/v1/system/collect-now'')"
| "route_of (GetAlerts q) = (''GET'', ''/api/v1/alerts'')"
| "route_of GetChannels = (''GET'', ''/api/v1/notification-channels'')"
| "route_of (PutWebhook b) = (''PUT'', ''/api/v1/notification-channels/webhook'')"
| "route_of (PostWebhookTest b) = (''POST'', ''/api/v1/notification-channels/webhook/test'')"
| "route_of (PutTelegram b) = (''PUT'', ''/api/v1/notification-channels/telegram'')"
| "route_of (PostTelegramTest b) = (''POST'', ''/api/v1/notification-channels/telegram/test'')"
| "route_of GetProxies = (''GET'', ''/api/v1/notification-proxies'')"
| "route_of (PostProxy b) = (''POST'', ''/api/v1/notification-proxies'')"
| "route_of (PutProxy i b) = (''PUT'', ''/api/v1/notification-proxies/:id'')"
| "route_of (DeleteProxy i) = (''DELETE'', ''/api/v1/notification-proxies/:id'')"

text \<open>The middleware of a call's route, if the route is registered.\<close>

definition access_of :: "RestoreConfig \<Rightarrow> call \<Rightarrow> access option" where
  "access_of cfg c =
     (case find (\<lambda>(meth, path, _). (meth, path) = route_of c) (RegisterRoutes cfg) of
        None \<Rightarrow> None
      | Some (_, _, a) \<Rightarrow> Some a)"

section \<open>Serving a request\<close>

datatype payload =
    PHealth HealthResp | PRestoreStatus RestoreStatusResp | PProfile AdminProfileResp | PGuestMode GuestModeResp
  | PSSHKeys "SSHKeyResp list" | PSSHKey SSHKeyResp | PMachines "MachineResp list" | PMachine MachineResp
  | PConnection MachineConnectionTestResp | PBackup EncryptedBackup | PImported BackupImportResp
  | PRules "ThresholdRuleResp list" | PSamples "TrafficSampleResp list \<times> nat" | PCleanup CleanupHistoryResp
  | PCollected "CollectNowMachineResp list" | PAlerts "AlertResp list \<times> nat" | PChannels "NotificationChannelResp list"
  | PWebhookTest TestWebhookChannelResp | PTelegramTest TestTelegramChannelResp | PProxies "NotificationProxyResp list"
  | PProxy NotificationProxyResp | PUnit unit | PPage string

definition map_data :: "('d \<Rightarrow> 'e) \<Rightarrow> 'd Response \<Rightarrow> 'e Response" where
  "map_data f r = \<lparr>rp_Code = rp_Code r, rp_Data = map_option f (rp_Data r), rp_Message = rp_Message r\<rparr>"

text \<open>What happens to the session cookie of the client.\<close>

datatype cookie = KeepCookie | SetCookie session | DropCookie

definition renewed :: "session option \<Rightarrow> cookie" where
  "renewed c = (case c of None \<Rightarrow> KeepCookie | Some vals \<Rightarrow> SetCookie vals)"

text \<open>The configured server.\<close>

record server =
  sv_env :: env
  sv_app :: AppConfig
  sv_session :: SessionConfig
  sv_cleanup :: HistoryCleanupConfig
  sv_restore :: RestoreConfig
  sv_masterKey :: string
  sv_marshal :: "backupPayload \<Rightarrow> string"
  sv_unmarshal :: "string \<Rightarrow> backupPayload option"
  sv_webhook_report :: "string \<Rightarrow> TestWebhookChannelResp option"
  sv_index :: string

definition plain :: "('d \<Rightarrow> payload) \<Rightarrow> 'd Response io \<Rightarrow> (payload Response \<times> cookie) loop" where
  "plain f m w = Some (bnd m (\<lambda>r. ret (map_data f r, KeepCookie)) w)"

text \<open>The handler of a route, after its middleware; \<open>who\<close> is the administrator the middleware found. The password
  reset of the restore mode has a state of its own and is served separately.\<close>

primrec handler :: "server \<Rightarrow> session_store \<Rightarrow> nat option \<Rightarrow> call \<Rightarrow> (payload Response \<times> cookie) loop" where
  "handler sv store who GetHealthz = plain PHealth (HealthHandler_GetHealth (sv_env sv) (sv_app sv))"
| "handler sv store who GetHealth = plain PHealth (HealthHandler_GetHealth (sv_env sv) (sv_app sv))"
| "handler sv store who GetRestoreStatus = plain PRestoreStatus (ret (RestoreHandler_Status (sv_restore sv)))"
| "handler sv store who (PostRestorePassword b) = plain PUnit (ret internal_error)"
| "handler sv store who (PostLogin b) = (\<lambda>w. Some (bnd (AuthHandler_Login (sv_env sv) (sv_session sv) store b)
     (\<lambda>(r, c). ret (map_data PProfile r, renewed c)) w))"
| "handler sv store who PostLogout = (\<lambda>w. Some (bnd (AuthHandler_Logout store)
     (\<lambda>(r, dropped). ret (map_data PUnit r, if dropped then DropCookie else KeepCookie)) w))"
| "handler sv store who GetProfile = plain PProfile (AuthHandler_Profile (sv_env sv) who)"
| "handler sv store who (PatchPassword b) = plain PUnit (AuthHandler_ChangePassword (sv_env sv) who b)"
| "handler sv store who GetGuestMode = plain PGuestMode (SettingsHandler_GetGuestMode (sv_env sv))"
| "handler sv store who (PutGuestMode b) = plain PGuestMode (SettingsHandler_UpdateGuestMode (sv_env sv) b)"
| "handler sv store who GetSSHKeys = plain PSSHKeys (SSHKeyHandler_List (sv_env sv))"
| "handler sv store who (PostSSHKeyImport b) = plain PSSHKey (SSHKeyHandler_Import (sv_env sv) (sv_masterKey sv) b)"
| "handler sv store who (PostSSHKeyGenerate b) = plain PSSHKey (SSHKeyHandler_Generate (sv_env sv) (sv_masterKey sv) b)"
| "handler sv store who (GetPublicKey i) = plain PSSHKey (SSHKeyHandler_GetPublicKey (sv_env sv) i)"
| "handler sv store who (PatchSSHKey i b) = plain PSSHKey (SSHKeyHandler_Rename (sv_env sv) i b)"
| "handler sv store who (DeleteSSHKey i) = plain PUnit (SSHKeyHandler_Delete (sv_env sv) i)"
| "handler sv store who GetMachines = plain PMachines (MachineHandler_List (sv_env sv))"
| "handler sv store who (GetMachine i) = plain PMachine (MachineHandler_Get (sv_env sv) i)"
| "handler sv store who (PostMachine b) = plain PMachine (MachineHandler_Create (sv_env sv) b)"
| "handler sv store who (PatchMachine i b) = plain PMachine (MachineHandler_Update (sv_env sv) i b)"
| "handler sv store who (DelMachine i) = plain PUnit (MachineHandler_Delete (sv_env sv) i)"
| "handler sv store who (PostMachineTest i) = plain PConnection (MachineHandler_TestConnection (sv_env sv) (sv_masterKey sv) i)"
| "handler sv store who (PostBackupExport b) = plain PBackup (BackupHandler_Export (sv_env sv) (sv_marshal sv) (sv_masterKey sv) b)"
| "handler sv store who (PostBackupImport b) = plain PImported (BackupHandler_Import (sv_env sv) (sv_unmarshal sv) (sv_masterKey sv) b)"
| "handler sv store who GetGlobalThresholds = plain PRules (ThresholdHandler_ListGlobalRules (sv_env sv))"
| "handler sv store who (GetMachineThresholds i) = plain PRules (ThresholdHandler_ListMachineRules (sv_env sv) i)"
| "handler sv store who (PutGlobalThresholds b) = plain PUnit (ThresholdHandler_UpsertGlobalRules (sv_env sv) b)"
| "handler sv store who (PutMachineThresholds i b) = plain PUnit (ThresholdHandler_UpsertMachineRules (sv_env sv) i b)"
| "handler sv store who (GetSamples q) = plain PSamples (TrafficSampleHandler_ListSamples (sv_env sv) q)"
| "handler sv store who (PostCleanup b) = (\<lambda>w. case TrafficSampleHandler_CleanupHistory (sv_env sv) (sv_cleanup sv) b w of
     None \<Rightarrow> None | Some x \<Rightarrow> Some (bnd (\<lambda>_. x) (\<lambda>r. ret (map_data PCleanup r, KeepCookie)) w))"
| "handler sv store who (PostCollectNow b) = plain PCollected (TrafficSampleHandler_CollectNow (sv_env sv) (sv_masterKey sv) b)"
| "handler sv store who (GetAlerts q) = plain PAlerts (AlertHandler_ListAlerts (sv_env sv) q)"
| "handler sv store who GetChannels = plain PChannels (AlertHandler_ListNotificationChannels (sv_env sv))"
| "handler sv store who (PutWebhook b) = plain PUnit (AlertHandler_UpsertWebhookChannel (sv_env sv) b)"
| "handler sv store who (PostWebhookTest b) = plain PWebhookTest (AlertHandler_TestWebhookChannel (sv_env sv) (sv_webhook_report sv) b)"
| "handler sv store who (PutTelegram b) = plain PUnit (AlertHandler_UpsertTelegramChannel (sv_env sv) b)"
| "handler sv store who (PostTelegramTest b) = plain PTelegramTest (AlertHandler_TestTelegramChannel (sv_env sv) b)"
| "handler sv store who GetProxies = plain PProxies (AlertHandler_ListNotificationProxies (sv_env sv))"
| "handler sv store who (PostProxy b) = plain PProxy (AlertHandler_CreateNotificationProxy (sv_env sv) b)"
| "handler sv store who (PutProxy i b) = plain PProxy (AlertHandler_UpdateNotificationProxy (sv_env sv) i b)"
| "handler sv store who (DeleteProxy i) = plain PUnit (AlertHandler_DeleteNotificationProxy (sv_env sv) i)"

text \<open>The middleware of a route.\<close>

definition gate_of :: "server \<Rightarrow> session_store \<Rightarrow> access \<Rightarrow> (gate \<times> session option) io" where
  "gate_of sv store a =
     (case a of
        Open \<Rightarrow> ret (Pass None, None)
      | AdminOnly \<Rightarrow> RequireAdmin (sv_env sv) (sv_session sv) store
      | AdminOrGuest \<Rightarrow> RequireAdminOrGuest (sv_env sv) (sv_session sv) store)"

text \<open>\<^verbatim>\<open>gin.Recovery\<close>, and a cookie that the middleware has already renewed.\<close>

definition recovered :: "session option \<Rightarrow> go_error + payload Response \<times> cookie \<Rightarrow> payload Response \<times> cookie" where
  "recovered c r =
     (case r of
        Inl _ \<Rightarrow> (reply 500 [], renewed c)
      | Inr (resp, KeepCookie) \<Rightarrow> (resp, renewed c)
      | Inr (resp, c') \<Rightarrow> (resp, c'))"

definition serve_route ::
  "server \<Rightarrow> session_store \<Rightarrow> access \<Rightarrow> call \<Rightarrow> world \<Rightarrow> ((payload Response \<times> cookie) \<times> world) option" where
  "serve_route sv store a c w =
     (case gate_of sv store a w of
        (Inl _, w') \<Rightarrow> Some ((reply 500 [], KeepCookie), w')
      | (Inr (Deny code message, vals), w') \<Rightarrow> Some ((reply code message, renewed vals), w')
      | (Inr (Pass who, vals), w') \<Rightarrow>
          (case handler sv store who c w' of
             None \<Rightarrow> None
           | Some (r, w'') \<Rightarrow> Some (recovered vals r, w'')))"

definition serve ::
  "server \<Rightarrow> session_store \<Rightarrow> call \<Rightarrow> RestoreHandler \<times> world \<Rightarrow> ((payload Response \<times> cookie) \<times> RestoreHandler \<times> world) option" where
  "serve sv store c = (\<lambda>(h, w).
     case access_of (sv_restore sv) c of
       None \<Rightarrow> Some ((\<lparr>rp_Code = 200, rp_Data = Some (PPage (sv_index sv)), rp_Message = []\<rparr>, KeepCookie), h, w)
     | Some a \<Rightarrow>
         (case c of
            PostRestorePassword bound \<Rightarrow>
              (case RestoreHandler_ResetAdminPassword (sv_env sv) (sv_restore sv) bound h w of
                 (Inl _, w') \<Rightarrow> Some ((reply 500 [], KeepCookie), h, w')
               | (Inr (r, h'), w') \<Rightarrow> Some ((map_data PUnit r, KeepCookie), h', w'))
          | _ \<Rightarrow> map_option (\<lambda>(r, w'). (r, h, w')) (serve_route sv store a c w)))"

end
