(* ===== verification/Server.thy ===== *)
theory Server
  imports Routes
begin

text \<open>
  What the server guarantees about every request, whatever the database does: without a session only health,
  login and logout do anything, and guests read four kinds of data while guest mode is on; a \<^verbatim>\<open>GET\<close> changes nothing;
  in restore mode only a password reset with the token changes anything; every request is answered, with
  one of the statuses the API uses. Each follows from lemmas about the handlers by cases over the routes
  (\<open>handler_reads\<close>, \<open>handler_answers\<close>, \<open>stranger_gate\<close>).
\<close>

section \<open>The routing table, summed up\<close>

definition health_call :: "call \<Rightarrow> bool" where
  "health_call c = (case c of GetHealthz \<Rightarrow> True | GetHealth \<Rightarrow> True | _ \<Rightarrow> False)"

definition restore_call :: "call \<Rightarrow> bool" where
  "restore_call c = (case c of GetRestoreStatus \<Rightarrow> True | PostRestorePassword b \<Rightarrow> True | _ \<Rightarrow> False)"

definition session_call :: "call \<Rightarrow> bool" where
  "session_call c = (case c of PostLogin b \<Rightarrow> True | PostLogout \<Rightarrow> True | _ \<Rightarrow> False)"

definition guest_readable :: "call \<Rightarrow> bool" where
  "guest_readable c =
     (case c of GetGlobalThresholds \<Rightarrow> True | GetMachineThresholds i \<Rightarrow> True | GetSamples q \<Rightarrow> True | GetAlerts q \<Rightarrow> True | _ \<Rightarrow> False)"

lemmas call_kinds = health_call_def restore_call_def session_call_def guest_readable_def

lemmas registrations = GET_def POST_def PUT_def PATCH_def DELETE_def Group_def Use_def MachineHandler_RegisterRoutes_def
  SSHKeyHandler_RegisterRoutes_def ThresholdHandler_RegisterRoutes_def TrafficSampleHandler_RegisterRoutes_def
  AlertHandler_RegisterRoutes_def BackupHandler_RegisterRoutes_def SettingsHandler_RegisterRoutes_def RestoreHandler_RegisterRoutes_def

lemma access_normal:
  assumes "\<not> RestoreConfig_Enabled cfg"
  shows "access_of cfg c =
     (if restore_call c then None else if health_call c \<or> session_call c then Some Open
      else if guest_readable c then Some AdminOrGuest else Some AdminOnly)"
  using assms by (cases c) (simp_all add: access_of_def RegisterRoutes_def registrations call_kinds)

lemma access_restore:
  assumes "RestoreConfig_Enabled cfg"
  shows "access_of cfg c = (if restore_call c \<or> health_call c then Some Open else None)"
  using assms by (cases c) (simp_all add: access_of_def RegisterRoutes_def registrations call_kinds)

section \<open>Reading\<close>

definition untouched :: "world \<Rightarrow> world \<Rightarrow> bool" where
  "untouched w v \<longleftrightarrow> same_tables w v \<and> outbox v = outbox w \<and> ssh_log v = ssh_log w"

lemma untouched_refl [simp]: "untouched w w"
  by (simp add: untouched_def)

lemma untouched_tick [simp]: "tick_free (untouched w)"
  by (simp add: untouched_def tick_free_def)

lemma keeps_reads [keeps_intros]:
  assumes "tick_free I"
  shows "keeps I (AlertRepo_List E f)" "keeps I (NotificationDeliveryRepo_GetLatestByAlertIDs E ids)"
    "keeps I (TrafficSampleRepo_List E g)" "keeps I (AdminRepo_GetByID E i)" "keeps I (AdminRepo_GetByUsername E u)"
    "keeps I (AppSettingRepo_GetByKey E k)" "keeps I (HealthRepo_Ping E)"
  unfolding AlertRepo_List_def NotificationDeliveryRepo_GetLatestByAlertIDs_def TrafficSampleRepo_List_def AdminRepo_GetByID_def
    AdminRepo_GetByUsername_def AppSettingRepo_GetByKey_def HealthRepo_Ping_def Let_def
  by (intro keeps_intros keeps_read assms; simp split: option.split)+

lemma keeps_answer [keeps_intros]:
  "keeps I m \<Longrightarrow> keeps I (answer m h k)"
  "(\<And>i. keeps I (f i)) \<Longrightarrow> keeps I (with_id msg raw f)"
  "(\<And>b. keeps I (g b)) \<Longrightarrow> keeps I (with_body bound g)"
  unfolding answer_def with_id_def with_body_def by (intro keeps_intros; assumption)+

lemmas read_services = MachineService_List_def MachineService_Get_def getMachine_def SSHKeyService_List_def SSHKeyService_GetPublicKey_def
  ThresholdService_ListGlobalRules_def TrafficCollectionService_ListSamples_def AlertService_ListAlerts_def
  AlertService_ListNotificationChannels_def AlertService_ListNotificationProxies_def AuthService_GetProfile_def
  SettingsService_GetGuestMode_def SettingsService_IsGuestModeEnabled_def HealthService_Check_def

lemmas read_handlers = MachineHandler_List_def MachineHandler_Get_def SSHKeyHandler_List_def SSHKeyHandler_GetPublicKey_def
  ThresholdHandler_ListGlobalRules_def ThresholdHandler_ListMachineRules_def TrafficSampleHandler_ListSamples_def
  AlertHandler_ListAlerts_def AlertHandler_ListNotificationChannels_def AlertHandler_ListNotificationProxies_def
  AuthHandler_Profile_def SettingsHandler_GetGuestMode_def HealthHandler_GetHealth_def

lemma keeps_list_proxies: "tick_free I \<Longrightarrow> keeps I (AlertHandler_ListNotificationProxies E)"
  unfolding AlertHandler_ListNotificationProxies_def AlertService_ListNotificationProxies_def
  by (intro keeps_answer(1) keeps_bnd keeps_wrap keeps_lists(3) keeps_ret)

lemma keeps_read_handlers:
  assumes "tick_free I"
  shows "keeps I (HealthHandler_GetHealth E app)" "keeps I (AuthHandler_Profile E who)" "keeps I (SettingsHandler_GetGuestMode E)"
    "keeps I (SSHKeyHandler_List E)" "keeps I (SSHKeyHandler_GetPublicKey E raw)" "keeps I (MachineHandler_List E)"
    "keeps I (MachineHandler_Get E raw)" "keeps I (ThresholdHandler_ListGlobalRules E)" "keeps I (ThresholdHandler_ListMachineRules E raw)"
    "keeps I (TrafficSampleHandler_ListSamples E q)" "keeps I (AlertHandler_ListAlerts E q)"
    "keeps I (AlertHandler_ListNotificationChannels E)" "keeps I (AlertHandler_ListNotificationProxies E)"
  unfolding read_handlers read_services Let_def
  by (intro keeps_list_proxies keeps_intros keeps_get_machine keeps_get_key keeps_effective_rules assms)+

lemma keeps_case_status [keeps_intros]:
  "keeps I a \<Longrightarrow> keeps I b \<Longrightarrow> keeps I c \<Longrightarrow> keeps I (case s of adminAuthOK \<Rightarrow> a | adminAuthUnauthorized \<Rightarrow> b | adminAuthInternalError \<Rightarrow> c)"
  by (cases s) simp_all

lemma keeps_gate: "tick_free I \<Longrightarrow> keeps I (gate_of sv store a)"
  unfolding gate_of_def RequireAdmin_def RequireAdminOrGuest_def authenticateAdmin_def read_services
  by (cases a; simp; intro keeps_intros)

lemma plain_keeps: "plain f m w = Some (r, w') \<Longrightarrow> keeps I m \<Longrightarrow> I w \<Longrightarrow> I w'"
  by (cases "m w") (auto simp: plain_def run_bnd run_ret keeps_def split: sum.splits)

text \<open>Logging in and out writes nothing either.\<close>

lemma keeps_session_handlers:
  assumes "tick_free I"
  shows "keeps I (AuthHandler_Login E cfg store b)" "keeps I (AuthHandler_Logout store)"
  unfolding AuthHandler_Login_def AuthHandler_Logout_def AuthService_Authenticate_def
  by (intro keeps_intros assms)+

lemma bound_keeps:
  assumes "(\<lambda>w. Some (bnd m f w)) w = Some (r, w')" and "keeps I m" and "\<And>x. keeps I (f x)" and "I w"
  shows "I w'"
proof -
  have "keeps I (bnd m f)" by (intro keeps_intros assms(2,3))
  with assms(1,4) show ?thesis by (metis keeps_def option.inject snd_conv)
qed

lemma session_handler_keeps:
  assumes "session_call c" and "handler sv store who c w = Some (r, w')" and "tick_free I" and "I w"
  shows "I w'"
  using assms
  by (cases c) (auto simp: call_kinds intro: keeps_session_handlers keeps_intros split: prod.split elim!: bound_keeps [rotated -1])

lemma handler_reads:
  assumes "fst (route_of c) = ''GET''" and "handler sv store who c w = Some (r, w')" and "tick_free I" and "I w"
  shows "I w'"
  using assms by (cases c) (auto elim!: plain_keeps intro: keeps_read_handlers keeps_ret)

section \<open>Every route\<close>

lemma serve_route_keeps:
  assumes "serve_route sv store a c w = Some (r, w')" and "tick_free I" and "I w"
    and "\<And>who x y v v'. handler sv store who c v = Some (y, v') \<Longrightarrow> gate_of sv store a w = (Inr (Pass who, x), v) \<Longrightarrow> I v \<Longrightarrow> I v'"
  shows "I w'"
proof -
  obtain g v where g: "gate_of sv store a w = (g, v)" by fastforce
  have v: "I v" by (rule keepsD [OF keeps_gate [OF assms(2)] assms(3) g])
  show ?thesis
  proof (cases g)
    case (Inl e)
    with assms(1) g v show ?thesis by (simp add: serve_route_def)
  next
    case (Inr gx)
    obtain d x where gx: "gx = (d, x)" by (cases gx)
    show ?thesis
    proof (cases d)
      case (Pass who)
      with assms(1) g Inr gx obtain y v' where "handler sv store who c v = Some (y, v')" "v' = w'"
        by (auto simp: serve_route_def split: option.splits prod.splits)
      with assms(4) g Inr gx Pass v show ?thesis by blast
    next
      case (Deny code m)
      with assms(1) g Inr gx v show ?thesis by (simp add: serve_route_def)
    qed
  qed
qed

text \<open>A call is answered with the start page, by the password reset or by its route.\<close>

lemma serve_cases:
  assumes "serve sv store c (h, w) = Some ((resp, ck), h', w')"
  obtains (page) "access_of (sv_restore sv) c = None" and "resp = \<lparr>rp_Code = 200, rp_Data = Some (PPage (sv_index sv)), rp_Message = []\<rparr>"
      and "ck = KeepCookie" and "h' = h" and "w' = w"
  | (reset) b where "c = PostRestorePassword b" and "access_of (sv_restore sv) c \<noteq> None"
  | (route) a where "access_of (sv_restore sv) c = Some a" and "serve_route sv store a c w = Some ((resp, ck), w')" and "h' = h"
      and "\<not> (\<exists>b. c = PostRestorePassword b)"
proof (cases "access_of (sv_restore sv) c")
  case None
  with assms page show thesis by (simp add: serve_def)
next
  case (Some a)
  show thesis
  proof (cases "\<exists>b. c = PostRestorePassword b")
    case True
    with Some reset show thesis by blast
  next
    case False
    then have "serve sv store c (h, w) = map_option (\<lambda>(r, w'). (r, h, w')) (serve_route sv store a c w)"
      using Some by (cases c) (simp_all add: serve_def)
    with assms Some False route show thesis by (auto simp: map_option_case split: option.splits)
  qed
qed

text \<open>A \<^verbatim>\<open>GET\<close> request changes no table, sends no notification and opens no SSH connection, whoever sends it and
  whatever the database does.\<close>

lemma get_changes_nothing:
  assumes "fst (route_of c) = ''GET''" and "serve sv store c (h, w) = Some ((resp, ck), h', w')"
  shows "untouched w w' \<and> h' = h"
  using assms(2)
proof (cases rule: serve_cases)
  case page
  then show ?thesis by simp
next
  case (reset b)
  with assms(1) show ?thesis by simp
next
  case (route a)
  then have "untouched w w'"
    by (elim serve_route_keeps) (auto intro: handler_reads [OF assms(1)])
  with route show ?thesis by simp
qed

section \<open>Without a session\<close>

definition has_session :: "server \<Rightarrow> session_store \<Rightarrow> world \<Rightarrow> bool" where
  "has_session sv store w \<longleftrightarrow> (\<exists>i. live_session store (clk (sv_env sv) (tick w)) i \<and> i \<in> adm_ID ` set (admins w))"

definition guest_mode_on :: "world \<Rightarrow> bool" where
  "guest_mode_on w \<longleftrightarrow> (\<exists>s\<in>set (settings w). st_SettingKey s = guestModeSettingKey \<and> ParseBool (st_SettingValue s) = Some True)"

lemma refused_no_cookie:
  "authenticateAdmin E cfg store w = (Inr (st, i, ck), w') \<Longrightarrow> st \<noteq> adminAuthOK \<Longrightarrow> ck = None"
  by (auto simp: authenticateAdmin_def run_simps split: sum.splits option.splits prod.splits if_splits)

lemma stranger_gate:
  assumes "\<not> has_session sv store w" and "gate_of sv store a w = (Inr (g, ck), w')" and "a \<noteq> Open"
  shows "ck = None \<and> (\<forall>who. g = Pass who \<longrightarrow> a = AdminOrGuest \<and> who = None \<and> guest_mode_on w)"
proof (cases a)
  case Open
  with assms(3) show ?thesis by simp
next
  case AdminOnly
  with assms(2) have run: "RequireAdmin (sv_env sv) (sv_session sv) store w = (Inr (g, ck), w')" by (simp add: gate_of_def)
  then obtain st i c v where auth: "authenticateAdmin (sv_env sv) (sv_session sv) store w = (Inr (st, i, c), v)"
    unfolding RequireAdmin_def by (auto elim!: bnd_InrE)
  with assms(1) authenticate_sound [of "sv_env sv" "sv_session sv" store w i c v] have "st \<noteq> adminAuthOK"
    by (auto simp: has_session_def)
  with auth run refused_no_cookie [OF auth] show ?thesis by (cases st) (auto simp: RequireAdmin_def run_bnd run_ret)
next
  case AdminOrGuest
  with assms(2) have run: "RequireAdminOrGuest (sv_env sv) (sv_session sv) store w = (Inr (g, ck), w')" by (simp add: gate_of_def)
  then obtain st i c v where auth: "authenticateAdmin (sv_env sv) (sv_session sv) store w = (Inr (st, i, c), v)"
    unfolding RequireAdminOrGuest_def by (auto elim!: bnd_InrE)
  with assms(1) authenticate_sound [of "sv_env sv" "sv_session sv" store w i c v] have st: "st \<noteq> adminAuthOK"
    by (auto simp: has_session_def)
  have ck: "ck = None"
    using st run auth refused_no_cookie [OF auth st]
    by (cases st) (auto simp: RequireAdminOrGuest_def run_bnd run_ret run_attempt split: prod.splits sum.splits if_splits)
  have "who = None \<and> guest_mode_on w" if "g = Pass who" for who
    using guest_gate_passes [of "sv_env sv" "sv_session sv" store w who ck w'] run that assms(1)
    by (auto simp: has_session_def guest_mode_on_def)
  with ck AdminOrGuest show ?thesis by blast
qed

lemma logout_answers: "handler sv store who PostLogout w = Some (Inr (resp, ck), w') \<Longrightarrow> rp_Data resp = None \<and> (\<forall>vals. ck \<noteq> SetCookie vals)"
  by (auto simp: AuthHandler_Logout_def run_simps map_data_def reply_def split: sum.splits if_splits)

lemma plain_keeps_cookie: "plain f m w = Some (Inr (resp, ck), w') \<Longrightarrow> ck = KeepCookie"
  by (cases "m w") (auto simp: plain_def run_simps split: sum.splits)

lemma handler_cookie:
  assumes "handler sv store who c w = Some (Inr (resp, ck), w')"
  shows "ck = KeepCookie \<or> c = PostLogout \<or> (\<exists>b. c = PostLogin b)"
  using assms by (cases c) (auto dest: plain_keeps_cookie simp: run_simps split: option.splits sum.splits prod.splits)

text \<open>C20. Without a live session of an administrator a request changes no table, sends nothing and opens no SSH connection,
  and gets no data but the health report, the profile of a successful login and, while guest mode is stored as
  enabled, the four kinds of data guests may read. Only a login hands out a session.\<close>

theorem strangers_locked_out:
  assumes "\<not> RestoreConfig_Enabled (sv_restore sv)" and "\<not> has_session sv store w"
    and "serve sv store c (h, w) = Some ((resp, ck), h', w')"
  shows "untouched w w' \<and> h' = h \<and>
     (rp_Data resp = None \<or> rp_Data resp = Some (PPage (sv_index sv)) \<or> health_call c \<or> (\<exists>b. c = PostLogin b) \<or>
        guest_readable c \<and> guest_mode_on w) \<and>
     (\<forall>vals. ck = SetCookie vals \<longrightarrow> (\<exists>b. c = PostLogin b))"
  using assms(3)
proof (cases rule: serve_cases)
  case page
  then show ?thesis by simp
next
  case (reset b)
  with access_normal [OF assms(1), of c] show ?thesis by (simp add: call_kinds)
next
  case (route a)
  obtain g v where g: "gate_of sv store a w = (g, v)" by fastforce
  have v: "untouched w v" by (rule keepsD [where I = "untouched w", OF keeps_gate [OF untouched_tick] untouched_refl g])
  show ?thesis
  proof (cases "a = Open")
    case True
    with g have g': "g = Inr (Pass None, None)" "v = w" by (auto simp: gate_of_def run_ret)
    from True route(1) access_normal [OF assms(1), of c] have kind: "health_call c \<or> session_call c"
      by (auto split: if_splits)
    from route(2) g g' obtain y where y: "handler sv store None c w = Some (y, w')" "(resp, ck) = recovered None y"
      by (auto simp: serve_route_def split: option.splits prod.splits)
    from kind have "untouched w w'"
    proof
      assume "health_call c"
      then have "fst (route_of c) = ''GET''" by (cases c) (simp_all add: call_kinds)
      from handler_reads [OF this y(1), of "untouched w"] show "untouched w w'" by simp
    next
      assume "session_call c"
      from session_handler_keeps [OF this y(1), of "untouched w"] show "untouched w w'" by simp
    qed
    moreover have "rp_Data resp = None \<or> health_call c \<or> (\<exists>b. c = PostLogin b)"
      "\<forall>vals. ck = SetCookie vals \<longrightarrow> (\<exists>b. c = PostLogin b)"
      using y kind handler_cookie [of sv store None c w _ _ w'] logout_answers [of sv store None w _ _ w']
      by (cases c; auto simp: call_kinds recovered_def renewed_def reply_def split: sum.splits cookie.splits)+
    ultimately show ?thesis using route by blast
  next
    case False
    from False route(1) access_normal [OF assms(1), of c] have closed: "\<not> health_call c" "\<not> session_call c"
      by (auto split: if_splits)
    show ?thesis
    proof (cases g)
      case (Inl e)
      with route g v show ?thesis by (auto simp: serve_route_def reply_def)
    next
      case (Inr gx)
      obtain d x where gx: "gx = (d, x)" by (cases gx)
      from stranger_gate [OF assms(2) g [unfolded Inr gx] False]
      have gate: "x = None" "\<And>who. d = Pass who \<Longrightarrow> a = AdminOrGuest \<and> who = None \<and> guest_mode_on w" by blast+
      show ?thesis
      proof (cases d)
        case (Deny code m)
        with route g v Inr gx gate(1) show ?thesis by (auto simp: serve_route_def reply_def renewed_def)
      next
        case (Pass who)
        with gate(2) have a: "a = AdminOrGuest" and on: "guest_mode_on w" by blast+
        from a route(1) access_normal [OF assms(1), of c] have kind: "guest_readable c" by (auto split: if_splits)
        from route(2) g Inr gx Pass obtain y where y: "handler sv store who c v = Some (y, w')" "(resp, ck) = recovered x y"
          by (auto simp: serve_route_def split: option.splits prod.splits)
        from kind have "fst (route_of c) = ''GET''" by (cases c) (simp_all add: call_kinds)
        from handler_reads [OF this y(1), of "untouched w"] v have "untouched w w'" by simp
        moreover have "\<forall>vals. ck \<noteq> SetCookie vals"
          using y closed handler_cookie [of sv store who c v _ _ w'] gate(1)
          by (cases y) (auto simp: call_kinds recovered_def renewed_def split: cookie.splits)
        ultimately show ?thesis using route(3) kind on by blast
      qed
    qed
  qed
qed

section \<open>Restore mode\<close>

text \<open>Nothing changed but administrators.\<close>

definition only_admins :: "world \<Rightarrow> world \<Rightarrow> bool" where
  "only_admins w v \<longleftrightarrow> untouched w (v\<lparr>admins := admins w\<rparr>)"

lemma only_admins_tick [simp]: "tick_free (only_admins w)"
  by (simp add: tick_free_def only_admins_def untouched_def same_tables_def)

lemma only_admins_refl [simp]: "only_admins w w"
  by (simp add: only_admins_def)

lemma untouched_only_admins: "untouched w v \<Longrightarrow> only_admins w v \<and> admins v = admins w"
  by (simp add: only_admins_def untouched_def same_tables_def)

lemma keeps_case_bool [keeps_intros]: "keeps I m \<Longrightarrow> keeps I n \<Longrightarrow> keeps I (case b of True \<Rightarrow> m | False \<Rightarrow> n)"
  by (cases b) simp_all

lemma keeps_reset:
  "keeps (only_admins w) (RestoreHandler_ResetAdminPassword E cfg bound h)"
proof -
  have "keeps (only_admins w) (AdminRepo_UpdatePasswordHash E i p)" for i p
    unfolding AdminRepo_UpdatePasswordHash_def
    by (intro keeps_intros keeps_statement only_admins_tick)
      (auto simp: keeps_def only_admins_def untouched_def same_tables_def Let_def)
  then show ?thesis
    unfolding RestoreHandler_ResetAdminPassword_def AuthService_ResetPasswordByUsername_def storePassword_def
    by (intro keeps_intros only_admins_tick)
qed

lemma reset_returns:
  assumes "RestoreHandler_ResetAdminPassword E cfg bound h w = (x, v)"
  shows "\<exists>r h1. x = Inr (r, h1)"
proof (cases bound)
  case None
  with assms show ?thesis by (auto simp: RestoreHandler_ResetAdminPassword_def run_ret)
next
  case (Some req)
  obtain ok h1 where "consumeRestoreToken cfg (if rh_tokenUsed h then 0 else clk E (tick w)) (rr_RestoreToken req) h = (ok, h1)"
    by fastforce
  with assms Some show ?thesis
    by (cases ok; cases "rh_tokenUsed h") (auto simp: RestoreHandler_ResetAdminPassword_def run_bnd run_ret run_time_Now run_catching)
qed

text \<open>C21. In restore mode a request changes nothing at all, or it is a password reset that carries the configured token
  before the token expired and before it was used: then it uses up the token and sets the password of the named
  administrator to the one given.\<close>

theorem restore_mode_closed:
  assumes "RestoreConfig_Enabled (sv_restore sv)" and "serve sv store c (h, w) = Some ((resp, ck), h', w')"
  shows "untouched w w' \<and> h' = h \<or>
     (\<exists>req a. c = PostRestorePassword (Some req) \<and> \<not> rh_tokenUsed h \<and> clk (sv_env sv) (tick w) \<le> rh_tokenExpiresAt h \<and>
        TrimSpace (rr_RestoreToken req) = TrimSpace (rs_Token (sv_restore sv)) \<and> TrimSpace (rs_Token (sv_restore sv)) \<noteq> [] \<and>
        rh_tokenUsed h' \<and> only_admins w w' \<and> a \<in> set (admins w) \<and> adm_Username a = rr_Username req \<and>
        (\<exists>n hash t. bcrypt_hash (sv_env sv) n (rr_NewPassword req) = Inr hash \<and> admins w' = with_hash (adm_ID a) hash t (admins w)))"
  using assms(2)
proof (cases rule: serve_cases)
  case page
  then show ?thesis by simp
next
  case (route a)
  from route(1,4) access_restore [OF assms(1), of c] have "fst (route_of c) = ''GET''"
    by (cases c) (auto simp: call_kinds)
  from serve_route_keeps [OF route(2), where I = "untouched w"] handler_reads [OF this, where I = "untouched w"]
  have "untouched w w'" by (metis untouched_refl untouched_tick)
  with route(3) show ?thesis by simp
next
  case (reset b)
  with access_restore [OF assms(1), of c] have "access_of (sv_restore sv) c = Some Open" by (simp add: call_kinds)
  with reset assms(2) obtain x v where x: "RestoreHandler_ResetAdminPassword (sv_env sv) (sv_restore sv) b h w = (x, v)"
    and res: "w' = v" "case x of Inl e \<Rightarrow> h' = h | Inr (r, h1) \<Rightarrow> h' = h1"
    by (cases "RestoreHandler_ResetAdminPassword (sv_env sv) (sv_restore sv) b h w") (auto simp: serve_def split: sum.splits)
  have only: "only_admins w v" by (rule keepsD [OF keeps_reset only_admins_refl x])
  show ?thesis
  proof (cases b)
    case None
    with x res show ?thesis by (auto simp: RestoreHandler_ResetAdminPassword_def run_ret)
  next
    case (Some req)
    obtain r h1 where r: "x = Inr (r, h1)" using reset_returns [OF x] by blast
    note fact = restore_needs_token [OF x [unfolded Some r]]
    show ?thesis
    proof (cases "rp_Code r = 200")
      case True
      with fact reset Some res r only show ?thesis by auto
    next
      case False
      with fact res r only show ?thesis by (auto simp: only_admins_def untouched_def same_tables_def)
    qed
  qed
qed

section \<open>Every request is answered\<close>

definition statuses :: "int set" where
  "statuses = {200, 201, 400, 401, 403, 404, 409, 500, 503}"

definition proper :: "'d Response \<Rightarrow> bool" where
  "proper r \<longleftrightarrow> rp_Code r \<in> statuses \<and> rp_Message r \<noteq> []"

definition answers :: "'d Response io \<Rightarrow> bool" where
  "answers m \<longleftrightarrow> (\<forall>w. \<exists>r w'. m w = (Inr r, w') \<and> proper r)"

named_theorems answers_intros \<open>handlers that answer with a proper status\<close>

lemma proper_replies [simp]:
  "proper (success d)" "proper (created d)" "proper no_content" "proper internal_error" "proper invalid_request"
  "proper (badRequest (c # cs))"
  by (simp_all add: proper_def statuses_def success_def created_def no_content_def internal_error_def invalid_request_def
      badRequest_def reply_def)

lemma proper_reply [simp]: "proper (reply code message) \<longleftrightarrow> code \<in> statuses \<and> message \<noteq> []"
  by (simp add: proper_def reply_def)

lemma decrypt_message [simp]: "decryptFailedMessage \<noteq> []"
  by (simp add: decryptFailedMessage_def)

lemma proper_map [simp]: "proper (map_data f r) = proper r"
  by (simp add: proper_def map_data_def)

lemma answers_ret [answers_intros]: "proper r \<Longrightarrow> answers (ret r)"
  by (simp add: answers_def run_ret)

lemma answers_answer [answers_intros]: "(\<And>e. proper (h e)) \<Longrightarrow> (\<And>x. proper (k x)) \<Longrightarrow> answers (answer m h k)"
  by (auto simp: answers_def answer_def run_attempt run_ret split: prod.split sum.split)

lemma answers_attempt [answers_intros]: "(\<And>e. answers (h e)) \<Longrightarrow> (\<And>x. answers (k x)) \<Longrightarrow> answers (attempt m h k)"
  by (auto simp: answers_def run_attempt split: prod.split sum.split)

lemma answers_id [answers_intros]: "(\<And>i. answers (f i)) \<Longrightarrow> msg \<noteq> [] \<Longrightarrow> answers (with_id msg raw f)"
  by (auto simp: with_id_def badRequest_def statuses_def intro: answers_intros split: option.split)

lemma answers_body [answers_intros]: "(\<And>b. answers (f b)) \<Longrightarrow> answers (with_body bound f)"
  by (auto simp: with_body_def intro: answers_intros split: option.split)

lemma answers_cases [answers_intros]:
  "answers a \<Longrightarrow> (\<And>x. answers (f x)) \<Longrightarrow> answers (case o1 of None \<Rightarrow> a | Some x \<Rightarrow> f x)"
  "answers a \<Longrightarrow> answers b \<Longrightarrow> answers (if P then a else b)"
  by (auto split: option.split)

lemma proper_errors [simp]:
  "proper (handleMachineServiceError e)" "proper (handleThresholdError e)" "proper (handleTrafficCollectionError e)"
  "proper (handleHistoryCleanupError e)" "proper (handleNotificationProxyError e)" "proper (handleAlertServiceError e)"
  "proper (handleWebhookTestError e)" "proper (handleTelegramTestError e)" "proper (handleBackupServiceError e)"
  by (simp_all add: handleMachineServiceError_def handleThresholdError_def handleTrafficCollectionError_def handleHistoryCleanupError_def
      handleNotificationProxyError_def handleAlertServiceError_def handleWebhookTestError_def handleTelegramTestError_def
      handleBackupServiceError_def channelError_def statuses_def)

lemma answers_after [answers_intros]:
  assumes "\<And>w. \<exists>x w'. m w = (Inr x, w')" and "\<And>x. proper (f x)"
  shows "answers (bnd m (\<lambda>x. ret (f x)))"
  unfolding answers_def
proof
  fix w
  obtain x w' where "m w = (Inr x, w')" using assms(1) by blast
  then show "\<exists>r w'. bnd m (\<lambda>x. ret (f x)) w = (Inr r, w') \<and> proper r" using assms(2) by (simp add: run_bnd run_ret)
qed

lemma test_connection_returns: "\<exists>x w'. MachineService_TestConnection E masterKey i w = (Inr x, w')"
  by (auto simp: MachineService_TestConnection_def run_simps Let_def)

lemma proper_connection: "proper (connectionReply x)"
proof -
  obtain result err where "x = (result, err)" by (cases x)
  then show ?thesis
    by (cases err) (simp_all add: connectionReply_def proper_def [of "\<lparr>rp_Code = c, rp_Data = d, rp_Message = m\<rparr>" for c d m] statuses_def)
qed

lemma connection_answers: "answers (MachineHandler_TestConnection E masterKey raw)"
  unfolding MachineHandler_TestConnection_def
  by (intro answers_intros test_connection_returns proper_connection) simp_all

lemma health_answers: "answers (HealthHandler_GetHealth E cfg)"
  by (auto simp: answers_def HealthHandler_GetHealth_def HealthService_Check_def run_bnd run_attempt run_ret proper_def statuses_def
      success_def split: prod.split sum.split)

lemmas answering_handlers = MachineHandler_List_def MachineHandler_Create_def MachineHandler_Get_def MachineHandler_Update_def
  MachineHandler_Delete_def SSHKeyHandler_List_def SSHKeyHandler_Import_def SSHKeyHandler_Generate_def SSHKeyHandler_GetPublicKey_def
  SSHKeyHandler_Rename_def SSHKeyHandler_Delete_def ThresholdHandler_ListGlobalRules_def ThresholdHandler_UpsertGlobalRules_def
  ThresholdHandler_ListMachineRules_def ThresholdHandler_UpsertMachineRules_def TrafficSampleHandler_ListSamples_def
  TrafficSampleHandler_CollectNow_def AlertHandler_ListAlerts_def AlertHandler_ListNotificationChannels_def
  AlertHandler_ListNotificationProxies_def AlertHandler_CreateNotificationProxy_def AlertHandler_UpdateNotificationProxy_def
  AlertHandler_DeleteNotificationProxy_def AlertHandler_UpsertWebhookChannel_def AlertHandler_TestWebhookChannel_def
  AlertHandler_UpsertTelegramChannel_def AlertHandler_TestTelegramChannel_def BackupHandler_Export_def
  AuthHandler_Profile_def AuthHandler_ChangePassword_def SettingsHandler_GetGuestMode_def SettingsHandler_UpdateGuestMode_def

lemma handlers_answer:
  "answers (MachineHandler_List E)" "answers (MachineHandler_Create E cb)" "answers (MachineHandler_Get E raw)"
  "answers (MachineHandler_Update E raw ub)" "answers (MachineHandler_Delete E raw)" "answers (SSHKeyHandler_List E)"
  "answers (SSHKeyHandler_Import E k ib)" "answers (SSHKeyHandler_Generate E k gb)" "answers (SSHKeyHandler_GetPublicKey E raw)"
  "answers (SSHKeyHandler_Rename E raw rb)" "answers (SSHKeyHandler_Delete E raw)" "answers (ThresholdHandler_ListGlobalRules E)"
  "answers (ThresholdHandler_UpsertGlobalRules E tb)" "answers (ThresholdHandler_ListMachineRules E raw)"
  "answers (ThresholdHandler_UpsertMachineRules E raw tb)" "answers (TrafficSampleHandler_ListSamples E q)"
  "answers (TrafficSampleHandler_CollectNow E k nb)" "answers (AlertHandler_ListAlerts E q)"
  "answers (AlertHandler_ListNotificationChannels E)" "answers (AlertHandler_ListNotificationProxies E)"
  "answers (AlertHandler_CreateNotificationProxy E pb)" "answers (AlertHandler_UpdateNotificationProxy E raw pb)"
  "answers (AlertHandler_DeleteNotificationProxy E raw)" "answers (AlertHandler_UpsertWebhookChannel E wb)"
  "answers (AlertHandler_TestWebhookChannel E dec wb)" "answers (AlertHandler_UpsertTelegramChannel E tgb)"
  "answers (AlertHandler_TestTelegramChannel E tgb)" "answers (BackupHandler_Export E marshal k eb)"
  "answers (AuthHandler_Profile E who)" "answers (AuthHandler_ChangePassword E who pwb)"
  "answers (SettingsHandler_GetGuestMode E)" "answers (SettingsHandler_UpdateGuestMode E sb)"
  unfolding answering_handlers
  by (intro answers_intros; auto simp: statuses_def intro: answers_intros split: option.split)+

lemma login_answers:
  "\<exists>r ck w'. AuthHandler_Login E cfg store b w = (Inr (r, ck), w') \<and> proper r"
  "\<exists>r d w'. AuthHandler_Logout store w = (Inr (r, d), w') \<and> proper r"
  by (auto simp: AuthHandler_Login_def AuthHandler_Logout_def run_simps statuses_def split: option.split sum.split prod.split)

lemma import_answers:
  "BackupHandler_Import E u k b w = (Inr r, w') \<Longrightarrow> proper r"
  by (auto simp: BackupHandler_Import_def with_body_def run_simps split: option.splits sum.splits prod.splits if_splits)

lemma cleanup_answers:
  "TrafficSampleHandler_CleanupHistory E cfg b w = Some (x, w') \<Longrightarrow> \<exists>r. x = Inr r \<and> proper r"
  by (auto simp: TrafficSampleHandler_CleanupHistory_def split: option.splits sum.splits prod.splits if_splits)

lemma plain_answers:
  assumes "plain f m w = Some (y, w')" and "answers m"
  shows "\<exists>resp ck. y = Inr (resp, ck) \<and> proper resp"
proof -
  obtain r v where "m w = (Inr r, v)" "proper r" using assms(2) unfolding answers_def by blast
  with assms(1) show ?thesis by (auto simp: plain_def run_bnd run_ret)
qed

lemma status_answers: "answers (ret (RestoreHandler_Status cfg))" "answers (ret internal_error)"
  by (intro answers_ret; simp add: RestoreHandler_Status_def)+

lemma handler_answers:
  assumes "handler sv store who c w = Some (y, w')"
  shows "(\<exists>resp ck. y = Inr (resp, ck) \<and> proper resp) \<or> (\<exists>b. c = PostBackupImport b) \<and> (\<exists>e. y = Inl e)"
proof (cases "(\<exists>b. c = PostBackupImport b) \<or> session_call c \<or> (\<exists>b. c = PostCleanup b)")
  case False
  with assms show ?thesis
    by (cases c) (auto dest!: plain_answers simp: handlers_answer health_answers connection_answers status_answers call_kinds)
next
  case True
  then consider (imp) b where "c = PostBackupImport b" | (login) b where "c = PostLogin b" | (logout) "c = PostLogout"
    | (cleanup) b where "c = PostCleanup b"
    by (cases c) (auto simp: call_kinds)
  then show ?thesis
  proof cases
    case (imp b)
    with assms show ?thesis by (auto simp: plain_def run_simps dest!: import_answers split: prod.splits sum.splits)
  next
    case (login b)
    obtain r ck v where "AuthHandler_Login (sv_env sv) (sv_session sv) store b w = (Inr (r, ck), v)" "proper r"
      using login_answers(1) by blast
    with assms login show ?thesis by (auto simp: run_bnd run_ret)
  next
    case logout
    obtain r d v where "AuthHandler_Logout store w = (Inr (r, d), v)" "proper r" using login_answers(2) by blast
    with assms logout show ?thesis by (auto simp: run_bnd run_ret)
  next
    case (cleanup b)
    with assms show ?thesis by (auto simp: run_bnd run_ret dest!: cleanup_answers split: option.splits)
  qed
qed

lemma handler_ends:
  assumes "0 < hc_BatchSize (sv_cleanup sv)" and "distinct (map ts_ID (samples w))" and "distinct (map al_ID (alerts w))"
  shows "handler sv store who c w \<noteq> None"
proof (cases "\<exists>b. c = PostCleanup b")
  case True
  then obtain b where b: "c = PostCleanup b" by blast
  obtain x v where "HistoryCleanupService_Cleanup (sv_env sv) (sv_cleanup sv) (fst b) w = Some (x, v)"
    using cleanup_ends [OF assms, of "sv_env sv" "fst b"] by fastforce
  with b show ?thesis by (simp add: TrafficSampleHandler_CleanupHistory_def split: sum.split)
qed (cases c, simp_all add: plain_def)

lemma gate_answers: "\<exists>g ck w'. gate_of sv store a w = (Inr (g, ck), w') \<and> (\<forall>code m. g = Deny code m \<longrightarrow> code \<in> statuses \<and> m \<noteq> [])"
proof -
  have auth: "\<exists>st i c w'. authenticateAdmin E cfg store w = (Inr (st, i, c), w')" for E cfg
    by (auto simp: authenticateAdmin_def run_simps split: option.split sum.split prod.split)
  obtain st i c v where "authenticateAdmin (sv_env sv) (sv_session sv) store w = (Inr (st, i, c), v)" using auth by blast
  then show ?thesis
    by (cases a; cases st)
      (auto simp: gate_of_def RequireAdmin_def RequireAdminOrGuest_def run_simps statuses_def split: prod.split sum.split)
qed

text \<open>Every request is answered with one of the statuses of the API and with a message, the start page or, when
  an import panics, with an empty answer of status 500: no database failure, no foreign server and no stored
  configuration leaves a request without an answer, if the cleanup has a positive batch size.\<close>

lemma every_request_answered:
  assumes "0 < hc_BatchSize (sv_cleanup sv)" and "distinct (map ts_ID (samples w))" and "distinct (map al_ID (alerts w))"
  shows "\<exists>resp ck h' w'. serve sv store c (h, w) = Some ((resp, ck), h', w') \<and>
     (rp_Code resp \<in> statuses \<and> rp_Message resp \<noteq> [] \<or>
      access_of (sv_restore sv) c = None \<and> resp = \<lparr>rp_Code = 200, rp_Data = Some (PPage (sv_index sv)), rp_Message = []\<rparr> \<or>
      (\<exists>b. c = PostBackupImport b) \<and> resp = reply 500 [])"
proof (cases "access_of (sv_restore sv) c")
  case None
  then show ?thesis by (simp add: serve_def)
next
  case (Some a)
  show ?thesis
  proof (cases "\<exists>b. c = PostRestorePassword b")
    case True
    then obtain b where b: "c = PostRestorePassword b" by blast
    obtain r h1 v where r: "RestoreHandler_ResetAdminPassword (sv_env sv) (sv_restore sv) b h w = (Inr (r, h1), v)"
      using reset_returns [of "sv_env sv" "sv_restore sv" b h w] surj_pair by metis
    have "proper r"
      using r by (auto simp: RestoreHandler_ResetAdminPassword_def run_simps restoreReply_def statuses_def
          split: option.splits prod.splits bool.splits if_splits sum.splits)
    with r b Some show ?thesis by (simp add: serve_def proper_def map_data_def)
  next
    case False
    then have serve: "serve sv store c (h, w) = map_option (\<lambda>(r, w'). (r, h, w')) (serve_route sv store a c w)"
      using Some by (cases c) (simp_all add: serve_def)
    obtain g ck v where g: "gate_of sv store a w = (Inr (g, ck), v)" and deny: "\<And>code m. g = Deny code m \<Longrightarrow> code \<in> statuses \<and> m \<noteq> []"
      using gate_answers by meson
    show ?thesis
    proof (cases g)
      case (Deny code m)
      with g serve deny show ?thesis by (simp add: serve_route_def reply_def)
    next
      case (Pass who)
      have "same_tables w v" by (rule keepsD [where I = "same_tables w", OF keeps_gate [OF tick_free_same_tables] same_tables_refl g])
      with assms have "handler sv store who c v \<noteq> None" by (intro handler_ends) (simp_all add: same_tables_def)
      then obtain y w' where y: "handler sv store who c v = Some (y, w')" by auto
      from handler_answers [OF y] show ?thesis
      proof
        assume "\<exists>resp ck. y = Inr (resp, ck) \<and> proper resp"
        with y g Pass serve show ?thesis
          by (auto simp: serve_route_def recovered_def proper_def split: cookie.split)
      next
        assume "(\<exists>b. c = PostBackupImport b) \<and> (\<exists>e. y = Inl e)"
        with y g Pass serve show ?thesis by (auto simp: serve_route_def recovered_def)
      qed
    qed
  qed
qed

section \<open>Examples\<close>

definition example_server :: server where
  "example_server =
     \<lparr>sv_env = example_env, sv_app = \<lparr>ac_Name = ''traffic-monitor'', ac_Env = ''test''\<rparr>, sv_session = example_session,
      sv_cleanup = example_cleanup, sv_restore = \<lparr>rs_Mode = [], rs_Token = []\<rparr>, sv_masterKey = example_master,
      sv_marshal = example_marshal, sv_unmarshal = example_unmarshal, sv_webhook_report = (\<lambda>_. None), sv_index = ''<html>''\<rparr>"

definition fresh_token :: RestoreHandler where
  "fresh_token = \<lparr>rh_tokenUsed = False, rh_tokenExpiresAt = 0\<rparr>"

lemma example_server_simps [simp]:
  "sv_env example_server = example_env" "sv_session example_server = example_session" "sv_index example_server = ''<html>''"
  "\<not> RestoreConfig_Enabled (sv_restore example_server)" "RestoreConfig_Enabled example_restore"
  "0 < hc_BatchSize (sv_cleanup example_server)"
  by (simp_all add: example_server_def RestoreConfig_Enabled_def example_restore_def example_cleanup_def RestoreModeAdminPassword_def)

lemma example_stranger: "\<not> has_session example_server no_cookie w"
  by (simp add: has_session_def live_session_def no_cookie_def sessionAdminID_def)

theorem strangers_locked_out_witness:
  "\<exists>resp ck h' w'. serve example_server no_cookie GetMachines (fresh_token, keyed_world) = Some ((resp, ck), h', w') \<and>
     untouched keyed_world w' \<and> rp_Data resp = None"
proof -
  have "distinct (map ts_ID (samples keyed_world))" "distinct (map al_ID (alerts keyed_world))" by (simp_all add: empty_world_def)
  have access: "access_of (sv_restore example_server) GetMachines = Some AdminOnly"
    by (simp add: access_normal call_kinds)
  have "gate_of example_server no_cookie AdminOnly keyed_world = (Inr (Deny 401 ''unauthorized'', None), keyed_world)"
    by (simp add: gate_of_def RequireAdmin_def authenticateAdmin_def no_cookie_def sessionAdminID_def run_simps)
  with access have run: "serve example_server no_cookie GetMachines (fresh_token, keyed_world) =
      Some ((reply 401 ''unauthorized'', KeepCookie), fresh_token, keyed_world)"
    by (simp add: serve_def serve_route_def renewed_def)
  with strangers_locked_out [OF _ example_stranger run] show ?thesis by (auto simp: reply_def)
qed

theorem restore_mode_closed_witness:
  "\<exists>resp ck h' w'. serve (example_server\<lparr>sv_restore := example_restore\<rparr>) no_cookie (DelMachine ''1'') (fresh_token, keyed_world) =
     Some ((resp, ck), h', w') \<and> untouched keyed_world w'"
proof -
  let ?sv = "example_server\<lparr>sv_restore := example_restore\<rparr>"
  have access: "access_of (sv_restore ?sv) (DelMachine ''1'') = None"
    by (subst access_restore) (simp_all add: call_kinds del: server.select_convs server.simps)
  then have run: "serve ?sv no_cookie (DelMachine ''1'') (fresh_token, keyed_world) =
      Some ((\<lparr>rp_Code = 200, rp_Data = Some (PPage ''<html>''), rp_Message = []\<rparr>, KeepCookie), fresh_token, keyed_world)"
    by (simp add: serve_def)
  have "RestoreConfig_Enabled (sv_restore ?sv)" by simp
  from restore_mode_closed [OF this run] run show ?thesis by auto
qed

end
