(* ===== verification/Responses.thy ===== *)
theory Responses
  imports Server
begin

text \<open>
  The types of the answers. \<open>yields P m\<close> says that every answer of a handler satisfies \<open>P\<close>; the answers are \<open>tidy\<close> when
  only successes carry data. Together with the constructor each route puts its data into, this types the API: a client
  that checks the status finds the data of its route, and an error tells nothing but its message. The two exceptions are
  the connection test, which reports the failed step, and the health check.
\<close>

definition tidy :: "'d Response \<Rightarrow> bool" where
  "tidy r \<longleftrightarrow> (rp_Data r \<noteq> None \<longrightarrow> rp_Code r < 300)"

lemma tidy_replies [simp]:
  "tidy (success d)" "tidy (created d)" "tidy no_content" "tidy internal_error" "tidy invalid_request" "tidy (badRequest s)"
  "tidy (reply code s)"
  by (simp_all add: tidy_def success_def created_def no_content_def internal_error_def invalid_request_def badRequest_def reply_def)

lemma tidy_map [simp]: "tidy (map_data f r) = tidy r"
  by (simp add: tidy_def map_data_def)

lemma tidy_errors [simp]:
  "tidy (handleMachineServiceError e)" "tidy (handleThresholdError e)" "tidy (handleTrafficCollectionError e)"
  "tidy (handleHistoryCleanupError e)" "tidy (handleNotificationProxyError e)" "tidy (handleAlertServiceError e)"
  "tidy (handleWebhookTestError e)" "tidy (handleTelegramTestError e)" "tidy (handleBackupServiceError e)"
  by (simp_all add: handleMachineServiceError_def handleThresholdError_def handleTrafficCollectionError_def handleHistoryCleanupError_def
      handleNotificationProxyError_def handleAlertServiceError_def handleWebhookTestError_def handleTelegramTestError_def
      handleBackupServiceError_def channelError_def)

section \<open>What handlers yield\<close>

definition yields :: "('d Response \<Rightarrow> bool) \<Rightarrow> 'd Response io \<Rightarrow> bool" where
  "yields P m \<longleftrightarrow> (\<forall>w r w'. m w = (Inr r, w') \<longrightarrow> P r)"

named_theorems yields_intros \<open>what the answers of handlers satisfy\<close>

lemma yields_ret [yields_intros]: "P r \<Longrightarrow> yields P (ret r)"
  by (simp add: yields_def run_ret)

lemma yields_fail [yields_intros]: "yields P (fail e)"
  by (simp add: yields_def run_fail)

lemma yields_bnd [yields_intros]: "(\<And>x. yields P (f x)) \<Longrightarrow> yields P (bnd m f)"
  by (auto simp: yields_def run_bnd split: prod.splits sum.splits)

lemma yields_attempt [yields_intros]: "(\<And>e. yields P (h e)) \<Longrightarrow> (\<And>x. yields P (k x)) \<Longrightarrow> yields P (attempt m h k)"
  by (auto simp: yields_def run_attempt split: prod.splits sum.splits)

lemma yields_answer [yields_intros]: "(\<And>e. P (h e)) \<Longrightarrow> (\<And>x. P (k x)) \<Longrightarrow> yields P (answer m h k)"
  unfolding answer_def by (intro yields_intros)

lemma yields_cases [yields_intros]:
  "yields P a \<Longrightarrow> (\<And>x. yields P (f x)) \<Longrightarrow> yields P (case o1 of None \<Rightarrow> a | Some x \<Rightarrow> f x)"
  "yields P a \<Longrightarrow> yields P b \<Longrightarrow> yields P (if c then a else b)"
  by (auto split: option.split)

lemma yields_id [yields_intros]: "(\<And>i. yields P (f i)) \<Longrightarrow> P (badRequest msg) \<Longrightarrow> yields P (with_id msg raw f)"
  unfolding with_id_def by (intro yields_intros)

lemma yields_body [yields_intros]: "(\<And>b. yields P (f b)) \<Longrightarrow> P invalid_request \<Longrightarrow> P (badRequest ''invalid request'') \<Longrightarrow> yields P (with_body bound f)"
  unfolding with_body_def by (intro yields_intros)

lemma handlers_tidy:
  "yields tidy (MachineHandler_List E)" "yields tidy (MachineHandler_Create E cb)" "yields tidy (MachineHandler_Get E raw)"
  "yields tidy (MachineHandler_Update E raw ub)" "yields tidy (MachineHandler_Delete E raw)" "yields tidy (SSHKeyHandler_List E)"
  "yields tidy (SSHKeyHandler_Import E k ib)" "yields tidy (SSHKeyHandler_Generate E k gb)" "yields tidy (SSHKeyHandler_GetPublicKey E raw)"
  "yields tidy (SSHKeyHandler_Rename E raw rb)" "yields tidy (SSHKeyHandler_Delete E raw)" "yields tidy (ThresholdHandler_ListGlobalRules E)"
  "yields tidy (ThresholdHandler_UpsertGlobalRules E tb)" "yields tidy (ThresholdHandler_ListMachineRules E raw)"
  "yields tidy (ThresholdHandler_UpsertMachineRules E raw tb)" "yields tidy (TrafficSampleHandler_ListSamples E q)"
  "yields tidy (TrafficSampleHandler_CollectNow E k nb)" "yields tidy (AlertHandler_ListAlerts E q)"
  "yields tidy (AlertHandler_ListNotificationChannels E)" "yields tidy (AlertHandler_ListNotificationProxies E)"
  "yields tidy (AlertHandler_CreateNotificationProxy E pb)" "yields tidy (AlertHandler_UpdateNotificationProxy E raw pb)"
  "yields tidy (AlertHandler_DeleteNotificationProxy E raw)" "yields tidy (AlertHandler_UpsertWebhookChannel E wb)"
  "yields tidy (AlertHandler_TestWebhookChannel E dec wb)" "yields tidy (AlertHandler_UpsertTelegramChannel E tgb)"
  "yields tidy (AlertHandler_TestTelegramChannel E tgb)" "yields tidy (BackupHandler_Export E marshal k eb)"
  "yields tidy (BackupHandler_Import E unmarshal k imb)" "yields tidy (ret (RestoreHandler_Status cfg))"
  "yields tidy (AuthHandler_Profile E who)" "yields tidy (AuthHandler_ChangePassword E who pwb)"
  "yields tidy (SettingsHandler_GetGuestMode E)" "yields tidy (SettingsHandler_UpdateGuestMode E sb)"
  unfolding answering_handlers BackupHandler_Import_def RestoreHandler_Status_def
  by (intro yields_intros; auto intro: yields_intros split: option.split)+

section \<open>The type of each route\<close>

primrec of_type :: "call \<Rightarrow> payload \<Rightarrow> bool" where
  "of_type GetHealthz p = (\<exists>x. p = PHealth x)"
| "of_type GetHealth p = (\<exists>x. p = PHealth x)"
| "of_type GetRestoreStatus p = (\<exists>x. p = PRestoreStatus x)"
| "of_type (PostRestorePassword b) p = (p = PUnit ())"
| "of_type (PostLogin b) p = (\<exists>x. p = PProfile x)"
| "of_type PostLogout p = (p = PUnit ())"
| "of_type GetProfile p = (\<exists>x. p = PProfile x)"
| "of_type (PatchPassword b) p = (p = PUnit ())"
| "of_type GetGuestMode p = (\<exists>x. p = PGuestMode x)"
| "of_type (PutGuestMode b) p = (\<exists>x. p = PGuestMode x)"
| "of_type GetSSHKeys p = (\<exists>xs. p = PSSHKeys xs)"
| "of_type (PostSSHKeyImport b) p = (\<exists>x. p = PSSHKey x)"
| "of_type (PostSSHKeyGenerate b) p = (\<exists>x. p = PSSHKey x)"
| "of_type (GetPublicKey i) p = (\<exists>x. p = PSSHKey x)"
| "of_type (PatchSSHKey i b) p = (\<exists>x. p = PSSHKey x)"
| "of_type (DeleteSSHKey i) p = (p = PUnit ())"
| "of_type GetMachines p = (\<exists>xs. p = PMachines xs)"
| "of_type (GetMachine i) p = (\<exists>x. p = PMachine x)"
| "of_type (PostMachine b) p = (\<exists>x. p = PMachine x)"
| "of_type (PatchMachine i b) p = (\<exists>x. p = PMachine x)"
| "of_type (DelMachine i) p = (p = PUnit ())"
| "of_type (PostMachineTest i) p = (\<exists>x. p = PConnection x)"
| "of_type (PostBackupExport b) p = (\<exists>x. p = PBackup x)"
| "of_type (PostBackupImport b) p = (\<exists>x. p = PImported x)"
| "of_type GetGlobalThresholds p = (\<exists>xs. p = PRules xs)"
| "of_type (GetMachineThresholds i) p = (\<exists>xs. p = PRules xs)"
| "of_type (PutGlobalThresholds b) p = (p = PUnit ())"
| "of_type (PutMachineThresholds i b) p = (p = PUnit ())"
| "of_type (GetSamples q) p = (\<exists>x. p = PSamples x)"
| "of_type (PostCleanup b) p = (\<exists>x. p = PCleanup x)"
| "of_type (PostCollectNow b) p = (\<exists>xs. p = PCollected xs)"
| "of_type (GetAlerts q) p = (\<exists>x. p = PAlerts x)"
| "of_type GetChannels p = (\<exists>xs. p = PChannels xs)"
| "of_type (PutWebhook b) p = (p = PUnit ())"
| "of_type (PostWebhookTest b) p = (\<exists>x. p = PWebhookTest x)"
| "of_type (PutTelegram b) p = (p = PUnit ())"
| "of_type (PostTelegramTest b) p = (\<exists>x. p = PTelegramTest x)"
| "of_type GetProxies p = (\<exists>xs. p = PProxies xs)"
| "of_type (PostProxy b) p = (\<exists>x. p = PProxy x)"
| "of_type (PutProxy i b) p = (\<exists>x. p = PProxy x)"
| "of_type (DeleteProxy i) p = (p = PUnit ())"

definition typed_answer :: "call \<Rightarrow> payload Response \<Rightarrow> bool" where
  "typed_answer c r \<longleftrightarrow> (\<forall>d. rp_Data r = Some d \<longrightarrow>
     of_type c d \<and> (rp_Code r < 300 \<or> health_call c \<or> (\<exists>i. c = PostMachineTest i)))"

lemma typed_plain:
  assumes "plain f m w = Some (Inr (r, ck), w')" and "yields tidy m" and "\<And>x. of_type c (f x)"
  shows "typed_answer c r"
proof -
  obtain q where "m w = (Inr q, w')" "r = map_data f q"
    using assms(1) by (auto simp: plain_def run_bnd run_ret split: prod.splits sum.splits)
  with assms(2,3) show ?thesis by (auto simp: yields_def typed_answer_def map_data_def tidy_def)
qed

text \<open>Health and connection tests report what failed with the error.\<close>

lemma typed_report:
  assumes "plain f m w = Some (Inr (r, ck), w')" and "\<And>x. of_type c (f x)" and "health_call c \<or> (\<exists>i. c = PostMachineTest i)"
  shows "typed_answer c r"
  using assms by (auto simp: plain_def run_bnd run_ret typed_answer_def map_data_def split: prod.splits sum.splits)

lemma login_typed: "AuthHandler_Login E cfg store b w = (Inr (r, ck), w') \<Longrightarrow> tidy r" "AuthHandler_Logout store w = (Inr (r', d), w') \<Longrightarrow> tidy r'"
  by (auto simp: AuthHandler_Login_def AuthHandler_Logout_def run_simps split: option.splits sum.splits prod.splits if_splits)

lemma cleanup_typed: "TrafficSampleHandler_CleanupHistory E cfg b w = Some (Inr r, w') \<Longrightarrow> tidy r"
  by (auto simp: TrafficSampleHandler_CleanupHistory_def split: option.splits sum.splits prod.splits if_splits)

text \<open>Every handler, and with the gate and the recovery every request.\<close>

lemma handler_typed:
  assumes "handler sv store who c w = Some (Inr (r, ck), w')"
  shows "typed_answer c r"
proof (cases "session_call c \<or> (\<exists>b. c = PostCleanup b)")
  case False
  with assms show ?thesis
    by (cases c) (auto simp: call_kinds intro: typed_plain typed_report handlers_tidy yields_ret [where P = tidy, OF tidy_replies(4)])
next
  case True
  then consider (login) b where "c = PostLogin b" | (logout) "c = PostLogout" | (prune) b where "c = PostCleanup b"
    by (cases c) (auto simp: call_kinds)
  then show ?thesis
  proof cases
    case (login b)
    with assms show ?thesis
      by (auto simp: run_bnd run_ret typed_answer_def map_data_def tidy_def dest!: login_typed split: prod.splits sum.splits)
  next
    case logout
    with assms show ?thesis
      by (auto simp: run_bnd run_ret typed_answer_def map_data_def tidy_def dest!: login_typed split: prod.splits sum.splits)
  next
    case (prune b)
    with assms show ?thesis
      by (auto simp: run_bnd run_ret typed_answer_def map_data_def tidy_def dest!: cleanup_typed split: option.splits prod.splits sum.splits)
  qed
qed

lemma typed_reply [simp]: "typed_answer c (reply code s)"
  by (simp add: typed_answer_def reply_def)

lemma serve_route_typed:
  assumes "serve_route sv store a c w = Some ((r, ck), w')"
  shows "typed_answer c r"
proof -
  obtain g v where g: "gate_of sv store a w = (g, v)" by fastforce
  show ?thesis
  proof (cases g)
    case (Inl e)
    with assms g show ?thesis by (auto simp: serve_route_def)
  next
    case (Inr x)
    obtain d vals where x: "x = (d, vals)" by (cases x)
    show ?thesis
    proof (cases d)
      case (Deny code m)
      with assms g Inr x show ?thesis by (auto simp: serve_route_def)
    next
      case (Pass who)
      with assms g Inr x obtain y u where y: "handler sv store who c v = Some (y, u)" and r: "recovered vals y = (r, ck)"
        by (auto simp: serve_route_def split: option.splits)
      show ?thesis
      proof (cases y)
        case (Inl e)
        with r show ?thesis by (auto simp: recovered_def)
      next
        case (Inr q)
        then obtain resp k where "y = Inr (resp, k)" by (cases q) simp
        with y r handler_typed show ?thesis by (auto simp: recovered_def split: cookie.splits)
      qed
    qed
  qed
qed



end
