(* ===== verification/Channels.thy ===== *)
theory Channels
  imports Notify
begin

text \<open>
  What the notification settings promise: a notification is sent at most once per call and through the proxy its channel
  names or not at all; saving the settings form as it is shown, with the bot token masked, changes nothing; messages are
  cut to the length of their column, but not at the border of a character.
\<close>

section \<open>Proxies\<close>

definition sends_through :: "env \<Rightarrow> world \<Rightarrow> nat option \<Rightarrow> http_client \<Rightarrow> bool" where
  "sends_through E w proxyID client \<longleftrightarrow>
     (case normalizeNotificationProxyID proxyID of
        None \<Rightarrow> client = DefaultClient
      | Some i \<Rightarrow> client \<noteq> DefaultClient \<and>
          (\<exists>p\<in>set (proxies w). px_ID p = i \<and> buildNotificationProxyHTTPClient E p = Inr client))"

lemma proxied_client: "buildNotificationProxyHTTPClient E p = Inr client \<Longrightarrow> client \<noteq> DefaultClient"
  by (auto simp: buildNotificationProxyHTTPClient_def Let_def split: sum.splits if_splits)

lemma get_proxy_result:
  assumes "NotificationProxyRepo_GetByID E i w = (r, w')"
  shows "w' = ticked 1 w" and "r = Inr p \<Longrightarrow> p \<in> set (proxies w) \<and> px_ID p = i"
  using assms sql_first_Some [of px_ID "\<lambda>p. px_ID p = i" "proxies w"]
  by (auto simp: NotificationProxyRepo_GetByID_def run_wrap statement_def Let_def split: option.splits)

lemma client_Do_sends: "client_Do E client req w = (r, w') \<Longrightarrow> outbox w' = outbox w @ [(client, req)] \<and> proxies w' = proxies w"
  by (auto simp: client_Do_def run_bnd run_modify run_external run_fail run_ret split: sum.splits)

lemma request_through_proxy:
  assumes "doNotificationRequest E req proxyID w = (r, w')"
  shows "outbox w' = outbox w \<or> (\<exists>client. outbox w' = outbox w @ [(client, req)] \<and> sends_through E w proxyID client)"
proof (cases "normalizeNotificationProxyID proxyID")
  case None
  with assms client_Do_sends [of E DefaultClient req w r w'] show ?thesis
    by (simp add: doNotificationRequest_def sends_through_def)
next
  case (Some i)
  obtain x v where get: "NotificationProxyRepo_GetByID E i w = (x, v)" by fastforce
  note v = get_proxy_result [OF get]
  show ?thesis
  proof (cases x)
    case (Inl e)
    with assms Some get v(1) show ?thesis by (auto simp: doNotificationRequest_def run_attempt run_fail split: if_splits)
  next
    case (Inr p)
    show ?thesis
    proof (cases "buildNotificationProxyHTTPClient E p")
      case (Inl e)
      with assms Some get Inr v(1) show ?thesis by (auto simp: doNotificationRequest_def run_attempt run_fail)
    next
      case (Inr client)
      with assms Some get \<open>x = Inr p\<close> have "client_Do E client req v = (r, w')"
        by (simp add: doNotificationRequest_def run_attempt)
      from client_Do_sends [OF this] v \<open>x = Inr p\<close> Some Inr show ?thesis
        by (auto simp: sends_through_def dest: proxied_client)
    qed
  qed
qed

text \<open>The proxy a channel names.\<close>

definition channel_proxy :: "env \<Rightarrow> NotificationChannel \<Rightarrow> nat option" where
  "channel_proxy E channel =
     (if ch_ChannelType channel = channelTypeWebhook then wc_ProxyID (fst (webhook_decode E (ch_ConfigJSON channel)))
      else tc_ProxyID (fst (telegram_decode E (ch_ConfigJSON channel))))"

lemma sends_through_normalized [simp]: "sends_through E w (normalizeNotificationProxyID p) = sends_through E w p"
  by (auto simp: fun_eq_iff sends_through_def normalizeNotificationProxyID_def split: option.split)

text \<open>Rendering a request sends nothing.\<close>

definition same_routes :: "world \<Rightarrow> world \<Rightarrow> bool" where
  "same_routes w v \<longleftrightarrow> outbox v = outbox w \<and> proxies v = proxies w"

lemma same_routes_tick [simp]: "tick_free (same_routes w)"
  by (simp add: tick_free_def same_routes_def)

lemma same_routes_through: "same_routes w v \<Longrightarrow> sends_through E v p c = sends_through E w p c"
  by (cases "normalizeNotificationProxyID p") (simp_all add: sends_through_def same_routes_def)

lemma renders_silently:
  "renderWebhookRequestFromConfig E cfg a w = (r, v) \<Longrightarrow> same_routes w v"
  "renderTelegramBatchRequest E tcfg as w = (r', v') \<Longrightarrow> same_routes w v'"
  using keepsD [OF keeps_render_webhook [OF same_routes_tick]] keepsD [OF keeps_render_telegram [OF same_routes_tick]]
  by (metis same_routes_def)+

lemma wrap_state: "wrap msg m w = (r, w') \<Longrightarrow> \<exists>r0. m w = (r0, w')"
  by (auto simp: run_wrap split: prod.splits sum.splits)

text \<open>A rendered request, sent, with a reply that is only read.\<close>

lemma sent_through_proxy:
  assumes "bnd render (\<lambda>(req, x). bnd (wrap msg (doNotificationRequest E req proxyID)) (\<lambda>resp. if P resp then fail (e resp) else ret (f resp))) w = (r, w')"
    and "\<And>q v. render w = (q, v) \<Longrightarrow> same_routes w v"
  shows "outbox w' = outbox w \<or> (\<exists>client req. outbox w' = outbox w @ [(client, req)] \<and> sends_through E w proxyID client)"
proof -
  obtain q v where q: "render w = (q, v)" by fastforce
  with assms(2) have v: "same_routes w v" by blast
  show ?thesis
  proof (cases q)
    case (Inl e)
    with assms(1) q v show ?thesis by (simp add: run_bnd same_routes_def)
  next
    case (Inr rx)
    obtain req x where rx: "rx = (req, x)" by (cases rx)
    obtain s u where s: "wrap msg (doNotificationRequest E req proxyID) v = (s, u)" by fastforce
    with wrap_state obtain s0 where d: "doNotificationRequest E req proxyID v = (s0, u)" by blast
    have "w' = u"
      using assms(1) q Inr rx s by (cases s) (auto simp: run_bnd run_fail run_ret split: if_splits)
    with request_through_proxy [OF d] same_routes_through [OF v] v show ?thesis by (auto simp: same_routes_def)
  qed
qed

lemma telegram_through_proxy:
  assumes "sendTelegramBatch E j as w = (r, w')"
  shows "outbox w' = outbox w \<or> (\<exists>client req. outbox w' = outbox w @ [(client, req)] \<and>
     sends_through E w (tc_ProxyID (fst (telegram_decode E j))) client)"
proof (cases "telegram_decode E j")
  case (Pair cfg err)
  show ?thesis
  proof (cases err)
    case (Some e)
    with assms Pair show ?thesis by (simp add: sendTelegramBatch_def run_fail)
  next
    case None
    from sent_through_proxy [OF assms [unfolded sendTelegramBatch_def Pair None prod.case option.case] renders_silently(2)] Pair
    show ?thesis by auto
  qed
qed

lemma webhook_through_proxy:
  assumes "sendWebhook E j a w = (r, w')"
  shows "outbox w' = outbox w \<or> (\<exists>client req. outbox w' = outbox w @ [(client, req)] \<and>
     sends_through E w (wc_ProxyID (fst (webhook_decode E j))) client)"
proof (cases "webhook_decode E j")
  case (Pair cfg err)
  show ?thesis
  proof (cases err)
    case (Some e)
    with assms Pair show ?thesis by (simp add: sendWebhook_def decodeWebhookChannelConfig_def run_bnd run_lift_sum)
  next
    case None
    let ?cfg = "cfg\<lparr>wc_ProxyID := normalizeNotificationProxyID (wc_ProxyID cfg)\<rparr>"
    have "bnd (renderWebhookRequestFromConfig E ?cfg a) (\<lambda>(req, _).
        bnd (wrap ''send webhook request: '' (doNotificationRequest E req (wc_ProxyID ?cfg))) (\<lambda>resp.
        if 300 \<le> hs_StatusCode resp then fail (Foreign (''webhook status '' @ show_int (hs_StatusCode resp)))
        else ret (fst (read_limited resp)))) w = (r, w')"
      using assms Pair None by (simp add: sendWebhook_def decodeWebhookChannelConfig_def run_bnd [of "lift_sum _"] run_lift_sum)
    from sent_through_proxy [OF this renders_silently(1)] Pair show ?thesis by auto
  qed
qed

text \<open>C5. A notification leaves the server at most once per attempt and through the proxy its channel names: it is sent
  with the client built from the stored proxy of that identifier, directly only if the channel names none. When the
  proxy is gone or unusable nothing is sent, whatever the database and the receiver do.\<close>

theorem proxy_not_bypassed:
  assumes "sendNotification E channel alert w = (r, w')"
  shows "outbox w' = outbox w \<or>
     (\<exists>client req. outbox w' = outbox w @ [(client, req)] \<and> sends_through E w (channel_proxy E channel) client)"
proof (cases "ch_ChannelType channel = channelTypeWebhook")
  case True
  with assms webhook_through_proxy show ?thesis by (simp add: sendNotification_def channel_proxy_def)
next
  case False
  show ?thesis
  proof (cases "ch_ChannelType channel = channelTypeTelegram")
    case True
    with False assms telegram_through_proxy show ?thesis by (simp add: sendNotification_def sendTelegram_def channel_proxy_def)
  next
    case other: False
    with False assms show ?thesis by (simp add: sendNotification_def run_fail)
  qed
qed

section \<open>Masked tokens\<close>

lemma trimmed_ends:
  "TrimSpace s = s \<longleftrightarrow> strip_one space_runes s = None \<and> strip_one (map rev space_runes) (rev s) = None"
proof
  let ?l = "trim_with space_runes s"
  let ?r = "trim_with (map rev space_runes) (rev ?l)"
  assume eq: "TrimSpace s = s"
  have "prefix (rev ?r) ?l" using trim_with_suffix [of "map rev space_runes" "rev ?l"] by (simp add: suffix_to_prefix)
  then have "strip_one space_runes (rev ?r) = None" using trim_with_stops strip_one_None_prefix by blast
  with trim_with_stops [of "map rev space_runes" "rev ?l"]
  show "strip_one space_runes s = None \<and> strip_one (map rev space_runes) (rev s) = None" using eq unfolding TrimSpace_def by (metis rev_rev_ident)
next
  assume "strip_one space_runes s = None \<and> strip_one (map rev space_runes) (rev s) = None"
  then show "TrimSpace s = s" by (simp add: TrimSpace_def trim_with_id)
qed

lemma prefix_take: "length x \<le> n \<Longrightarrow> take n s = take n t \<Longrightarrow> prefix x s \<longleftrightarrow> prefix x t"
  by (metis append_take_drop_id min.absorb1 prefixI prefix_def take_append take_take append_eq_conv_conj)

lemma strip_same_start: "take 3 s = take 3 t \<Longrightarrow> strip_one space_runes s = None \<longleftrightarrow> strip_one space_runes t = None"
  "take 3 s = take 3 t \<Longrightarrow> strip_one (map rev space_runes) s = None \<longleftrightarrow> strip_one (map rev space_runes) t = None"
proof -
  have len: "length x \<le> 3" if "x \<in> set space_runes" for x using that by (auto simp: space_runes_def)
  then have len': "length x \<le> 3" if "x \<in> set (map rev space_runes)" for x using that by auto
  show "take 3 s = take 3 t \<Longrightarrow> strip_one space_runes s = None \<longleftrightarrow> strip_one space_runes t = None"
    unfolding strip_one_None_iff using prefix_take [OF len, of _ s t] by blast
  show "take 3 s = take 3 t \<Longrightarrow> strip_one (map rev space_runes) s = None \<longleftrightarrow> strip_one (map rev space_runes) t = None"
    unfolding strip_one_None_iff using prefix_take [OF len', of _ s t] by blast
qed

text \<open>The mask of a trimmed token is trimmed: a form that is sent back names the mask itself.\<close>

lemma TrimSpace_mask: "TrimSpace token = token \<Longrightarrow> TrimSpace (maskToken token) = maskToken token"
proof (cases "length token \<le> 8")
  case False
  assume t: "TrimSpace token = token"
  have "take 3 (maskToken token) = take 3 token" using False by (simp add: maskToken_def min_def)
  moreover have "take 3 (rev (maskToken token)) = take 3 (rev token)"
  proof -
    have "rev (drop (length token - 4) token) = take 4 (rev token)" using False by (simp add: rev_drop)
    with False show ?thesis by (simp add: maskToken_def min_def)
  qed
  ultimately show "TrimSpace (maskToken token) = maskToken token"
    using t strip_same_start unfolding trimmed_ends by blast
qed (simp add: maskToken_def)

lemma maskToken_Nil [simp]: "maskToken [] = []" "maskToken token = [] \<longleftrightarrow> token = []"
  by (auto simp: maskToken_def)

section \<open>The settings form\<close>

text \<open>The form shows what the list of channels tells, and sends it back.\<close>

definition telegram_form :: "NotificationChannelResp \<Rightarrow> UpsertTelegramChannelReq" where
  "telegram_form r =
     \<lparr>ut_Enabled = nc_Enabled r, ut_BotToken = nc_TokenMasked r, ut_ChatID = nc_ChatID r, ut_Message = nc_Message r,
      ut_ProxyID = nc_ProxyID r\<rparr>"

definition telegram_config :: "env \<Rightarrow> NotificationChannel list \<Rightarrow> UpsertTelegramChannelReq \<Rightarrow> telegramChannelConfig" where
  "telegram_config E rows req =
     \<lparr>tc_BotToken = keptBotToken E rows (TrimSpace (ut_BotToken req)), tc_ChatID = TrimSpace (ut_ChatID req),
      tc_Message = (if TrimSpace (ut_Message req) = [] then defaultTelegramMessage else TrimSpace (ut_Message req)),
      tc_ProxyID = normalizeNotificationProxyID (ut_ProxyID req)\<rparr>"

definition telegram_row :: "env \<Rightarrow> NotificationChannel list \<Rightarrow> UpsertTelegramChannelReq \<Rightarrow> NotificationChannel" where
  "telegram_row E rows req =
     \<lparr>ch_ID = 0, ch_CreatedAt = zero_time, ch_UpdatedAt = zero_time, ch_ChannelType = channelTypeTelegram,
      ch_Enabled = ut_Enabled req, ch_ConfigJSON = telegram_encode E (telegram_config E rows req)\<rparr>"

text \<open>What a reader sees of a channel.\<close>

definition telegram_settings :: "world \<Rightarrow> (bool \<times> string) option" where
  "telegram_settings w = map_option (\<lambda>c. (ch_Enabled c, ch_ConfigJSON c)) (lookup_by ch_ChannelType channelTypeTelegram (channels w))"

definition proxy_known :: "world \<Rightarrow> nat option \<Rightarrow> bool" where
  "proxy_known w proxyID \<longleftrightarrow> (case normalizeNotificationProxyID proxyID of None \<Rightarrow> True | Some i \<Rightarrow> i \<in> px_ID ` set (proxies w))"

lemma validate_proxy_run:
  assumes "no_faults E"
  shows "\<exists>r n. validateNotificationProxyID E proxyID w = (r, ticked n w) \<and> (r = Inr () \<longleftrightarrow> proxy_known w proxyID)"
proof (cases "normalizeNotificationProxyID proxyID")
  case None
  then have "validateNotificationProxyID E proxyID w = (Inr (), ticked 0 w)"
    by (simp add: validateNotificationProxyID_def run_ret ticked_def)
  with None show ?thesis by (auto simp: proxy_known_def)
next
  case (Some i)
  show ?thesis
  proof (cases "sql_first px_ID (\<lambda>p. px_ID p = i) (proxies w)")
    case None
    then have "i \<notin> px_ID ` set (proxies w)" by (auto simp: sql_first_None)
    with None Some assms show ?thesis
      by (auto simp: validateNotificationProxyID_def NotificationProxyRepo_GetByID_def run_simps proxy_known_def)
  next
    case (Some p)
    then have "i \<in> px_ID ` set (proxies w)" using sql_first_Some [OF Some] by auto
    with Some \<open>normalizeNotificationProxyID proxyID = Some i\<close> assms show ?thesis
      by (auto simp: validateNotificationProxyID_def NotificationProxyRepo_GetByID_def run_simps proxy_known_def)
  qed
qed

lemma upsert_telegram_run:
  assumes "no_faults E"
  obtains r w' n where "AlertService_UpsertTelegramChannel E req w = (r, w')" and "r = Inr () \<longleftrightarrow> proxy_known w (ut_ProxyID req)"
    and "r = Inr () \<Longrightarrow> proxies w' = proxies w \<and> channels w' = sql_upsert ch_ChannelType channel_upd
      (channel_row (telegram_row E (sort_key ch_ChannelType (channels w)) req) (clk E (tick w + n)) w) (channels w)"
proof -
  obtain v n where v: "validateNotificationProxyID E (ut_ProxyID req) w = (v, ticked n w)"
    and ok: "v = Inr () \<longleftrightarrow> proxy_known w (ut_ProxyID req)"
    using validate_proxy_run [OF assms] by blast
  show thesis
  proof (cases v)
    case (Inl e)
    with v ok show thesis
      by (intro that [of "Inl e" "ticked n w"])
        (auto simp: AlertService_UpsertTelegramChannel_def buildTelegramChannelConfig_def Let_def run_simps)
  next
    case (Inr u)
    let ?row = "channel_row (telegram_row E (sort_key ch_ChannelType (channels w)) req) (clk E (tick w + Suc n)) w"
    let ?w' = "(bump_seq TChannels 1 (ticked (n + 2) w))\<lparr>channels := sql_upsert ch_ChannelType channel_upd ?row (channels w)\<rparr>"
    have "AlertService_UpsertTelegramChannel E req w = (Inr (), ?w')"
      using v Inr assms
      by (simp add: AlertService_UpsertTelegramChannel_def buildTelegramChannelConfig_def Let_def run_simps
          NotificationChannelRepo_List_def NotificationChannelRepo_Upsert_def telegram_row_def telegram_config_def channel_row_def)
    moreover have "v = Inr ()" using Inr by simp
    ultimately show thesis using ok by (intro that [of "Inr ()" ?w' "Suc n"]) (simp_all add: bump_seq_def)
  qed
qed

lemma default_message_trimmed: "TrimSpace defaultTelegramMessage = defaultTelegramMessage"
  unfolding trimmed_ends strip_one_None_iff space_runes_def by (simp add: defaultTelegramMessage_def)

lemma normalize_proxy_idem [simp]: "normalizeNotificationProxyID (normalizeNotificationProxyID p) = normalizeNotificationProxyID p"
  by (auto simp: normalizeNotificationProxyID_def split: option.split)

lemma saved_settings:
  assumes "channels w' = sql_upsert ch_ChannelType channel_upd (channel_row (telegram_row E rows req) t v) (channels w)"
  shows "telegram_settings w' = Some (ut_Enabled req, telegram_encode E (telegram_config E rows req))"
  using assms
  by (auto simp: telegram_settings_def channel_tbl.lookup_upsert channel_row_def telegram_row_def channel_upd_def split: option.split)

lemma kept_token_trimmed: "TrimSpace (keptBotToken E rows (TrimSpace s)) = keptBotToken E rows (TrimSpace s)"
  by (auto simp: keptBotToken_def Let_def split: option.split)

text \<open>Sending the form back rebuilds the stored configuration.\<close>

lemma form_config:
  assumes cfg: "cfg = telegram_config E rows req" and c: "lookup_by ch_ChannelType channelTypeTelegram rows' = Some c"
    and dec: "telegram_decode E (ch_ConfigJSON c) = (cfg, None)" and r: "channelResp E c = [r]" and "ch_ChannelType c = channelTypeTelegram"
  shows "telegram_config E rows' (telegram_form r) = cfg"
proof -
  have tok: "TrimSpace (tc_BotToken cfg) = tc_BotToken cfg" by (simp add: cfg telegram_config_def kept_token_trimmed)
  have "keptBotToken E rows' (maskToken (tc_BotToken cfg)) = tc_BotToken cfg"
    using c dec tok by (auto simp: keptBotToken_def lookup_by_def Let_def)
  moreover have "defaultTelegramMessage \<noteq> []" by (simp add: defaultTelegramMessage_def)
  then have "TrimSpace (tc_Message cfg) = tc_Message cfg" "tc_Message cfg \<noteq> []"
    by (auto simp: cfg telegram_config_def default_message_trimmed)
  moreover have "nc_TokenMasked r = maskToken (tc_BotToken cfg)" "nc_ChatID r = tc_ChatID cfg" "nc_Message r = tc_Message cfg"
    "nc_ProxyID r = tc_ProxyID cfg"
    using r dec assms(5) calculation by (auto simp: channelResp_def Let_def)
  ultimately show ?thesis
    using TrimSpace_mask [OF tok] by (simp add: telegram_config_def telegram_form_def) (simp add: cfg telegram_config_def)
qed

text \<open>C6. Saving the Telegram settings as they are shown changes nothing: after a successful save, the form that the
  list of channels fills, with the bot token masked, can be saved again and leaves the stored token, chat, message,
  proxy and switch as they were, if the configuration is read back as it was written.\<close>

theorem telegram_form_round_trip:
  assumes "no_faults E" and "channel_tbl.unique (channels w)"
    and "AlertService_UpsertTelegramChannel E req w = (Inr (), w1)"
    and "cfg = telegram_config E (sort_key ch_ChannelType (channels w)) req" and "telegram_decode E (telegram_encode E cfg) = (cfg, None)"
    and "AlertService_ListNotificationChannels E w1 = (Inr rs, w2)" and "r \<in> set rs" and "nc_ChannelType r = channelTypeTelegram"
  shows "\<exists>w3. AlertService_UpsertTelegramChannel E (telegram_form r) w2 = (Inr (), w3) \<and>
     telegram_settings w3 = telegram_settings w1 \<and> telegram_settings w1 = Some (ut_Enabled req, telegram_encode E cfg)"
proof -
  obtain n where known: "proxy_known w (ut_ProxyID req)" and prox: "proxies w1 = proxies w"
    and chans: "channels w1 = sql_upsert ch_ChannelType channel_upd
      (channel_row (telegram_row E (sort_key ch_ChannelType (channels w)) req) (clk E (tick w + n)) w) (channels w)"
    using upsert_telegram_run [OF assms(1), of req w] assms(3) by (metis prod.inject)
  have unique: "channel_tbl.unique (channels w1)" using assms(2) by (simp add: chans channel_tbl.unique_upsert)
  have set1: "telegram_settings w1 = Some (ut_Enabled req, telegram_encode E cfg)"
    using saved_settings [OF chans] assms(4) by simp
  have w2: "w2 = ticked 1 w1" and rs: "rs = concat (map (channelResp E) (sort_key ch_ChannelType (channels w1)))"
    using assms(1,6) by (auto simp: AlertService_ListNotificationChannels_def NotificationChannelRepo_List_def run_simps)
  obtain c where c: "c \<in> set (channels w1)" "r \<in> set (channelResp E c)" using assms(7) rs by auto
  then have type: "ch_ChannelType c = channelTypeTelegram" and resp: "channelResp E c = [r]"
    using assms(8) by (auto simp: channelResp_def Let_def split: if_splits)
  have look: "lookup_by ch_ChannelType channelTypeTelegram (channels w1) = Some c"
    using channel_tbl.lookup_unique [OF unique c(1)] type by simp
  with set1 have dec: "telegram_decode E (ch_ConfigJSON c) = (cfg, None)" and en: "ch_Enabled c = ut_Enabled req"
    using assms(5) by (simp_all add: telegram_settings_def)
  let ?rows = "sort_key ch_ChannelType (channels w2)"
  have "lookup_by ch_ChannelType channelTypeTelegram ?rows = Some c"
    using look by (simp add: w2 channel_tbl.lookup_sort [OF unique])
  from form_config [OF assms(4) this dec resp type] have same: "telegram_config E ?rows (telegram_form r) = cfg" .
  have form: "ut_ProxyID (telegram_form r) = tc_ProxyID cfg" "ut_Enabled (telegram_form r) = ut_Enabled req"
    using resp type dec en by (auto simp: channelResp_def telegram_form_def Let_def)
  have "proxy_known w2 (ut_ProxyID (telegram_form r))"
    using known prox by (simp add: form w2 assms(4) telegram_config_def proxy_known_def cong: option.case_cong)
  then obtain w3 m where "AlertService_UpsertTelegramChannel E (telegram_form r) w2 = (Inr (), w3)"
    and "channels w3 = sql_upsert ch_ChannelType channel_upd
      (channel_row (telegram_row E ?rows (telegram_form r)) (clk E (tick w2 + m)) w2) (channels w2)"
    using upsert_telegram_run [OF assms(1), of "telegram_form r" w2] by metis
  with saved_settings [OF this(2)] same form set1 show ?thesis by auto
qed

section \<open>Messages\<close>

text \<open>Well-formed UTF-8, as a text column takes it.\<close>

fun continuations :: "nat \<Rightarrow> string \<Rightarrow> string option" where
  "continuations 0 s = Some s"
| "continuations (Suc n) [] = None"
| "continuations (Suc n) (c # s) = (if 0x80 \<le> (of_char c :: nat) \<and> (of_char c :: nat) \<le> 0xBF then continuations n s else None)"

lemma continuations_shorter: "continuations n s = Some r \<Longrightarrow> length r \<le> length s"
  by (induction n s rule: continuations.induct) (auto split: if_splits)

text \<open>The length of the encoding that a byte starts, and the range of the byte after it.\<close>

definition lead_length :: "nat \<Rightarrow> nat option" where
  "lead_length b =
     (if b < 0x80 then Some 0 else if 0xC2 \<le> b \<and> b \<le> 0xDF then Some 1 else if 0xE0 \<le> b \<and> b \<le> 0xEF then Some 2
      else if 0xF0 \<le> b \<and> b \<le> 0xF4 then Some 3 else None)"

definition second_ok :: "nat \<Rightarrow> string \<Rightarrow> bool" where
  "second_ok b s =
     (case s of [] \<Rightarrow> True
      | c # _ \<Rightarrow> (b = 0xE0 \<longrightarrow> 0xA0 \<le> (of_char c :: nat)) \<and> (b = 0xED \<longrightarrow> (of_char c :: nat) \<le> 0x9F) \<and>
          (b = 0xF0 \<longrightarrow> 0x90 \<le> (of_char c :: nat)) \<and> (b = 0xF4 \<longrightarrow> (of_char c :: nat) \<le> 0x8F))"

function valid_utf8 :: "string \<Rightarrow> bool" where
  "valid_utf8 [] = True"
| "valid_utf8 (c # s) =
     (case lead_length (of_char c) of
        None \<Rightarrow> False
      | Some n \<Rightarrow> second_ok (of_char c) s \<and> (case continuations n s of None \<Rightarrow> False | Some r \<Rightarrow> valid_utf8 r))"
  by pat_completeness auto
termination
  by (relation "measure length") (auto dest: continuations_shorter)

lemma valid_ascii: "(of_char c :: nat) < 0x80 \<Longrightarrow> valid_utf8 (replicate n c @ s) = valid_utf8 s"
  by (induction n) (auto simp: lead_length_def second_ok_def split: list.split)

text \<open>A message is cut to its first 512 bytes, and a cut may leave half a character, which a UTF-8 database refuses: the
  delivery is then not recorded and the dispatch ends with its error.\<close>

lemma trimmed_message: "length (trimMessage m) \<le> 512" "prefix (trimMessage m) m"
  by (simp_all add: trimMessage_def take_is_prefix)

lemma trim_splits_character: "\<exists>m. valid_utf8 m \<and> \<not> valid_utf8 (trimMessage m)"
proof (intro exI conjI)
  let ?m = "replicate 511 (CHR ''a'') @ [CHR 0xC3, CHR 0xA9]"
  show "valid_utf8 ?m" by (subst valid_ascii) (simp_all add: lead_length_def second_ok_def numeral_eq_Suc)
  have "trimMessage ?m = replicate 511 (CHR ''a'') @ [CHR 0xC3]" by (simp add: trimMessage_def)
  then show "\<not> valid_utf8 (trimMessage ?m)" by (simp only:) (subst valid_ascii, simp_all add: lead_length_def second_ok_def)
qed

section \<open>Examples\<close>

definition example_webhook :: NotificationChannel where
  "example_webhook =
     \<lparr>ch_ID = 1, ch_CreatedAt = 0, ch_UpdatedAt = 0, ch_ChannelType = ''webhook'', ch_Enabled = True, ch_ConfigJSON = ''https://h''\<rparr>"

theorem proxy_not_bypassed_witness:
  "\<exists>r w'. sendNotification example_env example_webhook (test_alert ''k'') empty_world = (r, w') \<and>
     (outbox w' = [] \<or> (\<exists>client req. outbox w' = [(client, req)] \<and> client = DefaultClient))"
proof -
  obtain r w' where run: "sendNotification example_env example_webhook (test_alert ''k'') empty_world = (r, w')" by fastforce
  have "channel_proxy example_env example_webhook = None"
    by (simp add: channel_proxy_def example_webhook_def example_env_def)
  with proxy_not_bypassed [OF run] run show ?thesis
    by (auto simp: sends_through_def normalizeNotificationProxyID_def empty_world_def)
qed

definition example_settings :: UpsertTelegramChannelReq where
  "example_settings =
     \<lparr>ut_Enabled = True, ut_BotToken = ''123456:secret'', ut_ChatID = ''42'', ut_Message = ''m'', ut_ProxyID = None\<rparr>"

definition example_telegram :: telegramChannelConfig where
  "example_telegram = \<lparr>tc_BotToken = ''123456:secret'', tc_ChatID = ''42'', tc_Message = ''m'', tc_ProxyID = None\<rparr>"

abbreviation telegram_env :: env where
  "telegram_env \<equiv> example_env\<lparr>telegram_decode := \<lambda>_. (example_telegram, None)\<rparr>"

lemma example_trims:
  "TrimSpace ''123456:secret'' = ''123456:secret''" "TrimSpace ''42'' = ''42''" "TrimSpace ''m'' = ''m''"
  by code_simp+

lemma example_telegram_config: "telegram_config telegram_env [] example_settings = example_telegram"
  by (simp add: telegram_config_def example_settings_def example_telegram_def example_trims keptBotToken_def normalizeNotificationProxyID_def)

theorem telegram_form_round_trip_witness:
  "\<exists>w1 r w2 w3. AlertService_UpsertTelegramChannel telegram_env example_settings empty_world = (Inr (), w1) \<and>
     AlertService_ListNotificationChannels telegram_env w1 = (Inr [r], w2) \<and> nc_TokenMasked r = ''1234...cret'' \<and>
     AlertService_UpsertTelegramChannel telegram_env (telegram_form r) w2 = (Inr (), w3) \<and> telegram_settings w3 = telegram_settings w1"
proof -
  have E: "no_faults telegram_env" by (simp add: no_faults_def example_env_def)
  have "proxy_known empty_world (ut_ProxyID example_settings)"
    by (simp add: proxy_known_def example_settings_def normalizeNotificationProxyID_def)
  then obtain w1 n where up: "AlertService_UpsertTelegramChannel telegram_env example_settings empty_world = (Inr (), w1)"
    and "channels w1 = sql_upsert ch_ChannelType channel_upd
      (channel_row (telegram_row telegram_env (sort_key ch_ChannelType (channels empty_world)) example_settings)
         (clk telegram_env (tick empty_world + n)) empty_world) (channels empty_world)"
    using upsert_telegram_run [OF E, of example_settings empty_world] by metis
  then have ch: "\<exists>c. channels w1 = [c] \<and> ch_ChannelType c = channelTypeTelegram"
    by (simp add: empty_world_def sql_upsert_def channel_row_def telegram_row_def)
  then obtain c where c: "channels w1 = [c]" "ch_ChannelType c = channelTypeTelegram" by blast
  then obtain r where r: "channelResp telegram_env c = [r]" "nc_ChannelType r = channelTypeTelegram" "nc_TokenMasked r = ''1234...cret''"
    by (simp add: channelResp_def Let_def example_telegram_def maskToken_def)
  then have l: "AlertService_ListNotificationChannels telegram_env w1 = (Inr [r], ticked 1 w1)"
    using c E by (simp add: AlertService_ListNotificationChannels_def NotificationChannelRepo_List_def run_simps)
  have "example_telegram = telegram_config telegram_env (sort_key ch_ChannelType (channels empty_world)) example_settings"
    by (simp add: example_telegram_config empty_world_def)
  from telegram_form_round_trip [OF E _ up this _ l _ r(2)]
  have "\<exists>w3. AlertService_UpsertTelegramChannel telegram_env (telegram_form r) (ticked 1 w1) = (Inr (), w3) \<and> telegram_settings w3 = telegram_settings w1"
    by (auto simp: channel_tbl.unique_def empty_world_def)
  with up l r(3) show ?thesis by blast
qed

end
