(* ===== verification/Races.thy ===== *)
theory Races
  imports Machines
begin

text \<open>
  Requests on machines and keys that run at the same time. A service checks first and writes in a later statement, without
  a transaction, and the schema has no foreign keys. The relation \<open>race\<close> interleaves the requests at that point: a
  checked request is \<open>pending\<close> until its write. Alone, a request is its check directly followed by its write.
\<close>

section \<open>Checks and writes\<close>

datatype pending = Creating Machine | Saving Machine | Dropping nat

inductive race :: "env \<Rightarrow> pending list \<times> world \<Rightarrow> pending list \<times> world \<Rightarrow> bool" for E where
  create_checked: "validateMachine E (machineFromReq req) w = (Inr (), w') \<Longrightarrow>
     race E (ps, w) (Creating (machineFromReq req) # ps, w')"
| update_checked: "getMachine E ''get machine for update: '' i w = (Inr old, v) \<Longrightarrow>
     validateMachine E (applyMachineUpdate old req) v = (Inr (), w') \<Longrightarrow> race E (ps, w) (Saving (applyMachineUpdate old req) # ps, w')"
| delete_checked: "wrap ''list machines by ssh key: '' (MachineRepo_ListBySSHKeyID E i) w = (Inr [], w') \<Longrightarrow>
     race E (ps, w) (Dropping i # ps, w')"
| created: "Creating m \<in> set ps \<Longrightarrow> wrap ''create machine: '' (MachineRepo_Create E m) w = (Inr row, w') \<Longrightarrow>
     race E (ps, w) (remove1 (Creating m) ps, w')"
| saved: "Saving m \<in> set ps \<Longrightarrow> wrap ''update machine: '' (MachineRepo_Update E m) w = (Inr row, w') \<Longrightarrow>
     race E (ps, w) (remove1 (Saving m) ps, w')"
| dropped: "Dropping i \<in> set ps \<Longrightarrow> wrap ''delete ssh key: '' (SSHKeyRepo_DeleteByID E i) w = (Inr (), w') \<Longrightarrow>
     race E (ps, w) (remove1 (Dropping i) ps, w')"
| machine_deleted: "MachineService_Delete E i w = (Inr (), w') \<Longrightarrow> race E (ps, w) (ps, w')"

text \<open>A successful request on its own is its check followed by its write.\<close>

lemma two_steps: "race E s t \<Longrightarrow> race E t u \<Longrightarrow> (race E)\<^sup>*\<^sup>* s u"
  by (meson converse_rtranclp_into_rtranclp r_into_rtranclp)

lemma alone:
  "MachineService_Create E req w = (Inr x, w') \<Longrightarrow> (race E)\<^sup>*\<^sup>* ([], w) ([], w')"
  "MachineService_Update E i ureq w = (Inr x, w') \<Longrightarrow> (race E)\<^sup>*\<^sup>* ([], w) ([], w')"
  "SSHKeyService_Delete E i w = (Inr (), w') \<Longrightarrow> (race E)\<^sup>*\<^sup>* ([], w) ([], w')"
proof -
  assume "MachineService_Create E req w = (Inr x, w')"
  then obtain v row where "validateMachine E (machineFromReq req) w = (Inr (), v)"
    and "wrap ''create machine: '' (MachineRepo_Create E (machineFromReq req)) v = (Inr row, w')"
    by (auto simp: MachineService_Create_def Let_def run_ret elim!: bnd_InrE)
  then show "(race E)\<^sup>*\<^sup>* ([], w) ([], w')"
    using two_steps [OF create_checked [where ps = "[]"] created [where ps = "[Creating (machineFromReq req)]"]] by simp
next
  assume "MachineService_Update E i ureq w = (Inr x, w')"
  then obtain old u v row where "getMachine E ''get machine for update: '' i w = (Inr old, u)"
    and "validateMachine E (applyMachineUpdate old ureq) u = (Inr (), v)"
    and "wrap ''update machine: '' (MachineRepo_Update E (applyMachineUpdate old ureq)) v = (Inr row, w')"
    by (auto simp: MachineService_Update_def Let_def run_ret elim!: bnd_InrE)
  then show "(race E)\<^sup>*\<^sup>* ([], w) ([], w')"
    using two_steps [OF update_checked [where ps = "[]"] saved [where ps = "[Saving (applyMachineUpdate old ureq)]"]] by simp
next
  assume "SSHKeyService_Delete E i w = (Inr (), w')"
  then obtain v where "wrap ''list machines by ssh key: '' (MachineRepo_ListBySSHKeyID E i) w = (Inr [], v)"
    and "wrap ''delete ssh key: '' (SSHKeyRepo_DeleteByID E i) v = (Inr (), w')"
    by (auto simp: SSHKeyService_Delete_def run_fail elim!: bnd_InrE split: if_splits)
  then show "(race E)\<^sup>*\<^sup>* ([], w) ([], w')"
    using two_steps [OF delete_checked [where ps = "[]"] dropped [where ps = "[Dropping i]"]] by simp
qed

section \<open>What goes wrong\<close>

lemma validate_run:
  assumes "no_faults E" and "valid_fields m" and "mc_SSHKeyID m \<noteq> 0" and "mc_SSHKeyID m \<in> sk_ID ` set (ssh_keys w)"
  shows "validateMachine E m w = (Inr (), ticked 1 w)"
proof -
  obtain k where "sql_first sk_ID (\<lambda>k. sk_ID k = mc_SSHKeyID m) (ssh_keys w) = Some k"
    using assms(4) sql_first_None [of sk_ID "\<lambda>k. sk_ID k = mc_SSHKeyID m" "ssh_keys w"] by fastforce
  with assms(1-3) show ?thesis
    by (simp add: validateMachine_def valid_fields_def SSHKeyRepo_GetByID_def run_simps not_le)
qed

text \<open>C31. A key can be deleted under a machine that is just being created: when a request to create a machine with an unused
  key and a request to delete that key run at the same time, both can pass their checks before either writes, both
  succeed, and a machine stays behind whose key is gone. Alone, neither request does that.\<close>

theorem key_deletion_race:
  assumes "no_faults E" and "i \<in> sk_ID ` set (ssh_keys w)" and "i \<noteq> 0" and "\<forall>m\<in>set (machines w). mc_SSHKeyID m \<noteq> i"
    and "valid_fields (machineFromReq req)" and "cm_SSHKeyID req = i"
  shows "\<exists>w' m. (race E)\<^sup>*\<^sup>* ([], w) ([], w') \<and> m \<in> set (machines w') \<and> mc_SSHKeyID m \<notin> sk_ID ` set (ssh_keys w')"
proof -
  let ?m = "machineFromReq req"
  let ?row = "?m\<lparr>mc_ID := seqs w TMachines, mc_CreatedAt := gorm_stamp (mc_CreatedAt ?m) (clk E (tick w + 2)),
      mc_UpdatedAt := gorm_stamp (mc_UpdatedAt ?m) (clk E (tick w + 2))\<rparr>"
  let ?v = "(bump_seq TMachines 1 (ticked 3 w))\<lparr>machines := machines w @ [?row]\<rparr>"
  let ?w' = "(ticked 1 ?v)\<lparr>ssh_keys := sql_delete (\<lambda>k. sk_ID k = i) (ssh_keys w)\<rparr>"
  have key: "mc_SSHKeyID ?m = i" using assms(6) by (simp add: machineFromReq_def)
  have "race E ([], w) ([Creating ?m], ticked 1 w)"
    by (intro create_checked validate_run) (use assms key in auto)
  moreover have "wrap ''list machines by ssh key: '' (MachineRepo_ListBySSHKeyID E i) (ticked 1 w) = (Inr [], ticked 2 w)"
    using assms(1,4) by (simp add: MachineRepo_ListBySSHKeyID_def run_simps sort_key_Nil filter_empty_conv numeral_2_eq_2)
  then have "race E ([Creating ?m], ticked 1 w) ([Dropping i, Creating ?m], ticked 2 w)" by (rule delete_checked)
  moreover have "wrap ''create machine: '' (MachineRepo_Create E ?m) (ticked 2 w) = (Inr ?row, ?v)"
    using assms(1) by (simp add: MachineRepo_Create_def run_simps Let_def bump_seq_def)
  then have "race E ([Dropping i, Creating ?m], ticked 2 w) ([Dropping i], ?v)"
    using created [of ?m "[Dropping i, Creating ?m]" E "ticked 2 w" ?row ?v] by simp
  moreover have "wrap ''delete ssh key: '' (SSHKeyRepo_DeleteByID E i) ?v = (Inr (), ?w')"
    using assms(1) by (simp add: SSHKeyRepo_DeleteByID_def run_simps)
  then have "race E ([Dropping i], ?v) ([], ?w')"
    using dropped [of i "[Dropping i]" E ?v ?w'] by simp
  ultimately have "(race E)\<^sup>*\<^sup>* ([], w) ([], ?w')" by (meson converse_rtranclp_into_rtranclp rtranclp.rtrancl_refl)
  moreover have "?row \<in> set (machines ?w')" "mc_SSHKeyID ?row \<notin> sk_ID ` set (ssh_keys ?w')"
    using key by (auto simp: sql_delete_def)
  ultimately show ?thesis by blast
qed

text \<open>An update that was checked before its machine was deleted writes the machine back.\<close>

lemma deleted_machine_returns:
  assumes "no_faults E" and "m \<in> set (machines w)" and "distinct (map mc_ID (machines w))"
    and "valid_fields m" and "mc_SSHKeyID m \<noteq> 0" and "mc_SSHKeyID m \<in> sk_ID ` set (ssh_keys w)"
    and "applyMachineUpdate m req = m"
  shows "\<exists>v w'. (race E)\<^sup>*\<^sup>* ([], w) ([Saving m], v) \<and> mc_ID m \<notin> mc_ID ` set (machines v) \<and> race E ([Saving m], v) ([], w') \<and>
     mc_ID m \<in> mc_ID ` set (machines w')"
proof -
  have first: "sql_first mc_ID (\<lambda>x. mc_ID x = mc_ID m) (machines w) = Some m"
    by (rule first_by_id [OF assms(3,2)])
  have get: "getMachine E msg (mc_ID m) w = (Inr m, ticked 1 w)" for msg
    using assms(1) first by (simp add: getMachine_def run_simps)
  let ?v = "(ticked 4 w)\<lparr>machines := sql_delete (\<lambda>x. mc_ID x = mc_ID m) (machines w)\<rparr>"
  let ?row = "m\<lparr>mc_UpdatedAt := clk E (tick w + 4)\<rparr>"
  let ?w' = "(ticked 1 ?v)\<lparr>machines := sql_upsert mc_ID (\<lambda>_ new. new) ?row (machines ?v)\<rparr>"
  have "race E ([], w) ([Saving m], ticked 2 w)"
    using update_checked [where ps = "[]" and req = req, OF get] validate_run [OF assms(1,4,5), of "ticked 1 w"] assms(6,7)
    by (simp add: numeral_2_eq_2)
  moreover have "MachineService_Delete E (mc_ID m) (ticked 2 w) = (Inr (), ?v)"
    using assms(1) first by (simp add: MachineService_Delete_def getMachine_def MachineRepo_DeleteByID_def run_simps)
  then have "race E ([Saving m], ticked 2 w) ([Saving m], ?v)" by (rule machine_deleted)
  moreover have "wrap ''update machine: '' (MachineRepo_Update E m) ?v = (Inr ?row, ?w')"
    using assms(1) by (simp add: MachineRepo_Update_def run_simps Let_def)
  then have "race E ([Saving m], ?v) ([], ?w')"
    using saved [of m "[Saving m]" E ?v ?row ?w'] by simp
  moreover have "mc_ID m \<notin> mc_ID ` set (machines ?v)" by (auto simp: sql_delete_def)
  moreover have "mc_ID m \<in> mc_ID ` set (machines ?w')" by (auto simp: sql_upsert_def sql_delete_def image_iff)
  ultimately show ?thesis by (meson two_steps)
qed

definition example_request :: CreateMachineReq where
  "example_request =
     \<lparr>cm_Name = ''web'', cm_Host = ''h'', cm_Port = 22, cm_SSHUser = ''root'', cm_NetworkInterface = ''eth0'', cm_SSHKeyID = 1,
      cm_CollectEnabled = True, cm_Remark = []\<rparr>"

lemma example_words: "TrimSpace ''web'' = ''web''" "TrimSpace ''h'' = ''h''" "TrimSpace ''root'' = ''root''" "TrimSpace ''eth0'' = ''eth0''"
  by code_simp+

theorem key_deletion_race_witness:
  "\<exists>w' m. (race example_env)\<^sup>*\<^sup>* ([], keyed_world\<lparr>machines := []\<rparr>) ([], w') \<and> m \<in> set (machines w') \<and>
     mc_SSHKeyID m \<notin> sk_ID ` set (ssh_keys w')"
  by (rule key_deletion_race [where i = 1 and req = example_request])
    (simp_all add: example_request_def machineFromReq_def valid_fields_def example_words stored_key_def)

end
