(* ===== verification/Footprint.thy ===== *)
theory Footprint
  imports Server
begin

text \<open>
  What each operation may write. An \<open>area\<close> is a table with its identifier sequence, the log of sent requests or the
  log of SSH commands; \<open>confined A w v\<close> says that \<open>v\<close> differs from \<open>w\<close> at most in the areas \<open>A\<close> (and in the call
  counter). The rules \<open>frames\<close> give the footprint of every repository method, and with the rules for the monad
  those of the services, the handlers and the requests.
\<close>

named_theorems frames \<open>the footprints of repository methods and services\<close>

section \<open>Areas\<close>

datatype area = AdminRows | AlertRows | ChannelRows | ProxyRows | DeliveryRows | SettingRows | MachineRows | KeyRows
  | GlobalRuleRows | MachineRuleRows | SampleRows | SentRequests | SSHCommands

primrec same_area :: "area \<Rightarrow> world \<Rightarrow> world \<Rightarrow> bool" where
  "same_area AdminRows w v = (admins v = admins w \<and> seqs v TAdmins = seqs w TAdmins)"
| "same_area AlertRows w v = (alerts v = alerts w \<and> seqs v TAlerts = seqs w TAlerts)"
| "same_area ChannelRows w v = (channels v = channels w \<and> seqs v TChannels = seqs w TChannels)"
| "same_area ProxyRows w v = (proxies v = proxies w \<and> seqs v TProxies = seqs w TProxies)"
| "same_area DeliveryRows w v = (deliveries v = deliveries w \<and> seqs v TDeliveries = seqs w TDeliveries)"
| "same_area SettingRows w v = (settings v = settings w)"
| "same_area MachineRows w v = (machines v = machines w \<and> seqs v TMachines = seqs w TMachines)"
| "same_area KeyRows w v = (ssh_keys v = ssh_keys w \<and> seqs v TSSHKeys = seqs w TSSHKeys)"
| "same_area GlobalRuleRows w v = (global_rules v = global_rules w \<and> seqs v TGlobalRules = seqs w TGlobalRules)"
| "same_area MachineRuleRows w v = (machine_rules v = machine_rules w \<and> seqs v TMachineRules = seqs w TMachineRules)"
| "same_area SampleRows w v = (samples v = samples w \<and> seqs v TSamples = seqs w TSamples)"
| "same_area SentRequests w v = (outbox v = outbox w)"
| "same_area SSHCommands w v = (ssh_log v = ssh_log w)"

definition confined :: "area set \<Rightarrow> world \<Rightarrow> world \<Rightarrow> bool" where
  "confined A w v \<longleftrightarrow> (\<forall>a. a \<notin> A \<longrightarrow> same_area a w v)"

lemma all_areas:
  "(\<forall>a. P a) \<longleftrightarrow> P AdminRows \<and> P AlertRows \<and> P ChannelRows \<and> P ProxyRows \<and> P DeliveryRows \<and> P SettingRows \<and>
     P MachineRows \<and> P KeyRows \<and> P GlobalRuleRows \<and> P MachineRuleRows \<and> P SampleRows \<and> P SentRequests \<and> P SSHCommands"
  (is "_ \<longleftrightarrow> ?all")
proof
  assume all: ?all
  show "\<forall>a. P a"
  proof
    fix a
    from all show "P a" by (cases a) simp_all
  qed
qed simp

lemmas confined_iff = confined_def all_areas same_area.simps

lemma confined_refl [simp]: "confined A w w"
  by (simp add: confined_iff)

lemma confined_trans: "confined A u v \<Longrightarrow> confined A v w \<Longrightarrow> confined A u w"
  unfolding confined_iff by auto

lemma confined_mono: "confined A w v \<Longrightarrow> A \<subseteq> B \<Longrightarrow> confined B w v"
  unfolding confined_def by blast

lemma confined_tick [simp, frames]: "tick_free (confined A w)"
  by (simp add: tick_free_def confined_iff)

lemma confined_rollback: "confined A w v \<Longrightarrow> confined A w v' \<Longrightarrow> confined A w (rollback v v')"
  by (simp add: confined_iff rollback_def)

lemma keeps_confined_transaction [frames]:
  assumes "\<And>w. keeps (confined A w) m"
  shows "keeps (confined A w) (transaction E m)"
  unfolding keeps_def
proof (intro allI impI)
  fix v
  assume v: "confined A w v"
  let ?m = "bnd (statement E (\<lambda>_. ret ())) (\<lambda>_. bnd m (\<lambda>x. bnd (statement E (\<lambda>_. ret ())) (\<lambda>_. ret x)))"
  have "keeps (confined A w) ?m"
    by (intro keeps_bnd keeps_statement keeps_ret assms confined_tick)
  with v have "confined A w (snd (?m v))" by (simp add: keeps_def)
  with v confined_rollback [OF v] show "confined A w (snd (transaction E m v))"
    by (auto simp: transaction_def split: prod.split sum.split)
qed

section \<open>The repositories\<close>

lemmas reads_frame [frames] = keeps_reads [OF confined_tick] keeps_lists [OF confined_tick] keeps_get_machine [OF confined_tick]
  keeps_get_key [OF confined_tick]

lemma writes_confined:
  assumes "\<And>t w. confined A w (snd (f t w))"
  shows "keeps (confined A w) (statement E f)"
  by (rule keeps_statement) (auto simp: keeps_def intro: confined_trans assms)

lemma admin_frame [frames]:
  "AdminRows \<in> A \<Longrightarrow> keeps (confined A w) (AdminRepo_UpdatePasswordHash E i h)"
  "AdminRows \<in> A \<Longrightarrow> keeps (confined A w) (AdminRepo_Create E a)"
  unfolding AdminRepo_UpdatePasswordHash_def AdminRepo_Create_def
  by (intro keeps_intros writes_confined; auto simp: confined_iff bump_seq_def Let_def)+

lemma alert_frame [frames]:
  "AlertRows \<in> A \<Longrightarrow> keeps (confined A w) (AlertRepo_CreateIfAbsent E a)"
  "AlertRows \<in> A \<Longrightarrow> keeps (confined A w) (AlertRepo_UpdateNotifyStatus E i s)"
  "AlertRows \<in> A \<Longrightarrow> keeps (confined A w) (AlertRepo_DeleteExpired E filt)"
  unfolding AlertRepo_CreateIfAbsent_def AlertRepo_UpdateNotifyStatus_def AlertRepo_DeleteExpired_def
  by (intro keeps_intros writes_confined; auto simp: confined_iff bump_seq_def Let_def)+

lemma setting_frame [frames]: "SettingRows \<in> A \<Longrightarrow> keeps (confined A w) (AppSettingRepo_Upsert E s)"
  unfolding AppSettingRepo_Upsert_def
  by (intro keeps_intros writes_confined; auto simp: confined_iff Let_def)

lemma machine_frame [frames]:
  "MachineRows \<in> A \<Longrightarrow> keeps (confined A w) (MachineRepo_Create E m)"
  "MachineRows \<in> A \<Longrightarrow> keeps (confined A w) (MachineRepo_Update E m)"
  "MachineRows \<in> A \<Longrightarrow> keeps (confined A w) (MachineRepo_DeleteByID E i)"
  unfolding MachineRepo_Create_def MachineRepo_Update_def MachineRepo_DeleteByID_def
  by (intro keeps_intros writes_confined; auto simp: confined_iff bump_seq_def Let_def)+

lemma notification_frame [frames]:
  "ChannelRows \<in> A \<Longrightarrow> keeps (confined A w) (NotificationChannelRepo_Upsert E ch)"
  "ChannelRows \<in> A \<Longrightarrow> keeps (confined A w) (NotificationChannelRepo_CreateIfAbsent E ch)"
  "ProxyRows \<in> A \<Longrightarrow> keeps (confined A w) (NotificationProxyRepo_Create E p)"
  "ProxyRows \<in> A \<Longrightarrow> keeps (confined A w) (NotificationProxyRepo_Update E p)"
  "ProxyRows \<in> A \<Longrightarrow> keeps (confined A w) (NotificationProxyRepo_Delete E i)"
  "keeps (confined A w) (NotificationProxyRepo_GetByID E i)"
  "DeliveryRows \<in> A \<Longrightarrow> keeps (confined A w) (NotificationDeliveryRepo_Create E d)"
  unfolding NotificationChannelRepo_Upsert_def NotificationChannelRepo_CreateIfAbsent_def NotificationProxyRepo_Create_def
    NotificationProxyRepo_Update_def NotificationProxyRepo_Delete_def NotificationProxyRepo_GetByID_def
    NotificationDeliveryRepo_Create_def
  by (intro keeps_intros writes_confined; auto simp: confined_iff bump_seq_def Let_def split: option.split)+

lemma key_frame [frames]:
  "KeyRows \<in> A \<Longrightarrow> keeps (confined A w) (SSHKeyRepo_Create E k)"
  "KeyRows \<in> A \<Longrightarrow> keeps (confined A w) (SSHKeyRepo_UpdateName E i n)"
  "KeyRows \<in> A \<Longrightarrow> keeps (confined A w) (SSHKeyRepo_DeleteByID E i)"
  "keeps (confined A w) (MachineRepo_ListBySSHKeyID E i)"
  unfolding SSHKeyRepo_Create_def SSHKeyRepo_UpdateName_def SSHKeyRepo_DeleteByID_def MachineRepo_ListBySSHKeyID_def
  by (intro keeps_intros writes_confined keeps_get_key; auto simp: confined_iff bump_seq_def Let_def)+

lemma rule_frame [frames]:
  "GlobalRuleRows \<in> A \<Longrightarrow> keeps (confined A w) (ThresholdRuleRepo_UpsertGlobalRules E gs)"
  "GlobalRuleRows \<in> A \<Longrightarrow> keeps (confined A w) (ThresholdRuleRepo_CreateGlobalRulesIfAbsent E gs)"
  "MachineRuleRows \<in> A \<Longrightarrow> keeps (confined A w) (ThresholdRuleRepo_UpsertMachineRules E rs)"
  "MachineRuleRows \<in> A \<Longrightarrow> keeps (confined A w) (ThresholdRuleRepo_CreateMachineRulesIfAbsent E rs)"
  "MachineRuleRows \<in> A \<Longrightarrow> keeps (confined A w) (ThresholdRuleRepo_DeleteMachineRules E i ds)"
  unfolding ThresholdRuleRepo_UpsertGlobalRules_def ThresholdRuleRepo_CreateGlobalRulesIfAbsent_def
    ThresholdRuleRepo_UpsertMachineRules_def ThresholdRuleRepo_CreateMachineRulesIfAbsent_def
    ThresholdRuleRepo_DeleteMachineRules_def
  by (intro keeps_intros writes_confined; auto simp: confined_iff bump_seq_def Let_def)+

lemma replace_frame [frames]:
  "MachineRuleRows \<in> A \<Longrightarrow> keeps (confined A w) (ThresholdRuleRepo_ReplaceMachineRules E i rs ds)"
  unfolding ThresholdRuleRepo_ReplaceMachineRules_def
  by (intro keeps_intros frames)

lemma sample_frame [frames]:
  "SampleRows \<in> A \<Longrightarrow> keeps (confined A w) (TrafficSampleRepo_UpsertSamples E smps)"
  "SampleRows \<in> A \<Longrightarrow> keeps (confined A w) (TrafficSampleRepo_DeleteBefore E filt)"
  unfolding TrafficSampleRepo_UpsertSamples_def TrafficSampleRepo_DeleteBefore_def
  by (intro keeps_intros writes_confined; auto simp: confined_iff bump_seq_def Let_def)+

section \<open>The services\<close>

lemma request_frame [frames]: "SentRequests \<in> A \<Longrightarrow> keeps (confined A w) (client_Do E c r)"
proof -
  assume "SentRequests \<in> A"
  then have "keeps (confined A w) (modify (\<lambda>w. w\<lparr>outbox := outbox w @ [x]\<rparr>))" for x
    by (auto simp: keeps_def modify_def confined_iff)
  then show ?thesis
    unfolding client_Do_def by (intro keeps_intros confined_tick)
qed

lemma ssh_frame [frames]: "SSHCommands \<in> A \<Longrightarrow> keeps (confined A w) (SSHRunner_Run E host port user pem cmd)"
proof -
  assume "SSHCommands \<in> A"
  then have "keeps (confined A w) (modify (\<lambda>w. w\<lparr>ssh_log := ssh_log w @ [x]\<rparr>))" for x
    by (auto simp: keeps_def modify_def confined_iff)
  then show ?thesis
    unfolding SSHRunner_Run_def
    by (auto simp: Let_def split: sum.split option.split ssh_outcome.split intro!: keeps_intros)
qed

lemmas more_frames [frames] = protector.keeps_encrypt [OF confined_tick] keeps_effective_rules [OF confined_tick]
  keeps_fold_each

lemma notification_request_frame [frames]:
  "SentRequests \<in> A \<Longrightarrow> keeps (confined A w) (doNotificationRequest E r p)"
  unfolding doNotificationRequest_def
  by (intro keeps_intros frames; simp)

lemma webhook_render_frame [frames]:
  "keeps (confined A w) (renderWebhookRequestFromConfig E cfg a)" "keeps (confined A w) (renderTelegramBatchRequest E tcfg as)"
  unfolding renderWebhookRequestFromConfig_def renderTelegramBatchRequest_def buildWebhookTemplateData_def lift_foreign_def
    lift_wrap_def NewRequest_def Let_def
  by (intro keeps_intros frames)+

lemma send_frame [frames]:
  assumes "SentRequests \<in> A"
  shows "keeps (confined A w) (sendWebhook E cfg a)" "keeps (confined A w) (sendTelegramBatch E cfg as)"
    "keeps (confined A w) (sendNotification E ch a)"
  unfolding sendNotification_def sendWebhook_def sendTelegram_def sendTelegramBatch_def
  by (intro keeps_intros frames assms)+

lemma delivery_frame [frames]:
  "DeliveryRows \<in> A \<Longrightarrow> keeps (confined A w) (createNotificationDelivery E ct a r)"
  unfolding createNotificationDelivery_def by (intro keeps_intros frames)

lemma dispatch_frame [frames]:
  assumes "SentRequests \<in> A" and "DeliveryRows \<in> A"
  shows "keeps (confined A w) (dispatchChannels E as chs f)"
proof -
  have r: "keeps (confined A w) (recordBatch E ct r as f)" for ct r as f
    by (induction as arbitrary: f) (auto intro!: keeps_intros frames assms)
  have s: "keeps (confined A w) (sendEach E ch as f)" for ch as f
    by (induction as arbitrary: f) (auto intro!: keeps_intros frames assms)
  have "keeps (confined A w) (dispatchChannel E as ch f)" for ch f
    unfolding dispatchChannel_def by (intro keeps_intros frames r s assms)
  then show ?thesis
    by (induction chs arbitrary: f) (auto intro!: keeps_intros frames)
qed

lemma evaluation_frame [frames]:
  assumes "{AlertRows, DeliveryRows, SentRequests} \<subseteq> A"
  shows "keeps (confined A w) (AlertService_EvaluateSamples E i smps)"
proof -
  have "keeps (confined A w) (createAll E cs)" for cs
    using assms by (induction cs) (auto intro!: keeps_intros frames)
  moreover have "keeps (confined A w) (dispatchAlerts E as)" for as
    using assms unfolding dispatchAlerts_def Let_def by (intro keeps_intros frames) simp_all
  ultimately show ?thesis
    unfolding AlertService_EvaluateSamples_def EvaluateSamples_def evaluateAll_eq
    by (intro keeps_intros frames)
qed

definition collected_areas :: "area set" where
  "collected_areas = {SampleRows, AlertRows, DeliveryRows, SentRequests, SSHCommands}"

lemma collection_frame [frames]:
  assumes "collected_areas \<subseteq> A"
  shows "keeps (confined A w) (collectMachineSamples (AlertService_EvaluateSamples E) E key m)"
  using assms unfolding collectMachineSamples_def parseVNStatSamples_def Let_def collected_areas_def
  by (intro keeps_intros frames; auto)

section \<open>The requests\<close>

lemma plain_frame:
  assumes "keeps (confined A w) m" and "plain f m w = Some (r, w')"
  shows "confined A w w'"
  using plain_keeps [OF assms(2,1)] by simp

text \<open>A loop of deletions writes only what one deletion writes.\<close>

lemma deleteLoop_keeps:
  assumes "deleteLoop batch msg n t w = Some r" and "keeps I batch" and "I w"
  shows "I (snd r)"
proof (rule deleteLoop.raw_induct [where P = "\<lambda>step msg n t v r. step = batch \<longrightarrow> I v \<longrightarrow> I (snd r)",
      THEN mp, THEN mp, OF _ assms(1) refl assms(3)])
  fix loop :: "nat io \<Rightarrow> string \<Rightarrow> int \<Rightarrow> nat \<Rightarrow> nat loop" and step msg n t v r
  assume ih: "\<And>step msg n t v r. loop step msg n t v = Some r \<Longrightarrow> step = batch \<longrightarrow> I v \<longrightarrow> I (snd r)"
    and body: "(case step v of (Inl e, w') \<Rightarrow> Some (Inl (Wrapf msg e []), w')
      | (Inr deleted, w') \<Rightarrow> if int deleted < n then Some (Inr (t + deleted), w')
         else loop step msg n (t + deleted) w') = Some r"
  show "step = batch \<longrightarrow> I v \<longrightarrow> I (snd r)"
  proof (intro impI)
    assume step: "step = batch" and "I v"
    with assms(2) have "I (snd (batch v))" by (simp add: keeps_def)
    with ih body step show "I (snd r)"
      by (auto split: prod.splits sum.splits if_splits)
  qed
qed

lemma two_loops:
  assumes "(case x of None \<Rightarrow> None | Some (Inl e, v) \<Rightarrow> Some (Inl e, v)
      | Some (Inr n, v) \<Rightarrow> (case y n v of None \<Rightarrow> None | Some (Inl e, u) \<Rightarrow> Some (Inl e, u) | Some (Inr m, u) \<Rightarrow> Some (Inr (z n m), u)))
     = Some (r, w')"
    and "\<And>s v. x = Some (s, v) \<Longrightarrow> I v" and "\<And>n v s u. y n v = Some (s, u) \<Longrightarrow> I v \<Longrightarrow> I u"
  shows "I w'"
proof -
  obtain s v where x: "x = Some (s, v)" using assms(1) by (cases x) auto
  with assms(2) have v: "I v" by simp
  show ?thesis
  proof (cases s)
    case (Inl e)
    with x v assms(1) show ?thesis by simp
  next
    case (Inr n)
    with x assms(1) obtain t u where y: "y n v = Some (t, u)" by (cases "y n v") auto
    with assms(3) v have "I u" by blast
    with assms(1) x Inr y show ?thesis by (cases t) auto
  qed
qed

lemma cleanup_keeps:
  assumes "HistoryCleanupService_Cleanup E cfg req w = Some (r, w')" and "tick_free I" and "I w"
    and "\<And>filt. keeps I (TrafficSampleRepo_DeleteBefore E filt)" and "\<And>filt. keeps I (AlertRepo_DeleteExpired E filt)"
  shows "I w'"
proof -
  have s: "I v'" if "deleteExpiredSamples E cfg i c v = Some (x, v')" "I v" for i c v v' x
    using deleteLoop_keeps [OF that(1) [unfolded deleteExpiredSamples_def] assms(4) that(2)] by simp
  have a: "I v'" if "deleteExpiredAlerts E cfg i c v = Some (x, v')" "I v" for i c v v' x
    using deleteLoop_keeps [OF that(1) [unfolded deleteExpiredAlerts_def] assms(5) that(2)] by simp
  have w: "I (w\<lparr>tick := Suc (tick w)\<rparr>)" using assms(2,3) by (simp only: tick_free_def)
  note run = assms(1) [unfolded HistoryCleanupService_Cleanup_def Let_def]
  have ite: "P" if "(if b then x else y) = z" "b \<Longrightarrow> x = z \<Longrightarrow> P" "\<not> b \<Longrightarrow> y = z \<Longrightarrow> P" for b P and x y z :: 'z
    using that by (simp split: if_split_asm)
  show ?thesis
    using run
    by - (erule ite, use assms(3) in force, erule ite, use assms(3) in force, erule two_loops [where I = I];
        force split: if_split_asm intro: s a w simp del: ticked_simps)
qed

lemma cleanup_handler_keeps:
  assumes "TrafficSampleHandler_CleanupHistory E cfg b w = Some (r, w')" and "tick_free I" and "I w"
    and "\<And>filt. keeps I (TrafficSampleRepo_DeleteBefore E filt)" and "\<And>filt. keeps I (AlertRepo_DeleteExpired E filt)"
  shows "I w'"
  using assms(1,3) cleanup_keeps [OF _ assms(2) _ assms(4,5)]
  by (auto simp: TrafficSampleHandler_CleanupHistory_def split: if_splits option.splits prod.splits sum.splits)

text \<open>The areas a request may write.\<close>

primrec footprint :: "call \<Rightarrow> area set" where
  "footprint GetHealthz = {}"
| "footprint GetHealth = {}"
| "footprint GetRestoreStatus = {}"
| "footprint (PostRestorePassword b) = {AdminRows}"
| "footprint (PostLogin b) = {}"
| "footprint PostLogout = {}"
| "footprint GetProfile = {}"
| "footprint (PatchPassword b) = {AdminRows}"
| "footprint GetGuestMode = {}"
| "footprint (PutGuestMode b) = {SettingRows}"
| "footprint GetSSHKeys = {}"
| "footprint (PostSSHKeyImport b) = {KeyRows}"
| "footprint (PostSSHKeyGenerate b) = {KeyRows}"
| "footprint (GetPublicKey i) = {}"
| "footprint (PatchSSHKey i b) = {KeyRows}"
| "footprint (DeleteSSHKey i) = {KeyRows}"
| "footprint GetMachines = {}"
| "footprint (GetMachine i) = {}"
| "footprint (PostMachine b) = {MachineRows}"
| "footprint (PatchMachine i b) = {MachineRows}"
| "footprint (DelMachine i) = {MachineRows}"
| "footprint (PostMachineTest i) = {SSHCommands}"
| "footprint (PostBackupExport b) = {}"
| "footprint (PostBackupImport b) = {KeyRows, MachineRows, ProxyRows, ChannelRows, GlobalRuleRows, MachineRuleRows}"
| "footprint GetGlobalThresholds = {}"
| "footprint (GetMachineThresholds i) = {}"
| "footprint (PutGlobalThresholds b) = {GlobalRuleRows}"
| "footprint (PutMachineThresholds i b) = {MachineRuleRows}"
| "footprint (GetSamples q) = {}"
| "footprint (PostCleanup b) = {SampleRows, AlertRows}"
| "footprint (PostCollectNow b) = collected_areas"
| "footprint (GetAlerts q) = {}"
| "footprint GetChannels = {}"
| "footprint (PutWebhook b) = {ChannelRows}"
| "footprint (PostWebhookTest b) = {SentRequests}"
| "footprint (PutTelegram b) = {ChannelRows}"
| "footprint (PostTelegramTest b) = {SentRequests}"
| "footprint GetProxies = {}"
| "footprint (PostProxy b) = {ProxyRows}"
| "footprint (PutProxy i b) = {ProxyRows}"
| "footprint (DeleteProxy i) = {ProxyRows}"

text \<open>The requests on keys and machines, on the import, on rules and settings, on collection and notifications.\<close>

lemmas inventory_handlers = SSHKeyHandler_Import_def SSHKeyHandler_Generate_def SSHKeyHandler_Rename_def SSHKeyHandler_Delete_def
  MachineHandler_Create_def MachineHandler_Update_def MachineHandler_Delete_def MachineHandler_TestConnection_def
lemmas inventory_services = SSHKeyService_Import_def SSHKeyService_Generate_def SSHKeyService_Rename_def SSHKeyService_Delete_def
  storeKey_def MachineService_Create_def MachineService_Update_def MachineService_Delete_def MachineService_TestConnection_def
  connectionTest_def getMachine_def validateMachine_def

lemma inventory_frames:
  "keeps (confined {KeyRows} w) (SSHKeyHandler_Import E key kb)" "keeps (confined {KeyRows} w) (SSHKeyHandler_Generate E key gb)"
  "keeps (confined {KeyRows} w) (SSHKeyHandler_Rename E i rb)" "keeps (confined {KeyRows} w) (SSHKeyHandler_Delete E i)"
  "keeps (confined {MachineRows} w) (MachineHandler_Create E mb)" "keeps (confined {MachineRows} w) (MachineHandler_Update E i ub)"
  "keeps (confined {MachineRows} w) (MachineHandler_Delete E i)"
  "keeps (confined {SSHCommands} w) (MachineHandler_TestConnection E key i)"
  unfolding inventory_handlers inventory_services Let_def
  by (intro keeps_intros frames; simp)+

lemma import_frame:
  "keeps (confined {KeyRows, MachineRows, ProxyRows, ChannelRows, GlobalRuleRows, MachineRuleRows} w) (BackupHandler_Import E unm key b)"
proof -
  have "keeps (confined {KeyRows, MachineRows, ProxyRows, ChannelRows, GlobalRuleRows, MachineRuleRows} w) (importPayload E key p)" for p
    unfolding importPayload_def importSSHKey_def importMachine_def importNotificationProxies_def importNotificationProxy_def
      importNotificationChannels_def importNotificationChannel_def importThresholdRules_def importGlobalThresholdRules_def
      importMachineThresholdRules_def Let_def
    by (intro keeps_intros frames; simp)
  then show ?thesis
    unfolding BackupHandler_Import_def BackupService_Import_def by (intro keeps_intros frames)
qed

lemma export_frame: "keeps (confined A w) (BackupHandler_Export E mar key b)"
  unfolding BackupHandler_Export_def BackupService_Export_def buildBackupPayload_def encryptBackupPayload_def randomBytes_def Let_def
  by (intro keeps_intros frames)

lemma settings_frames:
  "keeps (confined {AdminRows} w) (AuthHandler_ChangePassword E who pb)"
  "keeps (confined {SettingRows} w) (SettingsHandler_UpdateGuestMode E sb)"
  "keeps (confined {GlobalRuleRows} w) (ThresholdHandler_UpsertGlobalRules E tb)"
  "keeps (confined {MachineRuleRows} w) (ThresholdHandler_UpsertMachineRules E i tb)"
  unfolding AuthHandler_ChangePassword_def AuthService_ChangePassword_def storePassword_def SettingsHandler_UpdateGuestMode_def
    SettingsService_UpdateGuestMode_def ThresholdHandler_UpsertGlobalRules_def ThresholdHandler_UpsertMachineRules_def
    ThresholdService_UpsertGlobalRules_def ThresholdService_UpsertMachineRules_def Let_def
  by (intro keeps_intros frames; simp)+

lemma notification_frames:
  "keeps (confined {ChannelRows} w) (AlertHandler_UpsertWebhookChannel E wb)"
  "keeps (confined {ChannelRows} w) (AlertHandler_UpsertTelegramChannel E tb)"
  "keeps (confined {SentRequests} w) (AlertHandler_TestWebhookChannel E dec wb)"
  "keeps (confined {SentRequests} w) (AlertHandler_TestTelegramChannel E tb)"
  "keeps (confined {ProxyRows} w) (AlertHandler_CreateNotificationProxy E pb)"
  "keeps (confined {ProxyRows} w) (AlertHandler_UpdateNotificationProxy E i pb)"
  "keeps (confined {ProxyRows} w) (AlertHandler_DeleteNotificationProxy E i)"
  unfolding AlertHandler_UpsertWebhookChannel_def AlertHandler_UpsertTelegramChannel_def AlertHandler_TestWebhookChannel_def
    AlertHandler_TestTelegramChannel_def AlertHandler_CreateNotificationProxy_def AlertHandler_UpdateNotificationProxy_def
    AlertHandler_DeleteNotificationProxy_def AlertService_UpsertWebhookChannel_def AlertService_UpsertTelegramChannel_def
    AlertService_TestWebhookChannel_def AlertService_TestTelegramChannel_def AlertService_CreateNotificationProxy_def
    AlertService_UpdateNotificationProxy_def AlertService_DeleteNotificationProxy_def buildNotificationProxy_def renderTelegramRequest_def
    buildTelegramChannelConfig_def validateNotificationProxyID_def Let_def
  by (intro keeps_intros frames; simp)+

lemma collect_now_frame: "keeps (confined collected_areas w) (TrafficSampleHandler_CollectNow E key b)"
  unfolding TrafficSampleHandler_CollectNow_def TrafficCollectionService_CollectNow_def collectOne_def resolveTargetMachines_def
    TrafficCollectionService_ListEnabledMachines_def
  by (intro keeps_intros frames; simp)

text \<open>What a handler writes is in the footprint of its request.\<close>

lemmas handler_frames = inventory_frames import_frame export_frame settings_frames notification_frames collect_now_frame
  keeps_read_handlers [OF confined_tick] keeps_session_handlers [OF confined_tick]

lemma handler_confined:
  assumes "handler sv store who c w = Some (r, w')"
  shows "confined (footprint c) w w'"
proof (cases "(\<exists>b. c = PostCleanup b) \<or> session_call c")
  case True
  then show ?thesis
  proof (elim disjE exE)
    fix b
    assume c: "c = PostCleanup b"
    with assms have "TrafficSampleHandler_CleanupHistory (sv_env sv) (sv_cleanup sv) b w \<noteq> None" by (auto split: option.splits)
    then obtain x v where run: "TrafficSampleHandler_CleanupHistory (sv_env sv) (sv_cleanup sv) b w = Some (x, v)" by auto
    have "confined {SampleRows, AlertRows} w v"
      by (rule cleanup_handler_keeps [OF run]) (auto intro!: frames)
    with assms c run show ?thesis by (auto simp: run_bnd run_ret split: sum.splits)
  next
    assume "session_call c"
    then show ?thesis
      by (rule session_handler_keeps [OF _ assms]) simp_all
  qed
next
  case False
  with assms show ?thesis
    by (cases c) (auto simp: session_call_def elim!: plain_frame [rotated] intro: handler_frames keeps_ret)
qed

lemma reset_frame: "keeps (confined {AdminRows} w) (RestoreHandler_ResetAdminPassword E cfg b h)"
  unfolding RestoreHandler_ResetAdminPassword_def AuthService_ResetPasswordByUsername_def storePassword_def
  by (intro keeps_intros frames; simp)

lemma serve_reset:
  assumes "serve sv store (PostRestorePassword b) (h, w) = Some (resp, h', w')" and "access_of (sv_restore sv) (PostRestorePassword b) \<noteq> None"
  obtains r where "RestoreHandler_ResetAdminPassword (sv_env sv) (sv_restore sv) b h w = (r, w')"
  using assms by (auto simp: serve_def split: option.splits prod.splits sum.splits)

lemma serve_confined:
  assumes "serve sv store c (h, w) = Some ((resp, ck), h', w')"
  shows "confined (footprint c) w w'"
  using assms
proof (cases rule: serve_cases)
  case page
  then show ?thesis by simp
next
  case (reset b)
  then obtain r where "RestoreHandler_ResetAdminPassword (sv_env sv) (sv_restore sv) b h w = (r, w')"
    using assms serve_reset by metis
  then have "confined {AdminRows} w w'" by (rule keepsD [OF reset_frame, rotated]) simp
  with reset show ?thesis by simp
next
  case (route a)
  show ?thesis
    by (rule serve_route_keeps [OF route(2)]) (auto intro: confined_trans handler_confined)
qed

text \<open>C23. A request writes only the tables of its component, whoever sends it and whatever the database and the remote
  machines do: each route has a footprint (a password change the administrators, an SSH key request the keys, a cleanup the
  samples and alerts, a collection the samples, alerts, deliveries and the two logs, an import the six tables of the backup),
  and every other table, its identifier sequence and every other log is left as it was.\<close>

theorem requests_stay_in_bounds:
  assumes "serve sv store c (h, w) = Some ((resp, ck), h', w')"
  shows "confined (footprint c) w w'"
  using assms by (rule serve_confined)

theorem requests_stay_in_bounds_witness:
  "\<exists>resp ck h' w'. serve example_server example_store (PostCleanup (all_samples, None)) (fresh_token, history_world) = Some ((resp, ck), h', w') \<and>
     confined {SampleRows, AlertRows} history_world w'"
proof -
  have "distinct (map ts_ID (samples history_world))" "distinct (map al_ID (alerts history_world))"
    by (simp_all add: cleanup_example)
  from every_request_answered [OF _ this, of example_server example_store "PostCleanup (all_samples, None)" fresh_token]
  obtain resp ck h' w' where run:
    "serve example_server example_store (PostCleanup (all_samples, None)) (fresh_token, history_world) = Some ((resp, ck), h', w')"
    by auto
  from run requests_stay_in_bounds [OF run] show ?thesis by auto
qed

section \<open>Batches\<close>

lemma sample_batches_equal:
  assumes "no_faults E" and "0 < hc_BatchSize cfg" and "distinct (map ts_ID (samples w))"
  shows "\<exists>n v u. deleteExpiredSamples E cfg mid cutoff w = Some (Inr n, v) \<and>
      TrafficSampleRepo_DeleteBefore E (sample_filter mid cutoff 0) w = (Inr n, u) \<and> same_tables v u"
proof -
  let ?old = "old_sample mid cutoff" and ?n = "length (filter (old_sample mid cutoff) (samples w))"
  let ?u = "(ticked 1 w)\<lparr>samples := filter (\<lambda>s. \<not> ?old s) (samples w)\<rparr>"
  obtain v where v: "deleteExpiredSamples E cfg mid cutoff w = Some (Inr ?n, v)"
    "samples v = filter (\<lambda>s. \<not> ?old s) (samples w)"
    by (rule delete_samples_run [OF assms])
  have f: "confined {SampleRows} w v"
    using deleteLoop_keeps [where I = "confined {SampleRows} w", OF v(1) [unfolded deleteExpiredSamples_def] sample_frame(2)] by simp
  have "\<not> 0 < sd_Limit (sample_filter mid cutoff 0)" "sd_BeforeBucketTime (sample_filter mid cutoff 0) \<noteq> None"
    by (simp_all add: sample_filter_def)
  then have u: "TrafficSampleRepo_DeleteBefore E (sample_filter mid cutoff 0) w = (Inr ?n, ?u)"
    using assms(1) by (simp add: TrafficSampleRepo_DeleteBefore_def run_simps sql_count_def sql_delete_def sample_expired_eq)
  have "same_tables v ?u" using f v(2) by (simp add: same_tables_def confined_iff)
  with v(1) u show ?thesis by blast
qed

lemma alert_batches_equal:
  assumes "no_faults E" and "0 < hc_BatchSize cfg" and "distinct (map al_ID (alerts w))" and "cutoff \<noteq> zero_time"
  shows "\<exists>n v u. deleteExpiredAlerts E cfg mid cutoff w = Some (Inr n, v) \<and>
      AlertRepo_DeleteExpired E (alert_filter mid cutoff 0) w = (Inr n, u) \<and> same_tables v u"
proof -
  let ?old = "old_alert mid cutoff" and ?n = "length (filter (old_alert mid cutoff) (alerts w))"
  let ?u = "(ticked 1 w)\<lparr>alerts := filter (\<lambda>s. \<not> ?old s) (alerts w)\<rparr>"
  obtain v where v: "deleteExpiredAlerts E cfg mid cutoff w = Some (Inr ?n, v)"
    "alerts v = filter (\<lambda>s. \<not> ?old s) (alerts w)"
    by (rule delete_alerts_run [OF assms])
  have f: "confined {AlertRows} w v"
    using deleteLoop_keeps [where I = "confined {AlertRows} w", OF v(1) [unfolded deleteExpiredAlerts_def] alert_frame(3)] by simp
  have "\<not> 0 < ad_Limit (alert_filter mid cutoff 0)" "ad_BeforeBucketTime (alert_filter mid cutoff 0) \<noteq> zero_time"
    using assms(4) by (simp_all add: alert_filter_def)
  then have u: "AlertRepo_DeleteExpired E (alert_filter mid cutoff 0) w = (Inr ?n, ?u)"
    using assms(1) by (simp add: AlertRepo_DeleteExpired_def run_simps sql_count_def sql_delete_def alert_expired_eq)
  have "same_tables v ?u" using f v(2) by (simp add: same_tables_def confined_iff)
  with v(1) u show ?thesis by blast
qed

text \<open>C19. Deleting in batches is deleting at once: with any positive batch size and no database failure, the cleanup's
  loop of limited deletes returns the number of rows and leaves the tables that the repository's single delete without
  a limit does, for samples and for alerts.\<close>

theorem batches_equal_one_delete:
  assumes "no_faults E" and "0 < hc_BatchSize cfg" and "distinct (map ts_ID (samples w))" and "distinct (map al_ID (alerts w))"
    and "cutoff \<noteq> zero_time"
  shows "(\<exists>n v u. deleteExpiredSamples E cfg mid cutoff w = Some (Inr n, v) \<and>
      TrafficSampleRepo_DeleteBefore E (sample_filter mid cutoff 0) w = (Inr n, u) \<and> same_tables v u) \<and>
    (\<exists>n v u. deleteExpiredAlerts E cfg mid cutoff w = Some (Inr n, v) \<and>
      AlertRepo_DeleteExpired E (alert_filter mid cutoff 0) w = (Inr n, u) \<and> same_tables v u)"
  using sample_batches_equal [OF assms(1-3)] alert_batches_equal [OF assms(1,2,4,5)] by blast

theorem batches_equal_one_delete_witness:
  "\<exists>n v u. deleteExpiredSamples example_env example_cleanup None (1697408000 * second_ns) history_world = Some (Inr n, v) \<and>
     TrafficSampleRepo_DeleteBefore example_env (sample_filter None (1697408000 * second_ns) 0) history_world = (Inr n, u) \<and> same_tables v u"
  by (rule batches_equal_one_delete [THEN conjunct1]) (simp_all add: cleanup_example second_ns_def zero_time_def)

end
