(* ===== verification/Reachable.thy ===== *)
theory Reachable
  imports Footprint
begin

text \<open>
  The states a server gets into: requests of any clients, collections by the scheduler's workers, runs of the cleanup
  job, reads of the scheduler and restarts, one after the other, with a database and remote machines that may fail at any call. The locale
  \<open>state_invariant\<close> is the contract of a property of the state that only some tables matter for: whoever writes those
  tables keeps it. It is interpreted for the inventory of machines and keys, the threshold rules, the samples,
  the alerts and the administrators; together these give \<open>data_ok\<close>, which every reachable state has.
\<close>

section \<open>The server's steps\<close>

type_synonym server_state = "RestoreHandler \<times> world"

inductive serving :: "server \<Rightarrow> server_state \<Rightarrow> server_state \<Rightarrow> bool" for sv s where
  idle: "serving sv s s"
| request: "serving sv s t \<Longrightarrow> serve sv store c t = Some (resp, u) \<Longrightarrow> serving sv s u"
| collection: "serving sv s (h, w) \<Longrightarrow> CollectMachine (sv_env sv) (sv_masterKey sv) m w = (r, w') \<Longrightarrow> serving sv s (h, w')"
| cleanup: "serving sv s (h, w) \<Longrightarrow> HistoryCleanupService_RunOnce (sv_env sv) (sv_cleanup sv) w = Some (r, w') \<Longrightarrow>
    serving sv s (h, w')"
| listing: "serving sv s (h, w) \<Longrightarrow> TrafficCollectionService_ListEnabledMachines (sv_env sv) w = (r, w') \<Longrightarrow> serving sv s (h, w')"
| restart: "serving sv s (h, w) \<Longrightarrow> NewRestoreHandler (sv_env sv) w = (Inr h', w') \<Longrightarrow> serving sv s (h', w')"
| bootstrap: "serving sv s (h, w) \<Longrightarrow> admin_OnStart (sv_env sv) cfg w = (r, w') \<Longrightarrow> serving sv s (h, w')"

lemma serving_trans:
  assumes "serving sv t u" and "serving sv s t"
  shows "serving sv s u"
  using assms by induction (auto intro: serving.intros)

lemma start_frame: "keeps (confined {AdminRows} w) (admin_OnStart E cfg)" "keeps (confined A w) (NewRestoreHandler E)"
  unfolding admin_OnStart_def AuthService_EnsureBootstrapAdmin_def generateBootstrapAdminPassword_def AdminRepo_ExistsByUsername_def
    NewRestoreHandler_def Let_def
  by (intro keeps_intros frames keeps_read; simp)+

lemma listing_frame: "keeps (confined A w) (TrafficCollectionService_ListEnabledMachines E)"
  unfolding TrafficCollectionService_ListEnabledMachines_def by (intro keeps_intros frames)

section \<open>Invariants of some tables\<close>

locale table_property =
  fixes I :: "world \<Rightarrow> bool" and A :: "area set"
  assumes outside: "confined B w v \<Longrightarrow> B \<inter> A = {} \<Longrightarrow> I w \<Longrightarrow> I v"
begin

lemma keeps_outside: "(\<And>w. keeps (confined B w) m) \<Longrightarrow> B \<inter> A = {} \<Longrightarrow> keeps I m"
  unfolding keeps_def by (meson outside confined_refl)

lemma free_of_ticks: "tick_free I"
proof -
  have "I (w\<lparr>tick := n\<rparr>) \<longleftrightarrow> I w" for w n
    using outside [of "{}" w "w\<lparr>tick := n\<rparr>"] outside [of "{}" "w\<lparr>tick := n\<rparr>" w] by (auto simp: confined_iff)
  then show ?thesis by (simp add: tick_free_def)
qed

lemma keeps_ssh: "SSHCommands \<notin> A \<Longrightarrow> keeps I (SSHRunner_Run E h p u k c)"
  by (rule keeps_outside [of "{SSHCommands}"]) (auto intro: frames)

lemma keeps_deliveries: "DeliveryRows \<notin> A \<Longrightarrow> SentRequests \<notin> A \<Longrightarrow> keeps I (dispatchChannels E as chs f)"
  by (rule keeps_outside [of "{DeliveryRows, SentRequests}"]) (auto intro: frames)

lemma keeps_sample_rows:
  assumes "SampleRows \<notin> A"
  shows "keeps I (TrafficSampleRepo_UpsertSamples E smps)" "keeps I (TrafficSampleRepo_DeleteBefore E sf)"
  by (rule keeps_outside [of "{SampleRows}"]; use assms in \<open>auto intro: frames\<close>)+

lemma keeps_creates:
  "KeyRows \<notin> A \<Longrightarrow> keeps I (SSHKeyRepo_Create E k)" "MachineRows \<notin> A \<Longrightarrow> keeps I (MachineRepo_Create E m)"
  "ProxyRows \<notin> A \<Longrightarrow> keeps I (NotificationProxyRepo_Create E x)"
  "ChannelRows \<notin> A \<Longrightarrow> keeps I (NotificationChannelRepo_CreateIfAbsent E c)"
  by (auto intro: keeps_outside [of "{KeyRows}"] keeps_outside [of "{MachineRows}"] keeps_outside [of "{ProxyRows}"]
      keeps_outside [of "{ChannelRows}"] frames)

lemma keeps_alert_rows:
  assumes "AlertRows \<notin> A"
  shows "keeps I (AlertRepo_DeleteExpired E af)"
    and "DeliveryRows \<notin> A \<Longrightarrow> SentRequests \<notin> A \<Longrightarrow> keeps I (AlertService_EvaluateSamples E i smps)"
  using assms
  by (auto intro: keeps_outside [of "{AlertRows}"] keeps_outside [of "{AlertRows, DeliveryRows, SentRequests}"] frames)

end

locale state_invariant = table_property +
  assumes handlers: "footprint c \<inter> A \<noteq> {} \<Longrightarrow> handler sv store who c w = Some (r, w') \<Longrightarrow> I w \<Longrightarrow> I w'"
    and collecting: "collected_areas \<inter> A \<noteq> {} \<Longrightarrow> keeps I (CollectMachine E key m)"
    and pruning: "SampleRows \<in> A \<Longrightarrow> keeps I (TrafficSampleRepo_DeleteBefore E sf)"
      "AlertRows \<in> A \<Longrightarrow> keeps I (AlertRepo_DeleteExpired E af)"
    and accounts: "AdminRows \<in> A \<Longrightarrow> keeps I (AdminRepo_Create E a)"
      "AdminRows \<in> A \<Longrightarrow> keeps I (AdminRepo_UpdatePasswordHash E i ph)"
begin

lemma accounts_keep: "keeps I (RestoreHandler_ResetAdminPassword E rcfg b h)" "keeps I (admin_OnStart E bcfg)"
proof -
  have "keeps I (RestoreHandler_ResetAdminPassword E rcfg b h) \<and> keeps I (admin_OnStart E bcfg)"
  proof (cases "AdminRows \<in> A")
    case True
    then show ?thesis
      unfolding RestoreHandler_ResetAdminPassword_def AuthService_ResetPasswordByUsername_def storePassword_def Let_def
        admin_OnStart_def AuthService_EnsureBootstrapAdmin_def AdminRepo_ExistsByUsername_def AdminRepo_GetByUsername_def
        generateBootstrapAdminPassword_def
      by (intro conjI keeps_intros keeps_read free_of_ticks accounts) (auto split: option.split)
  next
    case False
    then show ?thesis by (auto intro: keeps_outside [of "{AdminRows}"] reset_frame start_frame)
  qed
  then show "keeps I (RestoreHandler_ResetAdminPassword E rcfg b h)" "keeps I (admin_OnStart E bcfg)" by simp_all
qed

lemma collection_keeps: "keeps I (CollectMachine E key m)"
proof (cases "collected_areas \<inter> A = {}")
  case True
  have "keeps (confined collected_areas w) (CollectMachine E key m)" for w
    unfolding CollectMachine_def TrafficCollectionService_CollectMachine_def by (intro frames) simp
  then show ?thesis using True by (rule keeps_outside)
qed (rule collecting)

lemma pruning_keeps: "keeps I (TrafficSampleRepo_DeleteBefore E sf)" "keeps I (AlertRepo_DeleteExpired E af)"
  using pruning keeps_sample_rows keeps_alert_rows by blast+

lemma handler_keeps:
  assumes "handler sv store who c w = Some (r, w')" and "I w"
  shows "I w'"
  using assms handlers outside [OF handler_confined [OF assms(1)]] by (cases "footprint c \<inter> A = {}") blast+

lemma serve_keeps:
  assumes "serve sv store c (h, w) = Some ((resp, ck), h', w')" and "I w"
  shows "I w'"
  using assms(1)
proof (cases rule: serve_cases)
  case page
  with assms(2) show ?thesis by simp
next
  case (reset b)
  with assms(1) obtain r where "RestoreHandler_ResetAdminPassword (sv_env sv) (sv_restore sv) b h w = (r, w')"
    using serve_reset by metis
  then show ?thesis by (rule keepsD [OF accounts_keep(1) assms(2)])
next
  case (route a)
  show ?thesis
    by (rule serve_route_keeps [OF route(2) free_of_ticks assms(2)]) (rule handler_keeps)
qed

lemma cleanup_job_keeps:
  assumes "HistoryCleanupService_RunOnce E cfg w = Some (r, w')" and "I w"
  shows "I w'"
  using assms cleanup_keeps [OF _ free_of_ticks assms(2) pruning_keeps]
  by (auto simp: HistoryCleanupService_RunOnce_def split: option.splits prod.splits sum.splits)

lemma unread_keeps: "keeps I (TrafficCollectionService_ListEnabledMachines E)" "keeps I (NewRestoreHandler E)"
  by (auto intro: keeps_outside [of "{}"] listing_frame start_frame)

lemma invariant: "serving sv s t \<Longrightarrow> I (snd s) \<Longrightarrow> I (snd t)"
proof (induction rule: serving.induct)
  case (request t store c resp u)
  obtain h w where t: "t = (h, w)" by (cases t)
  obtain h' w' where u: "u = (h', w')" by (cases u)
  obtain x ck where "resp = (x, ck)" by (cases resp)
  with request t u show ?case using serve_keeps [of sv store c h w x ck h' w'] by simp
next
  case (collection h w m r w')
  then have "I w" by simp
  with collection(2) show ?case by simp (rule keepsD [OF collection_keeps])
next
  case (cleanup h w r w')
  then show ?case using cleanup_job_keeps [OF cleanup(2)] by simp
next
  case (listing h w r w')
  then have "I w" by simp
  with listing(2) show ?case by simp (rule keepsD [OF unread_keeps(1)])
next
  case (restart h w h' w')
  then have "I w" by simp
  with restart(2) show ?case by simp (rule keepsD [OF unread_keeps(2)])
next
  case (bootstrap h w cfg r w')
  then have "I w" by simp
  with bootstrap(2) show ?case by simp (rule keepsD [OF accounts_keep(2)])
qed

end

section \<open>Samples and alerts\<close>

text \<open>The identifiers of a table are distinct and below its sequence.\<close>

definition ids_below :: "('r \<Rightarrow> nat) \<Rightarrow> nat \<Rightarrow> 'r list \<Rightarrow> bool" where
  "ids_below idf n rows \<longleftrightarrow> distinct (map idf rows) \<and> (\<forall>r\<in>set rows. idf r < n)"

lemma ids_below_mono: "ids_below idf n rows \<Longrightarrow> n \<le> m \<Longrightarrow> ids_below idf m rows"
  by (auto simp: ids_below_def)

lemma ids_below_delete: "ids_below idf n rows \<Longrightarrow> ids_below idf n (sql_delete p rows)"
  by (auto simp: ids_below_def sql_delete_def distinct_map_filter)

lemma ids_below_map: "(\<And>r. idf (f r) = idf r) \<Longrightarrow> ids_below idf n (map f rows) = ids_below idf n rows"
  by (simp add: ids_below_def comp_def)

lemma ids_below_append: "ids_below idf n rows \<Longrightarrow> idf r = n \<Longrightarrow> ids_below idf (Suc n) (rows @ [r])"
  by (auto simp: ids_below_def less_Suc_eq)

lemma ids_below_insert_ignore: "ids_below idf n rows \<Longrightarrow> idf r = n \<Longrightarrow> ids_below idf (Suc n) (sql_insert_ignore key r rows)"
  by (simp add: sql_insert_ignore_def ids_below_append ids_below_mono)

lemma ids_below_update: "(\<And>r. idf (f r) = idf r) \<Longrightarrow> ids_below idf n (sql_update p f rows) = ids_below idf n rows"
  unfolding sql_update_def by (rule ids_below_map) simp

lemma ids_below_upserts:
  assumes "\<And>k r. idf (fill k r) = k" and "\<And>old new. idf (upd old new) = idf old"
  shows "ids_below idf n rows \<Longrightarrow> ids_below idf (n + length news) (fold (sql_upsert key upd) (number_rows fill n news) rows)"
proof (induction news arbitrary: n rows)
  case (Cons r news)
  have "ids_below idf (Suc n) (sql_upsert key upd (fill n r) rows)"
    using Cons.prems ids_below_map [of idf "\<lambda>old. if key old = key (fill n r) then upd old (fill n r) else old"]
    by (simp add: sql_upsert_def assms ids_below_append ids_below_mono)
  with Cons.IH [of "Suc n" "sql_upsert key upd (fill n r) rows"] show ?case by simp
qed simp

definition samples_ok :: "world \<Rightarrow> bool" where
  "samples_ok w \<longleftrightarrow> ids_below ts_ID (seqs w TSamples) (samples w) \<and> sample_tbl.unique (samples w)"

definition alerts_ok :: "world \<Rightarrow> bool" where
  "alerts_ok w \<longleftrightarrow> ids_below al_ID (seqs w TAlerts) (alerts w) \<and> alert_tbl.unique (alerts w)"

lemma row_oks_tick [simp]: "tick_free samples_ok" "tick_free alerts_ok"
  by (simp_all add: tick_free_def samples_ok_def alerts_ok_def)

lemma upsert_samples_ok: "keeps samples_ok (TrafficSampleRepo_UpsertSamples E smps)"
proof -
  have "ids_below ts_ID (n + length smps) (fold (sql_upsert ts_key ts_upd) (number_rows (ts_fill t) n smps) rows)"
    if "ids_below ts_ID n rows" for n t rows
    using that by (rule ids_below_upserts [rotated 2]) (simp_all add: ts_fill_def ts_upd_def)
  then show ?thesis
    unfolding TrafficSampleRepo_UpsertSamples_def
    by (intro keeps_intros keeps_statement row_oks_tick)
      (auto simp: keeps_def samples_ok_def Let_def bump_seq_def sample_tbl.unique_fold_upsert intro: ids_below_mono)
qed

lemma prune_samples_ok: "keeps samples_ok (TrafficSampleRepo_DeleteBefore E sf)"
  unfolding TrafficSampleRepo_DeleteBefore_def
  by (intro keeps_intros keeps_statement row_oks_tick)
    (auto simp: keeps_def samples_ok_def ids_below_delete sample_tbl.unique_delete)

lemma alert_rows_ok:
  "keeps alerts_ok (AlertRepo_CreateIfAbsent E a)" "keeps alerts_ok (AlertRepo_UpdateNotifyStatus E i st)"
  "keeps alerts_ok (AlertRepo_DeleteExpired E af)"
  unfolding AlertRepo_CreateIfAbsent_def AlertRepo_UpdateNotifyStatus_def AlertRepo_DeleteExpired_def
  by (intro keeps_intros keeps_statement row_oks_tick;
      auto simp: keeps_def alerts_ok_def Let_def bump_seq_def ids_below_insert_ignore ids_below_delete ids_below_update
        alert_tbl.unique_insert_ignore alert_tbl.unique_delete alert_tbl.unique_update)+

text \<open>What a collection needs to keep an invariant.\<close>

lemma evaluation_keeps:
  assumes "tick_free I" and "\<And>a. keeps I (AlertRepo_CreateIfAbsent E a)" and "\<And>i st. keeps I (AlertRepo_UpdateNotifyStatus E i st)"
    and "\<And>as chs f. keeps I (dispatchChannels E as chs f)"
  shows "keeps I (AlertService_EvaluateSamples E i smps)"
proof -
  have "keeps I (createAll E cs)" for cs
    using assms(2) by (induction cs) (auto intro!: keeps_intros)
  moreover have "keeps I (dispatchAlerts E as)" for as
    unfolding dispatchAlerts_def Let_def by (intro keeps_intros assms)
  ultimately show ?thesis
    unfolding AlertService_EvaluateSamples_def EvaluateSamples_def evaluateAll_eq
    by (intro keeps_intros keeps_effective_rules assms)
qed

lemma machine_collection_keeps:
  assumes "tick_free I" and "\<And>h p u k c. keeps I (SSHRunner_Run E h p u k c)" and "\<And>smps. keeps I (TrafficSampleRepo_UpsertSamples E smps)"
    and "\<And>i smps. keeps I (AlertService_EvaluateSamples E i smps)"
  shows "keeps I (CollectMachine E key m)" and "keeps I (TrafficSampleHandler_CollectNow E key b)"
proof -
  have c: "keeps I (collectMachineSamples (AlertService_EvaluateSamples E) E key m)" for m
    unfolding collectMachineSamples_def parseVNStatSamples_def Let_def
    by (intro keeps_intros keeps_get_key assms)
  show "keeps I (CollectMachine E key m)" "keeps I (TrafficSampleHandler_CollectNow E key b)"
    unfolding CollectMachine_def TrafficCollectionService_CollectMachine_def TrafficSampleHandler_CollectNow_def
      TrafficCollectionService_CollectNow_def collectOne_def resolveTargetMachines_def TrafficCollectionService_ListEnabledMachines_def
    by (intro keeps_intros keeps_get_machine assms c)+
qed

text \<open>Invariants of the samples and of the alerts: only collections and cleanups write there.\<close>

lemma pruning_handlers:
  assumes "footprint c \<inter> {SampleRows, AlertRows} \<noteq> {}" and "handler sv store who c w = Some (r, w')" and "I w" and "tick_free I"
    and "\<And>b. keeps I (TrafficSampleHandler_CollectNow (sv_env sv) (sv_masterKey sv) b)"
    and "\<And>sf. keeps I (TrafficSampleRepo_DeleteBefore (sv_env sv) sf)" and "\<And>af. keeps I (AlertRepo_DeleteExpired (sv_env sv) af)"
  shows "I w'"
proof -
  have "(\<exists>b. c = PostCleanup b) \<or> (\<exists>b. c = PostCollectNow b)" using assms(1) by (cases c) simp_all
  then show ?thesis
  proof (elim disjE exE)
    fix b
    assume c: "c = PostCleanup b"
    with assms(2) obtain x v where run: "TrafficSampleHandler_CleanupHistory (sv_env sv) (sv_cleanup sv) b w = Some (x, v)"
      by (auto split: option.splits)
    have "I v" by (rule cleanup_handler_keeps [OF run]) (intro assms)+
    with assms(2) c run show ?thesis by (auto simp: run_bnd run_ret split: sum.splits)
  next
    fix b
    assume "c = PostCollectNow b"
    with assms(2) show ?thesis using plain_keeps [OF _ assms(5,3)] by auto
  qed
qed

interpretation sample_table: table_property samples_ok "{SampleRows}"
  by unfold_locales (auto simp: confined_def samples_ok_def dest!: spec [where x = SampleRows])

lemmas sample_collection = machine_collection_keeps [OF row_oks_tick(1) sample_table.keeps_ssh upsert_samples_ok
  sample_table.keeps_alert_rows(2), simplified]

interpretation sample_rows: state_invariant samples_ok "{SampleRows}"
proof unfold_locales
  show "samples_ok w'" if "footprint c \<inter> {SampleRows} \<noteq> {}" "handler sv store who c w = Some (r, w')" "samples_ok w"
    for c sv store who w r w'
    using that
    by (intro pruning_handlers [OF _ that(2,3) row_oks_tick(1) sample_collection(2) prune_samples_ok sample_table.keeps_alert_rows(1)])
      auto
qed (simp_all add: sample_collection prune_samples_ok)

interpretation alert_table: table_property alerts_ok "{AlertRows}"
  by unfold_locales (auto simp: confined_def alerts_ok_def dest!: spec [where x = AlertRows])

lemmas alert_collection = machine_collection_keeps [OF row_oks_tick(2) alert_table.keeps_ssh alert_table.keeps_sample_rows(1)
  evaluation_keeps [OF row_oks_tick(2) alert_rows_ok(1,2) alert_table.keeps_deliveries], simplified]

interpretation alert_rows: state_invariant alerts_ok "{AlertRows}"
proof unfold_locales
  show "alerts_ok w'" if "footprint c \<inter> {AlertRows} \<noteq> {}" "handler sv store who c w = Some (r, w')" "alerts_ok w"
    for c sv store who w r w'
    using that
    by (intro pruning_handlers [OF _ that(2,3) row_oks_tick(2) alert_collection(2) alert_table.keeps_sample_rows(2) alert_rows_ok(3)])
      auto
qed (simp_all add: alert_collection alert_rows_ok)

section \<open>Administrators\<close>

definition admins_ok :: "world \<Rightarrow> bool" where
  "admins_ok w \<longleftrightarrow> ids_below adm_ID (seqs w TAdmins) (admins w) \<and> admin_tbl.unique (admins w)"

text \<open>An administrator is never removed or renamed.\<close>

definition has_admin :: "string \<Rightarrow> world \<Rightarrow> bool" where
  "has_admin u w \<longleftrightarrow> u \<in> adm_Username ` set (admins w)"

lemma admin_ticks [simp]: "tick_free admins_ok" "tick_free (has_admin u)"
  by (simp_all add: tick_free_def admins_ok_def has_admin_def)

lemma sql_update_names: "map adm_Username (sql_update p (\<lambda>a. a\<lparr>adm_PasswordHash := ph, adm_UpdatedAt := t\<rparr>) rows) = map adm_Username rows"
  by (simp add: sql_update_def)

lemma admin_rows_ok: "keeps admins_ok (AdminRepo_Create E a)" "keeps admins_ok (AdminRepo_UpdatePasswordHash E i ph)"
  unfolding AdminRepo_Create_def AdminRepo_UpdatePasswordHash_def
  by (intro keeps_intros keeps_statement admin_ticks;
      auto simp: keeps_def admins_ok_def Let_def bump_seq_def ids_below_append ids_below_mono ids_below_update
        admin_tbl.unique_def sql_update_names)+

lemma admin_names_stay: "keeps (has_admin u) (AdminRepo_Create E a)" "keeps (has_admin u) (AdminRepo_UpdatePasswordHash E i ph)"
  unfolding AdminRepo_Create_def AdminRepo_UpdatePasswordHash_def
  by (intro keeps_intros keeps_statement admin_ticks;
      auto simp: keeps_def has_admin_def Let_def bump_seq_def simp flip: set_map simp: sql_update_names)+

lemma account_handlers:
  assumes "footprint c \<inter> {AdminRows} \<noteq> {}" and "handler sv store who c w = Some (r, w')" and "I w" and "tick_free I"
    and "\<And>i ph. keeps I (AdminRepo_UpdatePasswordHash (sv_env sv) i ph)"
  shows "I w'"
proof -
  have "keeps I (AuthHandler_ChangePassword (sv_env sv) k b)" for k b
    unfolding AuthHandler_ChangePassword_def AuthService_ChangePassword_def storePassword_def AdminRepo_GetByID_def Let_def
    by (intro keeps_intros keeps_read assms) (auto split: option.split)
  with assms(1-3) show ?thesis by (cases c) (auto simp: collected_areas_def keeps_ret elim!: plain_keeps [where I = I, rotated 2])
qed

interpretation admin_rows: state_invariant admins_ok "{AdminRows}"
proof unfold_locales
  show "admins_ok w'" if "footprint c \<inter> {AdminRows} \<noteq> {}" "handler sv store who c w = Some (r, w')" "admins_ok w"
    for c sv store who w r w'
    by (rule account_handlers [OF that admin_ticks(1) admin_rows_ok(2)])
qed (auto simp: admin_rows_ok collected_areas_def confined_def admins_ok_def dest!: spec [where x = AdminRows])

interpretation admin_names: state_invariant "has_admin u" "{AdminRows}" for u
proof unfold_locales
  show "has_admin u w'" if "footprint c \<inter> {AdminRows} \<noteq> {}" "handler sv store who c w = Some (r, w')" "has_admin u w"
    for c sv store who w r w'
    by (rule account_handlers [OF that admin_ticks(2) admin_names_stay(2)])
qed (auto simp: admin_names_stay collected_areas_def confined_def has_admin_def dest!: spec [where x = AdminRows])

section \<open>Threshold rules\<close>

interpretation rule_table: table_property rules_ok "{GlobalRuleRows, MachineRuleRows}"
proof unfold_locales
  fix B w v
  assume "confined B w v" and "B \<inter> {GlobalRuleRows, MachineRuleRows} = {}"
  then have "same_area GlobalRuleRows w v" "same_area MachineRuleRows w v" unfolding confined_def by blast+
  then show "rules_ok w \<Longrightarrow> rules_ok v" by (simp add: rules_ok_def)
qed

lemma set_fold_insert_ignore: "set (fold (sql_insert_ignore key) news rows) \<subseteq> set rows \<union> set news"
proof (induction news arbitrary: rows)
  case (Cons r news)
  have "set (sql_insert_ignore key r rows) \<subseteq> set rows \<union> {r}" by (auto simp: sql_insert_ignore_def)
  with Cons [of "sql_insert_ignore key r rows"] show ?case by auto
qed simp

lemma created_global_rules_ok:
  assumes "\<forall>r\<in>set gs. valid_dimension (gr_PeriodType r) (gr_MetricType r)"
  shows "keeps rules_ok (ThresholdRuleRepo_CreateGlobalRulesIfAbsent E gs)"
proof -
  have "rules_ok ((bump_seq TGlobalRules k w)\<lparr>global_rules :=
      fold (sql_insert_ignore gr_key) (number_rows (gr_fill t) n gs) (global_rules w)\<rparr>)" if w: "rules_ok w" for k w t n
  proof -
    have "valid_dimension (gr_PeriodType r) (gr_MetricType r)" if r: "r \<in> set (number_rows (gr_fill t) n gs)" for r
    proof -
      obtain q where "q \<in> set gs" "gr_key q = gr_key r"
        by (rule numbered_like [OF _ r, where f = gr_key]) (simp_all add: gr_fill_def gr_key_def)
      with assms show ?thesis by (auto simp: gr_key_def)
    qed
    with w set_fold_insert_ignore [of gr_key "number_rows (gr_fill t) n gs" "global_rules w"] show ?thesis
      by (auto simp: rules_ok_def grule_tbl.unique_fold_insert_ignore)
  qed
  then show ?thesis
    unfolding ThresholdRuleRepo_CreateGlobalRulesIfAbsent_def
    by (intro keeps_intros keeps_statement rule_table.free_of_ticks) (simp add: keeps_def Let_def)
qed

lemma created_machine_rules_ok:
  assumes "\<forall>r\<in>set rs. valid_dimension (mr_PeriodType r) (mr_MetricType r)"
  shows "keeps rules_ok (ThresholdRuleRepo_CreateMachineRulesIfAbsent E rs)"
proof -
  have "rules_ok ((bump_seq TMachineRules k w)\<lparr>machine_rules :=
      fold (sql_insert_ignore mr_key) (number_rows (mr_fill t) n rs) (machine_rules w)\<rparr>)" if w: "rules_ok w" for k w t n
  proof -
    have "valid_dimension (mr_PeriodType r) (mr_MetricType r)" if r: "r \<in> set (number_rows (mr_fill t) n rs)" for r
    proof -
      obtain q where "q \<in> set rs" "mr_key q = mr_key r"
        by (rule numbered_like [OF _ r, where f = mr_key]) (simp_all add: mr_fill_def mr_key_def)
      with assms show ?thesis by (auto simp: mr_key_def)
    qed
    with w set_fold_insert_ignore [of mr_key "number_rows (mr_fill t) n rs" "machine_rules w"] show ?thesis
      by (auto simp: rules_ok_def mrule_tbl.unique_fold_insert_ignore)
  qed
  then show ?thesis
    unfolding ThresholdRuleRepo_CreateMachineRulesIfAbsent_def
    by (intro keeps_intros keeps_statement rule_table.free_of_ticks) (simp add: keeps_def Let_def)
qed

text \<open>An import validates before it writes, so that the steps after it may assume a valid payload.\<close>

lemma keeps_snd: "keeps I m \<Longrightarrow> I w \<Longrightarrow> I (snd (m w))"
  by (simp add: keeps_def)

lemma valid_rule_dimension: "validateBackupThresholdRule p q mb = None \<Longrightarrow> valid_dimension p q"
  by (auto simp: validateBackupThresholdRule_def valid_dimension_def split: sum.splits)

lemma import_threshold_rules_ok:
  assumes "\<forall>r\<in>set (bl_GlobalThresholdRules p). valid_dimension (bg_PeriodType r) (bg_MetricType r)"
    and "\<forall>r\<in>set (bl_MachineThresholdRules p). valid_dimension (bt_PeriodType r) (bt_MetricType r)"
  shows "keeps rules_ok (importThresholdRules E p ids resp)"
proof -
  have g: "\<forall>r\<in>set rules. valid_dimension (gr_PeriodType r) (gr_MetricType r)"
    if "newGlobalRules (bl_GlobalThresholdRules p) known = (skipped, rules)" for known skipped rules
    using new_global_rules [OF that] assms(1) by (fastforce simp: global_from_def)
  have m: "\<forall>r\<in>set rules. valid_dimension (mr_PeriodType r) (mr_MetricType r)"
    if "newMachineRules ids (bl_MachineThresholdRules p) known = (skipped, rules)" for known skipped rules
    using new_machine_rules [OF that] assms(2) by (fastforce simp: rule_from_def)
  have gs: "keeps rules_ok (case newGlobalRules (bl_GlobalThresholdRules p) known of (skipped, rules) \<Rightarrow>
      bnd (wrap msg (ThresholdRuleRepo_CreateGlobalRulesIfAbsent E rules)) (f skipped rules))"
    if "\<And>n x y. keeps rules_ok (f n x y)" for known msg and f :: "int \<Rightarrow> GlobalThresholdRule list \<Rightarrow> nat \<Rightarrow> 'x io"
    by (cases "newGlobalRules (bl_GlobalThresholdRules p) known") (simp, intro keeps_intros created_global_rules_ok g that)
  have ms: "keeps rules_ok (case newMachineRules ids (bl_MachineThresholdRules p) known of (skipped, rules) \<Rightarrow>
      bnd (wrap msg (ThresholdRuleRepo_CreateMachineRulesIfAbsent E rules)) (f skipped rules))"
    if "\<And>n x y. keeps rules_ok (f n x y)" for known msg and f :: "int \<Rightarrow> MachineThresholdRule list \<Rightarrow> nat \<Rightarrow> 'x io"
    by (cases "newMachineRules ids (bl_MachineThresholdRules p) known") (simp, intro keeps_intros created_machine_rules_ok m that)
  show ?thesis
    unfolding importThresholdRules_def importGlobalThresholdRules_def importMachineThresholdRules_def
    by (intro keeps_bnd keeps_if keeps_ret keeps_wrap keeps_lists rule_table.free_of_ticks; (rule gs ms, rule keeps_ret))
qed

lemma keeps_inventory_import:
  assumes "\<And>k. keeps I (SSHKeyRepo_Create E k)" and "\<And>m. keeps I (MachineRepo_Create E m)"
    and "\<And>x. keeps I (NotificationProxyRepo_Create E x)" and "\<And>c. keeps I (NotificationChannelRepo_CreateIfAbsent E c)"
    and "tick_free I"
  shows "keeps I (importSSHKey E key k s)" "keeps I (importMachine E ids m t)" "keeps I (importNotificationProxies E xs resp)"
    "keeps I (importNotificationChannels E cs pids resp)"
  unfolding importSSHKey_def importMachine_def importNotificationProxies_def importNotificationProxy_def
    importNotificationChannels_def importNotificationChannel_def Let_def
  by (intro keeps_intros keeps_fold_each protector.keeps_encrypt assms)+

lemma import_rules_ok: "keeps rules_ok (importPayload E key p)"
proof -
  note steps = keeps_inventory_import [of rules_ok E, OF rule_table.keeps_creates rule_table.free_of_ticks, simplified]
  have "rules_ok (snd (importPayload E key p w))" if w: "rules_ok w" for w
  proof (cases "validateBackupPayload E (tie_rank E (tick w)) p")
    case (Some e)
    with w show ?thesis by (simp add: importPayload_def run_bnd [of "external _"] run_external run_fail rules_ok_ticked)
  next
    case None
    then have "\<forall>r\<in>set (bl_GlobalThresholdRules p). valid_dimension (bg_PeriodType r) (bg_MetricType r)"
      "\<forall>r\<in>set (bl_MachineThresholdRules p). valid_dimension (bt_PeriodType r) (bt_MetricType r)"
      unfolding valid_payload by (blast intro: valid_rule_dimension)+
    note rules = import_threshold_rules_ok [OF this]
    have ticked: "rules_ok (ticked 1 w)" using w by (simp add: rules_ok_ticked)
    show ?thesis
      unfolding importPayload_def run_bnd [of "external _"] run_external prod.case sum.case None option.case ticked_simps(1)
      by (rule keeps_snd [where I = rules_ok, OF _ ticked]) (intro keeps_intros keeps_fold_each rule_table.free_of_ticks steps rules)
  qed
  then show ?thesis by (simp add: keeps_def)
qed

lemma keeps_import_handler:
  assumes "\<And>p. keeps I (importPayload E key p)"
  shows "keeps I (BackupHandler_Import E unm key b)"
  unfolding BackupHandler_Import_def BackupService_Import_def by (intro keeps_intros assms)

interpretation rule_rows: state_invariant rules_ok "{GlobalRuleRows, MachineRuleRows}"
proof unfold_locales
  fix c sv store who w r w'
  assume c: "footprint c \<inter> {GlobalRuleRows, MachineRuleRows} \<noteq> {}" and run: "handler sv store who c w = Some (r, w')" and w: "rules_ok w"
  have "keeps rules_ok (ThresholdHandler_UpsertGlobalRules E b)" "keeps rules_ok (ThresholdHandler_UpsertMachineRules E i b)" for E i b
    unfolding ThresholdHandler_UpsertGlobalRules_def ThresholdHandler_UpsertMachineRules_def
    by (intro keeps_intros rules_stay_ok [THEN conjunct1] rules_stay_ok [THEN conjunct2])+
  moreover note keeps_import_handler [OF import_rules_ok]
  ultimately show "rules_ok w'"
    using c run by (cases c) (auto simp: collected_areas_def elim!: plain_keeps [where I = rules_ok, OF _ _ w])
qed (simp_all add: collected_areas_def)

section \<open>The inventory\<close>

interpretation store_table: table_property store_ok "{MachineRows, KeyRows}"
proof unfold_locales
  fix B w v
  assume "confined B w v" and "B \<inter> {MachineRows, KeyRows} = {}"
  then have "same_area MachineRows w v" "same_area KeyRows w v" unfolding confined_def by blast+
  then show "store_ok w \<Longrightarrow> store_ok v"
    by (simp add: store_ok_def inventory_ok_def machine_ok_def ids_positive_def)
qed

interpretation positive_table: table_property ids_positive "{KeyRows}"
proof unfold_locales
  fix B w v
  assume "confined B w v" and "B \<inter> {KeyRows} = {}"
  then have "same_area KeyRows w v" unfolding confined_def by blast
  then show "ids_positive w \<Longrightarrow> ids_positive v" by (simp add: ids_positive_def)
qed

lemma positive_key_rows:
  "keeps ids_positive (SSHKeyRepo_Create E k)" "keeps ids_positive (SSHKeyRepo_UpdateName E i n)"
  "keeps ids_positive (SSHKeyRepo_DeleteByID E i)"
  unfolding SSHKeyRepo_Create_def SSHKeyRepo_UpdateName_def SSHKeyRepo_DeleteByID_def
  by (intro keeps_intros keeps_statement keeps_get_key positive_table.free_of_ticks;
      auto simp: keeps_def ids_positive_def Let_def bump_seq_def sql_delete_def sql_update_def)+

lemma positive_key_services:
  "keeps ids_positive (SSHKeyService_Import E key ireq)" "keeps ids_positive (SSHKeyService_Generate E key greq)"
  "keeps ids_positive (SSHKeyService_Rename E i n)" "keeps ids_positive (SSHKeyService_Delete E i)"
proof -
  have l: "keeps ids_positive (MachineRepo_ListBySSHKeyID E i)" for i
    by (rule positive_table.keeps_outside [of "{}"]) (auto intro: frames)
  show "keeps ids_positive (SSHKeyService_Import E key ireq)" "keeps ids_positive (SSHKeyService_Generate E key greq)"
    "keeps ids_positive (SSHKeyService_Rename E i n)" "keeps ids_positive (SSHKeyService_Delete E i)"
    unfolding SSHKeyService_Import_def SSHKeyService_Generate_def SSHKeyService_Rename_def SSHKeyService_Delete_def storeKey_def
    by (intro keeps_intros positive_key_rows protector.keeps_encrypt positive_table.free_of_ticks l)+
qed

lemma positive_machine_services:
  "keeps ids_positive (MachineService_Create E creq)" "keeps ids_positive (MachineService_Update E i ureq)"
  "keeps ids_positive (MachineService_Delete E i)"
proof -
  have f: "keeps (confined {MachineRows} w) (MachineService_Create E creq)" "keeps (confined {MachineRows} w) (MachineService_Update E i ureq)"
    "keeps (confined {MachineRows} w) (MachineService_Delete E i)" for w
    unfolding MachineService_Create_def MachineService_Update_def MachineService_Delete_def getMachine_def validateMachine_def Let_def
    by (intro keeps_intros frames; simp)+
  show "keeps ids_positive (MachineService_Create E creq)" "keeps ids_positive (MachineService_Update E i ureq)"
    "keeps ids_positive (MachineService_Delete E i)"
    by (auto intro: positive_table.keeps_outside [OF f(1)] positive_table.keeps_outside [OF f(2)] positive_table.keeps_outside [OF f(3)])
qed

lemma keeps_store: "keeps inventory_ok m \<Longrightarrow> keeps ids_positive m \<Longrightarrow> keeps store_ok m"
  by (simp add: keeps_def store_ok_def)

lemma store_services:
  "keeps store_ok (SSHKeyService_Import E key ireq)" "keeps store_ok (SSHKeyService_Generate E key greq)"
  "keeps store_ok (SSHKeyService_Rename E i n)" "keeps store_ok (SSHKeyService_Delete E i)"
  "keeps store_ok (MachineService_Create E creq)" "keeps store_ok (MachineService_Update E i ureq)"
  "keeps store_ok (MachineService_Delete E i)"
proof -
  have k: "keeps inventory_ok (MachineService_Create E creq)" "keeps inventory_ok (MachineService_Update E i ureq)"
    "keeps inventory_ok (SSHKeyService_Delete E i)"
    by (simp_all add: keeps_def keep_create keep_update keep_delete_key)
  show "keeps store_ok (SSHKeyService_Import E key ireq)" "keeps store_ok (SSHKeyService_Generate E key greq)"
    "keeps store_ok (SSHKeyService_Rename E i n)" "keeps store_ok (SSHKeyService_Delete E i)"
    "keeps store_ok (MachineService_Create E creq)" "keeps store_ok (MachineService_Update E i ureq)"
    "keeps store_ok (MachineService_Delete E i)"
    by (intro keeps_store positive_key_services positive_machine_services keep_import keep_generate keep_rename keep_delete k)+
qed

lemma store_import: "keeps store_ok (BackupService_Import E unm key req)"
  unfolding keeps_def
proof (intro allI impI)
  fix w
  assume w: "store_ok w"
  obtain r w' where run: "BackupService_Import E unm key req w = (r, w')" by fastforce
  with w have "store_ok w'" by (cases rule: import_cases [OF w run]) (auto simp: import_error_def)
  with run show "store_ok (snd (BackupService_Import E unm key req w))" by simp
qed

interpretation store_rows: state_invariant store_ok "{MachineRows, KeyRows}"
proof unfold_locales
  fix c sv store who w r w'
  assume c: "footprint c \<inter> {MachineRows, KeyRows} \<noteq> {}" and run: "handler sv store who c w = Some (r, w')" and w: "store_ok w"
  have "keeps store_ok (SSHKeyHandler_Import E key kb)" "keeps store_ok (SSHKeyHandler_Generate E key gb)"
    "keeps store_ok (SSHKeyHandler_Rename E i rb)" "keeps store_ok (SSHKeyHandler_Delete E i)"
    "keeps store_ok (MachineHandler_Create E mb)" "keeps store_ok (MachineHandler_Update E i ub)"
    "keeps store_ok (MachineHandler_Delete E i)" "keeps store_ok (BackupHandler_Import E unm key bb)" for E key kb gb i rb mb ub unm bb
    unfolding inventory_handlers BackupHandler_Import_def
    by (intro keeps_intros store_services store_import)+
  with c run show "store_ok w'"
    by (cases c) (auto simp: collected_areas_def elim!: plain_keeps [where I = store_ok, OF _ _ w])
qed (simp_all add: collected_areas_def)

section \<open>Every reachable state\<close>

text \<open>The state of a healthy server: complete machines whose keys exist, valid rules with one per dimension, samples,
  alerts and administrators with their own identifiers and keys.\<close>

definition data_ok :: "world \<Rightarrow> bool" where
  "data_ok w \<longleftrightarrow> store_ok w \<and> rules_ok w \<and> samples_ok w \<and> alerts_ok w \<and> admins_ok w"

lemma reachable_data_ok: "serving sv s t \<Longrightarrow> data_ok (snd s) \<Longrightarrow> data_ok (snd t)"
  unfolding data_ok_def using store_rows.invariant rule_rows.invariant sample_rows.invariant alert_rows.invariant admin_rows.invariant by blast

text \<open>C22. Whatever clients request, the scheduler collects, the cleanup deletes and the database and the machines answer,
  in any order and with restarts, the stored data stay consistent: every machine is complete and names a key that is
  stored, identifiers and fingerprints are unique, every threshold rule has a known dimension and there is one per
  dimension, a sample is stored once per machine, period and bucket, an alert once per key, an administrator once per name.\<close>

theorem data_stays_ok:
  assumes "serving sv (h, w) (h', w')" and "data_ok w"
  shows "data_ok w'"
  using reachable_data_ok [OF assms(1)] assms(2) by simp

lemma empty_data_ok: "data_ok empty_world"
  by (simp add: data_ok_def store_ok_def inventory_ok_def ids_positive_def rules_ok_def samples_ok_def alerts_ok_def admins_ok_def ids_below_def
      sample_tbl.unique_def admin_tbl.unique_def alert_tbl.unique_def grule_tbl.unique_def mrule_tbl.unique_def empty_world_def)


section \<open>Examples\<close>

lemma example_collected:
  "serving example_server (fresh_token, empty_world) (fresh_token, snd (CollectMachine example_env example_master example_machine empty_world))"
  by (rule collection [OF idle, where m = example_machine and r = "fst (CollectMachine example_env example_master example_machine empty_world)"])
    (simp add: example_server_def)

theorem data_stays_ok_witness: "data_ok (snd (CollectMachine example_env example_master example_machine empty_world))"
  by (rule data_stays_ok [OF example_collected empty_data_ok])


end
