(* ===== verification/Settled.thy ===== *)
theory Settled
  imports Reachable
begin

text \<open>
  What becomes of alerts after the evaluation that created them. An evaluation only touches the alerts it has created
  itself, so the status and the deliveries of every other alert are final: a sent alert is never sent again, and an alert
  whose dispatch was interrupted is never sent at all.
\<close>

section \<open>Final alerts\<close>

definition settled :: "Alert \<Rightarrow> NotificationDelivery list \<Rightarrow> world \<Rightarrow> bool" where
  "settled a ds w \<longleftrightarrow> al_ID a < seqs w TAlerts \<and> (\<forall>b\<in>set (alerts w). al_ID b = al_ID a \<longrightarrow> b = a) \<and>
     filter (\<lambda>d. dl_AlertID d = al_ID a) (deliveries w) = ds"

lemma settled_tick [simp]: "tick_free (settled a ds)"
  by (simp add: tick_free_def settled_def)

lemma settled_status: "i \<noteq> al_ID a \<Longrightarrow> keeps (settled a ds) (AlertRepo_UpdateNotifyStatus E i st)"
  unfolding AlertRepo_UpdateNotifyStatus_def
  by (intro keeps_intros keeps_statement settled_tick) (auto simp: keeps_def settled_def sql_update_def)

lemma settled_prune: "keeps (settled a ds) (AlertRepo_DeleteExpired E af)"
  unfolding AlertRepo_DeleteExpired_def
  by (intro keeps_intros keeps_statement settled_tick) (auto simp: keeps_def settled_def sql_delete_def)

lemma settled_delivery: "al_ID b \<noteq> al_ID a \<Longrightarrow> keeps (settled a ds) (createNotificationDelivery E ct b r)"
  unfolding createNotificationDelivery_def NotificationDeliveryRepo_Create_def
  by (intro keeps_intros keeps_statement settled_tick; cases r) (auto simp: keeps_def settled_def bump_seq_def Let_def)

interpretation settled_table: table_property "settled a ds" "{AlertRows, DeliveryRows}" for a ds
proof unfold_locales
  show "settled a ds v" if "confined B w v" "B \<inter> {AlertRows, DeliveryRows} = {}" "settled a ds w" for B w v
    using that(2,3) that(1) [unfolded confined_def, rule_format, of AlertRows] that(1) [unfolded confined_def, rule_format, of DeliveryRows]
    by (auto simp: settled_def)
qed

lemma settled_sending: "keeps (settled a ds) (sendNotification E ch b)" "keeps (settled a ds) (sendTelegramBatch E c bs)"
  by (auto intro!: settled_table.keeps_outside [of "{SentRequests}"] frames)

lemma settled_dispatch_channels:
  assumes "\<forall>b\<in>set bs. al_ID b \<noteq> al_ID a"
  shows "keeps (settled a ds) (dispatchChannels E bs chs f)"
proof -
  have "keeps (settled a ds) (recordBatch E ct r bs f)" for ct r f
    using assms by (induction bs arbitrary: f) (auto intro!: keeps_intros settled_delivery)
  moreover have "keeps (settled a ds) (sendEach E ch bs f)" for ch f
    using assms by (induction bs arbitrary: f) (auto intro!: keeps_intros settled_delivery settled_sending)
  ultimately have "keeps (settled a ds) (dispatchChannel E bs ch f)" for ch f
    unfolding dispatchChannel_def by (intro keeps_intros settled_sending)
  then show ?thesis by (induction chs arbitrary: f) (auto intro!: keeps_intros)
qed

lemma settled_dispatch:
  assumes "\<forall>b\<in>set bs. al_ID b \<noteq> al_ID a"
  shows "keeps (settled a ds) (dispatchAlerts E bs)"
proof -
  have each: "keeps (settled a ds) (for_each bs (\<lambda>b. AlertRepo_UpdateNotifyStatus E (al_ID b) (st b)))" for st
    using assms by (induction bs) (auto intro!: keeps_intros settled_status)
  show ?thesis
    unfolding dispatchAlerts_def Let_def
    by (intro keeps_intros keeps_lists settled_tick settled_dispatch_channels assms each)
qed

text \<open>Created alerts are new.\<close>

lemma create_if_absent_new:
  assumes "AlertRepo_CreateIfAbsent E c w = (r, w')" and "settled a ds w"
  shows "settled a ds w'" and "r = Inr (True, b) \<Longrightarrow> al_ID b \<noteq> al_ID a"
  using assms
  by (auto simp: AlertRepo_CreateIfAbsent_def statement_def wrap_def attempt_def ret_def fail_def Let_def settled_def bump_seq_def
      sql_insert_ignore_def split: option.splits if_splits sum.splits)

lemma create_all_new:
  assumes "createAll E cs w = (r, w')" and "settled a ds w"
  shows "settled a ds w' \<and> (\<forall>bs. r = Inr bs \<longrightarrow> (\<forall>b\<in>set bs. al_ID b \<noteq> al_ID a))"
  using assms
proof (induction cs arbitrary: w r w')
  case (Cons c cs)
  obtain q v where cr: "AlertRepo_CreateIfAbsent E c w = (q, v)" by (cases "AlertRepo_CreateIfAbsent E c w")
  note new = create_if_absent_new [OF cr Cons.prems(2)]
  show ?case
  proof (cases q)
    case (Inl e)
    with Cons.prems cr new(1) show ?thesis by (auto simp: bnd_def wrap_def attempt_def fail_def)
  next
    case (Inr p)
    obtain created b where p: "p = (created, b)" by (cases p)
    obtain r' u where all: "createAll E cs v = (r', u)" by (cases "createAll E cs v")
    from Cons.IH [OF all new(1)] Cons.prems(1) cr Inr p all new(2) [of b] show ?thesis
      by (auto simp: bnd_def wrap_def attempt_def ret_def split: sum.splits if_splits)
  qed
qed (simp add: ret_def)

lemma settled_evaluation: "keeps (settled a ds) (AlertService_EvaluateSamples E i smps)"
proof -
  have both: "keeps (settled a ds) (bnd (createAll E cs) (dispatchAlerts E))" for cs
    unfolding keeps_def
  proof (intro allI impI)
    fix w
    assume w: "settled a ds w"
    obtain r v where all: "createAll E cs w = (r, v)" by (cases "createAll E cs w")
    from create_all_new [OF all w] settled_dispatch show "settled a ds (snd (bnd (createAll E cs) (dispatchAlerts E) w))"
      by (cases r) (auto simp: bnd_def all keeps_def)
  qed
  show ?thesis
    unfolding AlertService_EvaluateSamples_def EvaluateSamples_def evaluateAll_eq
    by (intro both keeps_intros keeps_effective_rules settled_tick)
qed

lemmas settled_collection = machine_collection_keeps [OF settled_tick settled_table.keeps_ssh settled_table.keeps_sample_rows(1)
  settled_evaluation, simplified]

interpretation settled_rows: state_invariant "settled a ds" "{AlertRows, DeliveryRows}" for a ds
proof unfold_locales
  show "settled a ds w'" if "footprint c \<inter> {AlertRows, DeliveryRows} \<noteq> {}" "handler sv store who c w = Some (r, w')" "settled a ds w"
    for c sv store who w r w'
  proof (rule pruning_handlers [OF _ that(2,3) settled_tick settled_collection(2) settled_table.keeps_sample_rows(2) settled_prune])
    show "footprint c \<inter> {SampleRows, AlertRows} \<noteq> {}" using that(1) by (cases c) (auto simp: collected_areas_def)
  qed simp
qed (simp_all add: settled_collection settled_prune)

text \<open>C3. The outcome of an alert is final: once the evaluation that created an alert has ended, nothing the server does
  changes the alert or adds a delivery for it, until a cleanup deletes it. So a sent alert is not sent twice; and an alert
  that an interrupted dispatch left pending stays pending, without a notification, for good.\<close>

theorem alerts_are_final:
  assumes "serving sv (h, w) (h', w')" and "data_ok w" and "a \<in> set (alerts w)"
  shows "(\<forall>b\<in>set (alerts w'). al_ID b = al_ID a \<longrightarrow> b = a) \<and>
     filter (\<lambda>d. dl_AlertID d = al_ID a) (deliveries w') = filter (\<lambda>d. dl_AlertID d = al_ID a) (deliveries w)"
proof -
  have "distinct (map al_ID (alerts w))" "al_ID a < seqs w TAlerts"
    using assms(2,3) by (auto simp: data_ok_def alerts_ok_def ids_below_def)
  then have "settled a (filter (\<lambda>d. dl_AlertID d = al_ID a) (deliveries w)) w"
    using assms(3) by (auto simp: settled_def dest: inj_onD simp: distinct_map)
  then show ?thesis
    using settled_rows.invariant [OF assms(1), of a] by (simp add: settled_def)
qed

text \<open>A dispatch is interrupted by one failing statement; the list of the channels is the first.\<close>

lemma dispatch_interrupted:
  assumes "db_fault E (tick w) = Some msg" and "bs \<noteq> []"
  shows "\<exists>e w'. dispatchAlerts E bs w = (Inl e, w') \<and> alerts w' = alerts w \<and> deliveries w' = deliveries w \<and> outbox w' = outbox w"
  using assms
  by (auto simp: dispatchAlerts_def NotificationChannelRepo_List_def statement_def bnd_def wrap_def attempt_def fail_def)

section \<open>Examples\<close>

definition pending_alert :: Alert where
  "pending_alert = alertFor example_sample ''total'' 1000 900"

definition interrupted_world :: world where
  "interrupted_world = empty_world\<lparr>alerts := [pending_alert]\<rparr>"

lemma interrupted_data_ok: "data_ok interrupted_world"
  by (simp add: data_ok_def store_ok_def inventory_ok_def ids_positive_def rules_ok_def samples_ok_def alerts_ok_def admins_ok_def ids_below_def
      admin_tbl.unique_def sample_tbl.unique_def alert_tbl.unique_def grule_tbl.unique_def mrule_tbl.unique_def interrupted_world_def empty_world_def
      pending_alert_def alertFor_def)

theorem alerts_are_final_witness:
  "filter (\<lambda>d. dl_AlertID d = al_ID pending_alert)
     (deliveries (snd (CollectMachine example_env example_master example_machine interrupted_world))) = []"
proof -
  let ?w = "snd (CollectMachine example_env example_master example_machine interrupted_world)"
  have "serving example_server (fresh_token, interrupted_world) (fresh_token, ?w)"
    by (rule collection [OF idle, where m = example_machine and
          r = "fst (CollectMachine example_env example_master example_machine interrupted_world)"]) (simp add: example_server_def)
  from alerts_are_final [OF this interrupted_data_ok, of pending_alert] show ?thesis
    by (simp add: interrupted_world_def empty_world_def)
qed

end
