(* ===== verification/Overlap.thy ===== *)
theory Overlap
  imports Reachable
begin

text \<open>
  Evaluations that run at the same time: every worker of the scheduler and every request to collect evaluates the samples it
  has read, and they share the database. The relation \<open>advance\<close> cuts an evaluation into steps that write at most once;
  \<open>overlap\<close> interleaves the steps of any number of evaluations with each other and with whatever else the server does.
\<close>

section \<open>Evaluations in steps\<close>

datatype action = SendBatch NotificationChannel "Alert list" | SendOne NotificationChannel Alert | Record string Alert "go_error + string"

text \<open>An evaluation has candidates left to create and alerts it created, then messages to send and deliveries to record
  for these alerts and the identifiers that failed, then statuses to set.\<close>

datatype evaluation =
    Creating "Alert list" "Alert list"
  | Dispatching "action list" "Alert list" "nat list"
  | Marking "(Alert \<times> string) list"

definition work :: "Alert list \<Rightarrow> NotificationChannel \<Rightarrow> action list" where
  "work als ch = (if ch_ChannelType ch = channelTypeTelegram then [SendBatch ch als] else map (SendOne ch) als)"

definition dispatching :: "Alert list \<Rightarrow> NotificationChannel list \<Rightarrow> evaluation" where
  "dispatching als enabledChannels =
     (if enabledChannels = [] then Marking (map (\<lambda>a. (a, alertNotifyStatusSkipped)) als)
      else Dispatching (concat (map (work als) enabledChannels)) als [])"

definition marking :: "Alert list \<Rightarrow> nat list \<Rightarrow> evaluation" where
  "marking als failedIDs =
     Marking (map (\<lambda>a. (a, if al_ID a \<in> set failedIDs then alertNotifyStatusFailed else alertNotifyStatusSent)) als)"

inductive advance :: "env \<Rightarrow> evaluation \<times> world \<Rightarrow> evaluation option \<times> world \<Rightarrow> bool" for E where
  create: "wrap ''create alert: '' (AlertRepo_CreateIfAbsent E c) w = (Inr (new, a), w') \<Longrightarrow>
     advance E (Creating (c # cs) als, w) (Some (Creating cs (if new then als @ [a] else als)), w')"
| create_failed: "wrap ''create alert: '' (AlertRepo_CreateIfAbsent E c) w = (Inl e, w') \<Longrightarrow>
     advance E (Creating (c # cs) als, w) (None, w')"
| none_created: "advance E (Creating [] [], w) (None, w)"
| listed: "als \<noteq> [] \<Longrightarrow> wrap ''list notification channels: '' (NotificationChannelRepo_List E) w = (Inr chs, w') \<Longrightarrow>
     advance E (Creating [] als, w) (Some (dispatching als (filter ch_Enabled chs)), w')"
| list_failed: "als \<noteq> [] \<Longrightarrow> wrap ''list notification channels: '' (NotificationChannelRepo_List E) w = (Inl e, w') \<Longrightarrow>
     advance E (Creating [] als, w) (None, w')"
| batch_sent: "catching (sendTelegramBatch E (ch_ConfigJSON ch) bs) w = (Inr r, w') \<Longrightarrow>
     advance E (Dispatching (SendBatch ch bs # q) als f, w)
       (Some (Dispatching (map (\<lambda>a. Record (ch_ChannelType ch) a r) bs @ q) als f), w')"
| one_sent: "catching (sendNotification E ch a) w = (Inr r, w') \<Longrightarrow>
     advance E (Dispatching (SendOne ch a # q) als f, w) (Some (Dispatching (Record (ch_ChannelType ch) a r # q) als f), w')"
| recorded: "createNotificationDelivery E ct a r w = (Inr (), w') \<Longrightarrow>
     advance E (Dispatching (Record ct a r # q) als f, w)
       (Some (Dispatching q als (case r of Inl _ \<Rightarrow> al_ID a # f | Inr _ \<Rightarrow> f)), w')"
| record_failed: "createNotificationDelivery E ct a r w = (Inl e, w') \<Longrightarrow>
     advance E (Dispatching (Record ct a r # q) als f, w) (None, w')"
| all_sent: "advance E (Dispatching [] als f, w) (Some (marking als f), w)"
| marked: "AlertRepo_UpdateNotifyStatus E (al_ID a) st w = (Inr (), w') \<Longrightarrow>
     advance E (Marking ((a, st) # ms), w) (Some (Marking ms), w')"
| mark_failed: "AlertRepo_UpdateNotifyStatus E (al_ID a) st w = (Inl e, w') \<Longrightarrow>
     advance E (Marking ((a, st) # ms), w) (None, w')"
| finished: "advance E (Marking [], w) (None, w)"

text \<open>Other requests and jobs leave alerts and deliveries alone and the channel types unique; reading the rules is one of
  these steps.\<close>

inductive overlap :: "env \<Rightarrow> evaluation list \<times> world \<Rightarrow> evaluation list \<times> world \<Rightarrow> bool" for E where
  started: "overlap E (es, w) (Creating (candidates rules now smps) [] # es, w)"
| step: "advance E (e, w) (Some e', w') \<Longrightarrow> overlap E (es @ e # fs, w) (es @ e' # fs, w')"
| ended: "advance E (e, w) (None, w') \<Longrightarrow> overlap E (es @ e # fs, w) (es @ fs, w')"
| elsewhere: "confined A w w' \<Longrightarrow> A \<inter> {AlertRows, DeliveryRows} = {} \<Longrightarrow> channel_tbl.unique (channels w') \<Longrightarrow>
     overlap E (es, w) (es, w')"

section \<open>What a step writes\<close>

fun holds :: "evaluation \<Rightarrow> nat list" where
  "holds (Creating cs als) = map al_ID als"
| "holds (Dispatching q als f) = map al_ID als"
| "holds (Marking ms) = []"

fun due_of :: "action \<Rightarrow> (nat \<times> string) list" where
  "due_of (SendBatch ch bs) = map (\<lambda>a. (al_ID a, ch_ChannelType ch)) bs"
| "due_of (SendOne ch a) = [(al_ID a, ch_ChannelType ch)]"
| "due_of (Record ct a r) = [(al_ID a, ct)]"

definition delivered_pair :: "NotificationDelivery \<Rightarrow> nat \<times> string" where
  "delivered_pair d = (dl_AlertID d, dl_ChannelType d)"

fun owed :: "evaluation \<Rightarrow> world \<Rightarrow> bool" where
  "owed (Creating cs als) w = (\<forall>d\<in>set (deliveries w). dl_AlertID d \<notin> al_ID ` set als)"
| "owed (Dispatching q als f) w = (distinct (concat (map due_of q)) \<and> fst ` set (concat (map due_of q)) \<subseteq> al_ID ` set als \<and>
     (\<forall>d\<in>set (deliveries w). delivered_pair d \<notin> set (concat (map due_of q))))"
| "owed (Marking ms) w = True"

definition good :: "nat \<Rightarrow> evaluation \<Rightarrow> world \<Rightarrow> bool" where
  "good n e w \<longleftrightarrow> distinct (holds e) \<and> (\<forall>i\<in>set (holds e). n \<le> i \<and> i < seqs w TAlerts) \<and> owed e w"

text \<open>The deliveries that a step of an evaluation adds are for its own alerts, and new.\<close>

definition adds_own :: "evaluation \<Rightarrow> world \<Rightarrow> world \<Rightarrow> bool" where
  "adds_own e w w' \<longleftrightarrow> seqs w TAlerts \<le> seqs w' TAlerts \<and> channels w' = channels w \<and>
     (\<exists>ds. deliveries w' = deliveries w @ ds \<and> distinct (map delivered_pair ds) \<and>
        (\<forall>d\<in>set ds. dl_AlertID d \<in> set (holds e) \<and> delivered_pair d \<notin> delivered_pair ` set (deliveries w)))"

lemma adds_own_same: "deliveries w' = deliveries w \<Longrightarrow> channels w' = channels w \<Longrightarrow> seqs w TAlerts \<le> seqs w' TAlerts \<Longrightarrow> adds_own e w w'"
  by (auto simp: adds_own_def)

lemma create_writes:
  assumes "wrap ''create alert: '' (AlertRepo_CreateIfAbsent E c) w = (r, w')"
  shows "deliveries w' = deliveries w" "channels w' = channels w" "seqs w TAlerts \<le> seqs w' TAlerts"
    "r = Inr (True, a) \<Longrightarrow> al_ID a = seqs w TAlerts \<and> seqs w' TAlerts = Suc (seqs w TAlerts)"
  using assms
  by (auto simp: AlertRepo_CreateIfAbsent_def statement_def wrap_def attempt_def ret_def fail_def Let_def bump_seq_def
      split: option.splits if_splits)

lemma list_writes:
  assumes "wrap ''list notification channels: '' (NotificationChannelRepo_List E) w = (r, w')"
  shows "deliveries w' = deliveries w" "channels w' = channels w" "seqs w' = seqs w"
    "r = Inr chs \<Longrightarrow> distinct (map ch_ChannelType (channels w)) \<Longrightarrow> distinct (map ch_ChannelType chs)"
  using assms
  by (auto simp: NotificationChannelRepo_List_def statement_def wrap_def attempt_def ret_def fail_def Let_def distinct_map
      split: option.splits if_splits)

lemma send_writes:
  assumes "catching (sendTelegramBatch E c bs) w = (r, w') \<or> catching (sendNotification E ch a) w = (r, w')"
  shows "deliveries w' = deliveries w" "channels w' = channels w" "seqs w' TAlerts = seqs w TAlerts"
proof -
  have "keeps (confined {SentRequests} w) (catching (sendTelegramBatch E c bs))" "keeps (confined {SentRequests} w) (catching (sendNotification E ch a))"
    by (auto intro!: keeps_catching frames)
  then have "confined {SentRequests} w w'"
    using assms keepsD [where I = "confined {SentRequests} w", OF _ confined_refl] by blast
  then show "deliveries w' = deliveries w" "channels w' = channels w" "seqs w' TAlerts = seqs w TAlerts"
    by (simp_all add: confined_iff)
qed

lemmas batch_writes = send_writes [OF disjI1] and one_writes = send_writes [OF disjI2]

lemma record_writes:
  assumes "createNotificationDelivery E ct a r w = (x, w')"
  shows "channels w' = channels w" "seqs w' TAlerts = seqs w TAlerts"
    "x = Inl e \<Longrightarrow> deliveries w' = deliveries w"
    "x = Inr () \<Longrightarrow> \<exists>d. deliveries w' = deliveries w @ [d] \<and> delivered_pair d = (al_ID a, ct)"
  using assms
  by (auto simp: createNotificationDelivery_def NotificationDeliveryRepo_Create_def statement_def wrap_def attempt_def ret_def
      fail_def Let_def bump_seq_def delivered_pair_def split: option.splits sum.splits)

lemma mark_writes:
  assumes "AlertRepo_UpdateNotifyStatus E i st w = (x, w')"
  shows "deliveries w' = deliveries w" "channels w' = channels w" "seqs w' = seqs w"
  using assms
  by (auto simp: AlertRepo_UpdateNotifyStatus_def statement_def wrap_def attempt_def ret_def fail_def Let_def split: option.splits)

section \<open>The invariant\<close>

lemma owed_other:
  assumes "owed f w" and "adds_own e w w'" and "set (holds e) \<inter> set (holds f) = {}"
  shows "owed f w'"
proof -
  from assms(2) obtain ds where ds: "deliveries w' = deliveries w @ ds" and own: "\<forall>d\<in>set ds. dl_AlertID d \<in> set (holds e)"
    by (auto simp: adds_own_def)
  show ?thesis
  proof (cases f)
    case (Creating cs als)
    with assms(1,3) ds own show ?thesis by auto
  next
    case (Dispatching q als g)
    have "delivered_pair d \<notin> set (concat (map due_of q))" if "d \<in> set ds" for d
    proof
      assume "delivered_pair d \<in> set (concat (map due_of q))"
      then have "dl_AlertID d \<in> fst ` set (concat (map due_of q))"
        by (intro image_eqI [where x = "delivered_pair d"]) (simp_all add: delivered_pair_def)
      also have "\<dots> \<subseteq> set (holds f)" using assms(1) Dispatching by (simp del: set_concat)
      finally show False using that own assms(3) by blast
    qed
    with assms(1) Dispatching ds show ?thesis by (auto simp del: set_concat)
  qed simp
qed

lemma good_other:
  assumes "good n f w" and "adds_own e w w'" and "set (holds e) \<inter> set (holds f) = {}"
  shows "good n f w'"
  using assms owed_other [OF _ assms(2,3)] by (fastforce simp: good_def adds_own_def)

lemma advance_adds: "advance E (e, w) (x, w') \<Longrightarrow> good n e w \<Longrightarrow> adds_own e w w'"
proof (induction "(e, w)" "(x, w')" arbitrary: w' rule: advance.induct)
  case (recorded ct a r w' q als f)
  from record_writes [OF recorded(1)] obtain d where "deliveries w' = deliveries w @ [d]" "delivered_pair d = (al_ID a, ct)" by auto
  with recorded record_writes(1,2) [OF recorded(1)] show ?case
    by (auto simp: adds_own_def good_def delivered_pair_def)
qed (auto intro!: adds_own_same dest: create_writes list_writes batch_writes one_writes record_writes mark_writes)

text \<open>The messages of a dispatch: one for each alert and channel type.\<close>

lemma due_work: "concat (map due_of (work als ch)) = map (\<lambda>a. (al_ID a, ch_ChannelType ch)) als"
  by (auto simp: work_def comp_def concat_map_singleton [where f = "\<lambda>a. (al_ID a, ch_ChannelType ch)"])

lemma due_works: "concat (map due_of (concat (map (work als) chs))) = concat (map (\<lambda>ch. map (\<lambda>a. (al_ID a, ch_ChannelType ch)) als) chs)"
  by (induction chs) (simp_all add: due_work)

lemma distinct_works:
  assumes "distinct (map al_ID als)" and "distinct (map ch_ChannelType chs)"
  shows "distinct (concat (map (\<lambda>ch. map (\<lambda>a. (al_ID a, ch_ChannelType ch)) als) chs))"
  using assms(2)
proof (induction chs)
  case (Cons ch chs)
  have "distinct (map (\<lambda>a. (al_ID a, ch_ChannelType ch)) als)"
    using assms(1) by (auto simp: distinct_map inj_on_def)
  with Cons show ?case by auto
qed simp

lemma dispatching_good:
  assumes "good n (Creating [] als) w" and "distinct (map ch_ChannelType chs)"
  shows "good n (dispatching als chs) w"
proof (cases "chs = []")
  case False
  let ?due = "concat (map (\<lambda>ch. map (\<lambda>a. (al_ID a, ch_ChannelType ch)) als) chs)"
  have sub: "fst ` set ?due \<subseteq> al_ID ` set als" by auto
  moreover have "delivered_pair d \<notin> set ?due" if "d \<in> set (deliveries w)" for d
    using that assms(1) by (auto simp: good_def delivered_pair_def)
  ultimately show ?thesis
    using False assms by (simp add: dispatching_def good_def due_works distinct_works del: set_concat)
qed (simp add: dispatching_def good_def)

lemma holds_dispatching: "set (holds (dispatching als chs)) \<subseteq> al_ID ` set als"
  by (simp add: dispatching_def)

text \<open>A step leaves its evaluation good, with alerts it had or has just created.\<close>

lemma advance_good:
  assumes "advance E (e, w) (Some e', w')" and "good n e w" and "n \<le> seqs w TAlerts"
    and "\<forall>d\<in>set (deliveries w). dl_AlertID d < seqs w TAlerts" and "channel_tbl.unique (channels w)"
  shows "good n e' w' \<and> set (holds e') \<subseteq> set (holds e) \<union> {seqs w TAlerts ..< seqs w' TAlerts}"
  using assms
proof (induction "(e, w)" "(Some e', w')" arbitrary: e' w' rule: advance.induct)
  case (create c new a w' cs als)
  show ?case
  proof (cases new)
    case True
    note cw = create_writes [OF create(1)]
    from cw(4) True have "al_ID a = seqs w TAlerts" "seqs w' TAlerts = Suc (seqs w TAlerts)" by auto
    with create cw(1) True show ?thesis by (auto simp: good_def less_Suc_eq) (metis image_eqI)
  next
    case False
    with create create_writes [OF create(1)] show ?thesis by (fastforce simp: good_def)
  qed
next
  case (listed als chs w')
  note lw = list_writes [OF listed(2)]
  have "good n (Creating [] als) w'" using listed lw(1,3) by (auto simp: good_def)
  moreover have "distinct (map ch_ChannelType (filter ch_Enabled chs))"
    using lw(4) listed.prems by (simp add: channel_tbl.unique_def distinct_map_filter)
  ultimately have "good n (dispatching als (filter ch_Enabled chs)) w'" by (rule dispatching_good)
  moreover have "set (holds (dispatching als (filter ch_Enabled chs))) \<subseteq> set (holds e)"
    using holds_dispatching [of als "filter ch_Enabled chs"] listed by auto
  ultimately show ?case using listed by blast
next
  case (batch_sent ch bs r w' q als f)
  have "concat (map due_of (map (\<lambda>a. Record (ch_ChannelType ch) a r) bs)) = map (\<lambda>a. (al_ID a, ch_ChannelType ch)) bs"
    by (induction bs) auto
  moreover have "e = Dispatching (SendBatch ch bs # q) als f"
    using batch_sent by simp
  ultimately show ?case using batch_sent.prems batch_writes [OF batch_sent(1)] by (simp add: good_def)
next
  case (one_sent ch a r w' q als f)
  then have "e = Dispatching (SendOne ch a # q) als f" by simp
  with one_sent.prems one_writes [OF one_sent(1)] show ?case by (simp add: good_def)
next
  case (recorded ct a r w' q als f)
  from record_writes [OF recorded(1)] obtain d where "deliveries w' = deliveries w @ [d]" "delivered_pair d = (al_ID a, ct)"
    "seqs w' TAlerts = seqs w TAlerts" by auto
  moreover have "e = Dispatching (Record ct a r # q) als f"
    using recorded by simp
  ultimately show ?case using recorded.prems by (auto simp: good_def simp del: set_concat)
qed (auto simp: good_def marking_def mark_writes)

text \<open>All evaluations together: \<open>n\<close> is the next alert identifier and \<open>D\<close> are the deliveries at the start.\<close>

definition apart :: "nat \<Rightarrow> NotificationDelivery list \<Rightarrow> evaluation list \<Rightarrow> world \<Rightarrow> bool" where
  "apart n D es w \<longleftrightarrow> n \<le> seqs w TAlerts \<and> (\<forall>e\<in>set es. good n e w) \<and> distinct (concat (map holds es)) \<and>
     channel_tbl.unique (channels w) \<and> (\<forall>d\<in>set (deliveries w). dl_AlertID d < seqs w TAlerts) \<and>
     (\<exists>ds. deliveries w = D @ ds \<and> distinct (map delivered_pair ds) \<and> (\<forall>d\<in>set ds. n \<le> dl_AlertID d))"

lemma apart_advance:
  assumes "apart n D (es @ e # fs) w" and "advance E (e, w) (x, w')"
  shows "apart n D (es @ fs) w'"
proof -
  have e: "good n e w" using assms(1) by (simp add: apart_def)
  from advance_adds [OF assms(2) e] have adds: "adds_own e w w'" .
  then obtain new where new: "deliveries w' = deliveries w @ new" "distinct (map delivered_pair new)"
    "\<forall>d\<in>set new. dl_AlertID d \<in> set (holds e) \<and> delivered_pair d \<notin> delivered_pair ` set (deliveries w)"
    and seq: "seqs w TAlerts \<le> seqs w' TAlerts" "channels w' = channels w" by (auto simp: adds_own_def)
  have held: "\<forall>d\<in>set new. n \<le> dl_AlertID d \<and> dl_AlertID d < seqs w TAlerts" using e new(3) by (auto simp: good_def)
  obtain ds where ds: "deliveries w = D @ ds" "distinct (map delivered_pair ds)" "\<forall>d\<in>set ds. n \<le> dl_AlertID d"
    using assms(1) by (auto simp: apart_def)
  have "deliveries w' = D @ (ds @ new) \<and> distinct (map delivered_pair (ds @ new)) \<and> (\<forall>d\<in>set (ds @ new). n \<le> dl_AlertID d)"
    using ds new held by auto
  moreover have "good n f w'" if "f \<in> set (es @ fs)" for f
    using assms(1) that by (intro good_other [OF _ adds]) (auto simp: apart_def)
  moreover have "\<forall>d\<in>set (deliveries w'). dl_AlertID d < seqs w' TAlerts"
    using assms(1) new held seq by (auto simp: apart_def)
  ultimately show ?thesis using assms(1) seq unfolding apart_def by auto
qed

lemma apart_overlap:
  assumes "overlap E s t" and "apart n D (fst s) (snd s)"
  shows "apart n D (fst t) (snd t)"
  using assms
proof (induction rule: overlap.induct)
  case (started es w rules now smps)
  then show ?case by (simp add: apart_def good_def)
next
  case (step e w e' w' es fs)
  then have ap: "apart n D (es @ e # fs) w" by simp
  have e': "good n e' w'" "set (holds e') \<subseteq> set (holds e) \<union> {seqs w TAlerts ..< seqs w' TAlerts}"
    using advance_good [OF step(1), of n] ap by (auto simp: apart_def)
  have others: "i < seqs w TAlerts" "i \<notin> set (holds e)" if "i \<in> set (concat (map holds (es @ fs)))" for i
    using ap that by (auto simp: apart_def good_def)
  have "set (holds e') \<inter> set (concat (map holds (es @ fs))) = {}"
    using e'(2) others by (meson UnE atLeastLessThan_iff disjoint_iff leD subsetD)
  moreover have "distinct (holds e')" using e'(1) by (simp add: good_def)
  moreover note rest = apart_advance [OF ap step(1)]
  ultimately have "distinct (concat (map holds (es @ e' # fs)))"
    by (auto simp: apart_def)
  with rest e'(1) show ?case by (simp add: apart_def)
next
  case (ended e w w' es fs)
  then show ?case using apart_advance [of n D es e fs w E None w'] by simp
next
  case (elsewhere A w w' es)
  then have "deliveries w' = deliveries w" "seqs w' TAlerts = seqs w TAlerts"
    using elsewhere(1) [unfolded confined_def, rule_format, of DeliveryRows] elsewhere(1) [unfolded confined_def, rule_format, of AlertRows]
    by auto
  moreover from this have "good n e w' = good n e w" for e by (cases e) (simp_all add: good_def)
  ultimately show ?case using elsewhere by (simp add: apart_def)
qed

text \<open>C4. Evaluations that run at the same time do not notify twice: whatever evaluations of whatever samples overlap, in
  any interleaving with each other and with the rest of the server and with failures of the database and the receivers at
  any point, each alert they create gets at most one delivery per channel, and the alerts that were there before get none.\<close>

theorem overlapping_evaluations_notify_once:
  assumes "(overlap E)\<^sup>*\<^sup>* ([], w) (es, w')" and "channel_tbl.unique (channels w)"
    and "\<forall>d\<in>set (deliveries w). dl_AlertID d < seqs w TAlerts"
  shows "\<exists>ds. deliveries w' = deliveries w @ ds \<and> distinct (map (\<lambda>d. (dl_AlertID d, dl_ChannelType d)) ds) \<and>
     (\<forall>d\<in>set ds. seqs w TAlerts \<le> dl_AlertID d)"
proof -
  have "apart (seqs w TAlerts) (deliveries w) es w'"
    using assms(1)
  proof (induction "(es, w')" arbitrary: es w' rule: rtranclp_induct)
    case base
    then show ?case using assms(2,3) by (simp add: apart_def)
  next
    case (step t)
    then show ?case using apart_overlap [of E t "(es, w')" for es w'] by (cases t) fastforce
  qed
  moreover have "delivered_pair = (\<lambda>d. (dl_AlertID d, dl_ChannelType d))" by (simp add: fun_eq_iff delivered_pair_def)
  ultimately show ?thesis by (auto simp: apart_def)
qed

section \<open>One evaluation\<close>

text \<open>An evaluation on its own is a sequence of these steps. \<open>leads E e x e' w w'\<close>: the evaluation gets from \<open>e\<close> to \<open>e'\<close> when
  \<open>x\<close> is a value, and ends when \<open>x\<close> is an error.\<close>

definition leads :: "env \<Rightarrow> evaluation \<Rightarrow> go_error + 'a \<Rightarrow> ('a \<Rightarrow> evaluation) \<Rightarrow> world \<Rightarrow> world \<Rightarrow> bool" where
  "leads E e x k w w' \<longleftrightarrow> (overlap E)\<^sup>*\<^sup>* ([e], w) (case x of Inl _ \<Rightarrow> [] | Inr y \<Rightarrow> [k y], w')"

lemma leads_step:
  assumes "advance E (e, w) (Some e', v)" and "leads E e' x k v w'"
  shows "leads E e x k w w'"
  using converse_rtranclp_into_rtranclp [where r = "overlap E" and a = "([e], w)" and b = "([e'], v)"]
    step [OF assms(1), of "[]" "[]"] assms(2) by (simp add: leads_def)

lemma leads_end: "advance E (e, w) (None, w') \<Longrightarrow> leads E e (Inl err) k w w'"
  using r_into_rtranclp [where r = "overlap E" and x = "([e], w)" and y = "([], w')"] ended [of E e w w' "[]" "[]"]
  by (simp add: leads_def)

lemma leads_now [simp]: "leads E (k y) (Inr y) k w w"
  by (simp add: leads_def)

lemma leads_trans: "leads E e (Inr y) k w v \<Longrightarrow> leads E (k y) x k' v w' \<Longrightarrow> leads E e x k' w w'"
  by (simp add: leads_def)

lemma leads_fail: "leads E e (Inl err) k w w' \<Longrightarrow> leads E e (Inl err') k' w w'"
  by (simp add: leads_def)

lemma leads_bnd:
  assumes "bnd m g w = (x, w')" and "\<And>r v. m w = (r, v) \<Longrightarrow> leads E e r k w v"
    and "\<And>y v. g y v = (x, w') \<Longrightarrow> leads E (k y) x k' v w'"
  shows "leads E e x k' w w'"
proof -
  obtain r v where r: "m w = (r, v)" by (cases "m w")
  show ?thesis
  proof (cases r)
    case (Inl err)
    with r assms(1) have "x = Inl err" "w' = v" by (simp_all add: bnd_def)
    with assms(2) [OF r] Inl leads_fail show ?thesis by metis
  next
    case (Inr y)
    with r assms(1) have "g y v = (x, w')" by (simp add: bnd_def)
    with assms(2) [OF r] assms(3) Inr leads_trans show ?thesis by metis
  qed
qed

lemma creating_leads: "createAll E cs w = (x, w') \<Longrightarrow> leads E (Creating cs als) x (\<lambda>bs. Creating [] (als @ bs)) w w'"
proof (induction cs arbitrary: als w x)
  case Nil
  then show ?case using leads_now [where k = "\<lambda>bs. Creating [] (als @ bs)" and y = "[]"] by (auto simp: run_ret)
next
  case (Cons c cs)
  obtain q v where q: "wrap ''create alert: '' (AlertRepo_CreateIfAbsent E c) w = (q, v)" by (metis surj_pair)
  show ?case
  proof (cases q)
    case (Inl err)
    with Cons.prems q have "x = Inl err" "w' = v" by (simp_all add: bnd_def)
    with leads_end [OF create_failed, of E c w err v] q Inl show ?thesis by blast
  next
    case (Inr p)
    obtain new a where p: "p = (new, a)" by (cases p)
    obtain y u where rest: "createAll E cs v = (y, u)" by (metis surj_pair)
    let ?als = "if new then als @ [a] else als"
    from Cons.prems q rest Inr p have x: "w' = u" "x = map_sum id (\<lambda>bs. if new then a # bs else bs) y"
      by (cases y; auto simp: bnd_def run_ret)+
    have "leads E (Creating cs ?als) x (\<lambda>bs. Creating [] (als @ bs)) v w'"
      using Cons.IH [OF rest [folded x(1)], of ?als] by (cases y) (auto simp: x(2) leads_def)
    then show ?thesis using q Inr p by (auto intro: leads_step create)
  qed
qed

lemma marking_leads:
  "for_each als (\<lambda>a. AlertRepo_UpdateNotifyStatus E (al_ID a) (st a)) w = (x, w') \<Longrightarrow>
     leads E (Marking (map (\<lambda>a. (a, st a)) als)) x (\<lambda>_. Marking []) w w'"
proof (induction als arbitrary: w)
  case Nil
  then show ?case using leads_now [where k = "\<lambda>_. Marking []" and y = "()"] by (auto simp: run_ret)
next
  case (Cons a als)
  obtain q v where q: "AlertRepo_UpdateNotifyStatus E (al_ID a) (st a) w = (q, v)" by (metis surj_pair)
  show ?case
  proof (cases q)
    case (Inl err)
    with Cons.prems q have "x = Inl err" "w' = v" by (simp_all add: bnd_def)
    with q Inl show ?thesis by (auto intro: leads_end mark_failed)
  next
    case (Inr y)
    with Cons q show ?thesis by (auto simp: bnd_def intro: leads_step marked)
  qed
qed

lemma recording_leads:
  assumes "createNotificationDelivery E ct a r w = (y, v)"
    and "\<And>u. y = Inr u \<Longrightarrow> leads E (Dispatching q als (case r of Inl _ \<Rightarrow> al_ID a # f | Inr _ \<Rightarrow> f)) x k v w'"
    and "\<And>e. y = Inl e \<Longrightarrow> x = Inl e \<and> w' = v"
  shows "leads E (Dispatching (Record ct a r # q) als f) x k w w'"
  using assms by (cases y) (auto intro: leads_step leads_end recorded record_failed)

lemma batch_leads:
  "recordBatch E ct r bs f w = (x, w') \<Longrightarrow>
     leads E (Dispatching (map (\<lambda>a. Record ct a r) bs @ q) als f) x (Dispatching q als) w w'"
proof (induction bs arbitrary: w f)
  case (Cons a bs)
  obtain y v where "createNotificationDelivery E ct a r w = (y, v)" by (metis surj_pair)
  with Cons show ?case by (auto simp: bnd_def intro!: recording_leads split: sum.splits)
qed (auto simp: run_ret)

lemma each_leads:
  "sendEach E ch bs f w = (x, w') \<Longrightarrow> leads E (Dispatching (map (SendOne ch) bs @ q) als f) x (Dispatching q als) w w'"
proof (induction bs arbitrary: w f)
  case (Cons a bs)
  obtain r v where r: "catching (sendNotification E ch a) w = (Inr r, v)" by (auto simp: run_catching split: prod.splits)
  obtain y u where "createNotificationDelivery E (ch_ChannelType ch) a r v = (y, u)" by (metis surj_pair)
  with Cons r show ?case by (auto simp: bnd_def intro!: leads_step [OF one_sent] recording_leads split: sum.splits)
qed (auto simp: run_ret)

lemma channel_leads:
  assumes "dispatchChannel E als ch f w = (x, w')"
  shows "leads E (Dispatching (work als ch @ q) als f) x (Dispatching q als) w w'"
proof (cases "ch_ChannelType ch = channelTypeTelegram")
  case True
  obtain r v where r: "catching (sendTelegramBatch E (ch_ConfigJSON ch) als) w = (Inr r, v)" by (auto simp: run_catching split: prod.splits)
  with assms True have "recordBatch E (ch_ChannelType ch) r als f v = (x, w')" by (simp add: dispatchChannel_def bnd_def)
  from leads_step [OF batch_sent [OF r] batch_leads [OF this]] True show ?thesis by (simp add: work_def)
next
  case False
  with assms each_leads show ?thesis by (simp add: work_def dispatchChannel_def)
qed

lemma channels_lead:
  "dispatchChannels E als chs f w = (x, w') \<Longrightarrow>
     leads E (Dispatching (concat (map (work als) chs) @ q) als f) x (Dispatching q als) w w'"
proof (induction chs arbitrary: f w)
  case (Cons ch chs)
  from Cons.prems show ?case
    unfolding dispatchChannels.simps
    by (rule leads_bnd [where k = "Dispatching (concat (map (work als) chs) @ q) als"]) (simp_all add: channel_leads Cons.IH)
qed (auto simp: run_ret leads_def)

lemma dispatch_leads:
  assumes "dispatchAlerts E als w = (x, w')"
  shows "(overlap E)\<^sup>*\<^sup>* ([Creating [] als], w) ([], w')"
proof -
  have close: "(overlap E)\<^sup>*\<^sup>* ([Marking (map (\<lambda>a. (a, st a)) als)], v) ([], w')"
    if "for_each als (\<lambda>a. AlertRepo_UpdateNotifyStatus E (al_ID a) (st a)) v = (x, w')" for st v
    using marking_leads [OF that] ended [where es = "[]" and fs = "[]", OF finished, of E w']
    by (cases x) (auto simp: leads_def intro: rtranclp.rtrancl_into_rtrancl)
  show ?thesis
  proof (cases "als = []")
    case True
    then show ?thesis using assms ended [where es = "[]" and fs = "[]", OF none_created, of E w] by (auto simp: dispatchAlerts_def run_ret)
  next
    case False
    obtain q v where q: "wrap ''list notification channels: '' (NotificationChannelRepo_List E) w = (q, v)" by (metis surj_pair)
    show ?thesis
    proof (cases q)
      case (Inl err)
      with q False assms ended [where es = "[]" and fs = "[]", OF list_failed, of als E w err v] show ?thesis by (auto simp: dispatchAlerts_def bnd_def)
    next
      case (Inr chs)
      let ?on = "filter ch_Enabled chs"
      have "(overlap E)\<^sup>*\<^sup>* ([dispatching als ?on], v) ([], w')"
      proof (cases "?on = []")
        case True
        with assms False q Inr show ?thesis by (simp add: dispatchAlerts_def bnd_def dispatching_def close)
      next
        case on: False
        obtain y u where y: "dispatchChannels E als ?on [] v = (y, u)" by (metis surj_pair)
        note lead = channels_lead [OF this, of "[]", simplified]
        show ?thesis
        proof (cases y)
          case (Inl err)
          with assms False q Inr on y lead show ?thesis by (simp add: dispatchAlerts_def bnd_def dispatching_def leads_def)
        next
          case sent: (Inr f)
          have "overlap E ([Dispatching [] als f], u) ([marking als f], u)" using step [where es = "[]" and fs = "[]", OF all_sent, of E als f u] by simp
          moreover have "(overlap E)\<^sup>*\<^sup>* ([marking als f], u) ([], w')"
            unfolding marking_def by (rule close) (use assms False q Inr on y sent in \<open>simp add: dispatchAlerts_def bnd_def\<close>)
          ultimately show ?thesis using lead sent on by (simp add: dispatching_def leads_def)
        qed
      qed
      with step [where es = "[]" and fs = "[]", OF listed, of als E w chs v] False q Inr show ?thesis
        by (auto intro: converse_rtranclp_into_rtranclp)
    qed
  qed
qed

text \<open>So an evaluation that runs without interruption is one of the runs of \<open>overlap\<close>.\<close>

lemma reading_step:
  assumes "keeps (confined {} w) m" and "m w = (r, v)" and "channel_tbl.unique (channels w)"
  shows "overlap E (es, w) (es, v)" and "channel_tbl.unique (channels v)"
proof -
  have "confined {} w v" by (rule keepsD [OF assms(1) confined_refl assms(2)])
  then show "overlap E (es, w) (es, v)" "channel_tbl.unique (channels v)"
    using assms(3) by (auto intro: elsewhere simp: confined_iff)
qed

lemma evaluation_alone:
  assumes "AlertService_EvaluateSamples E mid smps w = (r, w')" and "channel_tbl.unique (channels w)"
  shows "(overlap E)\<^sup>*\<^sup>* ([], w) ([], w')"
proof -
  let ?m = "wrap ''list effective threshold rules: '' (ThresholdService_ListEffectiveMachineRules E mid)"
  have read: "keeps (confined {} w) ?m" "keeps (confined {} w) (time_Now E)" for w by (auto intro!: keeps_intros frames)
  obtain q v where q: "?m w = (q, v)" by (metis surj_pair)
  note first = reading_step(1) [OF read(1) q assms(2), of E "[]"] and unq = reading_step(2) [OF read(1) q assms(2)]
  show ?thesis
  proof (cases "\<exists>rules. q = Inr rules \<and> rules \<noteq> []")
    case False
    with assms(1) q have "w' = v"
      by (cases q) (auto simp: AlertService_EvaluateSamples_def EvaluateSamples_def bnd_def ret_def)
    with first show ?thesis by auto
  next
    case True
    then obtain rules where rules: "q = Inr rules" "rules \<noteq> []" by blast
    obtain p u where now: "time_Now E v = (p, u)" by (metis surj_pair)
    then obtain t where t: "p = Inr t" by (auto simp: run_simps)
    note second = reading_step(1) [OF read(2) now unq, of E "[]"]
    let ?cs = "candidates (ruleMap rules Map.empty) t smps"
    have "overlap E ([], u) ([Creating ?cs []], u)" by (rule started)
    moreover have "(overlap E)\<^sup>*\<^sup>* ([Creating ?cs []], u) ([], w')"
    proof -
      obtain x z where x: "createAll E ?cs u = (x, z)" by (metis surj_pair)
      note lead = creating_leads [OF x, of "[]"]
      show ?thesis
      proof (cases x)
        case (Inl err)
        with assms(1) q rules now t x have "w' = z"
          by (simp add: AlertService_EvaluateSamples_def EvaluateSamples_def bnd_def evaluateAll_eq)
        with lead Inl show ?thesis by (simp add: leads_def)
      next
        case (Inr als)
        with assms(1) q rules now t x have "dispatchAlerts E als z = (r, w')"
          by (simp add: AlertService_EvaluateSamples_def EvaluateSamples_def bnd_def evaluateAll_eq)
        from dispatch_leads [OF this] lead Inr show ?thesis by (simp add: leads_def)
      qed
    qed
    ultimately show ?thesis using first second by (meson converse_rtranclp_into_rtranclp)
  qed
qed

section \<open>Examples\<close>

theorem overlapping_evaluations_notify_once_witness:
  "\<exists>ds. deliveries (snd (AlertService_EvaluateSamples example_env 1 [example_sample] example_channels)) =
       deliveries example_channels @ ds \<and> distinct (map (\<lambda>d. (dl_AlertID d, dl_ChannelType d)) ds)"
proof -
  have chs: "channel_tbl.unique (channels example_channels)" "deliveries example_channels = []"
    by (simp_all add: channel_tbl.unique_def example_channels_def example_rules_def empty_world_def)
  have "(overlap example_env)\<^sup>*\<^sup>* ([], example_channels)
      ([], snd (AlertService_EvaluateSamples example_env 1 [example_sample] example_channels))"
    by (rule evaluation_alone [OF _ chs(1)]) (rule prod.collapse [symmetric])
  from overlapping_evaluations_notify_once [OF this chs(1)] chs(2) show ?thesis by auto
qed

end
