(* ===== verification/Loading.thy ===== *)
theory Loading
  imports Config
begin

text \<open>
  Where the configuration comes from: the sources of \<^verbatim>\<open>internal/config/source.go\<close>, the loader of
  \<^verbatim>\<open>internal/config/loader.go\<close>, \<^verbatim>\<open>NewConfig\<close>, and the report of \<^verbatim>\<open>internal/config/logging.go\<close>. The viper
  library is a record of functions on a state of any type; \<open>viper_documented\<close> states its documentation by what a state
  knows: the merged values, the environment variables bound to a key, the key replacer. The embedded file system, the
  files and the environment variables are parameters.
\<close>

section \<open>Sources\<close>

text \<open>A reader yields its bytes and possibly an error behind them.\<close>

type_synonym reader = "string \<times> string option"

datatype open_result = Opened reader | NotExist string | OpenFailed string

record 'v viper =
  vp_New :: 'v
  vp_SetConfigType :: "string \<Rightarrow> 'v \<Rightarrow> 'v"
  vp_MergeConfig :: "reader \<Rightarrow> 'v \<Rightarrow> string option \<times> 'v"
  vp_SetEnvPrefix :: "string \<Rightarrow> 'v \<Rightarrow> 'v"
  vp_SetEnvKeyReplacer :: "(string \<times> string) list \<Rightarrow> 'v \<Rightarrow> 'v"
  vp_AutomaticEnv :: "'v \<Rightarrow> 'v"
  vp_AllKeys :: "'v \<Rightarrow> string list"
  vp_BindEnv :: "string \<Rightarrow> string list \<Rightarrow> 'v \<Rightarrow> string option \<times> 'v"
  vp_Unmarshal :: "'v \<Rightarrow> string + Config"

record EnvBinding =
  eb_Key :: string
  eb_EnvName :: string

datatype Source =
    bytesSource string string
  | fileSource string bool
  | envSource string "EnvBinding list"
  | sourceError string go_error

definition NewEmbeddedFileSource :: "string \<Rightarrow> (string \<Rightarrow> string + string) \<Rightarrow> string \<Rightarrow> Source" where
  "NewEmbeddedFileSource name fileSet fileName =
     (case fileSet fileName of
        Inl e \<Rightarrow> sourceError name (Wrapf ''read embedded file: '' (Foreign e) [])
      | Inr fileContent \<Rightarrow> bytesSource name fileContent)"

definition NewFileSource :: "string \<Rightarrow> string \<Rightarrow> bool \<Rightarrow> Source" where
  "NewFileSource name filePath optional = fileSource filePath optional"

definition NewEnvSource :: "string \<Rightarrow> EnvBinding list \<Rightarrow> Source" where
  "NewEnvSource name bindings = envSource [] bindings"

fun Source_Name :: "Source \<Rightarrow> string" where
  "Source_Name (bytesSource name data) = name"
| "Source_Name (fileSource path optional) = path"
| "Source_Name (envSource pre bindings) = ''env''"
| "Source_Name (sourceError name err) = name"

text \<open>\<^verbatim>\<open>filepath.Clean\<close>: empty and \<^verbatim>\<open>.\<close> elements go, \<^verbatim>\<open>..\<close> removes the element before it, at the root it goes.\<close>

definition clean_step :: "bool \<Rightarrow> string list \<Rightarrow> string \<Rightarrow> string list" where
  "clean_step rooted out e =
     (if e = [] \<or> e = ''.'' then out
      else if e \<noteq> ''..'' then out @ [e]
      else if out \<noteq> [] \<and> last out \<noteq> ''..'' then butlast out
      else if rooted then out else out @ [e])"

definition filepath_Clean :: "string \<Rightarrow> string" where
  "filepath_Clean p =
     (let rooted = (p \<noteq> [] \<and> hd p = CHR ''/'');
          body = Join (foldl (clean_step rooted) [] (Split p (CHR ''/''))) ''/''
      in if rooted then CHR ''/'' # body else if body = [] then ''.'' else body)"

text \<open>A loop of \<^verbatim>\<open>BindEnv\<close> calls that stops at the first error.\<close>

fun bind_each :: "('a \<Rightarrow> 'v \<Rightarrow> go_error option \<times> 'v) \<Rightarrow> 'a list \<Rightarrow> 'v \<Rightarrow> go_error option \<times> 'v" where
  "bind_each f [] v = (None, v)"
| "bind_each f (x # xs) v = (case f x v of (Some e, v') \<Rightarrow> (Some e, v') | (None, v') \<Rightarrow> bind_each f xs v')"

definition wrap_result :: "string \<Rightarrow> string option \<times> 'v \<Rightarrow> go_error option \<times> 'v" where
  "wrap_result msg r = (map_option (\<lambda>e. Wrapf msg (Foreign e) []) (fst r), snd r)"

fun Source_Apply :: "env \<Rightarrow> 'v viper \<Rightarrow> (string \<Rightarrow> open_result) \<Rightarrow> Source \<Rightarrow> 'v \<Rightarrow> go_error option \<times> 'v" where
  "Source_Apply E V open_file (bytesSource name data) v =
     wrap_result ''merge embedded config: '' (vp_MergeConfig V (data, None) (vp_SetConfigType V ''toml'' v))"
| "Source_Apply E V open_file (fileSource path optional) v =
     (case open_file (filepath_Clean path) of
        NotExist e \<Rightarrow> if optional then (None, v) else (Some (Wrapf (''open file '' @ path @ '': '') (Foreign e) []), v)
      | OpenFailed e \<Rightarrow> (Some (Wrapf (''open file '' @ path @ '': '') (Foreign e) []), v)
      | Opened file \<Rightarrow> wrap_result (''merge file '' @ path @ '': '') (vp_MergeConfig V file (vp_SetConfigType V ''toml'' v)))"
| "Source_Apply E V open_file (envSource pre bindings) v =
     (let v1 = (if TrimSpace pre \<noteq> [] then vp_SetEnvPrefix V (ToUpper E pre) v else v);
          v2 = vp_AutomaticEnv V (vp_SetEnvKeyReplacer V [(''.'', ''_'')] v1)
      in case bind_each (\<lambda>key u. wrap_result (''bind env '' @ key @ '': '') (vp_BindEnv V key [] u)) (vp_AllKeys V v2) v2 of
           (Some e, v3) \<Rightarrow> (Some e, v3)
         | (None, v3) \<Rightarrow>
             bind_each (\<lambda>b u. wrap_result (''bind env '' @ eb_EnvName b @ '' for '' @ eb_Key b @ '': '')
                 (vp_BindEnv V (eb_Key b) [eb_EnvName b] u)) bindings v3)"
| "Source_Apply E V open_file (sourceError name err) v = (Some err, v)"

section \<open>Loading\<close>

fun apply_sources :: "env \<Rightarrow> 'v viper \<Rightarrow> (string \<Rightarrow> open_result) \<Rightarrow> Source list \<Rightarrow> 'v \<Rightarrow> go_error + 'v" where
  "apply_sources E V open_file [] v = Inr v"
| "apply_sources E V open_file (source # sources) v =
     (case Source_Apply E V open_file source v of
        (Some e, v') \<Rightarrow> Inl (Wrapf (''apply '' @ Source_Name source @ '' source: '') e [])
      | (None, v') \<Rightarrow> apply_sources E V open_file sources v')"

definition unmarshal_config :: "string + Config \<Rightarrow> go_error + Config" where
  "unmarshal_config r =
     (case r of
        Inl e \<Rightarrow> Inl (Wrapf ''unmarshal config: '' (Foreign e) [])
      | Inr cfg \<Rightarrow> (case Config_Validate cfg of Some e \<Rightarrow> Inl e | None \<Rightarrow> Inr cfg))"

definition LoadWithSources :: "env \<Rightarrow> 'v viper \<Rightarrow> (string \<Rightarrow> open_result) \<Rightarrow> Source list \<Rightarrow> go_error + Config" where
  "LoadWithSources E V open_file sources =
     (case apply_sources E V open_file sources (vp_New V) of
        Inl e \<Rightarrow> Inl e
      | Inr v \<Rightarrow> unmarshal_config (vp_Unmarshal V v))"

definition defaultEnvBindings :: "EnvBinding list" where
  "defaultEnvBindings =
     [\<lparr>eb_Key = ''database.dsn'', eb_EnvName = ''POSTGRES_DSN''\<rparr>,
      \<lparr>eb_Key = ''security.app_master_key'', eb_EnvName = ''APP_MASTER_KEY''\<rparr>,
      \<lparr>eb_Key = ''bootstrap.init_admin_username'', eb_EnvName = ''INIT_ADMIN_USERNAME''\<rparr>,
      \<lparr>eb_Key = ''bootstrap.init_admin_password'', eb_EnvName = ''INIT_ADMIN_PASSWORD''\<rparr>,
      \<lparr>eb_Key = ''restore.mode'', eb_EnvName = ''RESTORE_MODE''\<rparr>,
      \<lparr>eb_Key = ''restore.token'', eb_EnvName = ''RESTORE_TOKEN''\<rparr>]"

definition NewConfig :: "env \<Rightarrow> 'v viper \<Rightarrow> (string \<Rightarrow> open_result) \<Rightarrow> (string \<Rightarrow> string + string) \<Rightarrow> go_error + Config" where
  "NewConfig E V open_file defaultConfigFS =
     LoadWithSources E V open_file
       [NewEmbeddedFileSource ''config/default.toml'' defaultConfigFS ''default.toml'',
        NewFileSource ''config/config.toml'' ''config/config.toml'' True,
        NewFileSource ''config/private.toml'' ''config/private.toml'' True,
        NewEnvSource ''env'' defaultEnvBindings]"

section \<open>What viper documents\<close>

text \<open>
  What a viper state knows. Values are texts. A later configuration overrides an earlier one key by key. A key is looked
  up in the environment first, under its own name in capital letters when \<^verbatim>\<open>AutomaticEnv\<close> is on, then under the names
  bound to it in their order; a variable that is empty counts as unset; names pass through the key replacer. Unmarshalling
  sees the keys of the configuration and the bound ones.
\<close>

record knowledge =
  kn_Type :: string
  kn_Config :: "string \<rightharpoonup> string"
  kn_Bound :: "string \<Rightarrow> string list"
  kn_Automatic :: bool
  kn_Replacer :: "(string \<times> string) list"
  kn_Prefix :: string

definition upper_name :: "string \<Rightarrow> string" where
  "upper_name k = map ascii_upper k"

definition own_name :: "string \<Rightarrow> string \<Rightarrow> string" where
  "own_name pre k = upper_name (if pre = [] then k else pre @ ''_'' @ k)"

definition set_variable :: "(string \<rightharpoonup> string) \<Rightarrow> string \<Rightarrow> bool" where
  "set_variable vars n \<longleftrightarrow> vars n \<noteq> None \<and> vars n \<noteq> Some []"

definition looked_up :: "(string \<rightharpoonup> string) \<Rightarrow> string list \<Rightarrow> string option \<Rightarrow> string option" where
  "looked_up vars names configured = (case find (set_variable vars) names of Some n \<Rightarrow> vars n | None \<Rightarrow> configured)"

definition known_value :: "(string \<rightharpoonup> string) \<Rightarrow> knowledge \<Rightarrow> string \<rightharpoonup> string" where
  "known_value vars kn k =
     looked_up vars (map (Replacer (kn_Replacer kn)) ((if kn_Automatic kn then [own_name (kn_Prefix kn) k] else []) @ kn_Bound kn k))
       (kn_Config kn k)"

definition known_keys :: "knowledge \<Rightarrow> string set" where
  "known_keys kn = dom (kn_Config kn) \<union> {k. kn_Bound kn k \<noteq> []}"

definition viper_documented ::
  "'v viper \<Rightarrow> ('v \<Rightarrow> knowledge) \<Rightarrow> (string \<Rightarrow> (string \<rightharpoonup> string) option) \<Rightarrow> (string \<rightharpoonup> string) \<Rightarrow>
   ((string \<rightharpoonup> string) \<Rightarrow> string + Config) \<Rightarrow> bool" where
  "viper_documented V knows toml vars decode \<longleftrightarrow>
     knows (vp_New V) = \<lparr>kn_Type = [], kn_Config = Map.empty, kn_Bound = (\<lambda>_. []), kn_Automatic = False, kn_Replacer = [], kn_Prefix = []\<rparr> \<and>
     (\<forall>v t. knows (vp_SetConfigType V t v) = (knows v)\<lparr>kn_Type := t\<rparr>) \<and>
     (\<forall>v text m. kn_Type (knows v) = ''toml'' \<longrightarrow> toml text = Some m \<longrightarrow>
        fst (vp_MergeConfig V (text, None) v) = None \<and>
        knows (snd (vp_MergeConfig V (text, None) v)) = (knows v)\<lparr>kn_Config := kn_Config (knows v) ++ m\<rparr>) \<and>
     (\<forall>v text err. kn_Type (knows v) = ''toml'' \<longrightarrow> toml text = None \<or> err \<noteq> None \<longrightarrow>
        fst (vp_MergeConfig V (text, err) v) \<noteq> None) \<and>
     (\<forall>v p. knows (vp_SetEnvPrefix V p v) = (knows v)\<lparr>kn_Prefix := p\<rparr>) \<and>
     (\<forall>v r. knows (vp_SetEnvKeyReplacer V r v) = (knows v)\<lparr>kn_Replacer := r\<rparr>) \<and>
     (\<forall>v. knows (vp_AutomaticEnv V v) = (knows v)\<lparr>kn_Automatic := True\<rparr>) \<and>
     (\<forall>v. set (vp_AllKeys V v) = known_keys (knows v)) \<and>
     (\<forall>v k names. fst (vp_BindEnv V k names v) = None \<and>
        knows (snd (vp_BindEnv V k names v)) =
          (knows v)\<lparr>kn_Bound := (kn_Bound (knows v))
             (k := kn_Bound (knows v) k @ (if names = [] then [own_name (kn_Prefix (knows v)) k] else names))\<rparr>) \<and>
     (\<forall>v. vp_Unmarshal V v = decode (\<lambda>k. if k \<in> known_keys (knows v) then known_value vars (knows v) k else None))"

section \<open>Precedence\<close>

text \<open>What the four sources should add up to: the files' values, later files first, and before them the environment.\<close>

definition layer :: "(string \<Rightarrow> (string \<rightharpoonup> string) option) \<Rightarrow> open_result \<Rightarrow> (string \<rightharpoonup> string) option" where
  "layer toml r =
     (case r of
        NotExist e \<Rightarrow> Some Map.empty
      | OpenFailed e \<Rightarrow> None
      | Opened (text, err) \<Rightarrow> if err = None then toml text else None)"

definition layers ::
  "(string \<Rightarrow> (string \<rightharpoonup> string) option) \<Rightarrow> (string \<Rightarrow> open_result) \<Rightarrow> (string \<Rightarrow> string + string) \<Rightarrow> (string \<rightharpoonup> string) option" where
  "layers toml open_file defaultConfigFS =
     (case defaultConfigFS ''default.toml'' of
        Inl e \<Rightarrow> None
      | Inr text \<Rightarrow>
          Option.bind (toml text) (\<lambda>d. Option.bind (layer toml (open_file ''config/config.toml'')) (\<lambda>c.
            Option.bind (layer toml (open_file ''config/private.toml'')) (\<lambda>p. Some (d ++ c ++ p)))))"

definition env_name :: "string \<Rightarrow> string" where
  "env_name k = map (\<lambda>c. if c = CHR ''.'' then CHR ''_'' else c) (upper_name k)"

definition bound_names :: "EnvBinding list \<Rightarrow> string \<Rightarrow> string list" where
  "bound_names bindings k = map eb_EnvName (filter (\<lambda>b. eb_Key b = k) bindings)"

definition settings_of :: "(string \<rightharpoonup> string) \<Rightarrow> (string \<rightharpoonup> string) \<Rightarrow> string \<rightharpoonup> string" where
  "settings_of vars files k =
     (if files k = None \<and> bound_names defaultEnvBindings k = [] then None
      else looked_up vars (env_name k # bound_names defaultEnvBindings k) (files k))"

lemma Replacer_char: "Replacer [([a], [b])] s = map (\<lambda>c. if c = a then b else c) s"
proof (induction s)
  case Nil
  show ?case by (simp add: Replacer.simps [of _ "[]"])
next
  case (Cons x s)
  then show ?case by (subst Replacer.simps) (auto simp: Cons_prefix_Cons)
qed

lemma bind_each_knows:
  assumes "\<And>x u. fst (f x u) = None \<and> knows (snd (f x u)) = g x (knows u)"
  shows "fst (bind_each f xs v) = None" "knows (snd (bind_each f xs v)) = fold g xs (knows v)"
proof (induction xs arbitrary: v)
  case (Cons x xs)
  { case 1 show ?case using Cons assms [of x v] by (auto split: prod.splits option.splits)
  next
    case 2 show ?case using Cons assms [of x v] by (auto split: prod.splits option.splits) }
qed simp_all

lemma fold_bound:
  "fold (\<lambda>x kn. kn\<lparr>kn_Bound := (kn_Bound kn)(key x := kn_Bound kn (key x) @ names (kn_Prefix kn) x)\<rparr>) xs kn =
     kn\<lparr>kn_Bound := \<lambda>k. kn_Bound kn k @ concat (map (names (kn_Prefix kn)) (filter (\<lambda>x. key x = k) xs))\<rparr>"
  by (induction xs arbitrary: kn) (auto simp: fun_eq_iff)

lemma concat_names: "concat (map (\<lambda>x. [f x]) xs) = map f xs"
  by (induction xs) auto

lemma find_repeated: "find P (replicate n x @ xs) = find P (if n = 0 then xs else x # xs)"
  by (induction n) auto

lemma filter_same: "filter (\<lambda>x. x = k) xs = replicate (length (filter (\<lambda>x. x = k) xs)) k"
  by (induction xs) auto

lemma clean_names: "filepath_Clean ''config/config.toml'' = ''config/config.toml''" "filepath_Clean ''config/private.toml'' = ''config/private.toml''"
  by (simp_all add: filepath_Clean_def clean_step_def)

lemma file_applied:
  assumes "viper_documented V knows toml vars decode" and "kn_Type (knows v) = ''toml''"
  shows "layer toml (open_file (filepath_Clean path)) = Some m \<Longrightarrow>
      fst (Source_Apply E V open_file (fileSource path True) v) = None \<and>
      knows (snd (Source_Apply E V open_file (fileSource path True) v)) = (knows v)\<lparr>kn_Config := kn_Config (knows v) ++ m\<rparr>"
    and "layer toml (open_file (filepath_Clean path)) = None \<Longrightarrow>
      fst (Source_Apply E V open_file (fileSource path True) v) \<noteq> None"
proof -
  have set_type: "(knows v)\<lparr>kn_Type := ''toml''\<rparr> = knows v" using assms(2) by (cases "knows v") simp
  show "layer toml (open_file (filepath_Clean path)) = Some m \<Longrightarrow>
      fst (Source_Apply E V open_file (fileSource path True) v) = None \<and>
      knows (snd (Source_Apply E V open_file (fileSource path True) v)) = (knows v)\<lparr>kn_Config := kn_Config (knows v) ++ m\<rparr>"
    using assms set_type
    by (auto simp: layer_def viper_documented_def wrap_result_def split: open_result.splits if_splits)
  show "layer toml (open_file (filepath_Clean path)) = None \<Longrightarrow>
      fst (Source_Apply E V open_file (fileSource path True) v) \<noteq> None"
    using assms set_type
    by (auto simp: layer_def viper_documented_def wrap_result_def split: open_result.splits if_splits)
qed

lemma env_applied:
  assumes "viper_documented V knows toml vars decode" and plain: "kn_Prefix (knows v) = []"
  shows "fst (Source_Apply E V open_file (envSource [] bindings) v) = None"
    and "\<exists>n. (\<forall>k. n k = 0 \<longrightarrow> k \<notin> known_keys (knows v)) \<and> (\<forall>k. n k \<noteq> 0 \<longrightarrow> k \<in> known_keys (knows v)) \<and>
      knows (snd (Source_Apply E V open_file (envSource [] bindings) v)) =
       (knows v)\<lparr>kn_Replacer := [(''.'', ''_'')], kn_Automatic := True,
         kn_Bound := \<lambda>k. kn_Bound (knows v) k @ replicate (n k) (upper_name k) @ bound_names bindings k\<rparr>"
proof -
  let ?bind = "\<lambda>key names (kn :: knowledge). kn\<lparr>kn_Bound := (kn_Bound kn)(key := kn_Bound kn key @ names)\<rparr>"
  let ?v = "vp_AutomaticEnv V (vp_SetEnvKeyReplacer V [(''.'', ''_'')] v)"
  let ?ks = "vp_AllKeys V ?v"
  let ?f = "\<lambda>key u. wrap_result (''bind env '' @ key @ '': '') (vp_BindEnv V key [] u)"
  let ?g = "\<lambda>b u. wrap_result (''bind env '' @ eb_EnvName b @ '' for '' @ eb_Key b @ '': '') (vp_BindEnv V (eb_Key b) [eb_EnvName b] u)"
  have f: "fst (?f x u) = None \<and> knows (snd (?f x u)) = ?bind x [own_name (kn_Prefix (knows u)) x] (knows u)" for x u
    using assms by (simp add: viper_documented_def wrap_result_def)
  have g: "fst (?g x u) = None \<and> knows (snd (?g x u)) = ?bind (eb_Key x) [eb_EnvName x] (knows u)" for x u
    using assms by (simp add: viper_documented_def wrap_result_def)
  note F = bind_each_knows [of ?f knows "\<lambda>x kn. ?bind x [own_name (kn_Prefix kn) x] kn", OF f]
  note G = bind_each_knows [of ?g knows "\<lambda>x. ?bind (eb_Key x) [eb_EnvName x]", OF g]
  have apply_env: "Source_Apply E V open_file (envSource [] bindings) v =
      bind_each ?g bindings (snd (bind_each ?f ?ks ?v))"
    using F(1) [of ?ks ?v] by (cases "bind_each ?f ?ks ?v") (simp add: TrimSpace_def trim_with.simps strip_one_def space_runes_def)
  show "fst (Source_Apply E V open_file (envSource [] bindings) v) = None"
    by (simp only: apply_env G)
  have keys: "set ?ks = known_keys (knows v)"
    using assms by (simp add: viper_documented_def known_keys_def)
  have k: "knows ?v = (knows v)\<lparr>kn_Replacer := [(''.'', ''_'')], kn_Automatic := True\<rparr>"
    using assms by (simp add: viper_documented_def)
  have same: "map upper_name (filter (\<lambda>x. x = k) ?ks) = replicate (length (filter (\<lambda>x. x = k) ?ks)) (upper_name k)" for k
    by (subst filter_same) simp
  have result: "knows (snd (Source_Apply E V open_file (envSource [] bindings) v)) =
      (knows v)\<lparr>kn_Replacer := [(''.'', ''_'')], kn_Automatic := True,
         kn_Bound := \<lambda>k. kn_Bound (knows v) k @ replicate (length (filter (\<lambda>x. x = k) ?ks)) (upper_name k) @ bound_names bindings k\<rparr>"
    unfolding apply_env F G k fold_bound [where names = "\<lambda>p x. [own_name p x]"] fold_bound [where names = "\<lambda>p x. [eb_EnvName x]"]
    by (simp add: concat_names bound_names_def same own_name_def plain)
  show "\<exists>n. (\<forall>k. n k = 0 \<longrightarrow> k \<notin> known_keys (knows v)) \<and> (\<forall>k. n k \<noteq> 0 \<longrightarrow> k \<in> known_keys (knows v)) \<and>
      knows (snd (Source_Apply E V open_file (envSource [] bindings) v)) =
       (knows v)\<lparr>kn_Replacer := [(''.'', ''_'')], kn_Automatic := True,
         kn_Bound := \<lambda>k. kn_Bound (knows v) k @ replicate (n k) (upper_name k) @ bound_names bindings k\<rparr>"
    by (intro exI [of _ "\<lambda>k. length (filter (\<lambda>x. x = k) ?ks)"] conjI result) (auto simp: keys [symmetric] filter_empty_conv)
qed

text \<open>What a state knows after the sources of \<^verbatim>\<open>NewConfig\<close> gives the settings.\<close>

lemma settings_known:
  assumes "kn_Config kn = files" "kn_Prefix kn = []" "kn_Automatic kn" "kn_Replacer kn = [(''.'', ''_'')]"
    and "kn_Bound kn = (\<lambda>k. replicate (n k) (upper_name k) @ bound_names defaultEnvBindings k)"
    and "\<And>k. n k = 0 \<Longrightarrow> files k = None" "\<And>k. n k \<noteq> 0 \<Longrightarrow> files k \<noteq> None"
  shows "(\<lambda>k. if k \<in> known_keys kn then known_value vars kn k else None) = settings_of vars files"
proof
  fix k
  have plain: "map (Replacer [(''.'', ''_'')]) (bound_names defaultEnvBindings k) = bound_names defaultEnvBindings k"
    by (auto simp: bound_names_def defaultEnvBindings_def Replacer_char)
  have own: "Replacer [(''.'', ''_'')] (upper_name k) = env_name k"
    by (simp add: Replacer_char env_name_def)
  have known: "k \<in> known_keys kn \<longleftrightarrow> files k \<noteq> None \<or> bound_names defaultEnvBindings k \<noteq> []"
    using assms(1,5) assms(6,7) [of k] by (auto simp: known_keys_def)
  have "find (set_variable vars) (env_name k # replicate (n k) (env_name k) @ bound_names defaultEnvBindings k) =
      find (set_variable vars) (env_name k # bound_names defaultEnvBindings k)"
    by (simp add: find_repeated)
  then have "known_value vars kn k = looked_up vars (env_name k # bound_names defaultEnvBindings k) (files k)"
    using assms(1-5) by (simp add: known_value_def looked_up_def plain own own_name_def del: find.simps)
  then show "(if k \<in> known_keys kn then known_value vars kn k else None) = settings_of vars files k"
    by (auto simp: known settings_of_def)
qed

text \<open>One source at a time.\<close>

lemma embedded_applied:
  assumes "viper_documented V knows toml vars decode"
  shows "toml data = Some d \<Longrightarrow> \<exists>u. Source_Apply E V open_file (bytesSource name data) (vp_New V) = (None, u) \<and>
      knows u = \<lparr>kn_Type = ''toml'', kn_Config = d, kn_Bound = (\<lambda>_. []), kn_Automatic = False, kn_Replacer = [], kn_Prefix = []\<rparr>"
    and "toml data = None \<Longrightarrow> \<exists>e u. Source_Apply E V open_file (bytesSource name data) (vp_New V) = (Some e, u)"
  using assms by (simp_all add: viper_documented_def wrap_result_def)

lemma file_merged:
  assumes "viper_documented V knows toml vars decode" and "kn_Type (knows v) = ''toml''"
  shows "layer toml (open_file (filepath_Clean path)) = Some m \<Longrightarrow>
      \<exists>u. Source_Apply E V open_file (fileSource path True) v = (None, u) \<and> knows u = (knows v)\<lparr>kn_Config := kn_Config (knows v) ++ m\<rparr>"
    and "layer toml (open_file (filepath_Clean path)) = None \<Longrightarrow> \<exists>e u. Source_Apply E V open_file (fileSource path True) v = (Some e, u)"
  using file_applied [where open_file = open_file and path = path and E = E, OF assms]
  by (cases "Source_Apply E V open_file (fileSource path True) v"; fastforce)+

lemma env_bound:
  assumes "viper_documented V knows toml vars decode" and "knows v = \<lparr>kn_Type = ''toml'', kn_Config = files, kn_Bound = (\<lambda>_. []),
    kn_Automatic = False, kn_Replacer = [], kn_Prefix = []\<rparr>"
  shows "\<exists>u. Source_Apply E V open_file (envSource [] defaultEnvBindings) v = (None, u) \<and>
    vp_Unmarshal V u = decode (settings_of vars files)"
proof -
  have plain: "kn_Prefix (knows v) = []" by (simp add: assms(2))
  obtain u where u: "Source_Apply E V open_file (envSource [] defaultEnvBindings) v = (None, u)"
    using env_applied(1) [where v = v and bindings = defaultEnvBindings and open_file = open_file and E = E, OF assms(1) plain]
    by (metis prod.collapse)
  have keys: "known_keys (knows v) = dom files" unfolding assms(2) by (simp add: known_keys_def)
  obtain n where n: "\<forall>k. n k = 0 \<longrightarrow> k \<notin> dom files" "\<forall>k. n k \<noteq> 0 \<longrightarrow> k \<in> dom files"
    and kn: "knows u = (knows v)\<lparr>kn_Replacer := [(''.'', ''_'')], kn_Automatic := True,
       kn_Bound := \<lambda>k. kn_Bound (knows v) k @ replicate (n k) (upper_name k) @ bound_names defaultEnvBindings k\<rparr>"
    using env_applied(2) [where v = v and bindings = defaultEnvBindings and open_file = open_file and E = E, OF assms(1) plain]
    unfolding keys u snd_conv by blast
  from n have files: "n k = 0 \<Longrightarrow> files k = None" "n k \<noteq> 0 \<Longrightarrow> files k \<noteq> None" for k by blast+
  have "vp_Unmarshal V u = decode (\<lambda>k. if k \<in> known_keys (knows u) then known_value vars (knows u) k else None)"
    using assms(1) by (simp add: viper_documented_def)
  also have "(\<lambda>k. if k \<in> known_keys (knows u) then known_value vars (knows u) k else None) = settings_of vars files"
    by (rule settings_known [where n = n]) (simp_all add: kn assms(2) files)
  finally show ?thesis using u by auto
qed

lemma apply_step:
  "Source_Apply E V open_file source v = (None, u) \<Longrightarrow>
     apply_sources E V open_file (source # sources) v = apply_sources E V open_file sources u"
  "Source_Apply E V open_file source v = (Some e, u) \<Longrightarrow>
     apply_sources E V open_file (source # sources) v = Inl (Wrapf (''apply '' @ Source_Name source @ '' source: '') e [])"
  by simp_all

declare Source_Apply.simps [simp del] apply_sources.simps(2) [simp del]

lemma files_applied:
  assumes doc: "viper_documented V knows toml vars decode"
  shows "case Option.bind (toml data) (\<lambda>d. Option.bind (layer toml (open_file (filepath_Clean p1))) (\<lambda>c.
        Option.bind (layer toml (open_file (filepath_Clean p2))) (\<lambda>p. Some (d ++ c ++ p)))) of
      None \<Rightarrow> \<exists>e. apply_sources E V open_file (bytesSource name data # fileSource p1 True # fileSource p2 True # sources) (vp_New V) = Inl e
    | Some files \<Rightarrow> \<exists>v. knows v = \<lparr>kn_Type = ''toml'', kn_Config = files, kn_Bound = (\<lambda>_. []), kn_Automatic = False, kn_Replacer = [], kn_Prefix = []\<rparr> \<and>
        apply_sources E V open_file (bytesSource name data # fileSource p1 True # fileSource p2 True # sources) (vp_New V) =
          apply_sources E V open_file sources v"
proof (cases "toml data")
  case None
  with embedded_applied(2) [OF doc this, of E open_file name] show ?thesis by (auto simp: apply_step(2))
next
  case (Some d)
  with embedded_applied(1) [OF doc this, of E open_file name] obtain v
    where v: "Source_Apply E V open_file (bytesSource name data) (vp_New V) = (None, v)"
      and kv: "knows v = \<lparr>kn_Type = ''toml'', kn_Config = d, kn_Bound = (\<lambda>_. []), kn_Automatic = False, kn_Replacer = [], kn_Prefix = []\<rparr>" by blast
  note merge1 = file_merged [where v = v and open_file = open_file and path = p1 and E = E, OF doc, unfolded kv, simplified]
  show ?thesis
  proof (cases "layer toml (open_file (filepath_Clean p1))")
    case None
    with merge1(2) Some show ?thesis by (auto simp: apply_step(1) [OF v] apply_step(2))
  next
    case c: (Some c)
    with merge1(1) obtain u where u: "Source_Apply E V open_file (fileSource p1 True) v = (None, u)"
      and ku: "knows u = \<lparr>kn_Type = ''toml'', kn_Config = d ++ c, kn_Bound = (\<lambda>_. []), kn_Automatic = False, kn_Replacer = [], kn_Prefix = []\<rparr>"
      by auto
    note merge2 = file_merged [where v = u and open_file = open_file and path = p2 and E = E, OF doc, unfolded ku, simplified]
    show ?thesis
    proof (cases "layer toml (open_file (filepath_Clean p2))")
      case None
      with merge2(2) Some c show ?thesis by (auto simp: apply_step(1) [OF v] apply_step(1) [OF u] apply_step(2))
    next
      case (Some p)
      with merge2(1) \<open>toml data = Some d\<close> c show ?thesis by (auto simp: apply_step(1) [OF v] apply_step(1) [OF u] apply_step(1))
    qed
  qed
qed


section \<open>Examples\<close>

text \<open>A small viper: two association lists. Every text but the empty one is TOML and sets one address.\<close>

record small_viper =
  sv_Type :: string
  sv_Config :: "(string \<times> string) list"
  sv_Bound :: "(string \<times> string list) list"
  sv_Automatic :: bool
  sv_Replacer :: "(string \<times> string) list"
  sv_Prefix :: string

definition small_toml :: "string \<Rightarrow> (string \<rightharpoonup> string) option" where
  "small_toml content = (if content = [] then None else Some [''http.addr'' \<mapsto> content])"

definition names_bound :: "(string \<times> string list) list \<Rightarrow> string \<Rightarrow> string list" where
  "names_bound b k = (case map_of b k of None \<Rightarrow> [] | Some names \<Rightarrow> names)"

definition small_knows :: "small_viper \<Rightarrow> knowledge" where
  "small_knows v = \<lparr>kn_Type = sv_Type v, kn_Config = map_of (sv_Config v), kn_Bound = names_bound (sv_Bound v),
     kn_Automatic = sv_Automatic v, kn_Replacer = sv_Replacer v, kn_Prefix = sv_Prefix v\<rparr>"

definition small_keys :: "small_viper \<Rightarrow> string list" where
  "small_keys v = map fst (sv_Config v) @ filter (\<lambda>k. names_bound (sv_Bound v) k \<noteq> []) (map fst (sv_Bound v))"

definition small_vars :: "string \<rightharpoonup> string" where
  "small_vars = [''HTTP_ADDR'' \<mapsto> '':8080'']"

definition small_decode :: "(string \<rightharpoonup> string) \<Rightarrow> string + Config" where
  "small_decode s = (if s ''http.addr'' = Some '':8080'' then Inr example_config else Inl ''unexpected address'')"

definition small_api :: "small_viper viper" where
  "small_api =
     \<lparr>vp_New = \<lparr>sv_Type = [], sv_Config = [], sv_Bound = [], sv_Automatic = False, sv_Replacer = [], sv_Prefix = []\<rparr>,
      vp_SetConfigType = (\<lambda>t v. v\<lparr>sv_Type := t\<rparr>),
      vp_MergeConfig = (\<lambda>(content, err) v. if content = [] \<or> err \<noteq> None then (Some ''no TOML'', v)
        else (None, v\<lparr>sv_Config := (''http.addr'', content) # sv_Config v\<rparr>)),
      vp_SetEnvPrefix = (\<lambda>pre v. v\<lparr>sv_Prefix := pre\<rparr>),
      vp_SetEnvKeyReplacer = (\<lambda>r v. v\<lparr>sv_Replacer := r\<rparr>),
      vp_AutomaticEnv = (\<lambda>v. v\<lparr>sv_Automatic := True\<rparr>),
      vp_AllKeys = small_keys,
      vp_BindEnv = (\<lambda>k names v. (None, v\<lparr>sv_Bound :=
        (k, names_bound (sv_Bound v) k @ (if names = [] then [own_name (sv_Prefix v) k] else names)) # sv_Bound v\<rparr>)),
      vp_Unmarshal = (\<lambda>v. small_decode (\<lambda>k. if k \<in> set (small_keys v) then known_value small_vars (small_knows v) k else None))\<rparr>"

lemma small_keys_known: "set (small_keys v) = known_keys (small_knows v)"
proof -
  have "names_bound b k \<noteq> [] \<Longrightarrow> k \<in> fst ` set b" for b k
    by (auto simp: names_bound_def split: option.splits dest: map_of_SomeD intro: rev_image_eqI)
  then show ?thesis
    by (auto simp: small_keys_def known_keys_def small_knows_def dom_map_of_conv_image_fst)
qed

lemma names_bound_simps: "names_bound [] = (\<lambda>_. [])" "names_bound ((k, x) # b) = (names_bound b)(k := x)"
  by (auto simp: names_bound_def fun_eq_iff)

lemma small_documented: "viper_documented small_api small_knows small_toml small_vars small_decode"
  unfolding viper_documented_def
proof (intro conjI allI)
  show "set (vp_AllKeys small_api v) = known_keys (small_knows v)" for v
    by (simp add: small_api_def small_keys_known)
  show "vp_Unmarshal small_api v =
      small_decode (\<lambda>k. if k \<in> known_keys (small_knows v) then known_value small_vars (small_knows v) k else None)" for v
    by (simp add: small_api_def small_keys_known)
qed (auto simp: small_api_def small_knows_def small_toml_def names_bound_simps split: if_splits)


end
