(* ===== verification/Scheduler.thy ===== *)
theory Scheduler
  imports Collection Cleanup
begin

text \<open>
  The two background schedulers: \<^verbatim>\<open>internal/service/traffic_scheduler.go\<close> and the scheduler of
  \<^verbatim>\<open>internal/service/history_cleanup_service.go\<close>. Goroutines are program counters, and one step of
  the relation is one step of one goroutine: the dispatch loop, one of the workers, the caller
  of \<^verbatim>\<open>Stop\<close>, or some other part of the program that changes the world. A \<^verbatim>\<open>select\<close> is a choice
  between the rules of its ready cases, so the relation contains every interleaving and every
  choice the Go runtime may make. A call of the collector is one step.

  The interface \<^verbatim>\<open>TrafficCollectRunner\<close> is the locale \<open>collect_runner\<close>, interpreted for the
  collection service.
\<close>

section \<open>The traffic scheduler\<close>

datatype loop_pc = Dispatch | Sending "Machine list" | Selecting | LoopReturned

datatype worker_pc = Receiving | Attempting Machine int | Waiting Machine int | WorkerReturned

text \<open>\<open>tsd_ctx_done\<close>: the run context is cancelled; \<open>tsd_runCancel\<close>: \<^verbatim>\<open>runCancel\<close> is not nil;
  \<open>tsd_once\<close>: \<^verbatim>\<open>stopOnce\<close> was used; \<open>tsd_stopCh\<close>: \<^verbatim>\<open>stopCh\<close> is closed.\<close>

record TrafficScheduler =
  tsd_world :: world
  tsd_stopCh :: bool
  tsd_once :: bool
  tsd_runCancel :: bool
  tsd_ctx_done :: bool
  tsd_jobs :: "Machine list"
  tsd_jobs_closed :: bool
  tsd_loop :: loop_pc
  tsd_workers :: "worker_pc list"

datatype event =
    Listed "Machine list" | Sent Machine | Taken nat Machine | Attempted nat Machine int bool
  | Ticker | Stopping | Internal | Elsewhere

definition TrafficScheduler_Start :: "CollectorConfig \<Rightarrow> world \<Rightarrow> TrafficScheduler" where
  "TrafficScheduler_Start cfg w =
     \<lparr>tsd_world = w, tsd_stopCh = False, tsd_once = False, tsd_runCancel = True, tsd_ctx_done = False,
      tsd_jobs = [], tsd_jobs_closed = False, tsd_loop = Dispatch,
      tsd_workers = replicate (nat (co_MaxWorkers cfg)) Receiving\<rparr>"

text \<open>The start hook of \<^verbatim>\<open>RegisterTrafficScheduler\<close>.\<close>

definition traffic_OnStart :: "RestoreConfig \<Rightarrow> CollectorConfig \<Rightarrow> world \<Rightarrow> TrafficScheduler option" where
  "traffic_OnStart restoreConfig cfg w =
     (if RestoreConfig_Enabled restoreConfig then None
      else if \<not> co_Enabled cfg then None
      else Some (TrafficScheduler_Start cfg w))"

text \<open>\<^verbatim>\<open>Stop\<close>: the first caller cancels the run context and then closes \<^verbatim>\<open>stopCh\<close>.\<close>

inductive stop_step :: "TrafficScheduler \<Rightarrow> TrafficScheduler \<Rightarrow> bool" where
  stop_cancel:
    "\<not> tsd_once s \<Longrightarrow>
     stop_step s (s\<lparr>tsd_once := True, tsd_ctx_done := tsd_ctx_done s \<or> tsd_runCancel s, tsd_runCancel := False\<rparr>)"
| stop_close:
    "tsd_once s \<Longrightarrow> \<not> tsd_stopCh s \<Longrightarrow> stop_step s (s\<lparr>tsd_stopCh := True\<rparr>)"

text \<open>A \<^verbatim>\<open>select\<close> on \<^verbatim>\<open>stopCh\<close> or \<^verbatim>\<open>ctx.Done()\<close> is ready.\<close>

definition stop_ready :: "TrafficScheduler \<Rightarrow> bool" where
  "stop_ready s \<longleftrightarrow> tsd_stopCh s \<or> tsd_ctx_done s"

text \<open>\<^verbatim>\<open>runLoop\<close> with \<^verbatim>\<open>dispatchOnce\<close>: the channel holds at most \<^verbatim>\<open>MaxWorkers\<close> jobs.\<close>

inductive loop_step ::
  "CollectorConfig \<Rightarrow> Machine list io \<Rightarrow> TrafficScheduler \<Rightarrow> event \<Rightarrow> TrafficScheduler \<Rightarrow> bool"
  for cfg list_enabled where
  list_ok:
    "tsd_loop s = Dispatch \<Longrightarrow> list_enabled (tsd_world s) = (Inr ms, w') \<Longrightarrow>
     loop_step cfg list_enabled s (Listed ms) (s\<lparr>tsd_loop := Sending ms, tsd_world := w'\<rparr>)"
| list_failed:
    "tsd_loop s = Dispatch \<Longrightarrow> list_enabled (tsd_world s) = (Inl e, w') \<Longrightarrow>
     loop_step cfg list_enabled s Internal (s\<lparr>tsd_loop := Selecting, tsd_world := w'\<rparr>)"
| send:
    "tsd_loop s = Sending (m # ms) \<Longrightarrow> length (tsd_jobs s) < nat (co_MaxWorkers cfg) \<Longrightarrow>
     loop_step cfg list_enabled s (Sent m) (s\<lparr>tsd_loop := Sending ms, tsd_jobs := tsd_jobs s @ [m]\<rparr>)"
| send_stopped:
    "tsd_loop s = Sending (m # ms) \<Longrightarrow> stop_ready s \<Longrightarrow>
     loop_step cfg list_enabled s Internal (s\<lparr>tsd_loop := Selecting\<rparr>)"
| sent_all:
    "tsd_loop s = Sending [] \<Longrightarrow> loop_step cfg list_enabled s Internal (s\<lparr>tsd_loop := Selecting\<rparr>)"
| loop_stopped:
    "tsd_loop s = Selecting \<Longrightarrow> stop_ready s \<Longrightarrow>
     loop_step cfg list_enabled s Internal (s\<lparr>tsd_loop := LoopReturned, tsd_jobs_closed := True\<rparr>)"
| ticker:
    "tsd_loop s = Selecting \<Longrightarrow> loop_step cfg list_enabled s Ticker (s\<lparr>tsd_loop := Dispatch\<rparr>)"

text \<open>\<^verbatim>\<open>runWorker\<close> with \<^verbatim>\<open>collectWithRetry\<close>, for the worker with index \<open>i\<close>; \<open>a\<close> is the loop's
  \<^verbatim>\<open>attempt\<close>.\<close>

inductive worker_step ::
  "CollectorConfig \<Rightarrow> (Machine \<Rightarrow> TrafficSample list io) \<Rightarrow> nat \<Rightarrow> TrafficScheduler \<Rightarrow> event \<Rightarrow> TrafficScheduler \<Rightarrow> bool"
  for cfg collect i where
  take_job:
    "tsd_workers s ! i = Receiving \<Longrightarrow> tsd_jobs s = m # js \<Longrightarrow>
     worker_step cfg collect i s (Taken i m) (s\<lparr>tsd_jobs := js, tsd_workers := (tsd_workers s)[i := Attempting m 0]\<rparr>)"
| jobs_ended:
    "tsd_workers s ! i = Receiving \<Longrightarrow> tsd_jobs s = [] \<Longrightarrow> tsd_jobs_closed s \<Longrightarrow>
     worker_step cfg collect i s Internal (s\<lparr>tsd_workers := (tsd_workers s)[i := WorkerReturned]\<rparr>)"
| attempt_succeeded:
    "tsd_workers s ! i = Attempting m a \<Longrightarrow> a \<le> co_RetryTimes cfg \<Longrightarrow> collect m (tsd_world s) = (Inr smps, w') \<Longrightarrow>
     worker_step cfg collect i s (Attempted i m a True)
       (s\<lparr>tsd_world := w', tsd_workers := (tsd_workers s)[i := Receiving]\<rparr>)"
| attempt_failed:
    "tsd_workers s ! i = Attempting m a \<Longrightarrow> a < co_RetryTimes cfg \<Longrightarrow> collect m (tsd_world s) = (Inl e, w') \<Longrightarrow>
     worker_step cfg collect i s (Attempted i m a False)
       (s\<lparr>tsd_world := w', tsd_workers := (tsd_workers s)[i := Waiting m a]\<rparr>)"
| last_attempt_failed:
    "tsd_workers s ! i = Attempting m a \<Longrightarrow> a = co_RetryTimes cfg \<Longrightarrow> collect m (tsd_world s) = (Inl e, w') \<Longrightarrow>
     worker_step cfg collect i s (Attempted i m a False)
       (s\<lparr>tsd_world := w', tsd_workers := (tsd_workers s)[i := Attempting m (a + 1)]\<rparr>)"
| attempts_used:
    "tsd_workers s ! i = Attempting m a \<Longrightarrow> co_RetryTimes cfg < a \<Longrightarrow>
     worker_step cfg collect i s Internal (s\<lparr>tsd_workers := (tsd_workers s)[i := Receiving]\<rparr>)"
| wait_stopped:
    "tsd_workers s ! i = Waiting m a \<Longrightarrow> stop_ready s \<Longrightarrow>
     worker_step cfg collect i s Internal (s\<lparr>tsd_workers := (tsd_workers s)[i := Receiving]\<rparr>)"
| wait_over:
    "tsd_workers s ! i = Waiting m a \<Longrightarrow>
     worker_step cfg collect i s Internal (s\<lparr>tsd_workers := (tsd_workers s)[i := Attempting m (a + 1)]\<rparr>)"

inductive sched_step ::
  "CollectorConfig \<Rightarrow> (Machine \<Rightarrow> TrafficSample list io) \<Rightarrow> Machine list io \<Rightarrow>
   TrafficScheduler \<Rightarrow> event \<Rightarrow> TrafficScheduler \<Rightarrow> bool"
  for cfg collect list_enabled where
  by_loop: "loop_step cfg list_enabled s ev s' \<Longrightarrow> sched_step cfg collect list_enabled s ev s'"
| by_worker: "i < length (tsd_workers s) \<Longrightarrow> worker_step cfg collect i s ev s' \<Longrightarrow> sched_step cfg collect list_enabled s ev s'"
| by_stop: "stop_step s s' \<Longrightarrow> sched_step cfg collect list_enabled s Stopping s'"
| elsewhere: "sched_step cfg collect list_enabled s Elsewhere (s\<lparr>tsd_world := w'\<rparr>)"

inductive sched_run ::
  "CollectorConfig \<Rightarrow> (Machine \<Rightarrow> TrafficSample list io) \<Rightarrow> Machine list io \<Rightarrow>
   TrafficScheduler \<Rightarrow> event list \<Rightarrow> TrafficScheduler \<Rightarrow> bool"
  for cfg collect list_enabled s where
  run_start: "sched_run cfg collect list_enabled s [] s"
| run_next: "sched_run cfg collect list_enabled s evs s1 \<Longrightarrow> sched_step cfg collect list_enabled s1 ev s2 \<Longrightarrow>
     sched_run cfg collect list_enabled s (evs @ [ev]) s2"

text \<open>\<^verbatim>\<open>Wait\<close> returns: the loop and all workers are done.\<close>

definition TrafficScheduler_Wait :: "TrafficScheduler \<Rightarrow> bool" where
  "TrafficScheduler_Wait s \<longleftrightarrow> tsd_loop s = LoopReturned \<and> list_all (\<lambda>p. p = WorkerReturned) (tsd_workers s)"

section \<open>The cleanup scheduler\<close>

datatype cleanup_pc = CleanupRunning | CleanupSelecting | CleanupReturned

record HistoryCleanupScheduler =
  hcs_world :: world
  hcs_stopCh :: bool
  hcs_once :: bool
  hcs_runCancel :: bool
  hcs_ctx_done :: bool
  hcs_loop :: cleanup_pc

definition HistoryCleanupScheduler_Start :: "world \<Rightarrow> HistoryCleanupScheduler" where
  "HistoryCleanupScheduler_Start w =
     \<lparr>hcs_world = w, hcs_stopCh = False, hcs_once = False, hcs_runCancel = True, hcs_ctx_done = False,
      hcs_loop = CleanupRunning\<rparr>"

definition cleanup_OnStart :: "RestoreConfig \<Rightarrow> HistoryCleanupConfig \<Rightarrow> world \<Rightarrow> HistoryCleanupScheduler option" where
  "cleanup_OnStart restoreConfig cfg w =
     (if RestoreConfig_Enabled restoreConfig then None
      else if \<not> hc_Enabled cfg then None
      else Some (HistoryCleanupScheduler_Start w))"

inductive cleanup_step ::
  "HistoryCleanupResult loop \<Rightarrow> HistoryCleanupScheduler \<Rightarrow> event \<Rightarrow> HistoryCleanupScheduler \<Rightarrow> bool"
  for runOnce where
  cleanup_ran:
    "hcs_loop s = CleanupRunning \<Longrightarrow> runOnce (hcs_world s) = Some (r, w') \<Longrightarrow>
     cleanup_step runOnce s Internal (s\<lparr>hcs_world := w', hcs_loop := CleanupSelecting\<rparr>)"
| cleanup_stopped:
    "hcs_loop s = CleanupSelecting \<Longrightarrow> hcs_stopCh s \<or> hcs_ctx_done s \<Longrightarrow>
     cleanup_step runOnce s Internal (s\<lparr>hcs_loop := CleanupReturned\<rparr>)"
| cleanup_ticker:
    "hcs_loop s = CleanupSelecting \<Longrightarrow> cleanup_step runOnce s Ticker (s\<lparr>hcs_loop := CleanupRunning\<rparr>)"
| cleanup_stop_cancel:
    "\<not> hcs_once s \<Longrightarrow> cleanup_step runOnce s Stopping
       (s\<lparr>hcs_once := True, hcs_ctx_done := hcs_ctx_done s \<or> hcs_runCancel s, hcs_runCancel := False\<rparr>)"
| cleanup_stop_close:
    "hcs_once s \<Longrightarrow> \<not> hcs_stopCh s \<Longrightarrow> cleanup_step runOnce s Stopping (s\<lparr>hcs_stopCh := True\<rparr>)"
| cleanup_elsewhere: "cleanup_step runOnce s Elsewhere (s\<lparr>hcs_world := w'\<rparr>)"

definition HistoryCleanupScheduler_Wait :: "HistoryCleanupScheduler \<Rightarrow> bool" where
  "HistoryCleanupScheduler_Wait s \<longleftrightarrow> hcs_loop s = CleanupReturned"

section \<open>What a run did\<close>

definition sent :: "event list \<Rightarrow> Machine list" where
  "sent evs = List.map_filter (\<lambda>ev. case ev of Sent m \<Rightarrow> Some m | _ \<Rightarrow> None) evs"

definition taken :: "event list \<Rightarrow> Machine list" where
  "taken evs = List.map_filter (\<lambda>ev. case ev of Taken i m \<Rightarrow> Some m | _ \<Rightarrow> None) evs"

definition jobs_of :: "nat \<Rightarrow> event list \<Rightarrow> nat" where
  "jobs_of i evs = length (filter (\<lambda>ev. case ev of Taken j m \<Rightarrow> j = i | _ \<Rightarrow> False) evs)"

definition attempts_of :: "nat \<Rightarrow> event list \<Rightarrow> nat" where
  "attempts_of i evs = length (filter (\<lambda>ev. case ev of Attempted j m a ok \<Rightarrow> j = i | _ \<Rightarrow> False) evs)"

definition attempted :: "event list \<Rightarrow> Machine set" where
  "attempted evs = {m. \<exists>i a ok. Attempted i m a ok \<in> set evs}"

lemma events_Nil [simp]: "sent [] = []" "taken [] = []" "jobs_of i [] = 0" "attempts_of i [] = 0" "attempted [] = {}"
  by (simp_all add: sent_def taken_def jobs_of_def attempts_of_def attempted_def map_filter_def)

lemma sent_snoc [simp]: "sent (evs @ [ev]) = sent evs @ (case ev of Sent m \<Rightarrow> [m] | _ \<Rightarrow> [])"
  by (cases ev) (simp_all add: sent_def map_filter_def)

lemma taken_snoc [simp]: "taken (evs @ [ev]) = taken evs @ (case ev of Taken i m \<Rightarrow> [m] | _ \<Rightarrow> [])"
  by (cases ev) (simp_all add: taken_def map_filter_def)

lemma jobs_of_snoc [simp]: "jobs_of i (evs @ [ev]) = jobs_of i evs + (case ev of Taken j m \<Rightarrow> if j = i then 1 else 0 | _ \<Rightarrow> 0)"
  by (cases ev) (simp_all add: jobs_of_def)

lemma attempts_of_snoc [simp]:
  "attempts_of i (evs @ [ev]) = attempts_of i evs + (case ev of Attempted j m a ok \<Rightarrow> if j = i then 1 else 0 | _ \<Rightarrow> 0)"
  by (cases ev) (simp_all add: attempts_of_def)

lemma attempted_snoc [simp]: "attempted (evs @ [ev]) = attempted evs \<union> (case ev of Attempted i m a ok \<Rightarrow> {m} | _ \<Rightarrow> {})"
  by (cases ev) (auto simp: attempted_def)

inductive_cases loop_stepE: "loop_step cfg list_enabled s ev s'"
inductive_cases worker_stepE: "worker_step cfg collect i s ev s'"
inductive_cases stop_stepE: "stop_step s s'"
inductive_cases sched_stepE: "sched_step cfg collect list_enabled s ev s'"

section \<open>The queue\<close>

definition queue_ok :: "CollectorConfig \<Rightarrow> event list \<Rightarrow> TrafficScheduler \<Rightarrow> bool" where
  "queue_ok cfg evs s \<longleftrightarrow>
     sent evs = taken evs @ tsd_jobs s \<and> length (tsd_jobs s) \<le> nat (co_MaxWorkers cfg) \<and>
     length (tsd_workers s) = nat (co_MaxWorkers cfg) \<and> (tsd_jobs_closed s \<longleftrightarrow> tsd_loop s = LoopReturned) \<and>
     (tsd_runCancel s \<longleftrightarrow> \<not> tsd_once s) \<and> (tsd_once s \<longrightarrow> tsd_ctx_done s)"

lemma queue_ok_start: "queue_ok cfg [] (TrafficScheduler_Start cfg w)"
  by (simp add: queue_ok_def TrafficScheduler_Start_def)

lemma queue_ok_step:
  assumes "queue_ok cfg evs s" and "sched_step cfg collect list_enabled s ev s'"
  shows "queue_ok cfg (evs @ [ev]) s'"
  using assms(2,1) unfolding queue_ok_def
  by (elim sched_stepE; (elim loop_stepE worker_stepE stop_stepE)?; simp)

lemma queue_ok_run:
  assumes "sched_run cfg collect list_enabled (TrafficScheduler_Start cfg w) evs s"
  shows "queue_ok cfg evs s"
  using assms by induction (auto intro: queue_ok_start queue_ok_step)

text \<open>C14. In every run of the scheduler, under every interleaving, the workers take the jobs in the
  order they were sent, none lost and none taken twice, and at most \<^verbatim>\<open>MaxWorkers\<close> sent jobs
  are waiting.\<close>

theorem jobs_in_order:
  assumes "sched_run cfg collect list_enabled (TrafficScheduler_Start cfg w) evs s"
  shows "sent evs = taken evs @ tsd_jobs s \<and> length (tsd_jobs s) \<le> nat (co_MaxWorkers cfg)"
  using queue_ok_run [OF assms] by (simp add: queue_ok_def)

section \<open>Attempts\<close>

fun worker_ok :: "int \<Rightarrow> nat \<Rightarrow> nat \<Rightarrow> worker_pc \<Rightarrow> bool" where
  "worker_ok r J A (Attempting m a) \<longleftrightarrow> A + nat (r + 1 - a) \<le> nat (r + 1) * J"
| "worker_ok r J A (Waiting m a) \<longleftrightarrow> A + nat (r - a) \<le> nat (r + 1) * J"
| "worker_ok r J A pc \<longleftrightarrow> A \<le> nat (r + 1) * J"

definition attempts_ok :: "CollectorConfig \<Rightarrow> event list \<Rightarrow> TrafficScheduler \<Rightarrow> bool" where
  "attempts_ok cfg evs s \<longleftrightarrow> (\<forall>i<length (tsd_workers s).
     worker_ok (co_RetryTimes cfg) (jobs_of i evs) (attempts_of i evs) (tsd_workers s ! i))"

lemma worker_ok_bound: "worker_ok r J A pc \<Longrightarrow> A \<le> nat (r + 1) * J"
  by (cases pc) auto

lemma attempts_ok_step:
  assumes "attempts_ok cfg evs s" and "sched_step cfg collect list_enabled s ev s'"
  shows "attempts_ok cfg (evs @ [ev]) s'"
  using assms(2)
proof (cases rule: sched_step.cases)
  case (by_worker i)
  note ok = assms(1) [unfolded attempts_ok_def, rule_format]
  from by_worker(2) show ?thesis
    unfolding attempts_ok_def using ok by_worker(1)
    by (cases rule: worker_step.cases) (auto simp: nth_list_update algebra_simps dest!: ok)
qed (use assms(1) in \<open>auto simp: attempts_ok_def elim!: loop_stepE stop_stepE\<close>)

lemma attempts_ok_run:
  assumes "sched_run cfg collect list_enabled (TrafficScheduler_Start cfg w) evs s"
  shows "attempts_ok cfg evs s"
  using assms
proof induction
  case run_start
  then show ?case by (simp add: attempts_ok_def TrafficScheduler_Start_def)
qed (rule attempts_ok_step)

text \<open>C15. However often collections fail and whenever the scheduler is stopped, a worker makes at
  most \<^verbatim>\<open>RetryTimes + 1\<close> attempts per job it takes.\<close>

theorem attempts_bounded:
  assumes "sched_run cfg collect list_enabled (TrafficScheduler_Start cfg w) evs s" and "i < nat (co_MaxWorkers cfg)"
  shows "attempts_of i evs \<le> nat (co_RetryTimes cfg + 1) * jobs_of i evs"
  using attempts_ok_run [OF assms(1)] queue_ok_run [OF assms(1)] assms(2) worker_ok_bound
  by (auto simp: attempts_ok_def queue_ok_def)

section \<open>The runner's contract\<close>

locale collect_runner =
  fixes collect :: "Machine \<Rightarrow> TrafficSample list io" and list_enabled :: "Machine list io"
  assumes listed_enabled: "list_enabled w = (Inr ms, w') \<Longrightarrow> list_all mc_CollectEnabled ms"
begin

fun loop_enabled :: "loop_pc \<Rightarrow> bool" where
  "loop_enabled (Sending ms) = list_all mc_CollectEnabled ms"
| "loop_enabled pc = True"

fun worker_enabled :: "worker_pc \<Rightarrow> bool" where
  "worker_enabled (Attempting m a) = mc_CollectEnabled m"
| "worker_enabled (Waiting m a) = mc_CollectEnabled m"
| "worker_enabled pc = True"

definition all_enabled :: "event list \<Rightarrow> TrafficScheduler \<Rightarrow> bool" where
  "all_enabled evs s \<longleftrightarrow> loop_enabled (tsd_loop s) \<and> list_all mc_CollectEnabled (tsd_jobs s) \<and>
     list_all worker_enabled (tsd_workers s) \<and> attempted evs \<subseteq> Collect mc_CollectEnabled"

lemma all_enabled_step:
  assumes "all_enabled evs s" and "sched_step cfg collect list_enabled s ev s'"
  shows "all_enabled (evs @ [ev]) s'"
  using assms(2)
proof (cases rule: sched_step.cases)
  case by_loop
  then show ?thesis
    using assms(1) unfolding all_enabled_def by (cases rule: loop_step.cases) (auto dest: listed_enabled)
next
  case (by_worker i)
  have w: "worker_enabled (tsd_workers s ! i)"
    using assms(1) by_worker(1) by (simp add: all_enabled_def list_all_length)
  have upd: "worker_enabled x \<Longrightarrow> list_all worker_enabled ((tsd_workers s)[i := x])" for x
    using assms(1) by (auto simp: all_enabled_def list_all_iff dest!: set_update_subset_insert [THEN subsetD])
  from by_worker(2) show ?thesis
    using assms(1) w upd unfolding all_enabled_def by (cases rule: worker_step.cases) auto
qed (use assms(1) in \<open>auto simp: all_enabled_def elim!: stop_stepE\<close>)

lemma only_enabled:
  assumes "sched_run cfg collect list_enabled (TrafficScheduler_Start cfg w) evs s"
  shows "attempted evs \<subseteq> Collect mc_CollectEnabled"
proof -
  from assms have "all_enabled evs s"
  proof induction
    case run_start
    then show ?case by (simp add: all_enabled_def TrafficScheduler_Start_def list_all_length)
  qed (rule all_enabled_step)
  then show ?thesis by (simp add: all_enabled_def)
qed

end

interpretation traffic_runner: collect_runner
    "TrafficCollectionService_CollectMachine evaluateSamples E masterKey" "TrafficCollectionService_ListEnabledMachines E"
    for evaluateSamples E masterKey
  by unfold_locales (auto simp: TrafficCollectionService_ListEnabledMachines_def list_all_iff run_ret elim!: bnd_InrE)

text \<open>The scheduler only ever collects from machines whose collection is enabled.\<close>

lemma scheduler_collects_enabled:
  assumes "sched_run cfg (TrafficCollectionService_CollectMachine evaluateSamples E masterKey)
      (TrafficCollectionService_ListEnabledMachines E) (TrafficScheduler_Start cfg w) evs s"
    and "Attempted i m a ok \<in> set evs"
  shows "mc_CollectEnabled m"
  using traffic_runner.only_enabled [OF assms(1)] assms(2) by (auto simp: attempted_def)

section \<open>Stopping\<close>

definition loop_rank :: "loop_pc \<Rightarrow> nat" where
  "loop_rank pc = (case pc of Dispatch \<Rightarrow> 3 | Sending ms \<Rightarrow> 2 | Selecting \<Rightarrow> 1 | LoopReturned \<Rightarrow> 0)"

definition to_send :: "loop_pc \<Rightarrow> nat" where
  "to_send pc = (case pc of Sending ms \<Rightarrow> length ms | _ \<Rightarrow> 0)"

definition worker_work :: "int \<Rightarrow> worker_pc \<Rightarrow> nat" where
  "worker_work r pc = (case pc of
     Attempting m a \<Rightarrow> 2 + 2 * nat (r + 1 - a)
   | Waiting m a \<Rightarrow> 2 * nat (r + 1 - a) + (if r < a then 3 else 1)
   | Receiving \<Rightarrow> 1 | WorkerReturned \<Rightarrow> 0)"

definition work_left :: "CollectorConfig \<Rightarrow> TrafficScheduler \<Rightarrow> nat" where
  "work_left cfg s = (if tsd_once s then 0 else 1) + (if tsd_stopCh s then 0 else 1) +
     length (tsd_jobs s) * (2 + 2 * nat (co_RetryTimes cfg + 1)) +
     sum_list (map (worker_work (co_RetryTimes cfg)) (tsd_workers s))"

text \<open>A step that is neither a tick nor a step elsewhere in the program.\<close>

definition own_step ::
  "CollectorConfig \<Rightarrow> (Machine \<Rightarrow> TrafficSample list io) \<Rightarrow> Machine list io \<Rightarrow> TrafficScheduler \<Rightarrow> TrafficScheduler \<Rightarrow> bool" where
  "own_step cfg collect list_enabled s s' \<longleftrightarrow>
     (\<exists>ev. ev \<noteq> Ticker \<and> ev \<noteq> Elsewhere \<and> sched_step cfg collect list_enabled s ev s')"

lemma worker_less:
  assumes "i < length ws" and "f x < f (ws ! i)"
  shows "sum_list (map f (ws[i := x])) < (sum_list (map f ws) :: nat)"
proof -
  have "sum_list (map f (ws[i := x])) + f (ws ! i) = sum_list (map f ws) + f x"
    using sum_list_update [of i "map f ws" "f x"] assms(1) elem_le_sum_list [of i "map f ws"]
    by (simp add: map_update)
  with assms(2) show ?thesis by linarith
qed

lemma worker_step_less:
  assumes "worker_step cfg collect i s ev s'" and "i < length (tsd_workers s)"
  shows "work_left cfg s' < work_left cfg s \<and> tsd_loop s' = tsd_loop s"
proof -
  note less = worker_less [OF assms(2), of "worker_work (co_RetryTimes cfg)"]
  from assms(1) show ?thesis
  proof (cases rule: worker_step.cases)
    case (take_job m js)
    have "sum_list (map (worker_work (co_RetryTimes cfg)) ((tsd_workers s)[i := Attempting m 0])) + 1 =
        sum_list (map (worker_work (co_RetryTimes cfg)) (tsd_workers s)) + (2 + 2 * nat (co_RetryTimes cfg + 1))"
      using sum_list_update [of i "map (worker_work (co_RetryTimes cfg)) (tsd_workers s)"] assms(2)
        elem_le_sum_list [of i "map (worker_work (co_RetryTimes cfg)) (tsd_workers s)"] take_job
      by (simp add: map_update worker_work_def)
    with take_job show ?thesis by (simp add: work_left_def)
  next
    case (wait_over m a)
    have "worker_work r (Attempting m (a + 1)) < worker_work r (Waiting m a)" for r
      by (cases "r < a") (simp_all add: worker_work_def)
    with wait_over show ?thesis using less [of "Attempting m (a + 1)"] by (simp add: work_left_def)
  qed (use less in \<open>auto simp: work_left_def worker_work_def\<close>)
qed

lemma own_step_less:
  assumes "own_step cfg collect list_enabled s s'"
  shows "(s', s) \<in> inv_image (less_than <*lex*> less_than <*lex*> less_than)
     (\<lambda>s. (loop_rank (tsd_loop s), to_send (tsd_loop s), work_left cfg s))"
proof -
  from assms obtain ev where ev: "ev \<noteq> Ticker" "ev \<noteq> Elsewhere" "sched_step cfg collect list_enabled s ev s'"
    by (auto simp: own_step_def)
  from ev(3) show ?thesis
  proof (cases rule: sched_step.cases)
    case by_loop
    then show ?thesis
      using ev(1) by (cases rule: loop_step.cases) (auto simp: loop_rank_def to_send_def)
  next
    case (by_worker i)
    with worker_step_less [OF by_worker(2,1)] show ?thesis by (simp add: in_inv_image)
  next
    case by_stop
    from by_stop(2) show ?thesis by (cases rule: stop_step.cases) (auto simp: work_left_def)
  qed (use ev(2) in simp)
qed

lemma own_steps_end: "wf {(s', s). own_step cfg collect list_enabled s s'}"
  by (rule wf_subset [of "inv_image (less_than <*lex*> less_than <*lex*> less_than)
     (\<lambda>s. (loop_rank (tsd_loop s), to_send (tsd_loop s), work_left cfg s))"])
    (auto dest: own_step_less)

lemma worker_progress:
  assumes "i < length (tsd_workers s)" and "tsd_workers s ! i \<noteq> WorkerReturned" and "tsd_jobs_closed s"
  shows "\<exists>s'. own_step cfg collect list_enabled s s'"
proof -
  have "\<exists>ev s'. worker_step cfg collect i s ev s' \<and> ev \<noteq> Ticker \<and> ev \<noteq> Elsewhere"
  proof (cases "tsd_workers s ! i")
    case Receiving
    then show ?thesis
      using assms(3) by (cases "tsd_jobs s") (blast intro: take_job jobs_ended)+
  next
    case (Attempting m a)
    obtain r w' where r: "collect m (tsd_world s) = (r, w')" by fastforce
    consider "a < co_RetryTimes cfg" | "a = co_RetryTimes cfg" | "co_RetryTimes cfg < a" by linarith
    then show ?thesis
      using Attempting r by cases (cases r; fastforce intro: attempt_succeeded attempt_failed last_attempt_failed attempts_used)+
  next
    case (Waiting m a)
    then show ?thesis by (blast intro: wait_over)
  qed (use assms in simp)
  then show ?thesis using assms(1) by (auto simp: own_step_def intro: by_worker)
qed

lemma stop_progress:
  assumes ok: "queue_ok cfg evs s" and "stop_ready s" and "\<not> TrafficScheduler_Wait s"
  shows "\<exists>s'. own_step cfg collect list_enabled s s'"
proof -
  have loop: "\<exists>s'. own_step cfg collect list_enabled s s'"
    if "loop_step cfg list_enabled s ev s'" "ev \<noteq> Ticker" "ev \<noteq> Elsewhere" for ev s'
    using that by (auto simp: own_step_def intro: by_loop)
  show ?thesis
  proof (cases "tsd_loop s")
    case Dispatch
    obtain r w' where r: "list_enabled (tsd_world s) = (r, w')" by fastforce
    show ?thesis
    proof (cases r)
      case (Inl e)
      from loop [OF list_failed [of s list_enabled, OF Dispatch r [unfolded Inl]]] show ?thesis by simp
    next
      case (Inr ms)
      from loop [OF list_ok [of s list_enabled, OF Dispatch r [unfolded Inr]]] show ?thesis by simp
    qed
  next
    case (Sending ms)
    show ?thesis
    proof (cases ms)
      case Nil
      from loop [OF sent_all [OF Sending [unfolded Nil]]] show ?thesis by simp
    next
      case (Cons m ms')
      from loop [OF send_stopped [OF Sending [unfolded Cons] assms(2)]] show ?thesis by simp
    qed
  next
    case Selecting
    from loop [OF loop_stopped [OF Selecting assms(2)]] show ?thesis by simp
  next
    case LoopReturned
    with assms(3) obtain i where "i < length (tsd_workers s)" "tsd_workers s ! i \<noteq> WorkerReturned"
      by (auto simp: TrafficScheduler_Wait_def list_all_length)
    moreover have "tsd_jobs_closed s" using ok LoopReturned by (simp add: queue_ok_def)
    ultimately show ?thesis by (rule worker_progress)
  qed
qed

lemma stop_ready_step: "sched_step cfg collect list_enabled s ev s' \<Longrightarrow> stop_ready s \<Longrightarrow> stop_ready s'"
  by (elim sched_stepE; (elim loop_stepE worker_stepE stop_stepE)?; auto simp: stop_ready_def)

lemma own_steps_invariant:
  assumes "(own_step cfg collect list_enabled)\<^sup>*\<^sup>* s s'" and "queue_ok cfg evs s" and "stop_ready s"
  shows "(\<exists>evs'. queue_ok cfg evs' s') \<and> stop_ready s'"
  using assms
proof induction
  case (step s1 s2)
  then obtain ev evs1 where "sched_step cfg collect list_enabled s1 ev s2" "queue_ok cfg evs1 s1" "stop_ready s1"
    by (auto simp: own_step_def)
  then show ?case by (blast intro: queue_ok_step stop_ready_step)
qed blast

lemma stop_reaches_wait:
  assumes "queue_ok cfg evs s" and "stop_ready s"
  shows "\<exists>s'. (own_step cfg collect list_enabled)\<^sup>*\<^sup>* s s' \<and> TrafficScheduler_Wait s'"
  using assms
proof (induction s arbitrary: evs rule: wf_induct_rule [OF own_steps_end [of cfg collect list_enabled]])
  case (1 s)
  show ?case
  proof (cases "TrafficScheduler_Wait s")
    case False
    with stop_progress [OF 1(2,3)] obtain s1 where s1: "own_step cfg collect list_enabled s s1" by blast
    then obtain ev where "sched_step cfg collect list_enabled s ev s1" by (auto simp: own_step_def)
    then have "queue_ok cfg (evs @ [ev]) s1" "stop_ready s1"
      using 1(2,3) by (auto intro: queue_ok_step stop_ready_step)
    with 1(1) s1 obtain s' where "(own_step cfg collect list_enabled)\<^sup>*\<^sup>* s1 s'" "TrafficScheduler_Wait s'" by blast
    with s1 show ?thesis by (meson converse_rtranclp_into_rtranclp)
  qed blast
qed

text \<open>C12. Once \<^verbatim>\<open>Stop\<close> was called, the scheduler gets to the state in which \<^verbatim>\<open>Wait\<close> returns, whatever
  the collector answers: apart from ticks that win the loop's \<^verbatim>\<open>select\<close> against the closed
  channels, only finitely many steps are left, and as long as \<^verbatim>\<open>Wait\<close> does not return one of them
  is possible.\<close>

theorem stop_terminates:
  assumes "sched_run cfg collect list_enabled (TrafficScheduler_Start cfg w) evs s" and "tsd_once s"
  shows "wf {(s', s). own_step cfg collect list_enabled s s'} \<and>
     (\<exists>s'. (own_step cfg collect list_enabled)\<^sup>*\<^sup>* s s' \<and> TrafficScheduler_Wait s') \<and>
     (\<forall>s'. (own_step cfg collect list_enabled)\<^sup>*\<^sup>* s s' \<longrightarrow>
        TrafficScheduler_Wait s' \<or> (\<exists>s''. own_step cfg collect list_enabled s' s''))"
proof -
  have ok: "queue_ok cfg evs s" using assms(1) by (rule queue_ok_run)
  with assms(2) have ready: "stop_ready s" by (simp add: queue_ok_def stop_ready_def)
  have "TrafficScheduler_Wait s' \<or> (\<exists>s''. own_step cfg collect list_enabled s' s'')"
    if "(own_step cfg collect list_enabled)\<^sup>*\<^sup>* s s'" for s'
    using own_steps_invariant [OF that ok ready] stop_progress [of cfg _ s' collect list_enabled] by blast
  then show ?thesis
    by (intro conjI own_steps_end stop_reaches_wait [OF ok ready] allI impI)
qed

text \<open>The cleanup scheduler of a validated configuration stops too: once it is told to, the running
  cleanup ends and the loop can leave, whatever the database does.\<close>

lemma cleanup_scheduler_stops:
  assumes "Config_Validate cfg = None" and "hc_Enabled (cf_HistoryCleanup cfg)" and "hcs_stopCh s \<or> hcs_ctx_done s"
    and "distinct (map ts_ID (samples (hcs_world s)))" and "distinct (map al_ID (alerts (hcs_world s)))"
  shows "\<exists>s'. (\<lambda>x y. cleanup_step (HistoryCleanupService_RunOnce E (cf_HistoryCleanup cfg)) x Internal y)\<^sup>*\<^sup>* s s' \<and>
     HistoryCleanupScheduler_Wait s'"
proof -
  let ?run = "HistoryCleanupService_RunOnce E (cf_HistoryCleanup cfg)"
  let ?step = "\<lambda>x y. cleanup_step ?run x Internal y"
  have leave: "\<exists>s'. ?step\<^sup>*\<^sup>* x s' \<and> HistoryCleanupScheduler_Wait s'"
    if "hcs_loop x = CleanupSelecting" "hcs_stopCh x \<or> hcs_ctx_done x" for x
    using cleanup_stopped [OF that, of ?run]
    by (intro exI [of _ "x\<lparr>hcs_loop := CleanupReturned\<rparr>"]) (simp add: HistoryCleanupScheduler_Wait_def r_into_rtranclp)
  show ?thesis
  proof (cases "hcs_loop s")
    case CleanupRunning
    obtain r w' where "?run (hcs_world s) = Some (r, w')"
      using run_once_ends [OF assms(1,2,4,5), of E] by fastforce
    from cleanup_ran [of s ?run, OF CleanupRunning this] leave [of "s\<lparr>hcs_world := w', hcs_loop := CleanupSelecting\<rparr>"] assms(3)
    show ?thesis by (auto intro: converse_rtranclp_into_rtranclp)
  next
    case CleanupSelecting
    with leave assms(3) show ?thesis by blast
  next
    case CleanupReturned
    then show ?thesis by (auto simp: HistoryCleanupScheduler_Wait_def)
  qed
qed

section \<open>Examples\<close>

abbreviation example_collect :: "Machine \<Rightarrow> TrafficSample list io" where
  "example_collect \<equiv> TrafficCollectionService_CollectMachine (\<lambda>_ _. ret ()) example_env []"

abbreviation example_list :: "Machine list io" where
  "example_list \<equiv> TrafficCollectionService_ListEnabledMachines example_env"

abbreviation machine_world :: world where
  "machine_world \<equiv> empty_world\<lparr>machines := [example_machine]\<rparr>"

abbreviation example_start :: TrafficScheduler where
  "example_start \<equiv> TrafficScheduler_Start (cf_Collector example_config) machine_world"

lemma first_attempt:
  assumes "tsd_workers s ! i = Attempting m 0" and "i < length (tsd_workers s)" and "0 < co_RetryTimes cfg"
  shows "\<exists>ok s'. sched_step cfg collect list_enabled s (Attempted i m 0 ok) s' \<and> tsd_once s' = tsd_once s"
proof (cases "collect m (tsd_world s)")
  case (Pair r w')
  show ?thesis
  proof (cases r)
    case (Inl e)
    with attempt_failed [of s i m 0 cfg collect e w'] assms Pair
    have "worker_step cfg collect i s (Attempted i m 0 False)
        (s\<lparr>tsd_world := w', tsd_workers := (tsd_workers s)[i := Waiting m 0]\<rparr>)" by simp
    from by_worker [OF assms(2) this] show ?thesis by fastforce
  next
    case (Inr smps)
    with attempt_succeeded [of s i m 0 cfg collect smps w'] assms Pair
    have "worker_step cfg collect i s (Attempted i m 0 True)
        (s\<lparr>tsd_world := w', tsd_workers := (tsd_workers s)[i := Receiving]\<rparr>)" by simp
    from by_worker [OF assms(2) this] show ?thesis by fastforce
  qed
qed

text \<open>The machine is listed, sent, taken by the first worker and collected once.\<close>

lemma example_schedule:
  "\<exists>ok s. sched_run (cf_Collector example_config) example_collect example_list example_start
     [Listed [example_machine], Sent example_machine, Taken 0 example_machine, Attempted 0 example_machine 0 ok] s \<and>
     \<not> tsd_once s"
proof -
  let ?step = "sched_step (cf_Collector example_config) example_collect example_list"
  let ?run = "sched_run (cf_Collector example_config) example_collect example_list example_start"
  let ?w1 = "ticked 1 machine_world"
  let ?s1 = "example_start\<lparr>tsd_loop := Sending [example_machine], tsd_world := ?w1\<rparr>"
  let ?s2 = "?s1\<lparr>tsd_loop := Sending [], tsd_jobs := [example_machine]\<rparr>"
  let ?s3 = "?s2\<lparr>tsd_jobs := [], tsd_workers := (tsd_workers ?s2)[0 := Attempting example_machine 0]\<rparr>"
  have cfg: "co_MaxWorkers (cf_Collector example_config) = 4" "co_RetryTimes (cf_Collector example_config) = 2"
    by (simp_all add: example_config_def)
  have "example_list (tsd_world example_start) = (Inr [example_machine], ?w1)"
    by (simp add: TrafficCollectionService_ListEnabledMachines_def MachineRepo_List_def TrafficScheduler_Start_def
      run_simps example_machine_def)
  then have 1: "?step example_start (Listed [example_machine]) ?s1"
    by (intro by_loop list_ok) (simp_all add: TrafficScheduler_Start_def)
  have 2: "?step ?s1 (Sent example_machine) ?s2"
    using send [of ?s1 example_machine "[]" "cf_Collector example_config" example_list, THEN by_loop]
    by (simp add: TrafficScheduler_Start_def cfg)
  have 3: "?step ?s2 (Taken 0 example_machine) ?s3"
    using take_job [of ?s2 0 example_machine "[]" "cf_Collector example_config" example_collect,
      THEN by_worker [rotated]] by (simp add: TrafficScheduler_Start_def cfg)
  have "\<exists>ok s4. ?step ?s3 (Attempted 0 example_machine 0 ok) s4 \<and> tsd_once s4 = tsd_once ?s3"
    by (rule first_attempt) (simp_all add: TrafficScheduler_Start_def cfg)
  then have "\<exists>ok s4. ?step ?s3 (Attempted 0 example_machine 0 ok) s4 \<and> \<not> tsd_once s4"
    by (simp add: TrafficScheduler_Start_def)
  then obtain ok s4 where 4: "?step ?s3 (Attempted 0 example_machine 0 ok) s4" "\<not> tsd_once s4" by blast
  from run_next [OF run_next [OF run_next [OF run_next [OF run_start 1] 2] 3] 4(1)] 4(2) show ?thesis by auto
qed

theorem jobs_in_order_witness:
  "\<exists>evs s. sched_run (cf_Collector example_config) example_collect example_list example_start evs s \<and>
     sent evs = [example_machine] \<and> sent evs = taken evs @ tsd_jobs s \<and> length (tsd_jobs s) \<le> 4"
proof -
  obtain ok s where run: "sched_run (cf_Collector example_config) example_collect example_list example_start
     [Listed [example_machine], Sent example_machine, Taken 0 example_machine, Attempted 0 example_machine 0 ok] s"
    (is "sched_run _ _ _ _ ?evs s") using example_schedule by blast
  have "sent ?evs = [example_machine]" by (simp add: sent_def map_filter_def)
  with jobs_in_order [OF run] run show ?thesis
    by (intro exI [of _ ?evs] exI [of _ s]) (simp add: example_config_def)
qed

theorem attempts_bounded_witness:
  "\<exists>evs. jobs_of 0 evs = 1 \<and> attempts_of 0 evs \<le> 3 * jobs_of 0 evs"
proof -
  obtain ok s where run: "sched_run (cf_Collector example_config) example_collect example_list example_start
     [Listed [example_machine], Sent example_machine, Taken 0 example_machine, Attempted 0 example_machine 0 ok] s"
    (is "sched_run _ _ _ _ ?evs s") using example_schedule by blast
  have "jobs_of 0 ?evs = 1" by (simp add: jobs_of_def)
  with attempts_bounded [OF run, of 0] show ?thesis by (intro exI [of _ ?evs]) (simp add: example_config_def)
qed

theorem stop_terminates_witness:
  "\<exists>s s'. tsd_once s \<and> (own_step (cf_Collector example_config) example_collect example_list)\<^sup>*\<^sup>* s s' \<and>
     TrafficScheduler_Wait s'"
proof -
  obtain ok s where run: "sched_run (cf_Collector example_config) example_collect example_list example_start
     [Listed [example_machine], Sent example_machine, Taken 0 example_machine, Attempted 0 example_machine 0 ok] s"
    and "\<not> tsd_once s" using example_schedule by blast
  from run_next [OF run by_stop [OF stop_cancel [OF this(2)]]]
  obtain evs s1 where "sched_run (cf_Collector example_config) example_collect example_list example_start evs s1" "tsd_once s1"
    by fastforce
  from stop_terminates [OF this] this(2) show ?thesis by blast
qed

end
