(* ===== verification/Logging.thy ===== *)
theory Logging
  imports Config
begin

text \<open>
  What the program writes to its log apart from the messages of single operations: the configuration report of
  \<^verbatim>\<open>internal/config/logging.go\<close>, the events of the fx container (\<^verbatim>\<open>internal/logger/fx_logger.go\<close>), the access log of
  \<^verbatim>\<open>internal/bootstrap/http.go\<close>, and the choice of level and writer in \<^verbatim>\<open>internal/logger/logger.go\<close>. A log event is its level,
  its fields and its message; rendering and filtering it is zerolog's work.
\<close>

section \<open>Events\<close>

datatype log_level = DebugLevel | InfoLevel | WarnLevel | ErrorLevel

datatype log_value = LStr string | LStrs "string list" | LInt int | LBool bool | LDur int | LErr "string option"

record log_event =
  le_Level :: log_level
  le_Fields :: "(string \<times> log_value) list"
  le_Msg :: string

definition log_entry :: "log_level \<Rightarrow> (string \<times> log_value) list \<Rightarrow> string \<Rightarrow> log_event" where
  "log_entry l flds msg = \<lparr>le_Level = l, le_Fields = flds, le_Msg = msg\<rparr>"

section \<open>The configuration report\<close>

definition maskBootstrapUsername :: "string \<Rightarrow> string" where
  "maskBootstrapUsername name =
     (let username = TrimSpace name
      in if username = [] then []
         else if length username \<le> 2 then take 1 username @ ''*''
         else take 1 username @ replicate (length username - 2) (CHR ''*'') @ drop (length username - 1) username)"

definition LogSanitizedConfig :: "Config \<Rightarrow> log_event" where
  "LogSanitizedConfig cfg =
    (let co = cf_Collector cfg; hc = cf_HistoryCleanup cfg; ht = cf_HTTP cfg; db = cf_Database cfg; se = cf_Session cfg;
         bs = cf_Bootstrap cfg; rs = cf_Restore cfg
     in log_entry InfoLevel
      [(''component'', LStr ''config''),
       (''app_name'', LStr (ac_Name (cf_App cfg))),
       (''app_env'', LStr (ac_Env (cf_App cfg))),
       (''collector_enabled'', LBool (co_Enabled co)),
       (''collector_interval'', LDur (co_Interval co)),
       (''collector_max_workers'', LInt (co_MaxWorkers co)),
       (''collector_retry_times'', LInt (co_RetryTimes co)),
       (''history_cleanup_enabled'', LBool (hc_Enabled hc)),
       (''history_cleanup_interval'', LDur (hc_Interval hc)),
       (''history_cleanup_samples_days'', LInt (hc_SamplesDays hc)),
       (''history_cleanup_alerts_days'', LInt (hc_AlertsDays hc)),
       (''history_cleanup_batch_size'', LInt (hc_BatchSize hc)),
       (''history_cleanup_timeout'', LDur (hc_Timeout hc)),
       (''http_addr'', LStr (ht_Addr ht)),
       (''http_read_timeout'', LDur (ht_ReadTimeout ht)),
       (''http_write_timeout'', LDur (ht_WriteTimeout ht)),
       (''http_stop_timeout'', LDur (ht_StopTimeout ht)),
       (''database_max_idle_conns'', LInt (db_MaxIdleConns db)),
       (''database_max_open_conns'', LInt (db_MaxOpenConns db)),
       (''database_conn_max_lifetime'', LDur (db_ConnMaxLifetime db)),
       (''database_ping_timeout'', LDur (db_PingTimeout db)),
       (''log_level'', LStr (lg_Level (cf_Log cfg))),
       (''log_format'', LStr (lg_Format (cf_Log cfg))),
       (''session_cookie_name'', LStr (se_CookieName se)),
       (''session_max_age'', LDur (se_MaxAge se)),
       (''session_secure'', LBool (se_Secure se)),
       (''session_secret_configured'', LBool (TrimSpace (se_Secret se) \<noteq> [])),
       (''ssh_dial_timeout'', LDur (sh_DialTimeout (cf_SSH cfg))),
       (''ssh_command_timeout'', LDur (sh_CommandTimeout (cf_SSH cfg))),
       (''security_app_master_key_configured'', LBool (TrimSpace (sc_AppMasterKey (cf_Security cfg)) \<noteq> [])),
       (''bootstrap_admin_enabled'', LBool (TrimSpace (bs_InitAdminUsername bs) \<noteq> [] \<and> TrimSpace (bs_InitAdminPassword bs) \<noteq> [])),
       (''bootstrap_admin_username'', LStr (maskBootstrapUsername (bs_InitAdminUsername bs))),
       (''restore_enabled'', LBool (RestoreConfig_Enabled rs)),
       (''restore_mode'', LStr (rs_Mode rs)),
       (''restore_token_configured'', LBool (TrimSpace (rs_Token rs) \<noteq> []))]
      ''sanitized config loaded'')"

section \<open>The fx container\<close>

text \<open>The events of fxevent with the fields that the logger reads; an error is its text. \<^verbatim>\<open>OtherEvent\<close> is an event of a type
  the logger does not know, with the name of the type.\<close>

datatype fx_event =
    OnStartExecuting (ev_function: string) (ev_caller: string)
  | OnStartExecuted (ev_function: string) (ev_caller: string) (ev_runtime: int) (ev_err: "string option")
  | OnStopExecuting (ev_function: string) (ev_caller: string)
  | OnStopExecuted (ev_function: string) (ev_caller: string) (ev_runtime: int) (ev_err: "string option")
  | Supplied (ev_type: string) (ev_stack: "string list") (ev_module: string) (ev_err: "string option")
  | Provided (ev_constructor: string) (ev_outputs: "string list") (ev_stack: "string list") (ev_module: string) (ev_private: bool) (ev_err: "string option")
  | Replaced (ev_outputs: "string list") (ev_stack: "string list") (ev_module: string) (ev_err: "string option")
  | Decorated (ev_decorator: string) (ev_outputs: "string list") (ev_stack: "string list") (ev_module: string) (ev_err: "string option")
  | Run (ev_name: string) (ev_kind: string) (ev_module: string) (ev_err: "string option")
  | Invoking (ev_function: string) (ev_module: string)
  | Invoked (ev_function: string) (ev_module: string) (ev_err: "string option")
  | Stopping (ev_signal: string)
  | Stopped (ev_err: "string option")
  | RollingBack (ev_start_err: "string option")
  | RolledBack (ev_err: "string option")
  | Started (ev_err: "string option")
  | LoggerInitialized (ev_constructor: string) (ev_err: "string option")
  | OtherEvent (ev_type: string)

definition module_field :: "string \<Rightarrow> (string \<times> log_value) list" where
  "module_field m = (if m \<noteq> [] then [(''module'', LStr m)] else [])"

definition private_field :: "bool \<Rightarrow> (string \<times> log_value) list" where
  "private_field p = (if p then [(''private'', LBool True)] else [])"

definition stack_field :: "string list \<Rightarrow> string \<times> log_value" where
  "stack_field trace = (''stacktrace'', LStr (Join trace '' | ''))"

text \<open>A case of the switch: the error branch and the other one, with the context of \<^verbatim>\<open>NewFxLogger\<close>.\<close>

definition fx_log :: "log_level \<Rightarrow> (string \<times> log_value) list \<Rightarrow> string \<Rightarrow> log_event" where
  "fx_log l flds msg = log_entry l ((''component'', LStr ''fx'') # flds) msg"

definition on_error :: "string option \<Rightarrow> (string \<times> log_value) list \<Rightarrow> string \<Rightarrow> log_event \<Rightarrow> log_event" where
  "on_error err flds msg entry = (case err of Some e \<Rightarrow> fx_log ErrorLevel ((''error'', LErr (Some e)) # flds) msg | None \<Rightarrow> entry)"

primrec FxLogger_LogEvent :: "env \<Rightarrow> fx_event \<Rightarrow> log_event" where
  "FxLogger_LogEvent E (OnStartExecuting f c) = fx_log DebugLevel [(''callee'', LStr f), (''caller'', LStr c)] ''fx on_start executing''"
| "FxLogger_LogEvent E (OnStartExecuted f c t err) =
     (let flds = [(''callee'', LStr f), (''caller'', LStr c), (''runtime'', LDur t)]
      in on_error err flds ''fx on_start failed'' (fx_log DebugLevel flds ''fx on_start executed''))"
| "FxLogger_LogEvent E (OnStopExecuting f c) = fx_log DebugLevel [(''callee'', LStr f), (''caller'', LStr c)] ''fx on_stop executing''"
| "FxLogger_LogEvent E (OnStopExecuted f c t err) =
     (let flds = [(''callee'', LStr f), (''caller'', LStr c), (''runtime'', LDur t)]
      in on_error err flds ''fx on_stop failed'' (fx_log DebugLevel flds ''fx on_stop executed''))"
| "FxLogger_LogEvent E (Supplied t st m err) =
     (let flds = [(''type'', LStr t), stack_field st] @ module_field m
      in on_error err flds ''fx supply failed'' (fx_log DebugLevel flds ''fx supplied''))"
| "FxLogger_LogEvent E (Provided c outs st m p err) =
     (let flds = [(''outputs'', LStrs outs), (''constructor'', LStr c), stack_field st] @ module_field m @ private_field p
      in on_error err flds ''fx provide failed'' (fx_log DebugLevel flds ''fx provided''))"
| "FxLogger_LogEvent E (Replaced outs st m err) =
     (let flds = [(''outputs'', LStrs outs), stack_field st] @ module_field m
      in on_error err flds ''fx replace failed'' (fx_log DebugLevel flds ''fx replaced''))"
| "FxLogger_LogEvent E (Decorated d outs st m err) =
     (let flds = [(''outputs'', LStrs outs), (''decorator'', LStr d), stack_field st] @ module_field m
      in on_error err flds ''fx decorate failed'' (fx_log DebugLevel flds ''fx decorated''))"
| "FxLogger_LogEvent E (Run n k m err) =
     (let flds = [(''name'', LStr n), (''kind'', LStr k), (''module'', LStr m)]
      in on_error err flds ''fx run failed'' (fx_log DebugLevel flds ''fx run''))"
| "FxLogger_LogEvent E (Invoking f m) = fx_log DebugLevel ((''function'', LStr f) # module_field m) ''fx invoking''"
| "FxLogger_LogEvent E (Invoked f m err) =
     (let flds = (''function'', LStr f) # module_field m
      in on_error err flds ''fx invoke failed'' (fx_log DebugLevel flds ''fx invoked''))"
| "FxLogger_LogEvent E (Stopping s) = fx_log InfoLevel [(''signal'', LStr (ToUpper E s))] ''fx stopping''"
| "FxLogger_LogEvent E (Stopped err) = on_error err [] ''fx stopped with error'' (fx_log InfoLevel [] ''fx stopped'')"
| "FxLogger_LogEvent E (RollingBack err) = fx_log WarnLevel [(''error'', LErr err)] ''fx rolling back''"
| "FxLogger_LogEvent E (RolledBack err) = on_error err [] ''fx rollback failed'' (fx_log WarnLevel [] ''fx rolled back'')"
| "FxLogger_LogEvent E (Started err) = on_error err [] ''fx start failed'' (fx_log InfoLevel [] ''fx started'')"
| "FxLogger_LogEvent E (LoggerInitialized c err) =
     (let flds = [(''constructor'', LStr c)]
      in on_error err flds ''fx logger initialization failed'' (fx_log DebugLevel flds ''fx logger initialized''))"
| "FxLogger_LogEvent E (OtherEvent t) = fx_log DebugLevel [(''event'', LStr t)] ''fx event''"

section \<open>The access log\<close>

definition quietRequestPaths :: "string list" where
  "quietRequestPaths = [''/healthz'', ''/api/v1/health'']"

text \<open>What the middleware logs after the handlers answered with a status; nothing for a probe that succeeded.\<close>

definition requestLogger :: "string \<Rightarrow> string \<Rightarrow> int \<Rightarrow> nat \<Rightarrow> log_event option" where
  "requestLogger request_method requestPath duration status =
     (if requestPath \<in> set quietRequestPaths \<and> status < 400 then None
      else Some (log_entry (if 500 \<le> status then ErrorLevel else if 400 \<le> status then WarnLevel else InfoLevel)
        [(''status'', LInt (int status)), (''method'', LStr request_method), (''path'', LStr requestPath), (''duration'', LDur duration)]
        ''http request completed''))"

section \<open>Level and writer\<close>

datatype log_writer = JSONWriter | ConsoleWriter

definition buildWriter :: "env \<Rightarrow> LogConfig \<Rightarrow> log_writer" where
  "buildWriter E cfg =
     (let format = ToLower E (TrimSpace (lg_Format cfg))
      in if format = [] \<or> format = ''json'' then JSONWriter else if format = ''console'' then ConsoleWriter else JSONWriter)"

text \<open>\<^verbatim>\<open>zerolog.ParseLevel\<close> is a parameter; of the level only the four used above matter here.\<close>

definition NewLogger :: "env \<Rightarrow> (string \<Rightarrow> log_level option) \<Rightarrow> LogConfig \<Rightarrow> log_level \<times> log_writer" where
  "NewLogger E parse_level cfg =
     (case parse_level (ToLower E (lg_Level cfg)) of None \<Rightarrow> InfoLevel | Some l \<Rightarrow> l, buildWriter E cfg)"

section \<open>Secrets and failures\<close>

text \<open>Two configurations that differ only in their secrets: the DSN, the session secret, the master key, the password of
  the first administrator, the restore token, which are blank in both or in neither, and the inner characters of the
  administrator's name.\<close>

definition same_blank :: "string \<Rightarrow> string \<Rightarrow> bool" where
  "same_blank a b \<longleftrightarrow> (TrimSpace a = []) = (TrimSpace b = [])"

definition same_outline :: "string \<Rightarrow> string \<Rightarrow> bool" where
  "same_outline a b \<longleftrightarrow> length a = length b \<and> take 1 a = take 1 b \<and> drop (length a - 1) a = drop (length b - 1) b"

definition differ_in_secrets :: "Config \<Rightarrow> Config \<Rightarrow> bool" where
  "differ_in_secrets c d \<longleftrightarrow>
     d = c\<lparr>cf_Database := (cf_Database c)\<lparr>db_DSN := db_DSN (cf_Database d)\<rparr>,
           cf_Session := (cf_Session c)\<lparr>se_Secret := se_Secret (cf_Session d)\<rparr>,
           cf_Security := cf_Security d, cf_Bootstrap := cf_Bootstrap d,
           cf_Restore := (cf_Restore c)\<lparr>rs_Token := rs_Token (cf_Restore d)\<rparr>\<rparr> \<and>
     same_blank (se_Secret (cf_Session c)) (se_Secret (cf_Session d)) \<and>
     same_blank (sc_AppMasterKey (cf_Security c)) (sc_AppMasterKey (cf_Security d)) \<and>
     same_blank (bs_InitAdminPassword (cf_Bootstrap c)) (bs_InitAdminPassword (cf_Bootstrap d)) \<and>
     same_blank (rs_Token (cf_Restore c)) (rs_Token (cf_Restore d)) \<and>
     same_outline (TrimSpace (bs_InitAdminUsername (cf_Bootstrap c))) (TrimSpace (bs_InitAdminUsername (cf_Bootstrap d)))"

lemma mask_outline: "same_outline (TrimSpace a) (TrimSpace b) \<Longrightarrow> maskBootstrapUsername a = maskBootstrapUsername b"
  by (auto simp: maskBootstrapUsername_def same_outline_def Let_def)

text \<open>C35. The configuration report tells no secret: configurations that differ only in their secrets are reported by the
  same log event. Of the DSN, the session secret, the master key, the administrator's password and the restore token the
  report tells at most whether they are set, of the administrator's name its length and its first and last byte.\<close>

theorem config_report_hides_secrets:
  assumes "differ_in_secrets c d"
  shows "LogSanitizedConfig c = LogSanitizedConfig d"
proof -
  obtain dsn secret key bs token where
    d: "d = c\<lparr>cf_Database := (cf_Database c)\<lparr>db_DSN := dsn\<rparr>, cf_Session := (cf_Session c)\<lparr>se_Secret := secret\<rparr>,
      cf_Security := key, cf_Bootstrap := bs, cf_Restore := (cf_Restore c)\<lparr>rs_Token := token\<rparr>\<rparr>"
    by (metis assms differ_in_secrets_def)
  then have blank: "same_blank (se_Secret (cf_Session c)) secret" "same_blank (sc_AppMasterKey (cf_Security c)) (sc_AppMasterKey key)"
    "same_blank (bs_InitAdminPassword (cf_Bootstrap c)) (bs_InitAdminPassword bs)" "same_blank (rs_Token (cf_Restore c)) token"
    and outline: "same_outline (TrimSpace (bs_InitAdminUsername (cf_Bootstrap c))) (TrimSpace (bs_InitAdminUsername bs))"
    using assms by (simp_all add: differ_in_secrets_def)
  from outline have "(TrimSpace (bs_InitAdminUsername (cf_Bootstrap c)) = []) = (TrimSpace (bs_InitAdminUsername bs) = [])"
    by (auto simp: same_outline_def)
  with blank mask_outline [OF outline] show ?thesis
    by (simp add: d LogSanitizedConfig_def Let_def same_blank_def RestoreConfig_Enabled_def)
qed

text \<open>Every failure that fx reports is logged as an error with its text, except the one that starts a rollback, which is a
  warning; nothing else is logged as an error.\<close>

fun failure_of :: "fx_event \<Rightarrow> string option" where
  "failure_of (OnStartExecuted f c t err) = err"
| "failure_of (OnStopExecuted f c t err) = err"
| "failure_of (Supplied t st m err) = err"
| "failure_of (Provided c outs st m p err) = err"
| "failure_of (Replaced outs st m err) = err"
| "failure_of (Decorated d outs st m err) = err"
| "failure_of (Run n k m err) = err"
| "failure_of (Invoked f m err) = err"
| "failure_of (Stopped err) = err"
| "failure_of (RolledBack err) = err"
| "failure_of (Started err) = err"
| "failure_of (LoggerInitialized c err) = err"
| "failure_of ev = None"

lemma fx_failures_logged:
  "le_Level (FxLogger_LogEvent E ev) = ErrorLevel \<longleftrightarrow> failure_of ev \<noteq> None"
  "failure_of ev = Some e \<Longrightarrow> (''error'', LErr (Some e)) \<in> set (le_Fields (FxLogger_LogEvent E ev))"
  by (cases ev; auto simp: fx_log_def log_entry_def on_error_def Let_def split: option.splits)+

text \<open>Only a successful probe is left out of the access log; a failed request is at least a warning.\<close>

lemma requests_logged:
  "requestLogger mth path d status = None \<longleftrightarrow> path \<in> {''/healthz'', ''/api/v1/health''} \<and> status < 400"
  "requestLogger mth path d status = Some ev \<Longrightarrow> le_Level ev = WarnLevel \<longleftrightarrow> 400 \<le> status \<and> status < 500"
  "requestLogger mth path d status = Some ev \<Longrightarrow> le_Level ev = ErrorLevel \<longleftrightarrow> 500 \<le> status"
  by (auto simp: requestLogger_def quietRequestPaths_def log_entry_def split: if_splits)

section \<open>Examples\<close>

lemma example_tokens: "TrimSpace ''first'' = ''first''" "TrimSpace ''second'' = ''second''"
  by code_simp+

theorem config_report_hides_secrets_witness:
  "LogSanitizedConfig (example_config\<lparr>cf_Restore := \<lparr>rs_Mode = ''admin-password'', rs_Token = ''first''\<rparr>\<rparr>) =
   LogSanitizedConfig (example_config\<lparr>cf_Restore := \<lparr>rs_Mode = ''admin-password'', rs_Token = ''second''\<rparr>\<rparr>)"
  by (rule config_report_hides_secrets)
    (simp add: differ_in_secrets_def same_blank_def same_outline_def example_tokens)

end
