(* ===== verification/Wiring.thy ===== *)
theory Wiring
  imports Config "HOL-Library.Multiset"
begin

text \<open>
  How the program is put together: the constructors that \<^verbatim>\<open>Run\<close> of \<^verbatim>\<open>internal/app/module.go\<close> gives to the fx container, the
  functions it invokes, and the options and static routes of \<^verbatim>\<open>internal/bootstrap/http.go\<close> and
  \<^verbatim>\<open>internal/bootstrap/session.go\<close>. Building the container is fx's work: it calls each constructor at most once, when
  all its parameters can be built.
\<close>

section \<open>The container\<close>

text \<open>A constructor with the types of its parameters and results, as its signature has them; an annotated one provides the
  interface it is annotated with. Error results are left out.\<close>

record constructor =
  cn_Name :: string
  cn_Params :: "string list"
  cn_Results :: "string list"

definition provided :: "constructor list" where
  "provided =
     [\<lparr>cn_Name = ''config.NewConfig'', cn_Params = [], cn_Results = [''config.Config'']\<rparr>,
      \<lparr>cn_Name = ''config.ProvideAppConfig'', cn_Params = [''config.Config''], cn_Results = [''config.AppConfig'']\<rparr>,
      \<lparr>cn_Name = ''config.ProvideCollectorConfig'', cn_Params = [''config.Config''], cn_Results = [''config.CollectorConfig'']\<rparr>,
      \<lparr>cn_Name = ''config.ProvideHistoryCleanupConfig'', cn_Params = [''config.Config''], cn_Results = [''config.HistoryCleanupConfig'']\<rparr>,
      \<lparr>cn_Name = ''config.ProvideHTTPConfig'', cn_Params = [''config.Config''], cn_Results = [''config.HTTPConfig'']\<rparr>,
      \<lparr>cn_Name = ''config.ProvideDatabaseConfig'', cn_Params = [''config.Config''], cn_Results = [''config.DatabaseConfig'']\<rparr>,
      \<lparr>cn_Name = ''config.ProvideLogConfig'', cn_Params = [''config.Config''], cn_Results = [''config.LogConfig'']\<rparr>,
      \<lparr>cn_Name = ''config.ProvideSessionConfig'', cn_Params = [''config.Config''], cn_Results = [''config.SessionConfig'']\<rparr>,
      \<lparr>cn_Name = ''config.ProvideSSHConfig'', cn_Params = [''config.Config''], cn_Results = [''config.SSHConfig'']\<rparr>,
      \<lparr>cn_Name = ''config.ProvideSecurityConfig'', cn_Params = [''config.Config''], cn_Results = [''config.SecurityConfig'']\<rparr>,
      \<lparr>cn_Name = ''config.ProvideBootstrapConfig'', cn_Params = [''config.Config''], cn_Results = [''config.BootstrapConfig'']\<rparr>,
      \<lparr>cn_Name = ''config.ProvideRestoreConfig'', cn_Params = [''config.Config''], cn_Results = [''config.RestoreConfig'']\<rparr>,
      \<lparr>cn_Name = ''logger.NewLogger'', cn_Params = [''config.LogConfig''], cn_Results = [''zerolog.Logger'']\<rparr>,
      \<lparr>cn_Name = ''logger.NewFxLogger'', cn_Params = [''zerolog.Logger''], cn_Results = [''logger.FxLogger'']\<rparr>,
      \<lparr>cn_Name = ''bootstrap.NewDB'', cn_Params = [''config.DatabaseConfig''], cn_Results = [''*gorm.DB'']\<rparr>,
      \<lparr>cn_Name = ''bootstrap.NewGinEngine'', cn_Params = [''config.AppConfig'', ''zerolog.Logger''], cn_Results = [''*gin.Engine'']\<rparr>,
      \<lparr>cn_Name = ''bootstrap.NewHTTPServer'', cn_Params = [''*gin.Engine'', ''config.HTTPConfig''], cn_Results = [''*http.Server'']\<rparr>,
      \<lparr>cn_Name = ''bootstrap.NewSessionStore'', cn_Params = [''config.SessionConfig''], cn_Results = [''*sessions.CookieStore'']\<rparr>,
      \<lparr>cn_Name = ''bootstrap.NewDataProtector'', cn_Params = [''config.SecurityConfig''], cn_Results = [''service.SSHKeyProtector'']\<rparr>,
      \<lparr>cn_Name = ''bootstrap.NewSSHRunner'', cn_Params = [''config.SSHConfig''], cn_Results = [''service.SSHCommandRunner'']\<rparr>,
      \<lparr>cn_Name = ''repo.NewAdminRepo'', cn_Params = [''*gorm.DB''], cn_Results = [''*repo.AdminRepo'']\<rparr>,
      \<lparr>cn_Name = ''repo.NewHealthRepo'', cn_Params = [''*gorm.DB''], cn_Results = [''*repo.HealthRepo'']\<rparr>,
      \<lparr>cn_Name = ''repo.NewMachineRepo'', cn_Params = [''*gorm.DB''], cn_Results = [''*repo.MachineRepo'']\<rparr>,
      \<lparr>cn_Name = ''repo.NewSSHKeyRepo'', cn_Params = [''*gorm.DB''], cn_Results = [''*repo.SSHKeyRepo'']\<rparr>,
      \<lparr>cn_Name = ''repo.NewThresholdRuleRepo'', cn_Params = [''*gorm.DB''], cn_Results = [''*repo.ThresholdRuleRepo'']\<rparr>,
      \<lparr>cn_Name = ''repo.NewTrafficSampleRepo'', cn_Params = [''*gorm.DB''], cn_Results = [''*repo.TrafficSampleRepo'']\<rparr>,
      \<lparr>cn_Name = ''repo.NewAlertRepo'', cn_Params = [''*gorm.DB''], cn_Results = [''*repo.AlertRepo'']\<rparr>,
      \<lparr>cn_Name = ''repo.NewNotificationChannelRepo'', cn_Params = [''*gorm.DB''], cn_Results = [''*repo.NotificationChannelRepo'']\<rparr>,
      \<lparr>cn_Name = ''repo.NewNotificationProxyRepo'', cn_Params = [''*gorm.DB''], cn_Results = [''*repo.NotificationProxyRepo'']\<rparr>,
      \<lparr>cn_Name = ''repo.NewNotificationDeliveryRepo'', cn_Params = [''*gorm.DB''], cn_Results = [''*repo.NotificationDeliveryRepo'']\<rparr>,
      \<lparr>cn_Name = ''repo.NewAppSettingRepo'', cn_Params = [''*gorm.DB''], cn_Results = [''service.SettingsStore'']\<rparr>,
      \<lparr>cn_Name = ''service.NewAuthService'', cn_Params = [''*repo.AdminRepo'', ''config.BootstrapConfig''], cn_Results = [''*service.AuthService'']\<rparr>,
      \<lparr>cn_Name = ''service.NewAlertService'', cn_Params = [''*repo.AlertRepo'', ''*repo.NotificationChannelRepo'', ''*repo.NotificationProxyRepo'', ''*repo.NotificationDeliveryRepo'', ''*service.ThresholdService'', ''*repo.MachineRepo'', ''zerolog.Logger''], cn_Results = [''*service.AlertService'']\<rparr>,
      \<lparr>cn_Name = ''service.NewSettingsService'', cn_Params = [''service.SettingsStore''], cn_Results = [''*service.SettingsService'']\<rparr>,
      \<lparr>cn_Name = ''service.NewHealthService'', cn_Params = [''config.AppConfig'', ''*repo.HealthRepo''], cn_Results = [''*service.HealthService'']\<rparr>,
      \<lparr>cn_Name = ''service.NewMachineService'', cn_Params = [''*repo.MachineRepo'', ''*repo.SSHKeyRepo'', ''service.SSHKeyProtector'', ''service.SSHCommandRunner'', ''config.SSHConfig''], cn_Results = [''*service.MachineService'']\<rparr>,
      \<lparr>cn_Name = ''service.NewSSHKeyService'', cn_Params = [''*repo.SSHKeyRepo'', ''*repo.MachineRepo'', ''service.SSHKeyProtector''], cn_Results = [''*service.SSHKeyService'']\<rparr>,
      \<lparr>cn_Name = ''service.NewBackupService'', cn_Params = [''*repo.MachineRepo'', ''*repo.SSHKeyRepo'', ''*repo.NotificationChannelRepo'', ''*repo.NotificationProxyRepo'', ''*repo.ThresholdRuleRepo'', ''service.SSHKeyProtector''], cn_Results = [''*service.BackupService'']\<rparr>,
      \<lparr>cn_Name = ''service.NewThresholdService'', cn_Params = [''*repo.ThresholdRuleRepo'', ''*repo.MachineRepo''], cn_Results = [''*service.ThresholdService'']\<rparr>,
      \<lparr>cn_Name = ''service.NewTrafficAlertEvaluator'', cn_Params = [''*service.AlertService''], cn_Results = [''service.TrafficAlertEvaluator'']\<rparr>,
      \<lparr>cn_Name = ''service.NewTrafficCollectionService'', cn_Params = [''*repo.MachineRepo'', ''*repo.SSHKeyRepo'', ''service.SSHKeyProtector'', ''service.SSHCommandRunner'', ''*repo.TrafficSampleRepo'', ''service.TrafficAlertEvaluator'', ''config.SSHConfig''], cn_Results = [''*service.TrafficCollectionService'']\<rparr>,
      \<lparr>cn_Name = ''service.NewTrafficCollectRunner'', cn_Params = [''*service.TrafficCollectionService''], cn_Results = [''service.TrafficCollectRunner'']\<rparr>,
      \<lparr>cn_Name = ''service.NewTrafficScheduler'', cn_Params = [''config.CollectorConfig'', ''service.TrafficCollectRunner'', ''zerolog.Logger''], cn_Results = [''*service.TrafficScheduler'']\<rparr>,
      \<lparr>cn_Name = ''service.NewHistoryCleanupService'', cn_Params = [''config.HistoryCleanupConfig'', ''*repo.TrafficSampleRepo'', ''*repo.AlertRepo'', ''zerolog.Logger''], cn_Results = [''*service.HistoryCleanupService'']\<rparr>,
      \<lparr>cn_Name = ''service.NewHistoryCleanupRunner'', cn_Params = [''*service.HistoryCleanupService''], cn_Results = [''service.HistoryCleanupRunner'']\<rparr>,
      \<lparr>cn_Name = ''service.NewHistoryCleanupScheduler'', cn_Params = [''config.HistoryCleanupConfig'', ''service.HistoryCleanupRunner'', ''zerolog.Logger''], cn_Results = [''*service.HistoryCleanupScheduler'']\<rparr>,
      \<lparr>cn_Name = ''middleware.NewAuthMiddleware'', cn_Params = [''*service.AuthService'', ''*sessions.CookieStore'', ''config.SessionConfig''], cn_Results = [''*middleware.AuthMiddleware'']\<rparr>,
      \<lparr>cn_Name = ''handler.NewAuthHandler'', cn_Params = [''*service.AuthService'', ''*sessions.CookieStore'', ''config.SessionConfig''], cn_Results = [''*handler.AuthHandler'']\<rparr>,
      \<lparr>cn_Name = ''handler.NewRestoreHandler'', cn_Params = [''*service.AuthService'', ''config.RestoreConfig'', ''zerolog.Logger''], cn_Results = [''*handler.RestoreHandler'']\<rparr>,
      \<lparr>cn_Name = ''handler.NewSettingsHandler'', cn_Params = [''*service.SettingsService''], cn_Results = [''*handler.SettingsHandler'']\<rparr>,
      \<lparr>cn_Name = ''handler.NewHealthHandler'', cn_Params = [''*service.HealthService''], cn_Results = [''*handler.HealthHandler'']\<rparr>,
      \<lparr>cn_Name = ''handler.NewMachineHandler'', cn_Params = [''*service.MachineService'', ''zerolog.Logger''], cn_Results = [''*handler.MachineHandler'']\<rparr>,
      \<lparr>cn_Name = ''handler.NewSSHKeyHandler'', cn_Params = [''*service.SSHKeyService''], cn_Results = [''*handler.SSHKeyHandler'']\<rparr>,
      \<lparr>cn_Name = ''handler.NewBackupHandler'', cn_Params = [''*service.BackupService'', ''zerolog.Logger''], cn_Results = [''*handler.BackupHandler'']\<rparr>,
      \<lparr>cn_Name = ''handler.NewThresholdHandler'', cn_Params = [''*service.ThresholdService''], cn_Results = [''*handler.ThresholdHandler'']\<rparr>,
      \<lparr>cn_Name = ''handler.NewTrafficSampleHandler'', cn_Params = [''*service.TrafficCollectionService'', ''*service.HistoryCleanupService''], cn_Results = [''*handler.TrafficSampleHandler'']\<rparr>,
      \<lparr>cn_Name = ''handler.NewAlertHandler'', cn_Params = [''*service.AlertService''], cn_Results = [''*handler.AlertHandler'']\<rparr>]"

definition invoked :: "constructor list" where
  "invoked =
     [\<lparr>cn_Name = ''bootstrap.RegisterDatabaseLifecycle'', cn_Params = [''fx.Lifecycle'', ''*gorm.DB'', ''config.DatabaseConfig'', ''zerolog.Logger''], cn_Results = []\<rparr>,
      \<lparr>cn_Name = ''bootstrap.RegisterAdminBootstrap'', cn_Params = [''fx.Lifecycle'', ''*service.AuthService'', ''zerolog.Logger''], cn_Results = []\<rparr>,
      \<lparr>cn_Name = ''bootstrap.RegisterHTTPServer'', cn_Params = [''fx.Lifecycle'', ''*http.Server'', ''config.HTTPConfig'', ''zerolog.Logger''], cn_Results = []\<rparr>,
      \<lparr>cn_Name = ''config.RegisterConfigLogging'', cn_Params = [''fx.Lifecycle'', ''zerolog.Logger'', ''config.Config''], cn_Results = []\<rparr>,
      \<lparr>cn_Name = ''service.RegisterTrafficScheduler'', cn_Params = [''fx.Lifecycle'', ''*service.TrafficScheduler'', ''config.RestoreConfig''], cn_Results = []\<rparr>,
      \<lparr>cn_Name = ''service.RegisterHistoryCleanupScheduler'', cn_Params = [''fx.Lifecycle'', ''*service.HistoryCleanupScheduler'', ''config.RestoreConfig''], cn_Results = []\<rparr>,
      \<lparr>cn_Name = ''handler.RegisterRoutes'', cn_Params = [''*gin.Engine'', ''*handler.HealthHandler'', ''*handler.AuthHandler'', ''*handler.RestoreHandler'', ''*handler.SettingsHandler'', ''*middleware.AuthMiddleware'', ''*service.SettingsService'', ''*handler.SSHKeyHandler'', ''*handler.MachineHandler'', ''*handler.BackupHandler'', ''*handler.ThresholdHandler'', ''*handler.TrafficSampleHandler'', ''*handler.AlertHandler'', ''config.RestoreConfig''], cn_Results = []\<rparr>]"

definition ready :: "string list \<Rightarrow> constructor \<Rightarrow> bool" where
  "ready built c = list_all (\<lambda>t. t \<in> set built) (cn_Params c)"

text \<open>An order of calls in which every constructor comes behind the ones that build its parameters.\<close>

fun in_order :: "string list \<Rightarrow> constructor list \<Rightarrow> bool" where
  "in_order built [] = True"
| "in_order built (c # cs) = (ready built c \<and> in_order (cn_Results c @ built) cs)"

text \<open>Such an order, by positions in \<open>provided\<close>: what needs nothing first, then what needs only that, and so on.\<close>

definition positions :: "nat list" where
  "positions =
     [0, 1, 2, 3, 4, 5, 6, 7, 8, 9, 10, 11, 12, 14, 17, 18, 19, 13, 15, 20, 21, 22, 23, 24, 25, 26, 27, 28, 29, 30,
      16, 31, 33, 34, 35, 36, 37, 38, 43, 32, 44, 46, 47, 48, 49, 50, 51, 52, 53, 54, 39, 45, 56, 40, 41, 55,
      42]"

definition call_order :: "constructor list" where
  "call_order = map (\<lambda>i. provided ! i) positions"

lemma mset_positions: "mset idx = mset [0..<length xs] \<Longrightarrow> mset (map (\<lambda>i. xs ! i) idx) = mset xs"
  by (simp only: mset_map) (simp only: mset_map [symmetric] map_nth)

lemma provided_once: "distinct (concat (map cn_Results provided))"
  by code_simp

lemma call_order_complete: "mset call_order = mset provided"
  unfolding call_order_def
proof (rule mset_positions)
  have "sort positions = [0..<length provided]" by code_simp
  then show "mset positions = mset [0..<length provided]" by (metis mset_sort)
qed

lemma call_order_ready: "in_order [''fx.Lifecycle''] call_order"
  by code_simp

lemma invoked_ready: "list_all (ready (''fx.Lifecycle'' # concat (map cn_Results call_order))) invoked"
  by code_simp

text \<open>The program is wired completely: no type is provided twice, the constructors can be called in an order in which
  each finds its parameters built, and then every invoked function finds its own.\<close>

lemma container_builds:
  "distinct (concat (map cn_Results provided)) \<and>
   (\<exists>order. mset order = mset provided \<and> in_order [''fx.Lifecycle''] order \<and>
      list_all (ready (''fx.Lifecycle'' # concat (map cn_Results order))) invoked)"
  using provided_once call_order_complete call_order_ready invoked_ready by blast

section \<open>Sessions and servers\<close>

text \<open>Division of 64-bit integers in Go rounds towards zero.\<close>

definition quotient :: "int \<Rightarrow> int \<Rightarrow> int" where
  "quotient a b = (if (a < 0) = (b < 0) then \<bar>a\<bar> div \<bar>b\<bar> else - (\<bar>a\<bar> div \<bar>b\<bar>))"

datatype same_site = SameSiteLaxMode | SameSiteStrictMode

record cookie_options =
  op_Path :: string
  op_MaxAge :: int
  op_HttpOnly :: bool
  op_SameSite :: same_site
  op_Secure :: bool

text \<open>The cookie store: its key and the options of its cookies.\<close>

definition NewSessionStore :: "SessionConfig \<Rightarrow> string \<times> cookie_options" where
  "NewSessionStore cfg =
     (se_Secret cfg, \<lparr>op_Path = ''/'', op_MaxAge = quotient (se_MaxAge cfg) second_ns, op_HttpOnly = True,
        op_SameSite = SameSiteLaxMode, op_Secure = se_Secure cfg\<rparr>)"

text \<open>A browser keeps the cookie no longer than the session lives, and less than a second shorter.\<close>

lemma cookie_age:
  assumes "Config_Validate cfg = None"
  shows "op_MaxAge (snd (NewSessionStore (cf_Session cfg))) * second_ns \<le> se_MaxAge (cf_Session cfg)"
    and "se_MaxAge (cf_Session cfg) < (op_MaxAge (snd (NewSessionStore (cf_Session cfg))) + 1) * second_ns"
proof -
  have pos: "0 < se_MaxAge (cf_Session cfg)"
    using assms by (auto simp: Config_Validate_def Let_def invalid_def split: if_splits)
  let ?q = "se_MaxAge (cf_Session cfg) div second_ns"
  have "?q * second_ns \<le> se_MaxAge (cf_Session cfg)" "se_MaxAge (cf_Session cfg) < (?q + 1) * second_ns"
    by (simp_all add: second_ns_def)
  with pos show "op_MaxAge (snd (NewSessionStore (cf_Session cfg))) * second_ns \<le> se_MaxAge (cf_Session cfg)"
    "se_MaxAge (cf_Session cfg) < (op_MaxAge (snd (NewSessionStore (cf_Session cfg))) + 1) * second_ns"
    by (simp_all add: NewSessionStore_def quotient_def second_ns_def)
qed

record http_server =
  hv_Addr :: string
  hv_ReadHeaderTimeout :: int
  hv_ReadTimeout :: int
  hv_WriteTimeout :: int

definition NewHTTPServer :: "HTTPConfig \<Rightarrow> http_server" where
  "NewHTTPServer cfg = \<lparr>hv_Addr = ht_Addr cfg, hv_ReadHeaderTimeout = 5 * second_ns, hv_ReadTimeout = ht_ReadTimeout cfg,
     hv_WriteTimeout = ht_WriteTimeout cfg\<rparr>"

section \<open>Static files\<close>

text \<open>The embedded files, a parameter: a missing directory or file is an error text.\<close>

record file_system =
  fs_Sub :: "string \<Rightarrow> string option"
  fs_Stat :: "string \<Rightarrow> string option"
  fs_ReadFile :: "string \<Rightarrow> string + string"

datatype page = TextPage nat string | DataPage nat string string

text \<open>The routes of the files: the directory of assets when it is served, single files, and the answer to a path without a
  route.\<close>

record static_routes =
  sr_Assets :: "string option"
  sr_Files :: "(string \<times> page) list"
  sr_NoRoute :: page

definition registerStaticFileRoute :: "file_system \<Rightarrow> string \<Rightarrow> string \<Rightarrow> string \<Rightarrow> (string \<times> page) list" where
  "registerStaticFileRoute staticFS routePath fileName contentType =
     (case fs_Stat staticFS fileName of
        Some e \<Rightarrow> []
      | None \<Rightarrow>
          [(routePath,
            case fs_ReadFile staticFS fileName of
              Inl e \<Rightarrow> TextPage 500 ''static file unavailable''
            | Inr fileContent \<Rightarrow> DataPage 200 contentType fileContent)])"

definition registerStaticRoutes :: "file_system \<Rightarrow> static_routes" where
  "registerStaticRoutes staticFS =
     (case fs_Sub staticFS ''assets'' of
        Some e \<Rightarrow> \<lparr>sr_Assets = None, sr_Files = [], sr_NoRoute = TextPage 500 ''static assets unavailable''\<rparr>
      | None \<Rightarrow>
          \<lparr>sr_Assets = Some ''/assets'',
           sr_Files = registerStaticFileRoute staticFS ''/favicon.svg'' ''favicon.svg'' ''image/svg+xml'',
           sr_NoRoute =
             (case fs_ReadFile staticFS ''index.html'' of
                Inl e \<Rightarrow> TextPage 500 ''static index unavailable''
              | Inr indexContent \<Rightarrow> DataPage 200 ''text/html; charset=utf-8'' indexContent)\<rparr>)"

datatype gin_middleware = Recovery | RequestLogger

record gin_engine =
  ge_ReleaseMode :: bool
  ge_Middleware :: "gin_middleware list"
  ge_Static :: static_routes

definition NewGinEngine :: "AppConfig \<Rightarrow> string + file_system \<Rightarrow> string + gin_engine" where
  "NewGinEngine appConfig distFS =
     (case distFS of
        Inl e \<Rightarrow> Inl e
      | Inr staticFS \<Rightarrow>
          Inr \<lparr>ge_ReleaseMode = (ac_Env appConfig = ''production''), ge_Middleware = [Recovery, RequestLogger],
               ge_Static = registerStaticRoutes staticFS\<rparr>)"

text \<open>Paths without a route, those under the prefix of the interface included, are answered with the start page or with a
  plain server error.\<close>

lemma no_route_answer:
  "NewGinEngine cfg (Inr files) = Inr engine \<Longrightarrow>
     sr_NoRoute (ge_Static engine) = (case (fs_Sub files ''assets'', fs_ReadFile files ''index.html'') of
       (None, Inr start) \<Rightarrow> DataPage 200 ''text/html; charset=utf-8'' start
     | (None, Inl e) \<Rightarrow> TextPage 500 ''static index unavailable''
     | (Some e, _) \<Rightarrow> TextPage 500 ''static assets unavailable'')"
  by (auto simp: NewGinEngine_def registerStaticRoutes_def split: option.splits sum.splits)

end
