(* ===== verification/Lifecycle.thy ===== *)
theory Lifecycle
  imports Reachable Scheduler Logging Wiring
begin

text \<open>
  The life of the process: the start and stop hooks that the functions invoked by \<^verbatim>\<open>internal/app/module.go\<close> register
  (\<^verbatim>\<open>internal/bootstrap/database.go\<close>, \<^verbatim>\<open>admin_bootstrap.go\<close>, \<^verbatim>\<open>http.go\<close>, \<^verbatim>\<open>internal/config/logging.go\<close> and the two
  schedulers), and what runs beside them from the moment it is started: the HTTP server, the dispatch loop and the workers of
  the traffic scheduler, the loop of the cleanup scheduler. The relation \<open>life\<close> has a step for each of them.

  fx decides which hook comes next. It is a parameter: a relation between phases, which is assumed to make documented
  moves only (\<open>fx_documented\<close>). The connection pool and net/http answer by the number of the call (\<open>platform\<close>).
\<close>

section \<open>Hooks\<close>

datatype hook = DatabaseHook | AdminHook | HTTPHook | ConfigHook | TrafficHook | CleanupHook

text \<open>The hooks that an invoked function appends to the lifecycle.\<close>

definition hooks_of :: "string \<Rightarrow> hook list" where
  "hooks_of name =
     (if name = ''bootstrap.RegisterDatabaseLifecycle'' then [DatabaseHook]
      else if name = ''bootstrap.RegisterAdminBootstrap'' then [AdminHook]
      else if name = ''bootstrap.RegisterHTTPServer'' then [HTTPHook]
      else if name = ''config.RegisterConfigLogging'' then [ConfigHook]
      else if name = ''service.RegisterTrafficScheduler'' then [TrafficHook]
      else if name = ''service.RegisterHistoryCleanupScheduler'' then [CleanupHook]
      else [])"

definition registered :: "hook list" where
  "registered = concat (map (hooks_of \<circ> cn_Name) invoked)"

text \<open>What fx is doing: starting the first of the hooks left, with the ones it has started (the last one first), or, when
  none is left, waiting for a signal; or stopping the first of the hooks left, and then exiting.\<close>

datatype phase = Starting "hook list" "hook list" | Ending "hook list"

datatype http_state = Created | Spawned | Listening | Refused string | Draining | Closed

text \<open>The options of the connection pool.\<close>

record sql_pool =
  sp_MaxIdleConns :: int
  sp_MaxOpenConns :: int
  sp_ConnMaxLifetime :: int

text \<open>\<open>ps_pool\<close>: the connection pool is open; \<open>ps_tables\<close>: the entities that have a table; \<open>ps_calls\<close>: the calls of the
  platform made so far; \<open>ps_log\<close>: the configuration reports; \<open>ps_stop_errors\<close>: the errors of stop hooks.\<close>

record process =
  ps_phase :: phase
  ps_world :: world
  ps_handler :: RestoreHandler
  ps_calls :: nat
  ps_db :: sql_pool
  ps_pool :: bool
  ps_tables :: "string set"
  ps_http :: http_state
  ps_log :: "log_event list"
  ps_traffic :: "TrafficScheduler option"
  ps_cleanup :: "HistoryCleanupScheduler option"
  ps_stop_errors :: "go_error list"

text \<open>\<^verbatim>\<open>gorm.Open\<close>, \<^verbatim>\<open>db.DB()\<close>, \<^verbatim>\<open>PingContext\<close> with its timeout, \<^verbatim>\<open>AutoMigrate\<close> (the tables it made before it failed, with the error),
  \<^verbatim>\<open>Close\<close>, \<^verbatim>\<open>net.Listen\<close> and \<^verbatim>\<open>Shutdown\<close> with its timeout.\<close>

record platform =
  pf_Open :: "string \<Rightarrow> string option"
  pf_DB :: "nat \<Rightarrow> string option"
  pf_Ping :: "nat \<Rightarrow> int \<Rightarrow> string option"
  pf_AutoMigrate :: "nat \<Rightarrow> string list \<Rightarrow> (string list \<times> string) option"
  pf_Close :: "nat \<Rightarrow> string option"
  pf_Listen :: "nat \<Rightarrow> string \<Rightarrow> string option"
  pf_Shutdown :: "nat \<Rightarrow> int \<Rightarrow> string option"

definition configureConnectionPool :: "DatabaseConfig \<Rightarrow> sql_pool" where
  "configureConnectionPool cfg =
     \<lparr>sp_MaxIdleConns = db_MaxIdleConns cfg, sp_MaxOpenConns = db_MaxOpenConns cfg, sp_ConnMaxLifetime = db_ConnMaxLifetime cfg\<rparr>"

definition NewDB :: "platform \<Rightarrow> DatabaseConfig \<Rightarrow> go_error + sql_pool" where
  "NewDB P cfg =
     (case pf_Open P (db_DSN cfg) of
        Some e \<Rightarrow> Inl (Wrapf ''open database: '' (Foreign e) [])
      | None \<Rightarrow>
          (case pf_DB P 0 of
             Some e \<Rightarrow> Inl (Wrapf ''get sql db: '' (Foreign e) [])
           | None \<Rightarrow> Inr (configureConnectionPool cfg)))"

section \<open>Start hooks\<close>

definition entities :: "string list" where
  "entities = [''Admin'', ''SSHKey'', ''Machine'', ''GlobalThresholdRule'', ''MachineThresholdRule'', ''TrafficSample'', ''Alert'',
     ''NotificationChannel'', ''NotificationProxy'', ''NotificationDelivery'', ''AppSetting'']"

definition database_OnStart :: "platform \<Rightarrow> DatabaseConfig \<Rightarrow> process \<Rightarrow> go_error option \<times> process" where
  "database_OnStart P cfg p0 =
     (let n = ps_calls p0; p = p0\<lparr>ps_calls := n + 3\<rparr>
      in case pf_DB P n of
           Some e \<Rightarrow> (Some (Wrapf ''get sql db: '' (Foreign e) []), p)
         | None \<Rightarrow>
             (case pf_Ping P (n + 1) (db_PingTimeout cfg) of
                Some e \<Rightarrow> (Some (Wrapf ''ping database: '' (Foreign e) []), p)
              | None \<Rightarrow>
                  (case pf_AutoMigrate P (n + 2) entities of
                     Some (made, e) \<Rightarrow> (Some (Wrapf ''auto migrate: '' (Foreign e) []), p\<lparr>ps_tables := ps_tables p \<union> set made\<rparr>)
                   | None \<Rightarrow> (None, p\<lparr>ps_tables := ps_tables p \<union> set entities\<rparr>))))"

definition http_OnStart :: "process \<Rightarrow> go_error option \<times> process" where
  "http_OnStart p = (None, p\<lparr>ps_http := Spawned\<rparr>)"

definition config_OnStart :: "Config \<Rightarrow> process \<Rightarrow> go_error option \<times> process" where
  "config_OnStart cfg p = (None, p\<lparr>ps_log := ps_log p @ [LogSanitizedConfig cfg]\<rparr>)"

fun hook_starts :: "platform \<Rightarrow> server \<Rightarrow> Config \<Rightarrow> hook \<Rightarrow> process \<Rightarrow> go_error option \<times> process" where
  "hook_starts P sv cfg DatabaseHook p = database_OnStart P (cf_Database cfg) p"
| "hook_starts P sv cfg AdminHook p =
     (case admin_OnStart (sv_env sv) (cf_Bootstrap cfg) (ps_world p) of
        (Inl e, w) \<Rightarrow> (Some e, p\<lparr>ps_world := w\<rparr>)
      | (Inr _, w) \<Rightarrow> (None, p\<lparr>ps_world := w\<rparr>))"
| "hook_starts P sv cfg HTTPHook p = http_OnStart p"
| "hook_starts P sv cfg ConfigHook p = config_OnStart cfg p"
| "hook_starts P sv cfg TrafficHook p = (None, p\<lparr>ps_traffic := traffic_OnStart (cf_Restore cfg) (cf_Collector cfg) (ps_world p)\<rparr>)"
| "hook_starts P sv cfg CleanupHook p =
     (None, p\<lparr>ps_cleanup := cleanup_OnStart (cf_Restore cfg) (cf_HistoryCleanup cfg) (ps_world p)\<rparr>)"

section \<open>Stop hooks\<close>

text \<open>\<^verbatim>\<open>Close\<close> closes the pool, also when a connection of it reports an error.\<close>

definition database_OnStop :: "platform \<Rightarrow> process \<Rightarrow> go_error option \<times> process" where
  "database_OnStop P p0 =
     (let n = ps_calls p0; p = p0\<lparr>ps_calls := n + 2\<rparr>
      in case pf_DB P n of
           Some e \<Rightarrow> (Some (Wrapf ''get sql db: '' (Foreign e) []), p)
         | None \<Rightarrow>
             (map_option (\<lambda>e. Wrapf ''close database: '' (Foreign e) []) (pf_Close P (n + 1)), p\<lparr>ps_pool := False\<rparr>))"

text \<open>\<^verbatim>\<open>Shutdown\<close> closes the listener and waits for the open requests; when its time is over they go on. A server that does
  not listen yet will not.\<close>

definition http_OnStop :: "platform \<Rightarrow> HTTPConfig \<Rightarrow> process \<Rightarrow> go_error option \<times> process" where
  "http_OnStop P cfg p0 =
     (let n = ps_calls p0; p = p0\<lparr>ps_calls := n + 1\<rparr>
      in case pf_Shutdown P n (ht_StopTimeout cfg) of
           Some e \<Rightarrow> (Some (Wrapf ''shutdown http server: '' (Foreign e) []),
             p\<lparr>ps_http := (if ps_http p = Listening then Draining else Closed)\<rparr>)
         | None \<Rightarrow> (None, p\<lparr>ps_http := Closed\<rparr>))"

definition traffic_asked :: "process \<Rightarrow> bool" where
  "traffic_asked p \<longleftrightarrow> (case ps_traffic p of None \<Rightarrow> True | Some s \<Rightarrow> tsd_stopCh s)"

definition traffic_over :: "process \<Rightarrow> bool" where
  "traffic_over p \<longleftrightarrow> (case ps_traffic p of None \<Rightarrow> True | Some s \<Rightarrow> TrafficScheduler_Wait s)"

definition cleanup_asked :: "process \<Rightarrow> bool" where
  "cleanup_asked p \<longleftrightarrow> (case ps_cleanup p of None \<Rightarrow> True | Some s \<Rightarrow> hcs_stopCh s)"

definition cleanup_over :: "process \<Rightarrow> bool" where
  "cleanup_over p \<longleftrightarrow> (case ps_cleanup p of None \<Rightarrow> True | Some s \<Rightarrow> HistoryCleanupScheduler_Wait s)"

text \<open>How a stop hook returns. The hooks of the schedulers call \<^verbatim>\<open>Stop\<close> (steps of \<open>life\<close>) and then wait, for the
  scheduler or for the end of the stop context.\<close>

inductive hook_stops :: "platform \<Rightarrow> Config \<Rightarrow> hook \<Rightarrow> process \<Rightarrow> go_error option \<Rightarrow> process \<Rightarrow> bool" for P cfg where
  database: "database_OnStop P p = (r, p') \<Longrightarrow> hook_stops P cfg DatabaseHook p r p'"
| http: "http_OnStop P (cf_HTTP cfg) p = (r, p') \<Longrightarrow> hook_stops P cfg HTTPHook p r p'"
| no_hook: "h = AdminHook \<or> h = ConfigHook \<Longrightarrow> hook_stops P cfg h p None p"
| traffic_waited: "traffic_asked p \<Longrightarrow> traffic_over p \<Longrightarrow> hook_stops P cfg TrafficHook p None p"
| traffic_expired: "traffic_asked p \<Longrightarrow> hook_stops P cfg TrafficHook p (Some (Wrapf ''wait scheduler stop: '' e [])) p"
| cleanup_waited: "cleanup_asked p \<Longrightarrow> cleanup_over p \<Longrightarrow> hook_stops P cfg CleanupHook p None p"
| cleanup_expired: "cleanup_asked p \<Longrightarrow> hook_stops P cfg CleanupHook p (Some (Wrapf ''wait history cleanup scheduler stop: '' e [])) p"

section \<open>What fx promises\<close>

datatype signal = HookReturned "go_error option" | Expired | Signalled

text \<open>Start hooks run one at a time in the order of registration. After an error, the end of the start timeout or a signal
  the hooks that were started (with the one that failed, or without) are stopped in reverse order, all of them, even if
  some fail.\<close>

inductive documented :: "phase \<Rightarrow> signal \<Rightarrow> phase \<Rightarrow> bool" where
  next_hook: "documented (Starting (h # hs) st) (HookReturned None) (Starting hs (h # st))"
| start_failed: "ss = st \<or> ss = h # st \<Longrightarrow> documented (Starting (h # hs) st) (HookReturned (Some e)) (Ending ss)"
| start_expired: "documented (Starting hs st) Expired (Ending st)"
| signalled: "documented (Starting [] st) Signalled (Ending st)"
| hook_stopped: "documented (Ending (h # hs)) (HookReturned r) (Ending hs)"

inductive_cases documented_startE: "documented (Starting (h # hs) st) (HookReturned r) ph"
inductive_cases documented_stopE: "documented (Ending (h # hs)) sg ph"
inductive_cases documented_signalE: "documented ph Expired ph'" "documented ph Signalled ph'"

definition fx_documented :: "(phase \<Rightarrow> signal \<Rightarrow> phase \<Rightarrow> bool) \<Rightarrow> bool" where
  "fx_documented fx \<longleftrightarrow> (\<forall>ph sg ph'. fx ph sg ph' \<longrightarrow> documented ph sg ph')"

section \<open>The process\<close>

text \<open>The container hands every part its piece of the configuration; the protector's key is decoded, the pool opened and the
  restore handler made before any hook runs.\<close>

definition launch :: "platform \<Rightarrow> Config \<Rightarrow> server \<Rightarrow> world \<Rightarrow> string set \<Rightarrow> (server \<times> process) option" where
  "launch P cfg base w existing =
     (case (NewDataProtector (cf_Security cfg), NewDB P (cf_Database cfg), NewRestoreHandler (sv_env base) w) of
        (Inr key, Inr db, (Inr h, w')) \<Rightarrow>
          Some (base\<lparr>sv_app := cf_App cfg, sv_session := cf_Session cfg, sv_cleanup := cf_HistoryCleanup cfg,
                  sv_restore := cf_Restore cfg, sv_masterKey := key\<rparr>,
                \<lparr>ps_phase = Starting registered [], ps_world = w', ps_handler = h, ps_calls = 1, ps_db = db, ps_pool = True,
                 ps_tables = existing, ps_http = Created, ps_log = [], ps_traffic = None, ps_cleanup = None,
                 ps_stop_errors = []\<rparr>)
      | _ \<Rightarrow> None)"

inductive life :: "(phase \<Rightarrow> signal \<Rightarrow> phase \<Rightarrow> bool) \<Rightarrow> platform \<Rightarrow> server \<Rightarrow> Config \<Rightarrow> process \<Rightarrow> process \<Rightarrow> bool"
  for fx P sv cfg where
  starting: "ps_phase p = Starting (h # hs) st \<Longrightarrow> hook_starts P sv cfg h p = (r, p') \<Longrightarrow> fx (ps_phase p) (HookReturned r) ph \<Longrightarrow>
     life fx P sv cfg p (p'\<lparr>ps_phase := ph\<rparr>)"
| interrupted: "fx (ps_phase p) sg ph \<Longrightarrow> sg = Expired \<or> sg = Signalled \<Longrightarrow> life fx P sv cfg p (p\<lparr>ps_phase := ph\<rparr>)"
| ending: "ps_phase p = Ending (h # hs) \<Longrightarrow> hook_stops P cfg h p r p' \<Longrightarrow> fx (ps_phase p) (HookReturned r) ph \<Longrightarrow>
     life fx P sv cfg p (p'\<lparr>ps_phase := ph, ps_stop_errors := ps_stop_errors p @ (case r of None \<Rightarrow> [] | Some e \<Rightarrow> [e])\<rparr>)"
| stop_traffic: "ps_phase p = Ending (TrafficHook # hs) \<Longrightarrow> ps_traffic p = Some s \<Longrightarrow> stop_step s s' \<Longrightarrow>
     life fx P sv cfg p (p\<lparr>ps_traffic := Some s'\<rparr>)"
| stop_cleanup: "ps_phase p = Ending (CleanupHook # hs) \<Longrightarrow> ps_cleanup p = Some s \<Longrightarrow>
     cleanup_step (HistoryCleanupService_RunOnce (sv_env sv) (sv_cleanup sv)) s event.Stopping s' \<Longrightarrow>
     life fx P sv cfg p (p\<lparr>ps_cleanup := Some s'\<rparr>)"
| listening: "ps_http p = Spawned \<Longrightarrow> pf_Listen P (ps_calls p) (ht_Addr (cf_HTTP cfg)) = None \<Longrightarrow>
     life fx P sv cfg p (p\<lparr>ps_calls := Suc (ps_calls p), ps_http := Listening\<rparr>)"
| refused: "ps_http p = Spawned \<Longrightarrow> pf_Listen P (ps_calls p) (ht_Addr (cf_HTTP cfg)) = Some e \<Longrightarrow>
     life fx P sv cfg p (p\<lparr>ps_calls := Suc (ps_calls p), ps_http := Refused e\<rparr>)"
| request: "ps_http p = Listening \<or> ps_http p = Draining \<Longrightarrow>
     serve sv store c (ps_handler p, ps_world p) = Some (resp, h', w') \<Longrightarrow>
     life fx P sv cfg p (p\<lparr>ps_handler := h', ps_world := w'\<rparr>)"
| traffic_loop: "ps_traffic p = Some s \<Longrightarrow>
     loop_step (cf_Collector cfg) (TrafficCollectionService_ListEnabledMachines (sv_env sv)) (s\<lparr>tsd_world := ps_world p\<rparr>) ev s' \<Longrightarrow>
     life fx P sv cfg p (p\<lparr>ps_traffic := Some s', ps_world := tsd_world s'\<rparr>)"
| traffic_worker: "ps_traffic p = Some s \<Longrightarrow> i < length (tsd_workers s) \<Longrightarrow>
     worker_step (cf_Collector cfg) (CollectMachine (sv_env sv) (sv_masterKey sv)) i (s\<lparr>tsd_world := ps_world p\<rparr>) ev s' \<Longrightarrow>
     life fx P sv cfg p (p\<lparr>ps_traffic := Some s', ps_world := tsd_world s'\<rparr>)"
| cleanup_loop: "ps_cleanup p = Some s \<Longrightarrow> ev = Internal \<or> ev = Ticker \<Longrightarrow>
     cleanup_step (HistoryCleanupService_RunOnce (sv_env sv) (sv_cleanup sv)) (s\<lparr>hcs_world := ps_world p\<rparr>) ev s' \<Longrightarrow>
     life fx P sv cfg p (p\<lparr>ps_cleanup := Some s', ps_world := hcs_world s'\<rparr>)"

lemma registered_hooks: "registered = [DatabaseHook, AdminHook, HTTPHook, ConfigHook, TrafficHook, CleanupHook]"
  by code_simp


section \<open>The administrator\<close>

lemma bootstrap_ensures:
  assumes "AuthService_EnsureBootstrapAdmin E cfg w = (Inr res, w')"
  shows "bootstrap_skipped cfg \<or> has_admin (bootstrap_name cfg) w'"
proof (rule disjCI)
  assume skip: "\<not> has_admin (bootstrap_name cfg) w'"
  show "bootstrap_skipped cfg"
  proof (rule ccontr)
    assume ns: "\<not> bootstrap_skipped cfg"
    let ?u = "bootstrap_name cfg"
    have exists: "b = has_admin ?u v \<and> has_admin ?u v' = has_admin ?u v" if "wrap m (AdminRepo_ExistsByUsername E ?u) v = (Inr b, v')" for m b v v'
    proof -
      have "0 < sql_count (\<lambda>a. adm_Username a = ?u) (admins v) \<longleftrightarrow> has_admin ?u v"
        by (auto simp: sql_count_def filter_empty_conv has_admin_def) (metis image_eqI)
      with that show ?thesis
        by (auto simp: AdminRepo_ExistsByUsername_def run_wrap statement_def Let_def has_admin_def split: option.splits sum.splits)
    qed
    have made: "has_admin (adm_Username a) v'" if "wrap m (AdminRepo_Create E a) v = (Inr x, v')" for m a x v v'
      using that by (auto simp: AdminRepo_Create_def run_wrap statement_def Let_def has_admin_def bump_seq_def split: option.splits sum.splits if_splits)
    from assms ns obtain b v where b: "wrap ''check bootstrap admin: '' (AdminRepo_ExistsByUsername E ?u) w = (Inr b, v)"
      and rest: "b \<and> w' = v \<or> has_admin ?u w'"
      unfolding AuthService_EnsureBootstrapAdmin_def Let_def bootstrap_name_def bootstrap_skipped_def
      by (auto elim!: bnd_InrE simp: ret_def fail_def dest!: made split: if_splits sum.splits)
    from rest exists [OF b] skip show False by auto
  qed
qed

lemma admin_start_ensures:
  "admin_OnStart E cfg w = (Inr (), w') \<Longrightarrow> bootstrap_skipped cfg \<or> has_admin (bootstrap_name cfg) w'"
  by (auto simp: admin_OnStart_def run_wrap ret_def split: sum.splits prod.splits elim!: bnd_InrE dest: bootstrap_ensures)

section \<open>The life of a process is a run of the server\<close>

lemma loop_world:
  "loop_step cfg list_enabled s ev s' \<Longrightarrow> tsd_world s' = tsd_world s \<or> (\<exists>r. list_enabled (tsd_world s) = (r, tsd_world s'))"
  by (elim loop_stepE) auto

lemma worker_world:
  "worker_step cfg collect i s ev s' \<Longrightarrow> tsd_world s' = tsd_world s \<or> (\<exists>m r. collect m (tsd_world s) = (r, tsd_world s'))"
  by (elim worker_stepE) auto

lemma cleanup_world:
  "cleanup_step runOnce s ev s' \<Longrightarrow> ev = Internal \<or> ev = Ticker \<Longrightarrow>
     hcs_world s' = hcs_world s \<or> (\<exists>r. runOnce (hcs_world s) = Some (r, hcs_world s'))"
  by (cases rule: cleanup_step.cases) auto

lemma hook_starts_frame:
  assumes "hook_starts P sv cfg h p = (r, p')"
  shows "ps_handler p' = ps_handler p" "ps_pool p' = ps_pool p" "ps_tables p \<subseteq> ps_tables p'" "ps_stop_errors p' = ps_stop_errors p"
    "ps_phase p' = ps_phase p"
    "ps_world p' = ps_world p \<or> (\<exists>x. admin_OnStart (sv_env sv) (cf_Bootstrap cfg) (ps_world p) = (x, ps_world p'))"
  using assms
  by (cases h; auto simp: database_OnStart_def http_OnStart_def config_OnStart_def Let_def
      split: option.splits prod.splits sum.splits unit.splits)+

lemma hook_stops_frame:
  assumes "hook_stops P cfg h p r p'"
  shows "ps_world p' = ps_world p" "ps_handler p' = ps_handler p" "ps_tables p' = ps_tables p" "ps_traffic p' = ps_traffic p"
    "ps_cleanup p' = ps_cleanup p" "ps_phase p' = ps_phase p"
  using assms by (cases rule: hook_stops.cases; auto simp: database_OnStop_def http_OnStop_def Let_def split: option.splits)+

lemma life_serves:
  assumes "life fx P sv cfg p p'"
  shows "serving sv (ps_handler p, ps_world p) (ps_handler p', ps_world p')"
  using assms
proof (cases rule: life.cases)
  case (starting h hs st r p1 ph)
  note frame = hook_starts_frame [OF starting(3)]
  from frame(6) show ?thesis
  proof
    assume "ps_world p1 = ps_world p"
    with starting(1) frame(1) show ?thesis by (simp add: idle)
  next
    assume "\<exists>x. admin_OnStart (sv_env sv) (cf_Bootstrap cfg) (ps_world p) = (x, ps_world p1)"
    with starting(1) frame(1) show ?thesis by (auto intro: serving.bootstrap [OF idle])
  qed
next
  case (ending h hs r p1 ph)
  with hook_stops_frame [OF ending(3)] show ?thesis by (simp add: idle)
next
  case (request store c resp h' w')
  then show ?thesis by (auto intro: serving.request [OF idle])
next
  case (traffic_loop s ev s')
  with loop_world [OF traffic_loop(3)] show ?thesis by (auto intro: idle serving.listing [OF idle])
next
  case (traffic_worker s i ev s')
  with worker_world [OF traffic_worker(4)] show ?thesis by (auto intro: idle serving.collection [OF idle])
next
  case (cleanup_loop s ev s')
  with cleanup_world [OF cleanup_loop(4,3)] show ?thesis by (auto intro: idle serving.cleanup [OF idle])
qed (simp_all add: idle)

lemma program_serves: "(life fx P sv cfg)\<^sup>*\<^sup>* p p' \<Longrightarrow> serving sv (ps_handler p, ps_world p) (ps_handler p', ps_world p')"
  by (induction rule: rtranclp_induct) (auto intro: idle serving_trans life_serves)


section \<open>The order of starting and stopping\<close>

text \<open>The tables and the administrator are there.\<close>

definition admin_ready :: "Config \<Rightarrow> world \<Rightarrow> bool" where
  "admin_ready cfg w \<longleftrightarrow> bootstrap_skipped (cf_Bootstrap cfg) \<or> has_admin (bootstrap_name (cf_Bootstrap cfg)) w"

definition tables_ready :: "process \<Rightarrow> bool" where
  "tables_ready p \<longleftrightarrow> set entities \<subseteq> ps_tables p"

definition http_over :: "process \<Rightarrow> bool" where
  "http_over p \<longleftrightarrow> ps_http p = Created \<or> ps_http p = Closed"

text \<open>Nothing that a hook starts is there.\<close>

definition unstarted :: "process \<Rightarrow> bool" where
  "unstarted p \<longleftrightarrow> http_over p \<and> ps_traffic p = None \<and> ps_cleanup p = None"

fun phase_ok :: "Config \<Rightarrow> phase \<Rightarrow> process \<Rightarrow> bool" where
  "phase_ok cfg (Starting hs st) p =
     (rev st @ hs = registered \<and> (DatabaseHook \<in> set st \<longrightarrow> tables_ready p) \<and> (AdminHook \<in> set st \<longrightarrow> admin_ready cfg (ps_world p)) \<and>
      (HTTPHook \<in> set hs \<longrightarrow> ps_http p = Created) \<and> (TrafficHook \<in> set hs \<longrightarrow> ps_traffic p = None) \<and>
      (CleanupHook \<in> set hs \<longrightarrow> ps_cleanup p = None) \<and> ps_pool p)"
| "phase_ok cfg (Ending hs) p =
     ((\<exists>front. front @ hs = rev registered) \<and>
      (ps_stop_errors p = [] \<longrightarrow> (HTTPHook \<in> set hs \<or> http_over p) \<and> (TrafficHook \<in> set hs \<or> traffic_over p) \<and>
         (CleanupHook \<in> set hs \<or> cleanup_over p)) \<and>
      (ps_pool p \<or> hs = []))"

definition course :: "Config \<Rightarrow> process \<Rightarrow> bool" where
  "course cfg p \<longleftrightarrow> phase_ok cfg (ps_phase p) p \<and> (unstarted p \<or> tables_ready p \<and> admin_ready cfg (ps_world p)) \<and>
     (RestoreConfig_Enabled (cf_Restore cfg) \<longrightarrow> ps_traffic p = None \<and> ps_cleanup p = None)"

lemma phase_update [simp]:
  "tables_ready (p\<lparr>ps_phase := x\<rparr>) = tables_ready p" "http_over (p\<lparr>ps_phase := x\<rparr>) = http_over p"
  "traffic_over (p\<lparr>ps_phase := x\<rparr>) = traffic_over p" "cleanup_over (p\<lparr>ps_phase := x\<rparr>) = cleanup_over p"
  "unstarted (p\<lparr>ps_phase := x\<rparr>) = unstarted p" "phase_ok cfg ph (p\<lparr>ps_phase := x\<rparr>) = phase_ok cfg ph p"
  by (cases ph; simp add: tables_ready_def http_over_def traffic_over_def cleanup_over_def unstarted_def)+

lemma stop_errors_update [simp]:
  "tables_ready (p\<lparr>ps_stop_errors := x\<rparr>) = tables_ready p" "http_over (p\<lparr>ps_stop_errors := x\<rparr>) = http_over p"
  "traffic_over (p\<lparr>ps_stop_errors := x\<rparr>) = traffic_over p" "cleanup_over (p\<lparr>ps_stop_errors := x\<rparr>) = cleanup_over p"
  "unstarted (p\<lparr>ps_stop_errors := x\<rparr>) = unstarted p"
  by (simp_all add: tables_ready_def http_over_def traffic_over_def cleanup_over_def unstarted_def)

lemma admin_ready_stays: "serving sv (h, w) (h', w') \<Longrightarrow> admin_ready cfg w \<Longrightarrow> admin_ready cfg w'"
  unfolding admin_ready_def using admin_names.invariant [of sv "(h, w)" "(h', w')"] by auto

lemma registered_split:
  "rev st @ h # hs = registered \<Longrightarrow>
     (st, h, hs) = ([], DatabaseHook, [AdminHook, HTTPHook, ConfigHook, TrafficHook, CleanupHook]) \<or>
     (st, h, hs) = ([DatabaseHook], AdminHook, [HTTPHook, ConfigHook, TrafficHook, CleanupHook]) \<or>
     (st, h, hs) = ([AdminHook, DatabaseHook], HTTPHook, [ConfigHook, TrafficHook, CleanupHook]) \<or>
     (st, h, hs) = ([HTTPHook, AdminHook, DatabaseHook], ConfigHook, [TrafficHook, CleanupHook]) \<or>
     (st, h, hs) = ([ConfigHook, HTTPHook, AdminHook, DatabaseHook], TrafficHook, [CleanupHook]) \<or>
     (st, h, hs) = ([TrafficHook, ConfigHook, HTTPHook, AdminHook, DatabaseHook], CleanupHook, [])"
proof -
  assume eq: "rev st @ h # hs = registered"
  define k where "k = length st"
  have parts: "rev st = take k registered" "h # hs = drop k registered"
    unfolding eq [symmetric] by (simp_all add: k_def)
  have "k < length registered" unfolding eq [symmetric] by (simp add: k_def)
  then have "k = 0 \<or> k = 1 \<or> k = 2 \<or> k = 3 \<or> k = 4 \<or> k = 5" by (auto simp: registered_hooks)
  with parts show ?thesis by (elim disjE) (simp_all add: registered_hooks rev_swap)
qed

lemma ending_split:
  "front @ h # hs = rev registered \<Longrightarrow> (hs = [] \<longleftrightarrow> h = DatabaseHook) \<and> h \<notin> set hs"
  by (auto simp: registered_hooks append_eq_Cons_conv)

lemma over_stays:
  "TrafficScheduler_Wait s \<Longrightarrow> \<not> loop_step cfg le (s\<lparr>tsd_world := w\<rparr>) ev s'"
  "TrafficScheduler_Wait s \<Longrightarrow> i < length (tsd_workers s) \<Longrightarrow> \<not> worker_step cfg co i (s\<lparr>tsd_world := w\<rparr>) ev s'"
  "TrafficScheduler_Wait s \<Longrightarrow> stop_step s s' \<Longrightarrow> TrafficScheduler_Wait s'"
  by (auto simp: TrafficScheduler_Wait_def list_all_length elim!: loop_stepE worker_stepE stop_stepE)

lemma cleanup_over_stays:
  "HistoryCleanupScheduler_Wait s \<Longrightarrow> cleanup_step ro (s\<lparr>hcs_world := w\<rparr>) ev s' \<Longrightarrow> HistoryCleanupScheduler_Wait s'"
  "HistoryCleanupScheduler_Wait s \<Longrightarrow> cleanup_step ro s ev s' \<Longrightarrow> HistoryCleanupScheduler_Wait s'"
  by (auto simp: HistoryCleanupScheduler_Wait_def elim!: cleanup_step.cases)

text \<open>A step outside the hooks.\<close>

lemma other_step_course:
  assumes "course cfg p" and "ps_phase p' = ps_phase p" and "ps_tables p' = ps_tables p" and "ps_pool p' = ps_pool p"
    and "ps_stop_errors p' = ps_stop_errors p" and "admin_ready cfg (ps_world p) \<Longrightarrow> admin_ready cfg (ps_world p')"
    and "ps_http p = Created \<Longrightarrow> ps_http p' = Created" and "http_over p \<Longrightarrow> http_over p'"
    and "ps_traffic p = None \<longleftrightarrow> ps_traffic p' = None" and "traffic_over p \<Longrightarrow> traffic_over p'"
    and "ps_cleanup p = None \<longleftrightarrow> ps_cleanup p' = None" and "cleanup_over p \<Longrightarrow> cleanup_over p'"
  shows "course cfg p'"
proof -
  have "unstarted p' \<or> tables_ready p' \<and> admin_ready cfg (ps_world p')"
    using assms(1,3,6,8,9,11) by (auto simp: course_def unstarted_def tables_ready_def)
  moreover from assms have "phase_ok cfg (ps_phase p) p \<Longrightarrow> phase_ok cfg (ps_phase p') p'"
    by (cases "ps_phase p") (simp_all add: tables_ready_def, blast+)
  ultimately show ?thesis using assms(1,9,11) by (auto simp: course_def)
qed


lemma launch_course:
  assumes "launch P cfg base w existing = Some (sv, p)"
  shows "course cfg p" and "sv_env sv = sv_env base" and "serving sv (h, w) (ps_handler p, ps_world p)"
  using assms
  by (auto simp: launch_def course_def unstarted_def http_over_def split: sum.splits prod.splits intro: serving.restart [OF idle])

lemma failed_start:
  assumes "hook_starts P sv cfg h p = (Some e, p')"
  shows "h = DatabaseHook \<or> h = AdminHook" and "ps_http p' = ps_http p" "ps_traffic p' = ps_traffic p" "ps_cleanup p' = ps_cleanup p"
  using assms
  by (cases h; auto simp: database_OnStart_def http_OnStart_def config_OnStart_def Let_def split: option.splits prod.splits sum.splits unit.splits)+

lemma good_start:
  assumes "hook_starts P sv cfg h p = (None, p')"
  shows "h = DatabaseHook \<Longrightarrow> tables_ready p'" and "h = AdminHook \<Longrightarrow> admin_ready cfg (ps_world p')"
    and "h \<noteq> HTTPHook \<Longrightarrow> ps_http p' = ps_http p" and "h \<noteq> TrafficHook \<Longrightarrow> ps_traffic p' = ps_traffic p"
    and "h \<noteq> CleanupHook \<Longrightarrow> ps_cleanup p' = ps_cleanup p"
    and "RestoreConfig_Enabled (cf_Restore cfg) \<Longrightarrow> h = TrafficHook \<Longrightarrow> ps_traffic p' = None"
    and "RestoreConfig_Enabled (cf_Restore cfg) \<Longrightarrow> h = CleanupHook \<Longrightarrow> ps_cleanup p' = None"
  using assms
  by (cases h; auto simp: database_OnStart_def http_OnStart_def config_OnStart_def Let_def tables_ready_def admin_ready_def
      traffic_OnStart_def cleanup_OnStart_def dest: admin_start_ensures split: option.splits prod.splits sum.splits unit.splits)+

lemma start_admin:
  assumes "hook_starts P sv cfg h p = (r, p')" and "admin_ready cfg (ps_world p)"
  shows "admin_ready cfg (ps_world p')"
  using hook_starts_frame(6) [OF assms(1)] assms(2) serving.bootstrap [OF idle, THEN admin_ready_stays] by metis

lemma start_course:
  assumes "course cfg p" and "ps_phase p = Starting (h # hs) st" and "hook_starts P sv cfg h p = (r, p')"
    and "documented (Starting (h # hs) st) (HookReturned r) ph"
  shows "course cfg (p'\<lparr>ps_phase := ph\<rparr>)"
proof (cases r)
  case None
  with assms(4) have ph: "ph = Starting hs (h # st)" by (auto elim: documented_startE)
  note run = assms(3) [unfolded None]
  note good = good_start [OF run] and frame = hook_starts_frame [OF run] and adm = start_admin [OF run]
  have reg: "rev st @ h # hs = registered" using assms(1,2) by (simp add: course_def)
  have tabs: "tables_ready p \<Longrightarrow> tables_ready p'" using frame(3) by (auto simp: tables_ready_def)
  from registered_split [OF reg] have place: "h \<notin> set hs"
    "h = HTTPHook \<or> h = TrafficHook \<or> h = CleanupHook \<Longrightarrow> DatabaseHook \<in> set st \<and> AdminHook \<in> set st"
    by (elim disjE; simp)+
  from assms(1,2) have old: "DatabaseHook \<in> set st \<Longrightarrow> tables_ready p" "AdminHook \<in> set st \<Longrightarrow> admin_ready cfg (ps_world p)"
    "HTTPHook \<in> set (h # hs) \<Longrightarrow> ps_http p = Created" "TrafficHook \<in> set (h # hs) \<Longrightarrow> ps_traffic p = None"
    "CleanupHook \<in> set (h # hs) \<Longrightarrow> ps_cleanup p = None" "ps_pool p"
    and started: "unstarted p \<or> tables_ready p \<and> admin_ready cfg (ps_world p)"
    and restore: "RestoreConfig_Enabled (cf_Restore cfg) \<Longrightarrow> ps_traffic p = None \<and> ps_cleanup p = None"
    by (simp_all add: course_def)
  have kept: "h \<noteq> HTTPHook \<Longrightarrow> h \<noteq> TrafficHook \<Longrightarrow> h \<noteq> CleanupHook \<Longrightarrow> unstarted p \<Longrightarrow> unstarted p'"
    using good(3-5) by (simp add: unstarted_def http_over_def)
  have "phase_ok cfg (Starting hs (h # st)) p'"
    unfolding phase_ok.simps
  proof (intro conjI impI)
    show "rev (h # st) @ hs = registered" using reg by simp
    show "tables_ready p'" if "DatabaseHook \<in> set (h # st)" using that good(1) tabs old(1) by auto
    show "admin_ready cfg (ps_world p')" if "AdminHook \<in> set (h # st)" using that good(2) adm old(2) by auto
    show "ps_http p' = Created" if "HTTPHook \<in> set hs" using that good(3) old(3) place(1) by auto
    show "ps_traffic p' = None" if "TrafficHook \<in> set hs" using that good(4) old(4) place(1) by (cases "h = TrafficHook") auto
    show "ps_cleanup p' = None" if "CleanupHook \<in> set hs" using that good(5) old(5) place(1) by (cases "h = CleanupHook") auto
    show "ps_pool p'" using frame(2) old(6) by simp
  qed
  moreover have "unstarted p' \<or> tables_ready p' \<and> admin_ready cfg (ps_world p')"
    using started place(2) old(1,2) tabs adm kept by blast
  moreover have "RestoreConfig_Enabled (cf_Restore cfg) \<Longrightarrow> ps_traffic p' = None \<and> ps_cleanup p' = None"
    using restore good(4-7) by (cases "h = TrafficHook"; cases "h = CleanupHook") simp_all
  ultimately show ?thesis unfolding course_def ph by simp
next
  case (Some e)
  with assms(4) obtain ss where ph: "ph = Ending ss" and ss: "ss = st \<or> ss = h # st" by (auto elim: documented_startE)
  note run = assms(3) [unfolded Some]
  note failed = failed_start [OF run] and frame = hook_starts_frame [OF run]
  have reg: "rev st @ h # hs = registered" using assms(1,2) by (simp add: course_def)
  then have "rev hs @ h # st = rev registered" by (metis append.assoc append_Cons append_Nil rev.simps(2) rev_append rev_rev_ident)
  with ss have front: "\<exists>front. front @ ss = rev registered" by (metis append.assoc append_Cons append_Nil)
  from registered_split [OF reg] failed(1) have "HTTPHook \<in> set hs" "TrafficHook \<in> set hs" "CleanupHook \<in> set hs"
    by (elim disjE; simp)+
  with assms(1,2) have "ps_http p' = Created" "ps_traffic p' = None" "ps_cleanup p' = None" "ps_pool p'"
    using failed(2-) frame(2) by (simp_all add: course_def)
  with front show ?thesis
    unfolding course_def ph by (simp add: unstarted_def http_over_def traffic_over_def cleanup_over_def)
qed

lemma ending_course:
  assumes "course cfg p" and "ps_phase p = Ending (h # hs)" and "hook_stops P cfg h p r p'"
    and "ph = Ending hs"
  shows "course cfg (p'\<lparr>ps_phase := ph, ps_stop_errors := ps_stop_errors p @ (case r of None \<Rightarrow> [] | Some e \<Rightarrow> [e])\<rparr>)"
proof -
  note frame = hook_stops_frame [OF assms(3)]
  from assms(1,2) obtain front where front: "front @ h # hs = rev registered" by (auto simp: course_def)
  then have rest: "(front @ [h]) @ hs = rev registered" by simp
  from assms(1,2) have old: "ps_stop_errors p = [] \<Longrightarrow> (HTTPHook \<in> set (h # hs) \<or> http_over p) \<and> (TrafficHook \<in> set (h # hs) \<or> traffic_over p) \<and>
      (CleanupHook \<in> set (h # hs) \<or> cleanup_over p)" and pool: "ps_pool p"
    by (simp_all add: course_def)
  have http: "h = HTTPHook \<Longrightarrow> r = None \<Longrightarrow> http_over p'" "h \<noteq> HTTPHook \<Longrightarrow> ps_http p' = ps_http p" "http_over p \<Longrightarrow> http_over p'"
    "h = TrafficHook \<Longrightarrow> r = None \<Longrightarrow> traffic_over p" "h = CleanupHook \<Longrightarrow> r = None \<Longrightarrow> cleanup_over p" "h \<noteq> DatabaseHook \<Longrightarrow> ps_pool p' = ps_pool p"
    using assms(3) by (auto elim!: hook_stops.cases simp: http_OnStop_def database_OnStop_def http_over_def Let_def split: option.splits if_splits)
  have over: "traffic_over p' = traffic_over p" "cleanup_over p' = cleanup_over p" using frame by (simp_all add: traffic_over_def cleanup_over_def)
  have "ps_pool p' \<or> hs = []" using ending_split [OF front] http(6) pool by auto
  have "unstarted p' \<or> tables_ready p' \<and> admin_ready cfg (ps_world p')"
    using assms(1) frame http(3) by (auto simp: course_def unstarted_def tables_ready_def)
  moreover have "RestoreConfig_Enabled (cf_Restore cfg) \<Longrightarrow> ps_traffic p' = None \<and> ps_cleanup p' = None"
    using assms(1) frame by (simp add: course_def)
  moreover have "(HTTPHook \<in> set hs \<or> http_over p') \<and> (TrafficHook \<in> set hs \<or> traffic_over p') \<and> (CleanupHook \<in> set hs \<or> cleanup_over p')"
    if "r = None" "ps_stop_errors p = []"
    using that old http over by auto
  moreover have "\<exists>front. front @ hs = rev registered" using rest by blast
  ultimately show ?thesis
    unfolding course_def assms(4) using \<open>ps_pool p' \<or> hs = []\<close>
    by (cases r) simp_all
qed

text \<open>Every step keeps the course.\<close>

lemma life_course:
  assumes "fx_documented fx" and "life fx P sv cfg p p'" and "course cfg p"
  shows "course cfg p'"
proof -
  have adm: "admin_ready cfg (ps_world p) \<Longrightarrow> admin_ready cfg (ps_world p')"
    by (rule admin_ready_stays [OF life_serves [OF assms(2)]])
  note fx = assms(1) [unfolded fx_documented_def, rule_format]
  note over = traffic_over_def cleanup_over_def http_over_def
  note other = other_step_course [OF assms(3)]
  from assms(2) show ?thesis
  proof (cases rule: life.cases)
    case (starting h hs st r p1 ph)
    with start_course [OF assms(3)] fx show ?thesis by metis
  next
    case (interrupted sg ph)
    then obtain hs st where ph: "ps_phase p = Starting hs st" "ph = Ending st"
      using fx [of "ps_phase p" sg ph] by (auto elim: documented_signalE)
    with assms(3) have reg: "rev st @ hs = registered" and old: "HTTPHook \<in> set hs \<longrightarrow> ps_http p = Created"
      "TrafficHook \<in> set hs \<longrightarrow> ps_traffic p = None" "CleanupHook \<in> set hs \<longrightarrow> ps_cleanup p = None" "ps_pool p"
      by (simp_all add: course_def)
    from reg have "rev hs @ st = rev registered" by (metis rev_append rev_rev_ident)
    then have "\<exists>front. front @ st = rev registered" by blast
    moreover have "set st \<union> set hs = UNIV"
      unfolding set_rev [of st, symmetric] set_append [symmetric] reg
      by (auto simp: registered_hooks) (metis hook.exhaust)
    then have "h \<in> set st \<or> h \<in> set hs" for h by blast
    then have "HTTPHook \<in> set st \<or> http_over p" "TrafficHook \<in> set st \<or> traffic_over p" "CleanupHook \<in> set st \<or> cleanup_over p"
      using old by (auto simp: over)
    ultimately show ?thesis
      using assms(3) old(4) interrupted ph(2) unfolding course_def by simp
  next
    case (ending h hs r p1 ph)
    then have "ph = Ending hs" using fx [of "ps_phase p" "HookReturned r" ph] by (auto elim: documented_stopE)
    with ending ending_course [OF assms(3)] show ?thesis by metis
  next
    case (stop_traffic hs s s')
    then show ?thesis using over_stays(3) by (intro other) (auto simp: over)
  next
    case (stop_cleanup hs s s')
    then show ?thesis using cleanup_over_stays(2) by (intro other) (auto simp: over)
  next
    case (traffic_loop s ev s')
    then show ?thesis using over_stays(1) adm by (intro other) (auto simp: over)
  next
    case (traffic_worker s i ev s')
    then show ?thesis using over_stays(2) adm by (intro other) (auto simp: over)
  next
    case (cleanup_loop s ev s')
    then show ?thesis using cleanup_over_stays(1) adm by (intro other) (auto simp: over)
  next
    case (request store c resp h' w')
    then show ?thesis using adm by (intro other) (auto simp: over)
  qed (intro other; simp add: over)+
qed


lemma program_course:
  assumes "fx_documented fx" and "launch P cfg base w existing = Some (sv, p0)" and "(life fx P sv cfg)\<^sup>*\<^sup>* p0 p"
  shows "course cfg p"
  using assms(3) by (induction rule: rtranclp_induct) (auto intro: launch_course(1) [OF assms(2)] life_course [OF assms(1)])

text \<open>Some part of the process may still use the database.\<close>

definition at_work :: "process \<Rightarrow> bool" where
  "at_work p \<longleftrightarrow> ps_http p = Spawned \<or> ps_http p = Listening \<or> ps_http p = Draining \<or> \<not> traffic_over p \<or> \<not> cleanup_over p"

text \<open>C13. Whenever the HTTP server, a worker or a loop of the process is at work, the tables of all entities exist and the
  first administrator is set up, also when a start failed half-way or is being undone. The pool is closed only after
  all of them are done, unless a stop hook failed. In restore mode neither scheduler is started. And the stored data
  stay consistent from one start to the next.\<close>

theorem started_and_stopped_in_order:
  assumes "fx_documented fx" and "launch P cfg base w existing = Some (sv, p0)" and "(life fx P sv cfg)\<^sup>*\<^sup>* p0 p"
  shows "(at_work p \<longrightarrow> set entities \<subseteq> ps_tables p \<and>
       (bootstrap_skipped (cf_Bootstrap cfg) \<or> bootstrap_name (cf_Bootstrap cfg) \<in> adm_Username ` set (admins (ps_world p)))) \<and>
     (at_work p \<and> \<not> ps_pool p \<longrightarrow> ps_stop_errors p \<noteq> []) \<and>
     (RestoreConfig_Enabled (cf_Restore cfg) \<longrightarrow> ps_traffic p = None \<and> ps_cleanup p = None) \<and>
     (data_ok w \<longrightarrow> data_ok (ps_world p))"
proof -
  note c = program_course [OF assms]
  have quiet: "unstarted p \<Longrightarrow> \<not> at_work p"
    by (auto simp: unstarted_def at_work_def http_over_def traffic_over_def cleanup_over_def)
  have "at_work p \<Longrightarrow> ps_pool p \<or> ps_stop_errors p \<noteq> []"
    using c by (cases "ps_phase p") (auto simp: course_def at_work_def http_over_def)
  moreover have "serving sv (ps_handler p0, w) (ps_handler p, ps_world p)"
    using program_serves [OF assms(3)] launch_course(3) [OF assms(2)] serving_trans by blast
  then have "data_ok w \<Longrightarrow> data_ok (ps_world p)" using reachable_data_ok by fastforce
  ultimately show ?thesis
    using c quiet by (auto simp: course_def tables_ready_def admin_ready_def has_admin_def)
qed

text \<open>A server that cannot listen, because its port is in use, is only logged: the process goes on without its interface until
  it is stopped.\<close>

lemma refused_stays:
  assumes "life fx P sv cfg p p'" and "ps_http p = Refused e"
  shows "ps_http p' = Refused e \<or> (\<exists>hs. ps_phase p = Ending (HTTPHook # hs)) \<or> (\<exists>hs st. ps_phase p = Starting (HTTPHook # hs) st)"
  using assms
proof (cases rule: life.cases)
  case (starting h hs st r p1 ph)
  with assms(2) show ?thesis
    by (cases h) (auto simp: database_OnStart_def config_OnStart_def Let_def split: option.splits prod.splits sum.splits unit.splits)
next
  case (ending h hs r p1 ph)
  with assms(2) show ?thesis by (auto simp: database_OnStop_def Let_def elim!: hook_stops.cases split: option.splits)
qed auto

lemma port_in_use_is_ignored:
  assumes "ps_http p = Spawned" and "pf_Listen P (ps_calls p) (ht_Addr (cf_HTTP cfg)) = Some e"
  shows "\<exists>p'. life fx P sv cfg p p' \<and> ps_http p' = Refused e \<and> ps_phase p' = ps_phase p \<and> ps_stop_errors p' = ps_stop_errors p"
  using life.refused [OF assms] by (intro exI) (auto intro: life.refused)

section \<open>Examples\<close>

definition calm_platform :: platform where
  "calm_platform = \<lparr>pf_Open = (\<lambda>_. None), pf_DB = (\<lambda>_. None), pf_Ping = (\<lambda>_ _. None), pf_AutoMigrate = (\<lambda>_ _. None), pf_Close = (\<lambda>_. None),
     pf_Listen = (\<lambda>_ _. None), pf_Shutdown = (\<lambda>_ _. None)\<rparr>"

lemma example_admin_start: "fst (admin_OnStart example_env (cf_Bootstrap example_config) (ticked 1 empty_world)) = Inr ()"
  by code_simp


lemma example_launch:
  obtains sv p where "launch calm_platform example_config example_server empty_world {} = Some (sv, p)" and "sv_env sv = example_env"
    and "ps_phase p = Starting registered []" and "ps_world p = ticked 1 empty_world"
proof -
  have "NewDataProtector (cf_Security example_config) = Inr (replicate 32 (CHR ''k''))"
    by (simp add: NewDataProtector_def example_config_def plain_master_key)
  then show thesis
    by (intro that) (auto simp: launch_def NewRestoreHandler_def NewDB_def calm_platform_def run_simps)
qed

theorem started_and_stopped_in_order_witness:
  "\<exists>sv p0 p. launch calm_platform example_config example_server empty_world {} = Some (sv, p0) \<and>
     (life documented calm_platform sv example_config)\<^sup>*\<^sup>* p0 p \<and> ps_http p = Spawned \<and>
     set entities \<subseteq> ps_tables p \<and> ''admin'' \<in> adm_Username ` set (admins (ps_world p)) \<and> data_ok (ps_world p)"
proof -
  obtain sv p0 where p0: "launch calm_platform example_config example_server empty_world {} = Some (sv, p0)" "sv_env sv = example_env"
    "ps_phase p0 = Starting registered []" "ps_world p0 = ticked 1 empty_world"
    by (rule example_launch)
  let ?life = "life documented calm_platform sv example_config"
  let ?p1 = "p0\<lparr>ps_calls := ps_calls p0 + 3, ps_tables := ps_tables p0 \<union> set entities\<rparr>"
  let ?q1 = "?p1\<lparr>ps_phase := Starting (tl registered) [DatabaseHook]\<rparr>"
  have s1: "?life p0 ?q1"
    by (rule starting [where r = None and h = DatabaseHook and hs = "tl registered" and st = "[]"])
      (simp_all add: p0 registered_hooks database_OnStart_def calm_platform_def documented.intros)
  obtain w2 where "admin_OnStart (sv_env sv) (cf_Bootstrap example_config) (ps_world ?q1) = (Inr (), w2)"
    using example_admin_start by (simp add: p0 prod_eq_iff)
  then have run: "hook_starts calm_platform sv example_config AdminHook ?q1 = (None, ?q1\<lparr>ps_world := w2\<rparr>)" by simp
  let ?q2 = "?q1\<lparr>ps_world := w2, ps_phase := Starting (tl (tl registered)) [AdminHook, DatabaseHook]\<rparr>"
  have "?life ?q1 ((?q1\<lparr>ps_world := w2\<rparr>)\<lparr>ps_phase := Starting (tl (tl registered)) [AdminHook, DatabaseHook]\<rparr>)"
    by (rule starting [OF _ run, where hs = "tl (tl registered)" and st = "[DatabaseHook]"])
      (simp_all add: registered_hooks documented.intros)
  then have s2: "?life ?q1 ?q2" by simp
  let ?q3 = "(?q2\<lparr>ps_http := Spawned\<rparr>)\<lparr>ps_phase := Starting (drop 3 registered) [HTTPHook, AdminHook, DatabaseHook]\<rparr>"
  have s3: "?life ?q2 ?q3"
    by (rule starting [where r = None and h = HTTPHook and hs = "drop 3 registered" and st = "[AdminHook, DatabaseHook]"])
      (simp_all add: registered_hooks http_OnStart_def documented.intros)
  from s1 s2 s3 have run: "?life\<^sup>*\<^sup>* p0 ?q3" by (meson converse_rtranclp_into_rtranclp rtranclp.rtrancl_refl)
  have doc: "fx_documented documented" by (simp add: fx_documented_def)
  have "\<not> bootstrap_skipped (cf_Bootstrap example_config)" "bootstrap_name (cf_Bootstrap example_config) = ''admin''"
    by (simp_all add: bootstrap_skipped_def bootstrap_name_def example_config_def)
  moreover have "at_work ?q3" by (simp add: at_work_def)
  ultimately show ?thesis
    using started_and_stopped_in_order [OF doc p0(1) run] p0(1) run empty_data_ok
    by (intro exI [where x = sv] exI [where x = p0] exI [where x = ?q3]) simp
qed

end
