(* ===== verification/Spec2Isabelle.thy ===== *)
theory Spec2Isabelle
  imports Responses Channels Races Settled Overlap Loading Lifecycle
begin

text \<open>
  Verification of traffic-monitor, a service that collects the \<^verbatim>\<open>vnstat\<close> counters of remote machines over SSH, compares
  them with threshold rules, sends alerts through webhooks and Telegram, and is operated through an HTTP interface. All
  paths below are relative to \<^verbatim>\<open>src/internal\<close>.

  \<^bigskip>
  \<^bold>\<open>The program and its model.\<close> Handlers (\<^verbatim>\<open>handler/\<close>) read a request, call services (\<^verbatim>\<open>service/\<close>), which read and write
  rows through repositories (\<^verbatim>\<open>repo/\<close>). Two background schedulers call the collection and the cleanup service. The
  database, the remote machines, the receivers of notifications and all libraries are outside the repository. The model
  has the same layers, one definition per Go function, named after it: \<open>Type_Method\<close> for a method, the plain name for a
  function; a record per struct, with a prefix per struct for its fields.

  \<^item> \<open>Go_Base\<close> is the prelude: what the sources use of the Go standard library on byte strings, decimal numbers, 64-bit
    integers (with wrap-around), time and calendar. Parsers and printers are definitions that compute.
  \<^item> \<open>Model\<close>: the entities of \<^verbatim>\<open>model/\<close> and the data that crosses the program's border.
  \<^item> \<open>Runtime\<close>: errors (\<open>go_error\<close>: sentinels, foreign errors, \<^verbatim>\<open>%w\<close> wrapping, \<open>errors_Is\<close>), the environment \<open>env\<close>, the
    state \<open>world\<close> (tables, sequences, sent requests, run commands, the number of external calls), the monad of
    computations that may fail and keep what they already did, transactions that roll back, Hoare triples and \<open>keeps\<close>,
    the preservation of an invariant by every outcome of a computation.
  \<^item> \<open>Repo\<close>: every method of \<^verbatim>\<open>repo/\<close> as the SQL statement it sends, built from clauses on lists of rows: selection,
    ordering, paging, \<^verbatim>\<open>ON CONFLICT\<close>, unique indexes, identifiers and time stamps. The locale \<open>keyed_table\<close> is the contract
    of a table with a unique index; it is interpreted on each table that has one, and on the in-memory maps of other
    services that are keyed in the same way. \<open>Example\<close>: a concrete environment and database.
  \<^item> \<open>Threshold\<close>: \<^verbatim>\<open>service/threshold_service.go\<close>. \<open>Protector\<close>: \<^verbatim>\<open>bootstrap/crypto.go\<close> with Base64 (locale \<open>key_protector\<close>).
    \<open>Config\<close>: \<^verbatim>\<open>config/config.go\<close>. \<open>Loading\<close>: \<^verbatim>\<open>config/source.go\<close>, \<^verbatim>\<open>config/loader.go\<close>. \<open>Logging\<close>: \<^verbatim>\<open>config/logging.go\<close>, \<^verbatim>\<open>logger/\<close>
    and the access log. \<open>Wiring\<close>: the container of \<^verbatim>\<open>app/module.go\<close>, \<^verbatim>\<open>bootstrap/http.go\<close>, \<^verbatim>\<open>bootstrap/session.go\<close>.
    \<open>Lifecycle\<close>: the start and stop hooks with \<^verbatim>\<open>bootstrap/database.go\<close>, and the whole process as a step relation \<open>life\<close>: hooks,
    server, scheduler and cleanup beside each other; each of its runs is a run of \<open>serving\<close> (\<open>program_serves\<close>).
  \<^item> \<open>Notify\<close>, \<open>Channels\<close>, \<open>Alerting\<close>: the two halves of \<^verbatim>\<open>service/alert_service.go\<close>; the evaluation is proved against
    the locale \<open>rule_provider\<close>, which the threshold service interprets.
  \<^item> \<open>Collection\<close>, \<open>Pipeline\<close>: \<^verbatim>\<open>bootstrap/ssh_client.go\<close> and \<^verbatim>\<open>service/traffic_collection_service.go\<close>, against the locale
    \<open>sample_evaluator\<close>, which the alert service interprets; their composition.
  \<^item> \<open>Cleanup\<close>: \<^verbatim>\<open>service/history_cleanup_service.go\<close>, its two delete loops as interpretations of \<open>batch_delete\<close>.
    \<open>Scheduler\<close>: both schedulers as step relations over all interleavings of loop, workers and stop; the locale
    \<open>collect_runner\<close> is the contract of what the workers call.
  \<^item> \<open>Machines\<close>, \<open>Races\<close>: \<^verbatim>\<open>service/machine_service.go\<close>, \<^verbatim>\<open>service/ssh_key_service.go\<close>, one request at a time and overlapping.
  \<^item> \<open>Auth\<close>: \<^verbatim>\<open>service/auth_service.go\<close>, \<^verbatim>\<open>settings_service.go\<close>, \<^verbatim>\<open>health_service.go\<close>, their handlers, \<^verbatim>\<open>middleware/\<close>,
    \<^verbatim>\<open>bootstrap/admin_bootstrap.go\<close>, and restore mode, sequentially and as the step relation \<open>restore_step\<close> of concurrent
    requests.
  \<^item> \<open>Backup\<close>, \<open>Restore\<close>: \<^verbatim>\<open>service/backup_service.go\<close> and what an export followed by an import gives back.
  \<^item> \<open>Handlers\<close>, \<open>Routes\<close>: the other handlers, the routing table and \<open>serve\<close>, one request through middleware and handler
    with gin's recovery from a panic. \<open>Server\<close>, \<open>Responses\<close>, \<open>Footprint\<close>: what holds of every request. \<open>Reachable\<close>: the
    states reached by requests, collections, cleanups and restarts in any order (\<open>serving\<close>), with the contract of an
    invariant that concerns some tables only (locales \<open>table_property\<close> and \<open>state_invariant\<close>); \<open>Settled\<close> uses
    it for what becomes of an alert. \<open>Overlap\<close> cuts evaluations into single statements and messages (\<open>advance\<close>) and runs any
    number of them at the same time (\<open>overlap\<close>).

  \<^bigskip>
  \<^bold>\<open>What the theorems show.\<close>
  \<^item> The pipeline: a collection runs one quoted command and stores what it read; an evaluation creates exactly the missing
    alerts for the exceeded thresholds of completed periods, once; a dispatch records one delivery per channel and alert;
    notifications never bypass the proxy of their channel; the outcome of an alert is final; evaluations that overlap notify
    each channel of an alert once.
  \<^item> Rules: the effective rules of a machine refine the abstract choice, per dimension, of its own rule or the global one.
  \<^item> Stored data: unique keys, valid rules, complete machines with stored SSH keys, administrators with their own names, in
    every reachable state.
  \<^item> Access: without a session nothing is changed and only named data is read; restore mode allows one password reset;
    sessions end; every request is answered with a status of the interface and data of the type of its route, and writes
    only the tables of its component.
  \<^item> Loops and schedulers: termination of cleanup and of stopping, order of jobs, bounded attempts; batches delete the
    same rows as one statement.
  \<^item> Backups: export followed by import restores machines and keys; an import is all or nothing, only adds, validates first.
  \<^item> Errors: the outcome of each failing operation on the state.
  \<^item> Configuration: which source decides a setting, the master key in every coding, no secret in the report.
  \<^item> The process: nothing is at work before the tables and the administrator are there, or on a closed pool.
  Several theorems state a flaw of the program: a cleanup that does not end, a cookie that locks its owner out, a backup
  file that makes the import panic, duplicate dimensions that are reported as server errors, a key deleted while it is
  being given to a machine, an alert that is never sent because its dispatch was interrupted, a process that goes on without
  its server.

  \<^bigskip>
  \<^bold>\<open>Parameters and assumptions.\<close> \<open>env\<close> holds the code outside the repository: database failures, clock, rounding to float64,
  JSON, templates, URLs, HTTP, TCP and SSH, randomness, AES-GCM, PBKDF2, bcrypt, the order of rows that \<^verbatim>\<open>ORDER BY\<close> leaves
  open. Calls that may answer differently each time get the number of the call, so a theorem for all environments covers
  every sequence of answers and failures. Laws are named where they are needed: \<open>gcm_sound\<close> (opening undoes sealing),
  \<open>gcm_tagged\<close> (a sealed text has a tag of 16 bytes), \<open>bcrypt_sound\<close> (a hash matches its password), \<open>no_faults\<close> (the
  database does not fail during the operation); the examples instantiate them. Cookies are given to the middleware by a
  store that is a parameter. Map iteration order is a parameter of the import. The configuration library is a record of
  functions for which \<open>viper_documented\<close> states the documentation; \<open>fx_documented\<close> does so for the order in which fx runs hooks. The connection
  pool and the listener answer by the number of the call (\<open>platform\<close>).

  Loops over lists are recursive functions. The delete loop of the cleanup is a \<open>partial_function\<close>: not returning is the
  value \<open>None\<close>, and \<open>cleanup_terminates\<close> and \<open>cleanup_diverges\<close> say when it returns. No definition uses fuel.

  Requests in \<open>serving\<close> run one after the other. Interleavings are modelled where the program has shared state in
  memory or acts in several statements: the schedulers, the restore token, machine and key requests (\<open>Races\<close>),
  evaluations (\<open>Overlap\<close>), the parts of the process (\<open>Lifecycle\<close>).

  \<^bigskip>
  \<^bold>\<open>Not modelled.\<close> Contexts and timeouts, except as failures of the calls they interrupt; the log messages of single
  operations; how fx builds what it is given; what the options of gorm and of the pool do; the binding of request bodies by gin (a request
  comes with its bound body or without) and its matching of paths; the web interface.
\<close>

end
